(* ===== verification/Prelude.thy ===== *)
theory Prelude
  imports Main "HOL-Library.State_Monad"
begin

text \<open>
  Shared vocabulary of the development: truncated integer division, the state monad with errors as
  values in which database and provider calls are written, its Hoare triples, and generic list lemmas.

  Conventions. A Go function that returns \<open>(T, error)\<close> has the result type \<open>e + T\<close>, with \<open>Inl\<close> for
  the error and \<open>e\<close> the error datatype of its component. Error texts are not modelled; the
  constructor names the failing check. Log output is not modelled.
\<close>

section \<open>Collections used by the automation\<close>

named_theorems valid_intro \<open>Hoare rules, one per program construct and operation\<close>

section \<open>Integers\<close>

text \<open>Go's integer division truncates towards zero.\<close>

definition go_quot :: "int \<Rightarrow> int \<Rightarrow> int" where
  "go_quot a b = sgn a * sgn b * (\<bar>a\<bar> div \<bar>b\<bar>)"

lemma go_quot_nonneg: "0 \<le> a \<Longrightarrow> 0 < b \<Longrightarrow> go_quot a b = a div b"
  by (cases "a = 0") (simp_all add: go_quot_def)

lemma go_quot_nonpos: "a \<le> 0 \<Longrightarrow> 0 < b \<Longrightarrow> go_quot a b \<le> 0"
proof -
  assume "a \<le> 0" and "0 < b"
  moreover have "0 \<le> - a div b" using calculation by (simp add: pos_imp_zdiv_nonneg_iff)
  ultimately show ?thesis by (cases "a = 0") (simp_all add: go_quot_def)
qed

text \<open>Go's \<open>%\<close> takes the sign of the dividend.\<close>

definition go_rem :: "int \<Rightarrow> int \<Rightarrow> int" where
  "go_rem a b = a - go_quot a b * b"

lemma go_rem_nonneg: "0 \<le> a \<Longrightarrow> 0 < b \<Longrightarrow> go_rem a b = a mod b"
  by (simp add: go_rem_def go_quot_nonneg minus_div_mult_eq_mod)

lemma abs_go_rem_less:
  assumes "0 < b"
  shows "\<bar>go_rem a b\<bar> < b"
proof (cases "0 \<le> a")
  case True
  with assms show ?thesis by (simp add: go_rem_nonneg)
next
  case False
  with assms have "go_rem a b = - ((- a) mod b)"
    by (simp add: go_rem_def go_quot_def minus_div_mult_eq_mod [symmetric])
  with assms show ?thesis by simp
qed

lemma int_le_div_iff: "0 < (g::int) \<Longrightarrow> k \<le> x div g \<longleftrightarrow> k * g \<le> x"
proof
  assume g: "0 < g" and "k \<le> x div g"
  then have "k * g \<le> x div g * g" by simp
  also have "\<dots> \<le> x" using g by (simp add: minus_mod_eq_div_mult [symmetric])
  finally show "k * g \<le> x" .
next
  assume g: "0 < g" and "k * g \<le> x"
  then show "k \<le> x div g" using zdiv_mono1 [of "k * g" x g] by simp
qed

lemma int_div_less_iff: "0 < (g::int) \<Longrightarrow> x div g < k \<longleftrightarrow> x < k * g"
  using int_le_div_iff [of g k x] by auto

section \<open>Programs: the state monad with errors as values\<close>

text \<open>
  A program over a world \<open>'w\<close> is a value of \<open>('w, 'a) state\<close>. Calls that can fail return a sum
  which the caller inspects, as the Go code inspects \<open>err\<close>.
\<close>

definition gets :: "('w \<Rightarrow> 'a) \<Rightarrow> ('w, 'a) state" where
  "gets f = State (\<lambda>w. (f w, w))"

definition modify :: "('w \<Rightarrow> 'w) \<Rightarrow> ('w, unit) state" where
  "modify f = State (\<lambda>w. ((), f w))"

abbreviation ret :: "'a \<Rightarrow> ('w, 'a) state" where
  "ret \<equiv> State_Monad.return"

lemma run_gets [simp]: "run_state (gets f) w = (f w, w)"
  by (simp add: gets_def)

lemma run_modify [simp]: "run_state (modify f) w = ((), f w)"
  by (simp add: modify_def)

text \<open>\<open>orfail m f\<close>: run \<open>m\<close>, return its error, or go on with its value
  (\<open>if err != nil { return err }\<close>).\<close>

definition orfail :: "('w, 'e + 'a) state \<Rightarrow> ('a \<Rightarrow> ('w, 'e + 'b) state) \<Rightarrow> ('w, 'e + 'b) state" where
  "orfail m f = State_Monad.bind m (\<lambda>r. case r of Inl e \<Rightarrow> ret (Inl e) | Inr x \<Rightarrow> f x)"

text \<open>\<open>for_each xs f\<close>: a range loop whose body cannot leave the loop.\<close>

fun for_each :: "'a list \<Rightarrow> ('a \<Rightarrow> ('w, unit) state) \<Rightarrow> ('w, unit) state" where
  "for_each [] f = ret ()"
| "for_each (x # xs) f = State_Monad.bind (f x) (\<lambda>_. for_each xs f)"

section \<open>Hoare triples\<close>

text \<open>\<open>valid P m Q\<close>: from a world in \<open>P\<close>, running \<open>m\<close> ends with a result and world in \<open>Q\<close>. Every
  program is total, so the triple is total correctness.\<close>

definition valid :: "('w \<Rightarrow> bool) \<Rightarrow> ('w, 'a) state \<Rightarrow> ('a \<Rightarrow> 'w \<Rightarrow> bool) \<Rightarrow> bool" where
  "valid P m Q \<longleftrightarrow> (\<forall>w. P w \<longrightarrow> (case run_state m w of (r, w') \<Rightarrow> Q r w'))"

lemma validI: "(\<And>w r w'. P w \<Longrightarrow> run_state m w = (r, w') \<Longrightarrow> Q r w') \<Longrightarrow> valid P m Q"
  by (auto simp: valid_def split: prod.splits)

lemma validD: "valid P m Q \<Longrightarrow> P w \<Longrightarrow> run_state m w = (r, w') \<Longrightarrow> Q r w'"
  by (auto simp: valid_def)

lemma valid_weaken: "valid P m Q \<Longrightarrow> (\<And>w. P' w \<Longrightarrow> P w) \<Longrightarrow> (\<And>r w. Q r w \<Longrightarrow> Q' r w) \<Longrightarrow> valid P' m Q'"
  by (fastforce simp: valid_def split: prod.splits)

lemma valid_ret [valid_intro]: "(\<And>w. P w \<Longrightarrow> Q x w) \<Longrightarrow> valid P (ret x) Q"
  by (simp add: valid_def)

lemma valid_gets: "(\<And>w. P w \<Longrightarrow> Q (f w) w) \<Longrightarrow> valid P (gets f) Q"
  by (simp add: valid_def)

lemma valid_modify: "(\<And>w. P w \<Longrightarrow> Q () (f w)) \<Longrightarrow> valid P (modify f) Q"
  by (simp add: valid_def)

lemma valid_bind: "valid P m R \<Longrightarrow> (\<And>x. valid (R x) (f x) Q) \<Longrightarrow> valid P (State_Monad.bind m f) Q"
  by (fastforce simp: valid_def split: prod.splits)

section \<open>Preserved invariants\<close>

definition keeps :: "('w \<Rightarrow> bool) \<Rightarrow> ('w, 'a) state \<Rightarrow> bool" where
  "keeps I m \<longleftrightarrow> valid I m (\<lambda>_. I)"

lemma keepsI: "(\<And>w. I w \<Longrightarrow> I (snd (run_state m w))) \<Longrightarrow> keeps I m"
  by (auto simp: keeps_def valid_def split_beta)

lemma keepsD: "keeps I m \<Longrightarrow> I w \<Longrightarrow> I (snd (run_state m w))"
  by (simp add: keeps_def valid_def split_beta)

lemma keeps_ret [valid_intro]: "keeps I (ret x)"
  by (simp add: keeps_def valid_def)

lemma keeps_gets [valid_intro]: "keeps I (gets f)"
  by (simp add: keeps_def valid_def)

lemma keeps_bind [valid_intro]: "keeps I m \<Longrightarrow> (\<And>x. keeps I (f x)) \<Longrightarrow> keeps I (State_Monad.bind m f)"
  unfolding keeps_def by (rule valid_bind)

lemma keeps_if [valid_intro]: "(c \<Longrightarrow> keeps I m) \<Longrightarrow> (\<not> c \<Longrightarrow> keeps I n) \<Longrightarrow> keeps I (if c then m else n)"
  by simp

lemma keeps_case_sum [valid_intro]:
  "(\<And>e. keeps I (f e)) \<Longrightarrow> (\<And>x. keeps I (g x)) \<Longrightarrow> keeps I (case r of Inl e \<Rightarrow> f e | Inr x \<Rightarrow> g x)"
  by (cases r) simp_all

lemma keeps_case_option [valid_intro]:
  "keeps I m \<Longrightarrow> (\<And>x. keeps I (f x)) \<Longrightarrow> keeps I (case r of None \<Rightarrow> m | Some x \<Rightarrow> f x)"
  by (cases r) simp_all

lemma keeps_case_prod [valid_intro]:
  "(\<And>x y. keeps I (f x y)) \<Longrightarrow> keeps I (case p of (x, y) \<Rightarrow> f x y)"
  by (cases p) simp

lemma keeps_orfail [valid_intro]: "keeps I m \<Longrightarrow> (\<And>x. keeps I (f x)) \<Longrightarrow> keeps I (orfail m f)"
  unfolding orfail_def by (intro valid_intro)

lemma keeps_for_each [valid_intro]: "(\<And>x. keeps I (f x)) \<Longrightarrow> keeps I (for_each xs f)"
  by (induction xs) (auto intro!: valid_intro)

section \<open>Lists\<close>

lemma sorted_wrt_less_distinct: "sorted_wrt (<) xs \<Longrightarrow> distinct (xs :: int list)"
  by (induction xs) auto

lemma length_filter_map_update:
  "(\<And>x. x \<in> set xs \<Longrightarrow> p x \<Longrightarrow> q (f x)) \<Longrightarrow> length (filter p xs) \<le> length (filter q (map f xs))"
  by (induction xs) auto

lemma distinct_map_map:
  "(\<And>x. x \<in> set xs \<Longrightarrow> key (f x) = key x) \<Longrightarrow> distinct (map key xs) \<Longrightarrow> distinct (map key (map f xs))"
proof -
  assume "\<And>x. x \<in> set xs \<Longrightarrow> key (f x) = key x"
  then have "map key (map f xs) = map key xs" by simp
  then show "distinct (map key xs) \<Longrightarrow> distinct (map key (map f xs))" by (simp del: map_map)
qed

lemma sorted_le_last: "sorted_wrt (<) ys \<Longrightarrow> (x :: int) \<in> set ys \<Longrightarrow> x \<le> last ys"
  by (induction ys rule: rev_induct) (auto simp: sorted_wrt_append)

lemma sorted_take_prefix:
  fixes xs :: "int list"
  assumes "sorted_wrt (<) xs" "take n xs \<noteq> []"
  shows "set (take n xs) = {x \<in> set xs. x \<le> last (take n xs)}"
proof -
  have "sorted_wrt (<) (take n xs @ drop n xs)" using assms(1) by simp
  then have t: "sorted_wrt (<) (take n xs)" and d: "\<forall>x \<in> set (drop n xs). last (take n xs) < x"
    using assms(2) last_in_set unfolding sorted_wrt_append by blast+
  have "T = {x \<in> X. x \<le> l}" if "\<forall>x \<in> T. x \<le> l" "\<forall>x \<in> D. l < x" "X = T \<union> D" for T D X and l :: int
    using that by force
  moreover have "set xs = set (take n xs) \<union> set (drop n xs)"
    by (metis append_take_drop_id set_append)
  ultimately show ?thesis using sorted_le_last [OF t] d by blast
qed

lemma sorted_wrt_upto: "sorted_wrt (<) [i..j]"
  by (induction i j rule: upto.induct) (subst upto.simps, auto)

lemma sorted_wrt_take: "sorted_wrt P xs \<Longrightarrow> sorted_wrt P (take n xs)"
  by (metis append_take_drop_id sorted_wrt_append)

lemma map_enumerate_fst: "map (\<lambda>p. int (fst p) + c) (enumerate m xs) = [int m + c..int m + c + int (length xs) - 1]"
proof (induction xs arbitrary: m)
  case (Cons x xs)
  have "[int m + c..int m + c + int (length (x # xs)) - 1] = (int m + c) # [int (Suc m) + c..int (Suc m) + c + int (length xs) - 1]"
    by (simp add: upto_rec1 algebra_simps)
  then show ?case using Cons by simp
qed simp

lemma map_enumerate_snd: "map (\<lambda>p. f (snd p)) (enumerate m xs) = map f xs"
  by (induction xs arbitrary: m) simp_all

text \<open>Consecutive elements.\<close>

definition neighbours :: "'a list \<Rightarrow> ('a \<times> 'a) list" where
  "neighbours xs = zip xs (tl xs)"

lemma neighbours_simps [simp]: "neighbours [] = []" "neighbours [x] = []" "neighbours (x # y # ys) = (x, y) # neighbours (y # ys)"
  by (simp_all add: neighbours_def)

lemma neighbours_snoc: "xs \<noteq> [] \<Longrightarrow> neighbours (xs @ [x]) = neighbours xs @ [(last xs, x)]"
  by (induction xs rule: induct_list012) simp_all

end
