(* ===== verification/GoTime.thy ===== *)
theory GoTime
  imports Prelude
begin

text \<open>
  The part of Go's \<open>time\<close> package the modelled code uses. An instant is its number of nanoseconds since
  the Unix epoch, so \<open>Before\<close>, \<open>After\<close> and \<open>Equal\<close> are the order on integers and \<open>UTC()\<close> and
  \<open>In(loc)\<close>, which change only the location a value is printed in, are the identity. A location is
  what the time-zone database says about it: the offset before its first transition and the list of
  its transitions, each with the Unix second it happens at and the offset from then on.

  A calendar date is its day number, the days since 1970-01-01: \<open>Date()\<close> and \<open>time.Date\<close> translate
  between dates and day numbers one to one, and the modelled code never looks inside a date but for
  the day after and the day before.
\<close>

section \<open>Instants and durations\<close>

type_synonym gotime = int
type_synonym duration = int

abbreviation second :: duration where "second \<equiv> 1000000000"
abbreviation minute :: duration where "minute \<equiv> 60000000000"
abbreviation hour :: duration where "hour \<equiv> 3600000000000"

text \<open>The zero \<open>time.Time\<close> is January 1 of year 1.\<close>

definition zero_time :: gotime where
  "zero_time = -62135596800000000000"

definition is_zero :: "gotime \<Rightarrow> bool" where
  "is_zero t \<longleftrightarrow> t = zero_time"

text \<open>\<open>t.Sub(u)\<close> saturates at the bounds of an \<open>int64\<close> of nanoseconds.\<close>

definition max_duration :: duration where "max_duration = 9223372036854775807"
definition min_duration :: duration where "min_duration = -9223372036854775808"

definition time_sub :: "gotime \<Rightarrow> gotime \<Rightarrow> duration" where
  "time_sub t u = max min_duration (min max_duration (t - u))"

lemma time_sub_ge_iff: "d \<le> max_duration \<Longrightarrow> min_duration < d \<Longrightarrow> d \<le> time_sub t u \<longleftrightarrow> d \<le> t - u"
  by (auto simp: time_sub_def min_duration_def max_duration_def)

lemma time_sub_exact: "min_duration \<le> t - u \<Longrightarrow> t - u \<le> max_duration \<Longrightarrow> time_sub t u = t - u"
  by (simp add: time_sub_def)

text \<open>\<open>t.Unix()\<close> and the nanosecond part.\<close>

definition unix :: "gotime \<Rightarrow> int" where "unix t = t div second"
definition nsec :: "gotime \<Rightarrow> int" where "nsec t = t mod second"

section \<open>Locations\<close>

record location =
  first_offset :: int
  transitions :: "(int \<times> int) list"

definition utc :: location where
  "utc = \<lparr>first_offset = 0, transitions = []\<rparr>"

definition fixed_zone :: "int \<Rightarrow> location" where
  "fixed_zone off = \<lparr>first_offset = off, transitions = []\<rparr>"

text \<open>\<open>Location.lookup\<close>: the offset in force at a Unix second and the bounds of its validity, \<open>None\<close>
  for Go's \<open>alpha\<close> and \<open>omega\<close>.\<close>

fun zone_lookup :: "int \<Rightarrow> int option \<Rightarrow> (int \<times> int) list \<Rightarrow> int \<Rightarrow> int \<times> int option \<times> int option" where
  "zone_lookup off st [] sec = (off, st, None)"
| "zone_lookup off st ((w, off') # txs) sec =
     (if sec < w then (off, st, Some w) else zone_lookup off' (Some w) txs sec)"

definition lookup :: "location \<Rightarrow> int \<Rightarrow> int \<times> int option \<times> int option" where
  "lookup loc sec = zone_lookup (first_offset loc) None (transitions loc) sec"

definition offset_at :: "location \<Rightarrow> int \<Rightarrow> int" where
  "offset_at loc sec = fst (lookup loc sec)"

section \<open>Calendar\<close>

abbreviation day_seconds :: int where "day_seconds \<equiv> 86400"

definition local_seconds :: "location \<Rightarrow> gotime \<Rightarrow> int" where
  "local_seconds loc t = unix t + offset_at loc (unix t)"

text \<open>\<open>t.In(loc).Date()\<close>, the time of day in seconds, and \<open>t.In(loc).Weekday()\<close> (Sunday is 0).\<close>

definition local_day :: "location \<Rightarrow> gotime \<Rightarrow> int" where
  "local_day loc t = local_seconds loc t div day_seconds"

definition local_clock :: "location \<Rightarrow> gotime \<Rightarrow> int" where
  "local_clock loc t = local_seconds loc t mod day_seconds"

definition weekday_of_day :: "int \<Rightarrow> int" where
  "weekday_of_day d = (d + 4) mod 7"

definition weekday :: "location \<Rightarrow> gotime \<Rightarrow> int" where
  "weekday loc t = weekday_of_day (local_day loc t)"

text \<open>
  \<open>time.Date(y, mo, d, h, m, s, ns, loc)\<close> with \<open>d\<close> the day number and \<open>secs\<close> the time of day: the
  wall clock read as UTC gives a first guess at the offset; when the instant the guess leads to lies
  outside the guess's validity, the offset at that instant is used instead.
\<close>

definition date_unix :: "location \<Rightarrow> int \<Rightarrow> int \<Rightarrow> int" where
  "date_unix loc d secs =
     (let u = d * day_seconds + secs;
          (off, st, en) = lookup loc u;
          v = u - off
      in if off = 0 then u
         else if (case st of None \<Rightarrow> False | Some a \<Rightarrow> v < a) \<or> (case en of None \<Rightarrow> False | Some b \<Rightarrow> b \<le> v)
              then u - offset_at loc v
              else v)"

definition go_date :: "location \<Rightarrow> int \<Rightarrow> int \<Rightarrow> int \<Rightarrow> gotime" where
  "go_date loc d secs ns = date_unix loc d secs * second + ns"

text \<open>\<open>t.AddDate(0, 0, n)\<close> for \<open>t\<close> in \<open>loc\<close>: the same wall clock, \<open>n\<close> days later.\<close>

definition add_days :: "location \<Rightarrow> gotime \<Rightarrow> int \<Rightarrow> gotime" where
  "add_days loc t n = go_date loc (local_day loc t + n) (local_clock loc t) (nsec t)"

text \<open>\<open>t.Truncate(time.Hour)\<close> counts from the zero time, a whole number of hours before the epoch.\<close>

definition truncate_hour :: "gotime \<Rightarrow> gotime" where
  "truncate_hour t = (t div hour) * hour"

subsection \<open>Fixed offsets\<close>

lemma lookup_fixed [simp]: "lookup (fixed_zone off) sec = (off, None, None)"
  by (simp add: lookup_def fixed_zone_def)

lemma utc_fixed: "utc = fixed_zone 0"
  by (simp add: utc_def fixed_zone_def)

lemma offset_at_fixed [simp]: "offset_at (fixed_zone off) sec = off"
  by (simp add: offset_at_def)

lemma date_unix_fixed [simp]: "date_unix (fixed_zone off) d secs = d * day_seconds + secs - off"
  by (simp add: date_unix_def Let_def)

lemma unix_go_date: "0 \<le> ns \<Longrightarrow> ns < second \<Longrightarrow> unix (go_date loc d secs ns) = date_unix loc d secs"
  by (simp add: unix_def go_date_def)

lemma nsec_bounds: "0 \<le> nsec t \<and> nsec t < second"
  by (simp add: nsec_def)

lemma local_clock_bounds: "0 \<le> local_clock loc t \<and> local_clock loc t < day_seconds"
  by (simp add: local_clock_def)

lemma local_day_fixed: "local_day (fixed_zone off) t = (unix t + off) div day_seconds"
  by (simp add: local_day_def local_seconds_def)

section \<open>Regular calendars\<close>

text \<open>
  What a caller relies on when it walks local days: every wall-clock time of a day is an instant of
  that day, and days follow each other in time. Go does not promise it of every location: where
  clocks go forward at midnight, the midnight of that day is an instant of the day before.
\<close>

locale regular_calendar =
  fixes loc :: location
  assumes day_of_date: "0 \<le> secs \<Longrightarrow> secs < day_seconds \<Longrightarrow> 0 \<le> ns \<Longrightarrow> ns < second \<Longrightarrow>
      local_day loc (go_date loc d secs ns) = d"
    and day_mono: "t \<le> u \<Longrightarrow> local_day loc t \<le> local_day loc u"
begin

lemma date_strict_mono:
  assumes "d < e" "0 \<le> a" "a < day_seconds" "0 \<le> b" "b < day_seconds"
  shows "go_date loc d a 0 < go_date loc e b 0"
proof (rule ccontr)
  assume "\<not> ?thesis"
  then have "local_day loc (go_date loc e b 0) \<le> local_day loc (go_date loc d a 0)"
    by (intro day_mono) simp
  with assms show False by (simp add: day_of_date)
qed

lemma before_next_day:
  assumes "local_day loc t < d" "0 \<le> a" "a < day_seconds"
  shows "t < go_date loc d a 0"
proof (rule ccontr)
  assume "\<not> ?thesis"
  then have "local_day loc (go_date loc d a 0) \<le> local_day loc t" by (intro day_mono) simp
  with assms show False by (simp add: day_of_date)
qed

lemma after_earlier_day:
  assumes "d < local_day loc t" "0 \<le> a" "a < day_seconds"
  shows "go_date loc d a 0 < t"
proof (rule ccontr)
  assume "\<not> ?thesis"
  then have "local_day loc t \<le> local_day loc (go_date loc d a 0)" by (intro day_mono) simp
  with assms show False by (simp add: day_of_date)
qed

lemma day_add_days: "local_day loc (add_days loc t n) = local_day loc t + n"
  using local_clock_bounds [of loc t] nsec_bounds [of t]
  by (simp add: add_days_def day_of_date)

lemma weekday_date:
  "0 \<le> secs \<Longrightarrow> secs < day_seconds \<Longrightarrow> weekday loc (go_date loc d secs 0) = weekday_of_day d"
  by (simp add: weekday_def day_of_date)

end

text \<open>A regular calendar in which, within a day, a later wall-clock time is not an earlier instant.\<close>

locale monotone_calendar = regular_calendar +
  assumes clock_mono: "0 \<le> a \<Longrightarrow> a \<le> b \<Longrightarrow> b < day_seconds \<Longrightarrow> go_date loc d a 0 \<le> go_date loc d b 0"

lemma regular_fixed_day:
  assumes "0 \<le> secs" "secs < day_seconds" "0 \<le> ns" "ns < second"
  shows "local_day (fixed_zone off) (go_date (fixed_zone off) d secs ns) = d"
proof -
  have "unix (go_date (fixed_zone off) d secs ns) + off = d * day_seconds + secs"
    using assms by (simp add: unix_go_date)
  then show ?thesis using assms by (simp add: local_day_fixed)
qed

interpretation fixed_cal: monotone_calendar "fixed_zone off" for off
proof unfold_locales
  fix t u :: gotime
  assume "t \<le> u"
  then show "local_day (fixed_zone off) t \<le> local_day (fixed_zone off) u"
    by (simp add: local_day_fixed unix_def zdiv_mono1)
next
  fix a b d :: int
  assume "a \<le> b"
  then show "go_date (fixed_zone off) d a 0 \<le> go_date (fixed_zone off) d b 0"
    by (simp add: go_date_def)
qed (rule regular_fixed_day)

interpretation utc_cal: monotone_calendar utc
  unfolding utc_fixed by (rule fixed_cal.monotone_calendar_axioms)

text \<open>New York in 2026: clocks go forward at 02:00 on March 8 and back at 02:00 on November 1.\<close>

definition new_york_2026 :: location where
  "new_york_2026 = \<lparr>first_offset = -18000, transitions = [(1772953200, -14400), (1793512800, -18000)]\<rparr>"

text \<open>Santiago in 2026: clocks go forward at 00:00 on September 6.\<close>

definition santiago_2026 :: location where
  "santiago_2026 = \<lparr>first_offset = -14400, transitions = [(1788667200, -10800)]\<rparr>"

lemma offset_at_new_york:
  "offset_at new_york_2026 s = (if s < 1772953200 then -18000 else if s < 1793512800 then -14400 else -18000)"
  by (simp add: offset_at_def lookup_def new_york_2026_def)

lemma date_unix_new_york:
  "date_unix new_york_2026 d s =
     (let u = d * day_seconds + s in
      if u < 1772953200 then (if 1772953200 \<le> u + 18000 then u + 14400 else u + 18000)
      else if u < 1793512800 then (if u + 14400 < 1772953200 then u + 18000 else if 1793512800 \<le> u + 14400 then u + 18000 else u + 14400)
      else u + 18000)"
  by (simp add: date_unix_def lookup_def new_york_2026_def offset_at_def Let_def)

lemma day_divI: "d * day_seconds \<le> x \<Longrightarrow> x < d * day_seconds + day_seconds \<Longrightarrow> x div day_seconds = d"
  by arith

lemma new_york_wall:
  fixes d s :: int
  assumes "0 \<le> s" "s < day_seconds"
  defines "u \<equiv> date_unix new_york_2026 d s"
  defines "l \<equiv> u + offset_at new_york_2026 u"
  shows "d * day_seconds \<le> l \<and> l < d * day_seconds + day_seconds"
proof (cases "1772935200 \<le> d * day_seconds + s \<and> d * day_seconds + s < 1772938800")
  case True
  with assms(1,2) have "d = 20520" by arith
  with True assms(1,2) show ?thesis
    unfolding l_def u_def date_unix_new_york offset_at_new_york Let_def by (simp split: if_splits)
next
  case False
  then have "l = d * day_seconds + s"
    unfolding l_def u_def date_unix_new_york offset_at_new_york Let_def by (simp split: if_splits)
  with assms(1,2) show ?thesis by simp
qed

lemma new_york_fall_back:
  assumes "a < 1793512800" "1793512800 \<le> b"
  shows "(a - 14400) div day_seconds \<le> (b - 18000) div day_seconds"
proof -
  have "(a - 14400) div day_seconds \<le> 1793498399 div day_seconds" using assms by (intro zdiv_mono1) auto
  also have "\<dots> = 1793494800 div day_seconds" by simp
  also have "\<dots> \<le> (b - 18000) div day_seconds" using assms by (intro zdiv_mono1) auto
  finally show ?thesis .
qed

interpretation new_york_cal: regular_calendar new_york_2026
proof unfold_locales
  fix secs ns d :: int
  assume "0 \<le> secs" "secs < day_seconds" "0 \<le> ns" "ns < second"
  then show "local_day new_york_2026 (go_date new_york_2026 d secs ns) = d"
    using new_york_wall [of secs d] by (simp add: local_day_def local_seconds_def unix_go_date day_divI)
next
  fix t u :: gotime
  assume "t \<le> u"
  then have "unix t \<le> unix u" by (simp add: unix_def zdiv_mono1)
  then show "local_day new_york_2026 t \<le> local_day new_york_2026 u"
    using new_york_fall_back [of "unix t" "unix u"]
    by (simp add: local_day_def local_seconds_def offset_at_new_york zdiv_mono1)
qed

section \<open>Clocks that go forward at midnight\<close>

text \<open>
  West of UTC, the clocks go forward by \<open>by\<close> seconds, from the offset \<open>off\<close>, at the instant at which day \<open>d\<close> would begin, and
  they are not changed again in the three days before it and the day after it.
\<close>

definition forward_at_midnight :: "location \<Rightarrow> int \<Rightarrow> int \<Rightarrow> int \<Rightarrow> bool" where
  "forward_at_midnight loc d off by \<longleftrightarrow> 0 < by \<and> 2 * by \<le> day_seconds \<and> off + by \<le> 0 \<and> by - off \<le> day_seconds \<and>
     (let t = d * day_seconds - off in
      (\<exists>a. (\<forall>s. t - 3 * day_seconds \<le> s \<and> s < t \<longrightarrow> lookup loc s = (off, a, Some t)) \<and> (case a of None \<Rightarrow> True | Some x \<Rightarrow> x \<le> t - 3 * day_seconds)) \<and>
      (\<exists>b. (\<forall>s. t \<le> s \<and> s \<le> t + day_seconds \<longrightarrow> lookup loc s = (off + by, Some t, b)) \<and> (case b of None \<Rightarrow> True | Some x \<Rightarrow> t + day_seconds < x)))"

lemma before_forward:
  assumes "forward_at_midnight loc d off by" "d * day_seconds - off - 3 * day_seconds \<le> s" "s < d * day_seconds - off"
  obtains a where "lookup loc s = (off, a, Some (d * day_seconds - off))" "case a of None \<Rightarrow> True | Some x \<Rightarrow> x \<le> d * day_seconds - off - 3 * day_seconds"
  using assms unfolding forward_at_midnight_def Let_def by blast

lemma after_forward:
  assumes "forward_at_midnight loc d off by" "d * day_seconds - off \<le> s" "s \<le> d * day_seconds - off + day_seconds"
  obtains b where "lookup loc s = (off + by, Some (d * day_seconds - off), b)" "case b of None \<Rightarrow> True | Some x \<Rightarrow> d * day_seconds - off + day_seconds < x"
  using assms unfolding forward_at_midnight_def Let_def by blast

lemma forward_bounds: "forward_at_midnight loc d off by \<Longrightarrow> 0 < by \<and> 2 * by \<le> day_seconds \<and> off + by \<le> 0 \<and> by - off \<le> day_seconds"
  by (simp add: forward_at_midnight_def)

text \<open>The midnight is taken for the same time of the day before, \<open>by\<close> seconds early.\<close>

lemma forward_midnight:
  assumes "forward_at_midnight loc d off by"
  shows "date_unix loc d 0 = d * day_seconds - off - by" "local_seconds loc (go_date loc d 0 0) = d * day_seconds - by"
proof -
  note bounds = forward_bounds [OF assms]
  obtain a where a: "lookup loc (d * day_seconds) = (off, a, Some (d * day_seconds - off))" "case a of None \<Rightarrow> True | Some x \<Rightarrow> x \<le> d * day_seconds - off - 3 * day_seconds"
    by (rule before_forward [OF assms, of "d * day_seconds"]) (use bounds in simp_all)
  obtain b where b: "lookup loc (d * day_seconds - off) = (off + by, Some (d * day_seconds - off), b)"
    by (rule after_forward [OF assms, of "d * day_seconds - off"]) simp_all
  show date: "date_unix loc d 0 = d * day_seconds - off - by" using bounds a b by (simp add: date_unix_def offset_at_def)
  obtain a' where "lookup loc (d * day_seconds - off - by) = (off, a', Some (d * day_seconds - off))"
    by (rule before_forward [OF assms, of "d * day_seconds - off - by"]) (use bounds in simp_all)
  then show "local_seconds loc (go_date loc d 0 0) = d * day_seconds - by"
    using date by (simp add: local_seconds_def unix_go_date offset_at_def)
qed

lemma forward_local:
  assumes "forward_at_midnight loc d off by"
  shows "local_day loc (go_date loc d 0 0) = d - 1" "local_clock loc (go_date loc d 0 0) = day_seconds - by" "nsec (go_date loc d 0 0) = 0"
proof -
  have day: "(d * day_seconds - by) div day_seconds = d - 1" using forward_bounds [OF assms] by (intro day_divI) (simp_all add: algebra_simps)
  then show "local_day loc (go_date loc d 0 0) = d - 1" unfolding local_day_def forward_midnight(2) [OF assms] .
  show "local_clock loc (go_date loc d 0 0) = day_seconds - by"
    unfolding local_clock_def forward_midnight(2) [OF assms] minus_div_mult_eq_mod [symmetric] day by (simp add: algebra_simps)
  show "nsec (go_date loc d 0 0) = 0" by (simp add: go_date_def nsec_def)
qed

text \<open>A day later it is that time of day on the day itself, a day earlier on the day two days before.\<close>

lemma forward_next:
  assumes "forward_at_midnight loc d off by"
  shows "add_days loc (go_date loc d 0 0) 1 = (d * day_seconds + day_seconds - off - 2 * by) * second" "local_day loc (add_days loc (go_date loc d 0 0) 1) = d"
proof -
  note bounds = forward_bounds [OF assms]
  obtain b where b: "lookup loc (d * day_seconds + (day_seconds - by)) = (off + by, Some (d * day_seconds - off), b)" "case b of None \<Rightarrow> True | Some x \<Rightarrow> d * day_seconds - off + day_seconds < x"
    by (rule after_forward [OF assms, of "d * day_seconds + (day_seconds - by)"]) (use bounds in simp_all)
  obtain c where c: "lookup loc (d * day_seconds + day_seconds - off - 2 * by) = (off + by, Some (d * day_seconds - off), c)"
    by (rule after_forward [OF assms, of "d * day_seconds + day_seconds - off - 2 * by"]) (use bounds in simp_all)
  have date: "date_unix loc d (day_seconds - by) = d * day_seconds + day_seconds - off - 2 * by"
    using bounds b by (auto simp: date_unix_def offset_at_def Let_def split: option.splits)
  then show step: "add_days loc (go_date loc d 0 0) 1 = (d * day_seconds + day_seconds - off - 2 * by) * second"
    unfolding add_days_def forward_local [OF assms] by (simp add: go_date_def)
  show "local_day loc (add_days loc (go_date loc d 0 0) 1) = d"
    unfolding local_day_def local_seconds_def step using bounds c by (simp add: unix_def offset_at_def day_divI mult.commute)
qed

lemma forward_previous:
  assumes "forward_at_midnight loc d off by"
  shows "local_day loc (add_days loc (go_date loc d 0 0) (- 1)) = d - 2"
proof -
  note bounds = forward_bounds [OF assms]
  have day: "d - 1 + - 1 = d - 2" by simp
  obtain a where a: "lookup loc ((d - 2) * day_seconds + (day_seconds - by)) = (off, a, Some (d * day_seconds - off))" "case a of None \<Rightarrow> True | Some x \<Rightarrow> x \<le> d * day_seconds - off - 3 * day_seconds"
    by (rule before_forward [OF assms, of "(d - 2) * day_seconds + (day_seconds - by)"]) (use bounds in simp_all)
  obtain c where c: "lookup loc ((d - 2) * day_seconds + (day_seconds - by) - off) = (off, c, Some (d * day_seconds - off))"
    by (rule before_forward [OF assms, of "(d - 2) * day_seconds + (day_seconds - by) - off"]) (use bounds in simp_all)
  have date: "date_unix loc (d - 2) (day_seconds - by) = (d - 2) * day_seconds + (day_seconds - by) - off"
    using bounds a by (auto simp: date_unix_def offset_at_def Let_def split: option.splits)
  then have "unix (add_days loc (go_date loc d 0 0) (- 1)) = (d - 2) * day_seconds + (day_seconds - by) - off"
    unfolding add_days_def forward_local [OF assms] day by (simp add: unix_go_date)
  then have "local_seconds loc (add_days loc (go_date loc d 0 0) (- 1)) = (d - 2) * day_seconds + (day_seconds - by)"
    using c by (simp add: local_seconds_def offset_at_def)
  then show ?thesis unfolding local_day_def using bounds by (simp add: day_divI)
qed

lemma date_unix_offset: "\<exists>s. date_unix loc d secs = d * day_seconds + secs - offset_at loc s"
  unfolding date_unix_def Let_def by (auto simp: offset_at_def split: prod.splits) (metis fst_conv diff_0_right)+


text \<open>That instant a day later is no day's midnight.\<close>

lemma forward_not_midnight:
  assumes "forward_at_midnight loc d off by" "\<And>s. \<bar>offset_at loc s - (off + by)\<bar> < day_seconds - by"
  shows "date_unix loc e 0 \<noteq> d * day_seconds + day_seconds - off - 2 * by"
proof
  assume same: "date_unix loc e 0 = d * day_seconds + day_seconds - off - 2 * by"
  note bounds = forward_bounds [OF assms(1)]
  obtain s where "date_unix loc e 0 = e * day_seconds - offset_at loc s" using date_unix_offset [of loc e 0] by auto
  then have "\<bar>(e - (d + 1)) * day_seconds + by\<bar> < day_seconds - by" using same assms(2) [of s] bounds by (simp add: algebra_simps)
  then have "(e - (d + 1)) * day_seconds + by < day_seconds - by" "- (day_seconds - by) < (e - (d + 1)) * day_seconds + by" by linarith+
  then have "d < e" "e < d + 2" using bounds by (simp_all add: algebra_simps)
  then have e: "e = d + 1" by simp
  obtain b where b: "lookup loc (d * day_seconds + day_seconds) = (off + by, Some (d * day_seconds - off), b)" "case b of None \<Rightarrow> True | Some x \<Rightarrow> d * day_seconds - off + day_seconds < x"
    by (rule after_forward [OF assms(1), of "d * day_seconds + day_seconds"]) (use bounds in simp_all)
  have "date_unix loc e 0 = d * day_seconds + day_seconds - off - by"
    using bounds b unfolding e by (auto simp: date_unix_def offset_at_def Let_def algebra_simps split: option.splits)
  then show False using same bounds by simp
qed

lemma offset_at_santiago: "offset_at santiago_2026 s = (if s < 1788667200 then -14400 else -10800)"
  by (simp add: offset_at_def lookup_def santiago_2026_def)

lemma forward_santiago: "forward_at_midnight santiago_2026 20702 (- 14400) 3600"
  unfolding forward_at_midnight_def Let_def by (auto simp: lookup_def santiago_2026_def)

end
