(* ===== verification/GoStrings.thy ===== *)
theory GoStrings
  imports Prelude
begin

text \<open>
  The part of Go's \<open>strings\<close>, \<open>strconv\<close> and \<open>fmt\<close> the modelled code uses, on ASCII strings:
  trimming, prefixes and fields, decimal formatting, and \<open>Sscanf\<close> with the verb \<open>%d\<close>.
\<close>

section \<open>Trimming and splitting\<close>

definition is_space :: "char \<Rightarrow> bool" where
  "is_space c \<longleftrightarrow> c \<in> {CHR 0x20, CHR 0x09, CHR 0x0A, CHR 0x0B, CHR 0x0C, CHR 0x0D}"

definition TrimSpace :: "string \<Rightarrow> string" where
  "TrimSpace s = rev (dropWhile is_space (rev (dropWhile is_space s)))"

fun HasPrefix :: "string \<Rightarrow> string \<Rightarrow> bool" where
  "HasPrefix s [] = True"
| "HasPrefix [] (p # ps) = False"
| "HasPrefix (c # s) (p # ps) = (c = p \<and> HasPrefix s ps)"

text \<open>\<open>fields_from w s\<close>: the fields of \<open>s\<close> when \<open>w\<close> is the field being read.\<close>

fun fields_from :: "string \<Rightarrow> string \<Rightarrow> string list" where
  "fields_from w [] = (if w = [] then [] else [w])"
| "fields_from w (c # s) =
     (if is_space c then (if w = [] then fields_from [] s else w # fields_from [] s)
      else fields_from (w @ [c]) s)"

definition Fields :: "string \<Rightarrow> string list" where
  "Fields s = fields_from [] s"

lemma HasPrefix_iff: "HasPrefix s p \<longleftrightarrow> (\<exists>t. s = p @ t)"
  by (induction s p rule: HasPrefix.induct) auto

section \<open>Decimal numbers\<close>

definition digit_char :: "nat \<Rightarrow> char" where
  "digit_char n = char_of (48 + n)"

definition is_digit :: "char \<Rightarrow> bool" where
  "is_digit c \<longleftrightarrow> 48 \<le> (of_char c :: nat) \<and> (of_char c :: nat) \<le> 57"

definition digit_value :: "char \<Rightarrow> int" where
  "digit_value c = int (of_char c :: nat) - 48"

fun decimal :: "nat \<Rightarrow> string" where
  "decimal n = (if n < 10 then [digit_char n] else decimal (n div 10) @ [digit_char (n mod 10)])"

declare decimal.simps [simp del]

text \<open>\<open>strconv.Itoa\<close>.\<close>

definition Itoa :: "int \<Rightarrow> string" where
  "Itoa i = (if i < 0 then CHR ''-'' # decimal (nat (- i)) else decimal (nat i))"

definition read_digits :: "string \<Rightarrow> int" where
  "read_digits s = foldl (\<lambda>a c. a * 10 + digit_value c) 0 s"

lemma digit_char_code: "n < 10 \<Longrightarrow> (of_char (digit_char n) :: nat) = 48 + n"
  by (simp add: digit_char_def of_char_of)

lemma is_digit_char [simp]: "n < 10 \<Longrightarrow> is_digit (digit_char n)"
  by (simp add: is_digit_def digit_char_code)

lemma digit_value_char [simp]: "n < 10 \<Longrightarrow> digit_value (digit_char n) = int n"
  unfolding digit_value_def by (subst digit_char_code) simp_all

lemma decimal_digits: "\<forall>c \<in> set (decimal n). is_digit c"
  by (induction n rule: decimal.induct) (subst decimal.simps, auto)

lemma read_decimal: "read_digits (decimal n) = int n"
proof (induction n rule: decimal.induct)
  case (1 n)
  show ?case
  proof (cases "n < 10")
    case True
    then show ?thesis by (subst decimal.simps) (simp add: read_digits_def)
  next
    case False
    then have "read_digits (decimal n) = read_digits (decimal (n div 10)) * 10 + int (n mod 10)"
      by (subst decimal.simps) (simp add: read_digits_def)
    also have "\<dots> = int n" using 1 False by (simp add: zdiv_int zmod_int)
    finally show ?thesis .
  qed
qed

lemma decimal_inj: "decimal m = decimal n \<Longrightarrow> m = n"
  by (metis read_decimal of_nat_eq_iff)

section \<open>Scanning\<close>

text \<open>
  \<open>SkipSpace\<close> of \<open>Sscanf\<close>: blanks are skipped, a newline is an error (\<open>None\<close>).
\<close>

fun skip_space :: "string \<Rightarrow> string option" where
  "skip_space [] = Some []"
| "skip_space (c # s) =
     (if c = CHR 0x0A then None else if is_space c then skip_space s else Some (c # s))"

definition max_int64 :: int where "max_int64 = 9223372036854775807"
definition min_int64 :: int where "min_int64 = -9223372036854775808"

text \<open>\<open>%d\<close> into an \<open>int\<close>: blanks, an optional sign, at least one digit, and the value must fit; the rest
  of the input is left.\<close>

definition scan_sign :: "string \<Rightarrow> bool \<times> string" where
  "scan_sign s = (case s of [] \<Rightarrow> (False, []) | c # r \<Rightarrow>
     if c = CHR ''-'' then (True, r) else if c = CHR ''+'' then (False, r) else (False, s))"

definition scan_int :: "string \<Rightarrow> (int \<times> string) option" where
  "scan_int s = (case skip_space s of None \<Rightarrow> None | Some s1 \<Rightarrow>
     (let (neg, s2) = scan_sign s1;
          ds = takeWhile is_digit s2;
          v = (if neg then - read_digits ds else read_digits ds)
      in if ds = [] \<or> v < min_int64 \<or> max_int64 < v then None else Some (v, dropWhile is_digit s2)))"

definition scan_colon :: "string \<Rightarrow> string option" where
  "scan_colon s = (case s of [] \<Rightarrow> None | c # r \<Rightarrow> if c = CHR '':'' then Some r else None)"

text \<open>\<open>Sscanf(s, "%d:%d", ...)\<close> and \<open>Sscanf(s, "%d:%d:%d", ...)\<close>, \<open>None\<close> for an error. Input after the
  last verb is ignored.\<close>

definition sscanf_2 :: "string \<Rightarrow> (int \<times> int \<times> string) option" where
  "sscanf_2 s = (case scan_int s of None \<Rightarrow> None | Some (a, s1) \<Rightarrow>
     (case scan_colon s1 of None \<Rightarrow> None | Some s2 \<Rightarrow>
     (case scan_int s2 of None \<Rightarrow> None | Some (b, s3) \<Rightarrow> Some (a, b, s3))))"

definition sscanf_3 :: "string \<Rightarrow> (int \<times> int \<times> int) option" where
  "sscanf_3 s = (case sscanf_2 s of None \<Rightarrow> None | Some (a, b, s3) \<Rightarrow>
     (case scan_colon s3 of None \<Rightarrow> None | Some s4 \<Rightarrow>
     (case scan_int s4 of None \<Rightarrow> None | Some (c, s5) \<Rightarrow> Some (a, b, c))))"

lemma digit_not_space: "is_digit c \<Longrightarrow> \<not> is_space c"
  by (auto simp: is_digit_def is_space_def)

lemma digit_not_sign: "is_digit c \<Longrightarrow> c \<noteq> CHR ''-'' \<and> c \<noteq> CHR ''+'' \<and> c \<noteq> CHR '':'' \<and> c \<noteq> CHR 0x0A"
  by (auto simp: is_digit_def)

lemma scan_int_digits:
  assumes "ds \<noteq> []" "\<forall>c \<in> set ds. is_digit c" "read_digits ds \<le> max_int64" "0 \<le> read_digits ds"
    and "r = [] \<or> \<not> is_digit (hd r)"
  shows "scan_int (ds @ r) = Some (read_digits ds, r)"
proof -
  obtain c cs where ds: "ds = c # cs" using assms(1) by (cases ds) auto
  have c: "is_digit c" using assms(2) ds by simp
  have "skip_space (ds @ r) = Some (ds @ r)"
    using digit_not_space [OF c] digit_not_sign [OF c] by (simp add: ds)
  moreover have "scan_sign (ds @ r) = (False, ds @ r)"
    using digit_not_sign [OF c] by (simp add: scan_sign_def ds)
  moreover have "takeWhile is_digit (ds @ r) = ds \<and> dropWhile is_digit (ds @ r) = r"
    using assms(2,5) by (cases r) (auto simp: takeWhile_append dropWhile_append)
  ultimately show ?thesis using assms(1,3,4) by (simp add: scan_int_def min_int64_def)
qed

end
