(* ===== verification/Windows.thy ===== *)
theory Windows
  imports GoTime GoStrings "HOL-Library.Word"
begin

unbundle bit_operations_syntax

text \<open>
  Daily recording windows: \<open>recsched/continuous.go\<close> and \<open>LoadLocation\<close> of \<open>recsched/cron.go\<close>. The
  time-zone database is the parameter \<open>tzdb\<close>. A \<open>(year, month, day)\<close> triple of the code is a day
  number here.
\<close>

section \<open>Weekday sets\<close>

datatype window_error =
    BadWeekday | NoWeekdays | BadLimit | TooFewWindows | BadTimeOfDay | TimeOutOfRange
  | BadSegmentLength | BadTimezone

type_synonym WeekdaySet = "8 word"

definition AllWeekdays :: WeekdaySet where "AllWeekdays = 0x7f"

fun weekday_bits :: "int list \<Rightarrow> WeekdaySet \<Rightarrow> window_error + WeekdaySet" where
  "weekday_bits [] s = Inr s"
| "weekday_bits (day # days) s =
     (if day < 1 \<or> day > 7 then Inl BadWeekday
      else weekday_bits days (s OR push_bit (nat (day - 1)) 1))"

definition NewWeekdaySet :: "int list \<Rightarrow> window_error + WeekdaySet" where
  "NewWeekdaySet days = (case weekday_bits days 0 of
     Inl e \<Rightarrow> Inl e | Inr s \<Rightarrow> if s = 0 then Inl NoWeekdays else Inr s)"

definition Contains :: "WeekdaySet \<Rightarrow> int \<Rightarrow> bool" where
  "Contains s day = (let iso = (if day = 0 then 7 else day) in s AND push_bit (nat (iso - 1)) 1 \<noteq> 0)"

section \<open>Times of day\<close>

record TimeOfDay =
  Hour :: int
  Minute :: int
  Second :: int

definition ParseTimeOfDay :: "string \<Rightarrow> window_error + TimeOfDay" where
  "ParseTimeOfDay s =
     (case (case sscanf_3 s of Some hms \<Rightarrow> Some hms
            | None \<Rightarrow> (case sscanf_2 s of None \<Rightarrow> None | Some (h, m, r) \<Rightarrow> Some (h, m, 0))) of
        None \<Rightarrow> Inl BadTimeOfDay
      | Some (h, m, sec) \<Rightarrow>
          if h < 0 \<or> h > 23 \<or> m < 0 \<or> m > 59 \<or> sec < 0 \<or> sec > 59 then Inl TimeOutOfRange
          else Inr \<lparr>Hour = h, Minute = m, Second = sec\<rparr>)"

definition secondsOfDay :: "TimeOfDay \<Rightarrow> int" where
  "secondsOfDay t = Hour t * 3600 + Minute t * 60 + Second t"

definition IsOvernightWindow :: "TimeOfDay \<Rightarrow> TimeOfDay \<Rightarrow> bool" where
  "IsOvernightWindow start stop \<longleftrightarrow> secondsOfDay stop \<le> secondsOfDay start"

definition onDay :: "TimeOfDay \<Rightarrow> int \<Rightarrow> location \<Rightarrow> gotime" where
  "onDay t d loc = go_date loc d (secondsOfDay t) 0"

definition ValidateContinuousWindowForCreate :: "TimeOfDay \<Rightarrow> TimeOfDay \<Rightarrow> int \<Rightarrow> window_error + unit" where
  "ValidateContinuousWindowForCreate start stop clipDurationSec =
     (if clipDurationSec < 5 \<or> clipDurationSec > 900 then Inl BadSegmentLength else Inr ())"

definition LoadLocation :: "(string \<Rightarrow> location option) \<Rightarrow> string \<Rightarrow> window_error + location" where
  "LoadLocation tzdb tz =
     (let name = TrimSpace tz
      in if name = [] then Inr utc
         else (case tzdb name of None \<Rightarrow> Inl BadTimezone | Some loc \<Rightarrow> Inr loc))"

section \<open>Local days\<close>

definition nextLocalDate :: "int \<Rightarrow> location \<Rightarrow> int" where
  "nextLocalDate d loc = local_day loc (add_days loc (go_date loc d 0 0) 1)"

definition prevLocalDate :: "int \<Rightarrow> location \<Rightarrow> int" where
  "prevLocalDate d loc = local_day loc (add_days loc (go_date loc d 0 0) (- 1))"

section \<open>The window open now\<close>

definition clampToEnvelope :: "gotime \<Rightarrow> gotime \<Rightarrow> gotime \<Rightarrow> gotime \<Rightarrow> gotime \<Rightarrow> bool \<times> gotime \<times> gotime" where
  "clampToEnvelope openUTC closeUTC envStart envEnd now =
     (if now < envStart then (False, zero_time, zero_time)
      else if \<not> is_zero envEnd \<and> \<not> now < envEnd then (False, zero_time, zero_time)
      else (True, openUTC, closeUTC))"

definition currentOpenContinuousWindowOn ::
    "(string \<Rightarrow> location option) \<Rightarrow> string \<Rightarrow> TimeOfDay \<Rightarrow> TimeOfDay \<Rightarrow> WeekdaySet \<Rightarrow> gotime \<Rightarrow> gotime \<Rightarrow> gotime \<Rightarrow>
     window_error + (bool \<times> gotime \<times> gotime)" where
  "currentOpenContinuousWindowOn tzdb tz start stop weekdays envStart envEnd now =
     (case LoadLocation tzdb tz of Inl e \<Rightarrow> Inl e | Inr loc \<Rightarrow>
      let d = local_day loc now in
      if \<not> IsOvernightWindow start stop then
        (let openUTC = onDay start d loc; closeUTC = onDay stop d loc in
         if Contains weekdays (weekday loc now) \<and> \<not> now < openUTC \<and> now < closeUTC
         then Inr (clampToEnvelope openUTC closeUTC envStart envEnd now)
         else Inr (False, zero_time, zero_time))
      else
        (let openToday = onDay start d loc in
         if \<not> now < openToday then
           (let nd = nextLocalDate d loc; closeUTC = onDay stop nd loc in
            if Contains weekdays (weekday loc now)
            then Inr (clampToEnvelope openToday closeUTC envStart envEnd now)
            else Inr (False, zero_time, zero_time))
         else
           (let closeToday = onDay stop d loc in
            if now < closeToday then
              (let pd = prevLocalDate d loc; openYesterday = onDay start pd loc in
               if Contains weekdays (weekday loc openYesterday)
               then Inr (clampToEnvelope openYesterday closeToday envStart envEnd now)
               else Inr (False, zero_time, zero_time))
            else Inr (False, zero_time, zero_time))))"

definition currentOpenContinuousWindow ::
    "(string \<Rightarrow> location option) \<Rightarrow> string \<Rightarrow> TimeOfDay \<Rightarrow> TimeOfDay \<Rightarrow> gotime \<Rightarrow> gotime \<Rightarrow> gotime \<Rightarrow>
     window_error + (bool \<times> gotime \<times> gotime)" where
  "currentOpenContinuousWindow tzdb tz start stop envStart envEnd now =
     currentOpenContinuousWindowOn tzdb tz start stop AllWeekdays envStart envEnd now"

section \<open>The next opens_at\<close>

fun next_open_scan ::
    "nat \<Rightarrow> location \<Rightarrow> TimeOfDay \<Rightarrow> WeekdaySet \<Rightarrow> gotime \<Rightarrow> gotime \<Rightarrow> gotime \<Rightarrow> int \<Rightarrow> gotime" where
  "next_open_scan 0 loc start weekdays envStart envEnd after d = zero_time"
| "next_open_scan (Suc n) loc start weekdays envStart envEnd after d =
     (let dayOpen = onDay start d loc in
      if Contains weekdays (weekday loc dayOpen) \<and> after < dayOpen \<and> \<not> dayOpen < envStart then
        (if \<not> is_zero envEnd \<and> \<not> dayOpen < envEnd then zero_time else dayOpen)
      else next_open_scan n loc start weekdays envStart envEnd after
             (local_day loc (add_days loc (go_date loc d 0 0) 1)))"

definition NextWindowOpenUTCOn ::
    "(string \<Rightarrow> location option) \<Rightarrow> string \<Rightarrow> TimeOfDay \<Rightarrow> WeekdaySet \<Rightarrow> gotime \<Rightarrow> gotime \<Rightarrow> gotime \<Rightarrow>
     window_error + gotime" where
  "NextWindowOpenUTCOn tzdb tz start weekdays envStart envEnd after =
     (case LoadLocation tzdb tz of Inl e \<Rightarrow> Inl e | Inr loc \<Rightarrow>
      let cursor = (if after < envStart then envStart else after)
      in Inr (next_open_scan 372 loc start weekdays envStart envEnd after (local_day loc cursor)))"

definition NextWindowOpenUTC ::
    "(string \<Rightarrow> location option) \<Rightarrow> string \<Rightarrow> TimeOfDay \<Rightarrow> gotime \<Rightarrow> gotime \<Rightarrow> gotime \<Rightarrow> window_error + gotime" where
  "NextWindowOpenUTC tzdb tz start envStart envEnd after =
     NextWindowOpenUTCOn tzdb tz start AllWeekdays envStart envEnd after"

section \<open>Complete windows\<close>

text \<open>The local instants are the same instants, printed with the location's offset.\<close>

record ContinuousWindow =
  Ordinal :: int
  LocalOpenAt :: gotime
  LocalEndAt :: gotime
  OpenAt :: gotime
  EndAt :: gotime

fun full_scan ::
    "nat \<Rightarrow> location \<Rightarrow> TimeOfDay \<Rightarrow> TimeOfDay \<Rightarrow> WeekdaySet \<Rightarrow> gotime \<Rightarrow> gotime \<Rightarrow> gotime \<Rightarrow> nat \<Rightarrow> int \<Rightarrow>
     ContinuousWindow list \<Rightarrow> ContinuousWindow list" where
  "full_scan 0 loc start stop weekdays envStart envEnd cursor limit d windows = windows"
| "full_scan (Suc n) loc start stop weekdays envStart envEnd cursor limit d windows =
     (if \<not> length windows < limit then windows else
      let openUTC = onDay start d loc;
          ed = (if IsOvernightWindow start stop then nextLocalDate d loc else d);
          endUTC = onDay stop ed loc;
          windows' = (if Contains weekdays (weekday loc openUTC) \<and> \<not> openUTC < cursor \<and> \<not> openUTC < envStart \<and>
                         (is_zero envEnd \<or> \<not> envEnd < endUTC)
                      then windows @ [\<lparr>Ordinal = int (length windows) + 1, LocalOpenAt = openUTC, LocalEndAt = endUTC,
                                     OpenAt = openUTC, EndAt = endUTC\<rparr>]
                      else windows)
      in full_scan n loc start stop weekdays envStart envEnd cursor limit
           (local_day loc (add_days loc (go_date loc d 0 0) 1)) windows')"

definition NextFullContinuousWindowsOn ::
    "(string \<Rightarrow> location option) \<Rightarrow> string \<Rightarrow> TimeOfDay \<Rightarrow> TimeOfDay \<Rightarrow> WeekdaySet \<Rightarrow> gotime \<Rightarrow> gotime \<Rightarrow> gotime \<Rightarrow> int \<Rightarrow>
     window_error + ContinuousWindow list" where
  "NextFullContinuousWindowsOn tzdb tz start stop weekdays envStart envEnd atOrAfter limit =
     (if limit \<le> 0 \<or> limit > 14 then Inl BadLimit
      else if weekdays = 0 then Inl NoWeekdays
      else case LoadLocation tzdb tz of Inl e \<Rightarrow> Inl e | Inr loc \<Rightarrow>
      let cursor = (if atOrAfter < envStart then envStart else atOrAfter);
          d = prevLocalDate (local_day loc cursor) loc;
          windows = full_scan (nat (limit * 7 + 8)) loc start stop weekdays envStart envEnd cursor (nat limit) d []
      in if int (length windows) \<noteq> limit then Inl TooFewWindows else Inr windows)"

section \<open>Occurrences\<close>

text \<open>
  What the three searches are about: the occurrence of local day \<open>d\<close> opens at \<open>start\<close> on \<open>d\<close> and closes
  at \<open>stop\<close> on \<open>d\<close> or, overnight, on the day after.
\<close>

definition opens_at :: "location \<Rightarrow> TimeOfDay \<Rightarrow> int \<Rightarrow> gotime" where
  "opens_at loc start d = onDay start d loc"

definition closes_at :: "location \<Rightarrow> TimeOfDay \<Rightarrow> TimeOfDay \<Rightarrow> int \<Rightarrow> gotime" where
  "closes_at loc start stop d = onDay stop (if IsOvernightWindow start stop then d + 1 else d) loc"

definition in_envelope :: "gotime \<Rightarrow> gotime \<Rightarrow> gotime \<Rightarrow> bool" where
  "in_envelope envStart envEnd t \<longleftrightarrow> envStart \<le> t \<and> (is_zero envEnd \<or> t < envEnd)"

definition valid_tod :: "TimeOfDay \<Rightarrow> bool" where
  "valid_tod t \<longleftrightarrow> 0 \<le> Hour t \<and> Hour t < 24 \<and> 0 \<le> Minute t \<and> Minute t < 60 \<and> 0 \<le> Second t \<and> Second t < 60"

lemma secondsOfDay_bounds: "valid_tod t \<Longrightarrow> 0 \<le> secondsOfDay t \<and> secondsOfDay t < day_seconds"
  by (auto simp: valid_tod_def secondsOfDay_def)

context regular_calendar
begin

lemma nextLocalDate_regular [simp]: "nextLocalDate d loc = d + 1"
  by (simp add: nextLocalDate_def day_add_days day_of_date)

lemma prevLocalDate_regular [simp]: "prevLocalDate d loc = d - 1"
  by (simp add: prevLocalDate_def day_add_days day_of_date)

lemma step_regular [simp]: "local_day loc (add_days loc (go_date loc d 0 0) 1) = d + 1"
  by (simp add: day_add_days day_of_date)

lemma day_onDay: "valid_tod t \<Longrightarrow> local_day loc (onDay t d loc) = d"
  using secondsOfDay_bounds [of t] by (simp add: onDay_def day_of_date)

lemma weekday_onDay: "valid_tod t \<Longrightarrow> weekday loc (onDay t d loc) = weekday_of_day d"
  by (simp add: weekday_def day_onDay)

lemma onDay_after: "valid_tod t \<Longrightarrow> local_day loc u < d \<Longrightarrow> u < onDay t d loc"
  using secondsOfDay_bounds [of t] by (simp add: onDay_def before_next_day)

lemma onDay_before: "valid_tod t \<Longrightarrow> d < local_day loc u \<Longrightarrow> onDay t d loc < u"
  using secondsOfDay_bounds [of t] by (simp add: onDay_def after_earlier_day)

lemma onDay_mono: "valid_tod t \<Longrightarrow> valid_tod u \<Longrightarrow> d < e \<Longrightarrow> onDay t d loc < onDay u e loc"
  by (simp add: onDay_after day_onDay)

end

text \<open>
  A window in a calendar: on the same day an overnight window closes no later than it opens again.
\<close>

locale window_calendar = regular_calendar +
  fixes start stop :: TimeOfDay
  assumes valid_start: "valid_tod start"
    and valid_stop: "valid_tod stop"
    and night_order: "IsOvernightWindow start stop \<Longrightarrow> onDay stop d loc \<le> onDay start d loc"
begin

abbreviation covers :: "int \<Rightarrow> gotime \<Rightarrow> bool" where
  "covers d t \<equiv> opens_at loc start d \<le> t \<and> t < closes_at loc start stop d"

lemma covering_days: "covers d t \<Longrightarrow> d = local_day loc t \<or> IsOvernightWindow start stop \<and> d = local_day loc t - 1"
proof -
  assume c: "covers d t"
  let ?e = "if IsOvernightWindow start stop then d + 1 else d"
  have "\<not> local_day loc t < d" using c onDay_after [OF valid_start, of t d] by (auto simp: opens_at_def)
  moreover have "\<not> ?e < local_day loc t"
    using c onDay_before [OF valid_stop, of ?e t] by (auto simp: closes_at_def)
  ultimately show ?thesis by (auto split: if_splits)
qed

lemma covers_today:
  "covers (local_day loc t) t \<longleftrightarrow>
     onDay start (local_day loc t) loc \<le> t \<and> (IsOvernightWindow start stop \<or> t < onDay stop (local_day loc t) loc)"
  using onDay_after [OF valid_stop, of t] by (auto simp: opens_at_def closes_at_def)

lemma covers_yesterday:
  "IsOvernightWindow start stop \<Longrightarrow> covers (local_day loc t - 1) t \<longleftrightarrow> t < onDay stop (local_day loc t) loc"
  using onDay_before [OF valid_start, of "local_day loc t - 1" t] by (auto simp: opens_at_def closes_at_def)

lemma covers_once: "covers d t \<Longrightarrow> covers e t \<Longrightarrow> d = e"
  using covering_days [of d t] covering_days [of e t] covers_today [of t] covers_yesterday [of t] night_order [of "local_day loc t"]
  by fastforce

lemma current_open_value:
  assumes "LoadLocation tzdb tz = Inr loc"
  shows "currentOpenContinuousWindowOn tzdb tz start stop wds envStart envEnd now =
     (let d = local_day loc now;
          e = (if IsOvernightWindow start stop \<and> now < onDay start d loc then d - 1 else d)
      in Inr (if covers e now \<and> Contains wds (weekday_of_day e) \<and> in_envelope envStart envEnd now
              then (True, opens_at loc start e, closes_at loc start stop e)
              else (False, zero_time, zero_time)))"
proof -
  note today = covers_today [of now] and yesterday = covers_yesterday [of now]
  show ?thesis
    using assms today yesterday
    by (auto simp: currentOpenContinuousWindowOn_def Let_def clampToEnvelope_def in_envelope_def
        day_onDay [OF valid_start] opens_at_def closes_at_def weekday_def)
qed

lemma current_open_iff:
  assumes "LoadLocation tzdb tz = Inr loc"
  shows "currentOpenContinuousWindowOn tzdb tz start stop wds envStart envEnd now = Inr (True, u, v) \<longleftrightarrow>
     in_envelope envStart envEnd now \<and>
     (\<exists>d. Contains wds (weekday_of_day d) \<and> u = opens_at loc start d \<and> v = closes_at loc start stop d \<and> u \<le> now \<and> now < v)"
    (is "?lhs \<longleftrightarrow> ?rhs")
proof
  assume ?lhs
  then show ?rhs
    unfolding current_open_value [OF assms] by (auto simp: Let_def split: if_splits)
next
  assume ?rhs
  then obtain d where d: "covers d now" and r: "in_envelope envStart envEnd now" "Contains wds (weekday_of_day d)"
      "u = opens_at loc start d" "v = closes_at loc start stop d" by auto
  let ?t = "local_day loc now"
  have "d = (if IsOvernightWindow start stop \<and> now < onDay start ?t loc then ?t - 1 else ?t)"
    using covering_days [OF d] covers_today [of now] covers_yesterday [of now] night_order [of ?t] d by fastforce
  with d r show ?lhs unfolding current_open_value [OF assms] by (simp add: Let_def)
qed

end

section \<open>Weekdays\<close>

lemma Contains_bit: "Contains s day \<longleftrightarrow> bit s (nat ((if day = 0 then 7 else day) - 1))"
  by (simp add: Contains_def push_bit_of_1 and_exp_eq_0_iff_not_bit)

lemma weekday_bits_spec:
  "weekday_bits days s = Inr r \<Longrightarrow> n < 7 \<Longrightarrow> bit r n \<longleftrightarrow> bit s n \<or> int n + 1 \<in> set days"
proof (induction days arbitrary: s)
  case (Cons day days)
  from Cons.prems have day: "1 \<le> day" "day \<le> 7" by (auto split: if_splits)
  with Cons.prems have "bit r n \<longleftrightarrow> bit (s OR push_bit (nat (day - 1)) 1) n \<or> int n + 1 \<in> set days"
    by (intro Cons.IH) auto
  moreover have "bit (push_bit (nat (day - 1)) (1 :: 8 word)) n \<longleftrightarrow> day = int n + 1"
    using day Cons.prems(2) by (auto simp: push_bit_of_1 bit_exp_iff)
  ultimately show ?case by (auto simp: bit_or_iff)
qed simp

lemma weekday_bits_error: "(\<exists>e. weekday_bits days s = Inl e) \<longleftrightarrow> (\<exists>day \<in> set days. day < 1 \<or> 7 < day)"
  by (induction days arbitrary: s) auto

lemma NewWeekdaySet_Contains:
  "NewWeekdaySet days = Inr s \<Longrightarrow> 0 \<le> w \<Longrightarrow> w \<le> 6 \<Longrightarrow> Contains s w \<longleftrightarrow> (if w = 0 then 7 else w) \<in> set days"
  using weekday_bits_spec [of days 0 s "nat ((if w = 0 then 7 else w) - 1)"]
  by (auto simp: NewWeekdaySet_def Contains_bit split: sum.splits if_splits)

lemma NewWeekdaySet_some_day:
  assumes "NewWeekdaySet days = Inr s"
  shows "\<exists>w. 0 \<le> w \<and> w \<le> 6 \<and> Contains s w"
proof (cases days)
  case Nil
  with assms show ?thesis by (simp add: NewWeekdaySet_def)
next
  case (Cons day ds)
  with assms have "1 \<le> day" "day \<le> 7" by (auto simp: NewWeekdaySet_def split: if_splits)
  then show ?thesis
    using NewWeekdaySet_Contains [OF assms, of "day mod 7"] Cons
    by (intro exI [of _ "day mod 7"]) (cases "day = 7"; simp)
qed

lemma NewWeekdaySet_nonzero: "NewWeekdaySet days = Inr s \<Longrightarrow> s \<noteq> 0"
  by (auto simp: NewWeekdaySet_def split: sum.splits if_splits)

lemma weekday_within_week:
  assumes "0 \<le> w" "w \<le> 6"
  shows "\<exists>k. 1 \<le> k \<and> k \<le> 7 \<and> weekday_of_day (d + k) = w"
proof -
  let ?k = "(w - d - 5) mod 7 + 1"
  have "(d + ?k + 4) mod 7 = (d + 5 + (w - d - 5) mod 7) mod 7" by (simp add: algebra_simps)
  also have "\<dots> = w mod 7" by (subst mod_add_right_eq) simp
  also have "\<dots> = w" using assms by simp
  finally have "(d + ?k + 4) mod 7 = w" .
  then show ?thesis by (intro exI [of _ ?k]) (simp add: weekday_of_day_def)
qed

lemma active_days_count:
  assumes "0 \<le> w" "w \<le> 6" "Contains s w"
  shows "k \<le> length (filter (\<lambda>d. Contains s (weekday_of_day d)) [a + 1..a + 7 * int k])"
proof (induction k)
  case (Suc k)
  let ?P = "\<lambda>d. Contains s (weekday_of_day d)"
  obtain j where j: "1 \<le> j" "j \<le> 7" "weekday_of_day (a + 7 * int k + j) = w"
    using weekday_within_week [OF assms(1,2)] by blast
  let ?rest = "[a + 7 * int k + 1..a + 7 * int (Suc k)]"
  have "a + 7 * int k + j \<in> set (filter ?P ?rest)" using j assms(3) by simp
  then have "1 \<le> length (filter ?P ?rest)" by (metis Suc_leI length_pos_if_in_set One_nat_def)
  moreover have "[a + 1..a + 7 * int (Suc k)] = [a + 1..a + 7 * int k] @ ?rest"
    using upto_split1 [of "a + 1" "a + 7 * int k + 1" "a + 7 * int (Suc k)"] by simp
  ultimately show ?case using Suc by simp
qed simp

section \<open>The searches\<close>

lemma first_nonneg:
  fixes k :: int
  assumes "P k" "0 \<le> k"
  shows "\<exists>j. 0 \<le> j \<and> j \<le> k \<and> P j \<and> (\<forall>i. 0 \<le> i \<and> i < j \<longrightarrow> \<not> P i)"
proof -
  have "P (int (nat k))" using assms by simp
  then obtain n where n: "P (int n)" "\<And>m. m < n \<Longrightarrow> \<not> P (int m)"
    using exists_least_iff [of "\<lambda>n. P (int n)"] by blast
  have "n \<le> nat k" using n(2) [of "nat k"] assms by (metis not_le nat_0_le)
  moreover have "\<not> P i" if "0 \<le> i" "i < int n" for i
    using that n(2) [of "nat i"] by (simp add: nat_less_iff)
  ultimately show ?thesis using n(1) assms(2) by (intro exI [of _ "int n"]) auto
qed

definition before_end :: "gotime \<Rightarrow> gotime \<Rightarrow> bool" where
  "before_end envEnd t \<longleftrightarrow> is_zero envEnd \<or> t < envEnd"

definition may_open :: "location \<Rightarrow> TimeOfDay \<Rightarrow> WeekdaySet \<Rightarrow> gotime \<Rightarrow> gotime \<Rightarrow> int \<Rightarrow> bool" where
  "may_open loc start wds envStart after d \<longleftrightarrow>
     Contains wds (weekday_of_day d) \<and> after < opens_at loc start d \<and> envStart \<le> opens_at loc start d"

definition complete_window ::
    "location \<Rightarrow> TimeOfDay \<Rightarrow> TimeOfDay \<Rightarrow> WeekdaySet \<Rightarrow> gotime \<Rightarrow> gotime \<Rightarrow> gotime \<Rightarrow> int \<Rightarrow> bool" where
  "complete_window loc start stop wds envStart envEnd atOrAfter d \<longleftrightarrow>
     Contains wds (weekday_of_day d) \<and> atOrAfter \<le> opens_at loc start d \<and> envStart \<le> opens_at loc start d \<and>
     (is_zero envEnd \<or> closes_at loc start stop d \<le> envEnd)"

definition window_of :: "location \<Rightarrow> TimeOfDay \<Rightarrow> TimeOfDay \<Rightarrow> nat \<times> int \<Rightarrow> ContinuousWindow" where
  "window_of loc start stop = (\<lambda>(k, d). \<lparr>Ordinal = int k + 1,
     LocalOpenAt = opens_at loc start d, LocalEndAt = closes_at loc start stop d,
     OpenAt = opens_at loc start d, EndAt = closes_at loc start stop d\<rparr>)"

context regular_calendar
begin

lemma opens_at_mono: "valid_tod start \<Longrightarrow> opens_at loc start d < opens_at loc start e \<longleftrightarrow> d < e"
  using onDay_mono [of start start d e] onDay_mono [of start start e d]
  by (cases d e rule: linorder_cases) (auto simp: opens_at_def)

lemma closes_at_mono: "valid_tod stop \<Longrightarrow> d \<le> e \<Longrightarrow> closes_at loc start stop d \<le> closes_at loc start stop e"
  using onDay_mono [of stop stop d e] onDay_mono [of stop stop "d + 1" "e + 1"]
  by (cases "d = e") (auto simp: closes_at_def)

lemma next_open_scan_spec:
  assumes "valid_tod start"
  shows "(\<forall>k. 0 \<le> k \<and> k < j \<longrightarrow> \<not> may_open loc start wds envStart after (d + k)) \<Longrightarrow>
    may_open loc start wds envStart after (d + j) \<Longrightarrow> 0 \<le> j \<Longrightarrow> j < int n \<Longrightarrow>
    next_open_scan n loc start wds envStart envEnd after d =
      (if before_end envEnd (opens_at loc start (d + j)) then opens_at loc start (d + j) else zero_time)"
proof (induction n arbitrary: d j)
  case (Suc n)
  show ?case
  proof (cases "may_open loc start wds envStart after d")
    case True
    with Suc.prems(1,3) have "j = 0" by (metis add.right_neutral order_le_less order_refl)
    with True assms show ?thesis
      by (auto simp: may_open_def before_end_def opens_at_def weekday_onDay Let_def)
  next
    case False
    with Suc.prems have "j \<noteq> 0" by auto
    with Suc.prems have "next_open_scan n loc start wds envStart envEnd after (d + 1) =
        (if before_end envEnd (opens_at loc start (d + 1 + (j - 1))) then opens_at loc start (d + 1 + (j - 1)) else zero_time)"
      by (intro Suc.IH) (auto simp: add.assoc dest: spec [of _ "k + 1" for k])
    with False assms show ?thesis
      by (auto simp: may_open_def opens_at_def weekday_onDay Let_def)
  qed
qed simp

lemma full_scan_spec:
  assumes "valid_tod start"
  shows "full_scan n loc start stop wds envStart envEnd (if atOrAfter < envStart then envStart else atOrAfter) limit d ws =
    ws @ map (window_of loc start stop) (enumerate (length ws)
      (take (limit - length ws) (filter (complete_window loc start stop wds envStart envEnd atOrAfter) [d..d + int n - 1])))"
proof (induction n arbitrary: d ws)
  case (Suc n)
  show ?case
  proof (cases "length ws < limit")
    case True
    have "[d..d + int (Suc n) - 1] = d # [d + 1..d + 1 + int n - 1]" by (simp add: upto_rec1)
    moreover have "limit - length ws = Suc (limit - Suc (length ws))" using True by simp
    ultimately show ?thesis using True assms Suc.IH [of "d + 1"]
      by (auto simp: Let_def complete_window_def opens_at_def closes_at_def weekday_onDay window_of_def not_less)
  qed simp
qed simp

end

lemma monotone_window_calendar:
  assumes "monotone_calendar loc" "valid_tod start" "valid_tod stop"
  shows "window_calendar loc start stop"
proof -
  note cal = assms(1)
  show ?thesis
    using assms monotone_calendar.clock_mono [OF cal] secondsOfDay_bounds [OF assms(2)] secondsOfDay_bounds [OF assms(3)]
    by (auto simp: window_calendar_def window_calendar_axioms_def monotone_calendar_def IsOvernightWindow_def onDay_def)
qed

text \<open>The full day from midnight to midnight in UTC, and the night from 22:00 to 06:00 in New York, across
  both changes of the clocks.\<close>

definition midnight :: TimeOfDay where "midnight = \<lparr>Hour = 0, Minute = 0, Second = 0\<rparr>"
definition ten_pm :: TimeOfDay where "ten_pm = \<lparr>Hour = 22, Minute = 0, Second = 0\<rparr>"
definition six_am :: TimeOfDay where "six_am = \<lparr>Hour = 6, Minute = 0, Second = 0\<rparr>"

lemma valid_examples [simp]: "valid_tod midnight" "valid_tod ten_pm" "valid_tod six_am"
  by (simp_all add: valid_tod_def midnight_def ten_pm_def six_am_def)

interpretation utc_full_day: window_calendar utc midnight midnight
  by (rule monotone_window_calendar) (simp_all add: utc_cal.monotone_calendar_axioms)

interpretation new_york_night: window_calendar new_york_2026 ten_pm six_am
proof unfold_locales
  fix d
  show "onDay six_am d new_york_2026 \<le> onDay ten_pm d new_york_2026"
    by (auto simp: onDay_def go_date_def secondsOfDay_def six_am_def ten_pm_def date_unix_new_york Let_def)
qed simp_all

context window_calendar
begin

lemma next_full_value:
  assumes "LoadLocation tzdb tz = Inr loc"
  shows "NextFullContinuousWindowsOn tzdb tz start stop wds envStart envEnd atOrAfter limit =
    (if limit \<le> 0 \<or> limit > 14 then Inl BadLimit
     else if wds = 0 then Inl NoWeekdays
     else let p = local_day loc (if atOrAfter < envStart then envStart else atOrAfter) - 1;
              ds = filter (complete_window loc start stop wds envStart envEnd atOrAfter) [p..p + (limit * 7 + 8) - 1]
          in if int (length ds) < limit then Inl TooFewWindows
             else Inr (map (window_of loc start stop) (enumerate 0 (take (nat limit) ds))))"
  using assms by (auto simp: NextFullContinuousWindowsOn_def Let_def full_scan_spec [OF valid_start] min_def)

lemma complete_window_day:
  "complete_window loc start stop wds envStart envEnd atOrAfter d \<Longrightarrow>
     local_day loc (if atOrAfter < envStart then envStart else atOrAfter) \<le> d"
  using onDay_before [OF valid_start, of d "if atOrAfter < envStart then envStart else atOrAfter"]
  by (force simp: complete_window_def opens_at_def intro: leI)

text \<open>The scan is long enough: a complete occurrence past it comes after \<open>limit\<close> complete ones.\<close>

lemma scan_suffices:
  assumes "NewWeekdaySet days = Inr wds"
    and "complete_window loc start stop wds envStart envEnd atOrAfter e" "0 \<le> limit"
    and "local_day loc (if atOrAfter < envStart then envStart else atOrAfter) + limit * 7 + 6 < e"
  defines "p \<equiv> local_day loc (if atOrAfter < envStart then envStart else atOrAfter) - 1"
  shows "limit \<le> int (length (filter (complete_window loc start stop wds envStart envEnd atOrAfter) [p..p + (limit * 7 + 8) - 1]))"
proof -
  define c where "c = (if atOrAfter < envStart then envStart else atOrAfter)"
  let ?C = "complete_window loc start stop wds envStart envEnd atOrAfter"
  let ?A = "\<lambda>d. Contains wds (weekday_of_day d)"
  let ?mid = "[p + 1 + 1..p + 1 + 7 * int (nat limit)]"
  obtain w where w: "0 \<le> w" "w \<le> 6" "Contains wds w" using NewWeekdaySet_some_day [OF assms(1)] by blast
  have complete: "?C d" if "d \<in> set ?mid" "?A d" for d
  proof -
    have "c < opens_at loc start d"
      unfolding opens_at_def using that by (intro onDay_after [OF valid_start]) (simp add: p_def c_def)
    moreover have "closes_at loc start stop d \<le> closes_at loc start stop e"
      using that assms(3,4) by (intro closes_at_mono [OF valid_stop]) (simp add: p_def)
    ultimately show ?thesis
      using that assms(2) by (auto simp: complete_window_def c_def split: if_splits)
  qed
  have "limit \<le> int (length (filter ?A ?mid))"
    using active_days_count [OF w, of "nat limit" "p + 1"] assms(3) by linarith
  also have "filter ?A ?mid = filter ?C ?mid"
    using complete by (intro filter_cong) (auto simp: complete_window_def)
  also have "int (length (filter ?C ?mid)) \<le> int (length (filter ?C [p..p + (limit * 7 + 8) - 1]))"
  proof -
    have "[p..p + (limit * 7 + 8) - 1] = [p..p + 1] @ ?mid @ [p + 2 + 7 * limit..p + (limit * 7 + 8) - 1]"
      using assms(3) upto_split2 [of p "p + 1" "p + (limit * 7 + 8) - 1"]
        upto_split1 [of "p + 1 + 1" "p + 2 + 7 * limit" "p + (limit * 7 + 8) - 1"] by (simp add: algebra_simps)
    then show ?thesis by simp
  qed
  finally show ?thesis .
qed

end

section \<open>Properties\<close>

definition two_digits :: "int \<Rightarrow> string" where
  "two_digits n = [digit_char (nat n div 10), digit_char (nat n mod 10)]"

definition clock_text :: "TimeOfDay \<Rightarrow> string" where
  "clock_text t = two_digits (Hour t) @ '':'' @ two_digits (Minute t) @ '':'' @ two_digits (Second t)"

definition short_clock_text :: "TimeOfDay \<Rightarrow> string" where
  "short_clock_text t = two_digits (Hour t) @ '':'' @ two_digits (Minute t)"

lemma scan_two_digits:
  assumes "0 \<le> n" "n < 100" "r = [] \<or> \<not> is_digit (hd r)"
  shows "scan_int (two_digits n @ r) = Some (n, r)"
proof -
  have v: "read_digits (two_digits n) = n"
    using assms(1,2) div_mult_mod_eq [of n 10]
    by (simp add: read_digits_def two_digits_def nat_div_distrib nat_mod_distrib zdiv_int zmod_int)
  show ?thesis
    using scan_int_digits [of "two_digits n" r] assms v by (simp add: max_int64_def) (simp add: two_digits_def)
qed

lemma scan_int_empty: "scan_int [] = None"
  by (simp add: scan_int_def scan_sign_def)

lemma parse_clock_texts:
  assumes "valid_tod t"
  shows "ParseTimeOfDay (clock_text t) = Inr t"
    and "ParseTimeOfDay (short_clock_text t) = Inr (t\<lparr>Second := 0\<rparr>)"
proof -
  have colon: "\<not> is_digit (CHR '':'')" by (simp add: is_digit_def)
  have two: "sscanf_2 (two_digits (Hour t) @ '':'' @ two_digits (Minute t) @ r) = Some (Hour t, Minute t, r)"
    if "r = [] \<or> \<not> is_digit (hd r)" for r
    using assms that colon by (simp add: sscanf_2_def scan_two_digits scan_colon_def valid_tod_def)
  have sec: "scan_int (two_digits (Second t)) = Some (Second t, [])"
    using scan_two_digits [of "Second t" "[]"] assms by (simp add: valid_tod_def)
  have "sscanf_3 (clock_text t) = Some (Hour t, Minute t, Second t)"
    using two [of "CHR '':'' # two_digits (Second t)"] colon sec by (simp add: sscanf_3_def clock_text_def scan_colon_def)
  then show "ParseTimeOfDay (clock_text t) = Inr t"
    using assms by (simp add: ParseTimeOfDay_def valid_tod_def)
  have "sscanf_2 (short_clock_text t) = Some (Hour t, Minute t, [])"
    using two [of "[]"] by (simp add: short_clock_text_def)
  then show "ParseTimeOfDay (short_clock_text t) = Inr (t\<lparr>Second := 0\<rparr>)"
    using assms by (simp add: ParseTimeOfDay_def sscanf_3_def scan_colon_def valid_tod_def)
qed

text \<open>C34: \<open>NewWeekdaySet\<close> refuses exactly the empty list and lists with a day outside 1 to 7, and the
  weekdays (Sunday is 0) that \<open>Contains\<close> finds in the mask it builds are exactly the ISO days it was
  given.\<close>

theorem weekday_set_correct:
  "case NewWeekdaySet days of
     Inl e \<Rightarrow> days = [] \<or> (\<exists>day \<in> set days. day < 1 \<or> 7 < day)
   | Inr s \<Rightarrow> days \<noteq> [] \<and> set days \<subseteq> {1..7} \<and>
       {w. 0 \<le> w \<and> w \<le> 6 \<and> Contains s w} = {w. 0 \<le> w \<and> w \<le> 6 \<and> (if w = 0 then 7 else w) \<in> set days}"
proof (cases "NewWeekdaySet days")
  case (Inl e)
  show ?thesis
  proof (cases "weekday_bits days 0")
    case err: (Inl e')
    then show ?thesis using weekday_bits_error [of days 0] Inl by auto
  next
    case ok: (Inr s)
    show ?thesis
    proof (cases days)
      case (Cons day ds)
      with ok have "1 \<le> day" "day \<le> 7" by (auto split: if_splits)
      then have "bit s (nat (day - 1))"
        using weekday_bits_spec [OF ok, of "nat (day - 1)"] Cons by auto
      then have "s \<noteq> 0" by auto
      with ok Inl show ?thesis by (simp add: NewWeekdaySet_def)
    qed (use Inl in simp)
  qed
next
  case (Inr s)
  then have "days \<noteq> []" "weekday_bits days 0 = Inr s"
    by (auto simp: NewWeekdaySet_def split: sum.splits if_splits)
  then show ?thesis
    using Inr weekday_bits_error [of days 0] NewWeekdaySet_Contains [OF Inr] by force
qed

text \<open>\<open>ParseTimeOfDay\<close> reads back every time of day written as HH:MM:SS, and as HH:MM with the
  seconds dropped.\<close>

theorem time_of_day_round_trip:
  assumes "valid_tod t"
  shows "ParseTimeOfDay (clock_text t) = Inr t \<and> ParseTimeOfDay (short_clock_text t) = Inr (t\<lparr>Second := 0\<rparr>)"
  by (simp add: parse_clock_texts [OF assms])

theorem time_of_day_round_trip_witness:
  "ParseTimeOfDay ''22:00:00'' = Inr ten_pm \<and> ParseTimeOfDay ''22:00'' = Inr ten_pm"
proof -
  have "clock_text ten_pm = ''22:00:00''" "short_clock_text ten_pm = ''22:00''"
    by (simp_all add: clock_text_def short_clock_text_def two_digits_def ten_pm_def digit_char_def char_of_def bit_Suc_0_iff)
  moreover have "ten_pm\<lparr>Second := 0\<rparr> = ten_pm" by (simp add: ten_pm_def)
  ultimately show ?thesis using time_of_day_round_trip [of ten_pm] by simp
qed

text \<open>C15: at any instant, \<open>currentOpenContinuousWindowOn\<close> reports a window open from \<open>u\<close> to \<open>v\<close> exactly
  when the instant is inside the capture envelope and some active local day has the occurrence
  \<open>[u, v)\<close>, which contains the instant; daytime, overnight and full-day windows alike.\<close>

theorem current_open_correct:
  assumes "window_calendar loc start stop" "LoadLocation tzdb tz = Inr loc"
  shows "currentOpenContinuousWindowOn tzdb tz start stop wds envStart envEnd now = Inr (True, u, v) \<longleftrightarrow>
     in_envelope envStart envEnd now \<and>
     (\<exists>d. Contains wds (weekday_of_day d) \<and> u = opens_at loc start d \<and> v = closes_at loc start stop d \<and> u \<le> now \<and> now < v)"
  by (rule window_calendar.current_open_iff [OF assms])

definition example_tzdb :: "string \<Rightarrow> location option" where
  "example_tzdb name = (if name = ''America/New_York'' then Some new_york_2026
     else if name = ''America/Santiago'' then Some santiago_2026 else None)"

lemma load_new_york: "LoadLocation example_tzdb ''America/New_York'' = Inr new_york_2026"
  by (simp add: LoadLocation_def TrimSpace_def example_tzdb_def is_space_def)

text \<open>At 03:00 on March 9, 2026, New York, the night that opened on March 8 is open.\<close>

theorem current_open_correct_witness:
  "currentOpenContinuousWindowOn example_tzdb ''America/New_York'' ten_pm six_am AllWeekdays 0 zero_time
     (1773039600 * second) = Inr (True, 1773021600 * second, 1773050400 * second)"
proof -
  have "Contains AllWeekdays (weekday_of_day 20520) \<and> 1773021600 * second = opens_at new_york_2026 ten_pm 20520 \<and>
      1773050400 * second = closes_at new_york_2026 ten_pm six_am 20520"
    by (simp add: opens_at_def closes_at_def IsOvernightWindow_def onDay_def go_date_def secondsOfDay_def
        six_am_def ten_pm_def date_unix_new_york Contains_def AllWeekdays_def weekday_of_day_def)
  then show ?thesis
    unfolding current_open_correct [OF new_york_night.window_calendar_axioms load_new_york]
    by (auto simp: in_envelope_def is_zero_def intro!: exI [of _ 20520])
qed

text \<open>C16: in a regular calendar \<open>NextWindowOpenUTCOn\<close> never misses an opening: when it returns an
  instant, that is the first opening of an active day strictly after \<open>after\<close>, not before the envelope
  and before its end; when it returns the zero time, every such opening is at or past the envelope's end.\<close>

theorem next_open_correct:
  assumes "regular_calendar loc" "valid_tod start" "NewWeekdaySet days = Inr wds"
    and "LoadLocation tzdb tz = Inr loc" "zero_time \<le> after"
  shows "\<exists>r. NextWindowOpenUTCOn tzdb tz start wds envStart envEnd after = Inr r \<and>
    (if r = zero_time then {d. may_open loc start wds envStart after d \<and> before_end envEnd (opens_at loc start d)} = {}
     else \<exists>d. may_open loc start wds envStart after d \<and> r = opens_at loc start d \<and> before_end envEnd r \<and>
        {e. may_open loc start wds envStart after e \<and> opens_at loc start e < r} = {})"
proof -
  note mono = regular_calendar.opens_at_mono [OF assms(1,2)]
  let ?may = "may_open loc start wds envStart after"
  define c where "c = (if after < envStart then envStart else after)"
  define d0 where "d0 = local_day loc c"
  have may: "?may d \<longleftrightarrow> Contains wds (weekday_of_day d) \<and> after < opens_at loc start d \<and> c \<le> opens_at loc start d" for d
    by (auto simp: may_open_def c_def)
  obtain w where w: "0 \<le> w" "w \<le> 6" "Contains wds w" using NewWeekdaySet_some_day [OF assms(3)] by blast
  obtain k where k: "1 \<le> k" "k \<le> 7" "weekday_of_day (d0 + k) = w"
    using weekday_within_week [OF w(1,2)] by blast
  have "c < opens_at loc start (d0 + k)"
    unfolding opens_at_def using k by (intro regular_calendar.onDay_after [OF assms(1,2)]) (simp add: d0_def)
  moreover have "after \<le> c" by (simp add: c_def)
  ultimately have "?may (d0 + k)" using k w unfolding may by auto
  then obtain j where j: "0 \<le> j" "j \<le> k" "?may (d0 + j)" and least: "\<forall>i. 0 \<le> i \<and> i < j \<longrightarrow> \<not> ?may (d0 + i)"
    using k first_nonneg [of "\<lambda>i. ?may (d0 + i)" k] by auto
  have early: "d0 + j \<le> e" if "?may e" for e
  proof (rule ccontr)
    assume "\<not> d0 + j \<le> e"
    moreover have "\<not> (0 \<le> e - d0 \<and> e - d0 < j)" using that least spec [OF least, of "e - d0"] by auto
    ultimately have "e < local_day loc c" unfolding d0_def [symmetric] by arith
    then have "opens_at loc start e < c"
      unfolding opens_at_def by (rule regular_calendar.onDay_before [OF assms(1,2)])
    with that show False unfolding may by auto
  qed
  have "NextWindowOpenUTCOn tzdb tz start wds envStart envEnd after = Inr
      (if before_end envEnd (opens_at loc start (d0 + j)) then opens_at loc start (d0 + j) else zero_time)"
    using regular_calendar.next_open_scan_spec [OF assms(1,2) least j(3,1)] j k assms(4)
    by (simp add: NextWindowOpenUTCOn_def Let_def d0_def c_def)
  moreover have "opens_at loc start (d0 + j) \<noteq> zero_time" using j(3) assms(5) by (auto simp: may_open_def)
  moreover have "{e. ?may e \<and> opens_at loc start e < opens_at loc start (d0 + j)} = {}"
    by (auto simp: mono dest!: early)
  moreover have "{d. ?may d \<and> before_end envEnd (opens_at loc start d)} = {}"
    if "\<not> before_end envEnd (opens_at loc start (d0 + j))"
    using that calculation(3) by (force simp: before_end_def)
  ultimately show ?thesis
    using j(3) by (cases "before_end envEnd (opens_at loc start (d0 + j))") auto
qed

text \<open>From Sunday March 8, 2026, New York, the next Monday opening at 22:00 is on March 9.\<close>

lemma monday_only: "NewWeekdaySet [1] = Inr 1"
  by (simp add: NewWeekdaySet_def)

theorem next_open_correct_witness:
  "NextWindowOpenUTCOn example_tzdb ''America/New_York'' ten_pm 1 0 zero_time 1773021600000000000 =
     Inr 1773108000000000000 \<and>
   {e. may_open new_york_2026 ten_pm 1 0 1773021600000000000 e \<and> opens_at new_york_2026 ten_pm e < 1773108000000000000} = {}"
proof -
  have day: "local_day new_york_2026 1773021600000000000 = 20520"
    by (simp add: local_day_def local_seconds_def unix_def offset_at_new_york)
  have "onDay ten_pm 20521 new_york_2026 = 1773108000000000000"
    by (simp add: onDay_def go_date_def secondsOfDay_def ten_pm_def date_unix_new_york)
  moreover from this have "weekday new_york_2026 1773108000000000000 = weekday_of_day 20521"
    using new_york_cal.weekday_onDay [OF valid_examples(2), of 20521] by simp
  moreover have "\<not> Contains 1 (weekday_of_day 20520)" "Contains 1 (weekday_of_day 20521)"
    by (simp_all add: Contains_def weekday_of_day_def push_bit_of_1)
  moreover have "(372::nat) = Suc (Suc 370)" by simp
  ultimately have "next_open_scan 372 new_york_2026 ten_pm 1 0 zero_time 1773021600000000000 20520 = 1773108000000000000"
    by (simp only: next_open_scan.simps Let_def) (simp add: new_york_cal.weekday_onDay is_zero_def)
  then have "NextWindowOpenUTCOn example_tzdb ''America/New_York'' ten_pm 1 0 zero_time 1773021600000000000 =
     Inr 1773108000000000000"
    by (simp add: NextWindowOpenUTCOn_def load_new_york Let_def day)
  moreover have "(1773108000000000000 :: int) \<noteq> zero_time" "zero_time \<le> 1773021600000000000"
    by (simp_all add: zero_time_def)
  ultimately show ?thesis
    using next_open_correct [OF new_york_cal.regular_calendar_axioms valid_examples(2) monday_only load_new_york,
        of "1773021600000000000" 0 zero_time] by auto
qed

text \<open>When \<open>NextFullContinuousWindowsOn\<close> returns windows, they are exactly as many as asked for,
  numbered from 1, in strictly increasing order of opening, each is a complete occurrence inside the
  envelope that opens at or after the cutoff, and no complete occurrence that opens before the last
  of them is left out.\<close>

theorem next_full_windows_correct:
  assumes "window_calendar loc start stop" "LoadLocation tzdb tz = Inr loc"
    and "NextFullContinuousWindowsOn tzdb tz start stop wds envStart envEnd atOrAfter limit = Inr ws"
  shows "int (length ws) = limit \<and> map Ordinal ws = [1..limit] \<and> sorted_wrt (<) (map OpenAt ws) \<and>
    {(OpenAt w, EndAt w) | w. w \<in> set ws} =
    {(opens_at loc start d, closes_at loc start stop d) | d.
       complete_window loc start stop wds envStart envEnd atOrAfter d \<and> opens_at loc start d \<le> OpenAt (last ws)}"
proof -
  note cal = window_calendar.axioms(1) [OF assms(1)] and start = window_calendar.valid_start [OF assms(1)]
  let ?C = "complete_window loc start stop wds envStart envEnd atOrAfter"
  define p where "p = local_day loc (if atOrAfter < envStart then envStart else atOrAfter) - 1"
  define n where "n = limit * 7 + 8"
  have p: "p \<le> d" if "?C d" for d
    using window_calendar.complete_window_day [OF assms(1) that] by (simp add: p_def)
  have lim: "0 < limit" and enough: "\<not> int (length (filter ?C [p..p + n - 1])) < limit"
    and ws: "ws = map (window_of loc start stop) (enumerate 0 (take (nat limit) (filter ?C [p..p + n - 1])))"
    using assms(3) unfolding window_calendar.next_full_value [OF assms(1,2)] Let_def p_def [symmetric] n_def [symmetric]
    by (auto split: if_splits)
  define ds where "ds = take (nat limit) (filter ?C [p..p + n - 1])"
  have ne: "ds \<noteq> []" and lds: "int (length ds) = limit" using enough lim by (auto simp: ds_def)
  have opens: "map OpenAt ws = map (opens_at loc start) ds"
    unfolding ws ds_def [symmetric] by (simp add: window_of_def split_beta o_def map_enumerate_snd map_enumerate_snd [of "\<lambda>d. (opens_at loc start d, closes_at loc start stop d)"])
  have sorted: "sorted_wrt (<) ds"
    unfolding ds_def by (intro sorted_wrt_take sorted_wrt_filter sorted_wrt_upto)
  have "set ds = {d. ?C d \<and> d \<le> last ds}"
  proof -
    have "set ds = {d \<in> set (filter ?C [p..p + n - 1]). d \<le> last ds}"
      using sorted_take_prefix [of "filter ?C [p..p + n - 1]" "nat limit"] ne sorted_wrt_filter sorted_wrt_upto
      unfolding ds_def by blast
    moreover have "last ds \<le> p + n - 1"
      using in_set_takeD [of "last ds" "nat limit" "filter ?C [p..p + n - 1]"] last_in_set [OF ne]
      unfolding ds_def [symmetric] by simp
    ultimately show ?thesis using p by auto
  qed
  moreover have "{(OpenAt w, EndAt w) | w. w \<in> set ws} = (\<lambda>d. (opens_at loc start d, closes_at loc start stop d)) ` set ds"
  proof -
    have "map (\<lambda>w. (OpenAt w, EndAt w)) ws = map (\<lambda>d. (opens_at loc start d, closes_at loc start stop d)) ds"
      unfolding ws ds_def [symmetric] by (simp add: window_of_def split_beta o_def map_enumerate_snd map_enumerate_snd [of "\<lambda>d. (opens_at loc start d, closes_at loc start stop d)"])
    then show ?thesis by (metis image_set Setcompr_eq_image)
  qed
  moreover have "OpenAt (last ws) = opens_at loc start (last ds)"
    using opens ne by (metis last_map list.map_disc_iff)
  ultimately have "{(OpenAt w, EndAt w) | w. w \<in> set ws} =
    {(opens_at loc start d, closes_at loc start stop d) | d. ?C d \<and> opens_at loc start d \<le> OpenAt (last ws)}"
    using regular_calendar.opens_at_mono [OF cal start] by (force simp: not_less [symmetric])
  moreover have "map Ordinal ws = [1..limit]"
    using map_enumerate_fst [of 1 0 ds] lds unfolding ws ds_def [symmetric] by (simp add: window_of_def split_beta o_def)
  moreover have "sorted_wrt (<) (map OpenAt ws)"
    using sorted regular_calendar.opens_at_mono [OF cal start] by (simp add: opens sorted_wrt_map)
  moreover have "int (length ws) = limit"
    using lds unfolding ws ds_def [symmetric] by simp
  ultimately show ?thesis by blast
qed

text \<open>Qualifying one full-day window in UTC, with the cutoff at the epoch.\<close>

lemma full_day_scan:
  "NextFullContinuousWindowsOn example_tzdb [] midnight midnight AllWeekdays 0 zero_time 0 1 =
     Inr [\<lparr>Ordinal = 1, LocalOpenAt = 0, LocalEndAt = 86400000000000, OpenAt = 0, EndAt = 86400000000000\<rparr>]"
proof -
  have "local_day utc 0 = 0" by (simp add: utc_fixed local_day_fixed unix_def)
  moreover have "Contains AllWeekdays w" if "0 \<le> w" "w < 7" for w
  proof -
    have "w \<in> {0, 1, 2, 3, 4, 5, 6}" using that by auto
    then show ?thesis by (auto simp: Contains_def AllWeekdays_def push_bit_of_1)
  qed
  then have "\<And>d. Contains AllWeekdays (weekday_of_day d)" by (simp add: weekday_of_day_def)
  moreover have on_day: "onDay midnight d utc = d * 86400000000000" for d
    by (simp add: onDay_def go_date_def utc_fixed secondsOfDay_def midnight_def)
  ultimately have "complete_window utc midnight midnight AllWeekdays 0 zero_time 0 d \<longleftrightarrow> 0 \<le> d" for d
    by (simp add: complete_window_def opens_at_def is_zero_def)
  moreover have "LoadLocation example_tzdb [] = Inr utc" by (simp add: LoadLocation_def TrimSpace_def)
  note utc_full_day.next_full_value [OF this, of AllWeekdays 0 zero_time 0 1]
  ultimately show ?thesis
    using \<open>local_day utc 0 = 0\<close> on_day
    by (simp add: AllWeekdays_def window_of_def opens_at_def closes_at_def IsOvernightWindow_def upto_rec1)
qed

theorem next_full_windows_correct_witness:
  "{(OpenAt w, EndAt w) | w. w \<in> set [\<lparr>Ordinal = 1, LocalOpenAt = 0, LocalEndAt = 86400000000000, OpenAt = 0,
       EndAt = 86400000000000\<rparr>]} =
   {(opens_at utc midnight d, closes_at utc midnight midnight d) | d.
      complete_window utc midnight midnight AllWeekdays 0 zero_time 0 d \<and> opens_at utc midnight d \<le> 0}"
proof -
  have "LoadLocation example_tzdb [] = Inr utc" by (simp add: LoadLocation_def TrimSpace_def)
  from next_full_windows_correct [OF utc_full_day.window_calendar_axioms this full_day_scan] show ?thesis by simp
qed

text \<open>With a nonempty set of weekdays and a limit of 1 to 14, \<open>NextFullContinuousWindowsOn\<close> fails
  exactly when the schedule has fewer complete occurrences than asked for: the bound on the number of
  days it scans never hides one.\<close>

theorem next_full_windows_error:
  assumes "window_calendar loc start stop" "LoadLocation tzdb tz = Inr loc"
    and "NewWeekdaySet days = Inr wds" "1 \<le> limit" "limit \<le> 14"
  shows "NextFullContinuousWindowsOn tzdb tz start stop wds envStart envEnd atOrAfter limit = Inl TooFewWindows \<longleftrightarrow>
    finite {d. complete_window loc start stop wds envStart envEnd atOrAfter d} \<and>
    int (card {d. complete_window loc start stop wds envStart envEnd atOrAfter d}) < limit"
proof -
  let ?C = "complete_window loc start stop wds envStart envEnd atOrAfter"
  define p where "p = local_day loc (if atOrAfter < envStart then envStart else atOrAfter) - 1"
  define D where "D = [p..p + (limit * 7 + 8) - 1]"
  have result: "NextFullContinuousWindowsOn tzdb tz start stop wds envStart envEnd atOrAfter limit = Inl TooFewWindows \<longleftrightarrow>
      int (length (filter ?C D)) < limit"
    using assms(4,5) NewWeekdaySet_nonzero [OF assms(3)]
    unfolding window_calendar.next_full_value [OF assms(1,2)] Let_def p_def [symmetric] D_def [symmetric] by simp
  have card: "length (filter ?C D) = card (set (filter ?C D))"
    by (rule distinct_card [symmetric]) (simp add: D_def)
  have low: "p \<le> d" if "?C d" for d
    using window_calendar.complete_window_day [OF assms(1) that] by (simp add: p_def)
  show ?thesis
  proof (cases "\<exists>e. ?C e \<and> p + (limit * 7 + 8) - 1 < e")
    case True
    then obtain e where e: "?C e" "p + (limit * 7 + 8) - 1 < e" by blast
    then have enough: "limit \<le> int (length (filter ?C D))"
      unfolding p_def D_def using assms(4) by (intro window_calendar.scan_suffices [OF assms(1,3) e(1)]) simp_all
    moreover have "length (filter ?C D) \<le> card {d. ?C d}" if "finite {d. ?C d}"
      unfolding card using that by (intro card_mono) auto
    ultimately show ?thesis unfolding result by linarith
  next
    case False
    then have "{d. ?C d} = set (filter ?C D)" using low by (force simp: D_def)
    then show ?thesis unfolding result card by simp
  qed
qed

theorem next_full_windows_error_witness:
  "NextFullContinuousWindowsOn example_tzdb [] midnight midnight AllWeekdays 0 (172800 * second) 0 3 = Inl TooFewWindows"
proof -
  have "onDay midnight d utc = d * 86400000000000" for d
    by (simp add: onDay_def go_date_def utc_fixed secondsOfDay_def midnight_def)
  then have "{d. complete_window utc midnight midnight AllWeekdays 0 (172800 * second) 0 d} \<subseteq> {0, 1}"
    by (auto simp: complete_window_def opens_at_def closes_at_def IsOvernightWindow_def is_zero_def zero_time_def)
  then have "finite {d. complete_window utc midnight midnight AllWeekdays 0 (172800 * second) 0 d} \<and>
      card {d. complete_window utc midnight midnight AllWeekdays 0 (172800 * second) 0 d} \<le> card {0, 1 :: int}"
    by (metis card_mono finite.emptyI finite_insert finite_subset)
  moreover have "LoadLocation example_tzdb [] = Inr utc" by (simp add: LoadLocation_def TrimSpace_def)
  moreover have "NewWeekdaySet [1, 2, 3, 4, 5, 6, 7] = Inr AllWeekdays"
    by (simp add: NewWeekdaySet_def AllWeekdays_def push_bit_of_1)
  ultimately show ?thesis
    using next_full_windows_error [OF utc_full_day.window_calendar_axioms, of example_tzdb "[]" _ AllWeekdays 3] by simp
qed

section \<open>Clocks that go forward at midnight\<close>

lemma next_open_stuck:
  assumes "forward_at_midnight loc d off by" "onDay start d loc \<le> after"
  shows "next_open_scan n loc start wds envStart envEnd after d = zero_time"
  using assms(2) by (induction n) (simp_all add: forward_next(2) [OF assms(1)])

text \<open>C17: West of UTC, where clocks go forward at the midnight of a day, the day arithmetic does not advance. The date after that
  day is the same day and the date before it skips a day. On that day, once its own opening has passed, \<open>NextWindowOpenUTCOn\<close>
  reports no further opening, whatever opens on later days, and an overnight window that has opened is reported with an end on
  the day itself instead of the next.\<close>

theorem midnight_change_stops_the_walk:
  assumes "forward_at_midnight loc d off by" "LoadLocation tzdb tz = Inr loc"
  shows "nextLocalDate d loc = d \<and> prevLocalDate d loc = d - 2 \<and>
    (local_day loc (max after envStart) = d \<and> opens_at loc start d \<le> after \<longrightarrow>
       NextWindowOpenUTCOn tzdb tz start wds envStart envEnd after = Inr zero_time) \<and>
    (IsOvernightWindow start stop \<and> local_day loc now = d \<and> opens_at loc start d \<le> now \<and> Contains wds (weekday_of_day d) \<and>
       in_envelope envStart envEnd now \<longrightarrow>
       currentOpenContinuousWindowOn tzdb tz start stop wds envStart envEnd now = Inr (True, opens_at loc start d, opens_at loc stop d))"
proof (intro conjI impI)
  show same: "nextLocalDate d loc = d" by (simp add: nextLocalDate_def forward_next(2) [OF assms(1)])
  show "prevLocalDate d loc = d - 2" by (simp add: prevLocalDate_def forward_previous [OF assms(1)])
  {
    assume "local_day loc (max after envStart) = d \<and> opens_at loc start d \<le> after"
    then show "NextWindowOpenUTCOn tzdb tz start wds envStart envEnd after = Inr zero_time"
      using next_open_stuck [OF assms(1), of start after 372 wds envStart envEnd]
      by (auto simp: NextWindowOpenUTCOn_def assms(2) Let_def opens_at_def max_def split: if_splits simp del: next_open_scan.simps)
  }
  assume "IsOvernightWindow start stop \<and> local_day loc now = d \<and> opens_at loc start d \<le> now \<and> Contains wds (weekday_of_day d) \<and> in_envelope envStart envEnd now"
  then show "currentOpenContinuousWindowOn tzdb tz start stop wds envStart envEnd now = Inr (True, opens_at loc start d, opens_at loc stop d)"
    using same by (auto simp: currentOpenContinuousWindowOn_def assms(2) Let_def opens_at_def clampToEnvelope_def in_envelope_def weekday_def)
qed

definition ten_am :: TimeOfDay where "ten_am = \<lparr>Hour = 10, Minute = 0, Second = 0\<rparr>"

lemma date_unix_santiago:
  "date_unix santiago_2026 d s =
     (let u = d * day_seconds + s in
      if u < 1788667200 then (if 1788667200 \<le> u + 14400 then u + 10800 else u + 14400)
      else if u + 10800 < 1788667200 then u + 14400 else u + 10800)"
  by (simp add: date_unix_def lookup_def santiago_2026_def offset_at_def Let_def)

lemmas santiago_simps = local_day_def local_seconds_def unix_def offset_at_santiago go_date_def date_unix_santiago
  add_days_def local_clock_def nsec_def

text \<open>Santiago on September 6, 2026 (day 20702): a window opens at ten the next morning, but none is found, and a window open since
  ten in the evening is reported with an end at six that morning.\<close>

theorem midnight_change_stops_the_walk_witness:
  "nextLocalDate 20702 santiago_2026 = 20702 \<and>
   NextWindowOpenUTC example_tzdb ''America/Santiago'' ten_am 0 zero_time (1788706800 * second) = Inr zero_time \<and>
   may_open santiago_2026 ten_am AllWeekdays 0 (1788706800 * second) 20703 \<and>
   currentOpenContinuousWindow example_tzdb ''America/Santiago'' ten_pm six_am 0 zero_time (1788748200 * second) =
     Inr (True, 1788742800 * second, 1788685200 * second)"
proof (intro conjI)
  have loc: "LoadLocation example_tzdb ''America/Santiago'' = Inr santiago_2026"
    by (simp add: LoadLocation_def TrimSpace_def example_tzdb_def is_space_def)
  have sunday: "Contains AllWeekdays 0" "Contains AllWeekdays 1"
    by (simp_all add: Contains_def AllWeekdays_def push_bit_of_1)
  note stops = midnight_change_stops_the_walk [OF forward_santiago loc]
  show "nextLocalDate 20702 santiago_2026 = 20702" using stops by blast
  have open_at: "opens_at santiago_2026 ten_am 20702 = 1788699600 * second" "opens_at santiago_2026 ten_pm 20702 = 1788742800 * second"
      "opens_at santiago_2026 six_am 20702 = 1788685200 * second"
    by (simp_all add: opens_at_def onDay_def go_date_def secondsOfDay_def ten_am_def ten_pm_def six_am_def date_unix_santiago)
  have day: "local_day santiago_2026 (1788706800 * second) = 20702" "local_day santiago_2026 (1788748200 * second) = 20702"
    by (simp_all add: local_day_def local_seconds_def unix_def offset_at_santiago)
  show "NextWindowOpenUTC example_tzdb ''America/Santiago'' ten_am 0 zero_time (1788706800 * second) = Inr zero_time"
    using stops day open_at by (simp add: NextWindowOpenUTC_def max_def)
  show "may_open santiago_2026 ten_am AllWeekdays 0 (1788706800 * second) 20703"
    by (simp add: may_open_def opens_at_def onDay_def go_date_def secondsOfDay_def ten_am_def date_unix_santiago
        weekday_of_day_def sunday)
  have "IsOvernightWindow ten_pm six_am" "Contains AllWeekdays (weekday_of_day 20702)" "in_envelope 0 zero_time (1788748200 * second)"
    using sunday by (simp_all add: IsOvernightWindow_def ten_pm_def six_am_def secondsOfDay_def weekday_of_day_def in_envelope_def is_zero_def)
  then show "currentOpenContinuousWindow example_tzdb ''America/Santiago'' ten_pm six_am 0 zero_time (1788748200 * second) =
     Inr (True, 1788742800 * second, 1788685200 * second)"
    using stops day open_at by (simp add: currentOpenContinuousWindow_def)
qed

end
