(* ===== verification/Cron.thy ===== *)
theory Cron
  imports Windows
begin

text \<open>
  Cron schedules: \<open>recsched/cron.go\<close>. The parser and the schedules it returns are the library
  \<open>robfig/cron\<close>, and time zones are the system's database: both are parameters, bundled in
  \<open>timelib\<close>. The locale \<open>cron_schedule\<close> states what the library documents of \<open>Next\<close>.
\<close>

section \<open>The libraries\<close>

text \<open>A parsed schedule in a location: \<open>Next\<close>, the zero time for no further fire.\<close>

type_synonym schedule = "gotime \<Rightarrow> gotime"

record timelib =
  tz_database :: "string \<Rightarrow> location option"
  parse_standard :: "string \<Rightarrow> (location \<Rightarrow> schedule) option"

locale cron_schedule =
  fixes Next :: schedule
  assumes later: "Next t \<noteq> zero_time \<Longrightarrow> t < Next t"
    and next_skip: "t \<le> u \<Longrightarrow> u < Next t \<Longrightarrow> Next t \<noteq> zero_time \<Longrightarrow> Next u = Next t"
    and whole_second: "Next t mod second = 0"
    and none_soon: "Next t = zero_time \<Longrightarrow> t < Next u \<Longrightarrow> Next u \<noteq> zero_time \<Longrightarrow> t + 365 * 24 * hour < Next u"
begin

text \<open>The fires of the schedule.\<close>

definition fire :: "gotime \<Rightarrow> bool" where
  "fire f \<longleftrightarrow> f \<noteq> zero_time \<and> (\<exists>t. f = Next t)"

lemma fire_Next: "Next t \<noteq> zero_time \<Longrightarrow> fire (Next t)"
  by (auto simp: fire_def)

lemma no_fire_between: "Next t \<noteq> zero_time \<Longrightarrow> fire f \<Longrightarrow> t < f \<Longrightarrow> Next t \<le> f"
proof (rule ccontr)
  assume a: "Next t \<noteq> zero_time" "fire f" "t < f" "\<not> Next t \<le> f"
  then obtain u where u: "f = Next u" "f \<noteq> zero_time" by (auto simp: fire_def)
  show False
  proof (cases "u \<le> t")
    case True
    then have "Next t = f" using next_skip [of u t] u a by simp
    with a show False by simp
  next
    case False
    moreover have "u < f" using later u by metis
    ultimately have "Next u = Next t" using next_skip [of t u] a by simp
    with u a show False by simp
  qed
qed

lemma fire_before: "fire f \<Longrightarrow> Next (f - 1) = f"
proof -
  assume "fire f"
  then obtain t where "f = Next t" "f \<noteq> zero_time" by (auto simp: fire_def)
  then show ?thesis using later [of t] next_skip [of t "f - 1"] by auto
qed

end

section \<open>Parsing\<close>

datatype cron_error =
    EmptyCron | CronDescriptor | CronFieldCount | CronSyntax | CronZone
  | BadMinInterval | BadClipDuration | NeverFires | FiresTooOften | ClipTooLong

definition ParseCron :: "'a timelib_scheme \<Rightarrow> string \<Rightarrow> cron_error + (location \<Rightarrow> schedule)" where
  "ParseCron lib expr =
     (let trimmed = TrimSpace expr in
      if trimmed = [] then Inl EmptyCron
      else if HasPrefix trimmed ''@'' then Inl CronDescriptor
      else if length (Fields trimmed) \<noteq> 5 then Inl CronFieldCount
      else (case parse_standard lib trimmed of None \<Rightarrow> Inl CronSyntax | Some sched \<Rightarrow> Inr sched))"

definition NextFireUTC :: "'a timelib_scheme \<Rightarrow> string \<Rightarrow> string \<Rightarrow> gotime \<Rightarrow> cron_error + gotime" where
  "NextFireUTC lib expr tz after =
     (case ParseCron lib expr of Inl e \<Rightarrow> Inl e | Inr sched \<Rightarrow>
      (case LoadLocation (tz_database lib) tz of Inl e \<Rightarrow> Inl CronZone | Inr loc \<Rightarrow>
       (let t = sched loc after in if is_zero t then Inr zero_time else Inr t)))"

section \<open>Validation\<close>

definition cronProbeWindow :: duration where
  "cronProbeWindow = 7 * 24 * hour"

text \<open>The unbounded loop of \<open>minGapSeconds\<close>: \<open>None\<close> if it does not end.\<close>

partial_function (option) gap_loop :: "schedule \<Rightarrow> gotime \<Rightarrow> gotime \<Rightarrow> int \<Rightarrow> int option" where
  "gap_loop next deadline cursor minGap =
     (let n = next cursor in
      if is_zero n \<or> deadline < n then Some minGap
      else (let gap = go_quot (time_sub n cursor) second
            in gap_loop next deadline n (if gap > 0 \<and> (minGap < 0 \<or> gap < minGap) then gap else minGap)))"

definition minGapSeconds :: "schedule \<Rightarrow> gotime \<Rightarrow> (cron_error + int) option" where
  "minGapSeconds next start =
     (let deadline = start + cronProbeWindow; prev = next start in
      if is_zero prev \<or> deadline < prev then Some (Inl NeverFires)
      else (case gap_loop next deadline prev (- 1) of None \<Rightarrow> None
            | Some minGap \<Rightarrow> Some (Inr (if minGap < 0 then go_quot cronProbeWindow second else minGap))))"

text \<open>\<open>now\<close> is the clock \<open>minGapSeconds\<close> reads.\<close>

definition ValidateCronForCreate ::
    "'a timelib_scheme \<Rightarrow> gotime \<Rightarrow> string \<Rightarrow> string \<Rightarrow> int \<Rightarrow> int \<Rightarrow> (cron_error + unit) option" where
  "ValidateCronForCreate lib now expr tz minIntervalSec clipDurationSec =
     (if minIntervalSec \<le> 0 then Some (Inl BadMinInterval)
      else if clipDurationSec \<le> 0 then Some (Inl BadClipDuration)
      else case ParseCron lib expr of Inl e \<Rightarrow> Some (Inl e) | Inr sched \<Rightarrow>
      (case LoadLocation (tz_database lib) tz of Inl e \<Rightarrow> Some (Inl CronZone) | Inr loc \<Rightarrow>
      (case minGapSeconds (sched loc) now of None \<Rightarrow> None | Some (Inl e) \<Rightarrow> Some (Inl e) | Some (Inr minGap) \<Rightarrow>
       if minGap < minIntervalSec then Some (Inl FiresTooOften)
       else if clipDurationSec \<ge> minGap then Some (Inl ClipTooLong)
       else Some (Inr ()))))"

context cron_schedule
begin

definition gap_seconds :: "gotime \<Rightarrow> int" where
  "gap_seconds f = (Next f - f) div second"

lemma fire_second: "fire f \<Longrightarrow> f mod second = 0"
  using whole_second by (auto simp: fire_def)

lemma fire_later: "fire (Next f) \<Longrightarrow> f < Next f"
  using later by (auto simp: fire_def)

lemma gap_seconds_pos: "fire f \<Longrightarrow> fire (Next f) \<Longrightarrow> 1 \<le> gap_seconds f"
proof -
  assume "fire f" "fire (Next f)"
  then have "second dvd Next f - f" "f < Next f" using fire_second fire_later by (auto intro: dvd_diff)
  then have "second \<le> Next f - f" by (intro zdvd_imp_le) auto
  then show ?thesis unfolding gap_seconds_def using zdiv_mono1 [of second "Next f - f" second] by simp
qed

lemma next_fire: "fire f \<Longrightarrow> t < f \<Longrightarrow> f \<le> t + cronProbeWindow \<Longrightarrow> fire (Next t) \<and> Next t \<le> f"
  using none_soon [of t] no_fire_between [of t f] fire_Next [of t]
  by (fastforce simp: fire_def cronProbeWindow_def)

lemma gap_value: "fire (Next c) \<Longrightarrow> Next c - c \<le> cronProbeWindow \<Longrightarrow> go_quot (time_sub (Next c) c) second = gap_seconds c"
  using fire_later [of c]
  by (simp add: time_sub_exact go_quot_nonneg gap_seconds_def cronProbeWindow_def min_duration_def max_duration_def)

text \<open>The pairs of consecutive fires from \<open>c\<close> to the deadline.\<close>

definition pair :: "gotime \<Rightarrow> gotime \<Rightarrow> gotime \<Rightarrow> bool" where
  "pair deadline c f \<longleftrightarrow> fire f \<and> c \<le> f \<and> fire (Next f) \<and> Next f \<le> deadline"

lemma pair_step:
  assumes "fire c" "deadline - c \<le> cronProbeWindow"
  shows "pair deadline c f \<longleftrightarrow> fire (Next c) \<and> Next c \<le> deadline \<and> (f = c \<or> pair deadline (Next c) f)"
proof (cases "f = c")
  case True
  then show ?thesis using assms(1) by (auto simp: pair_def)
next
  case False
  have "fire (Next c) \<and> Next c \<le> f" if "pair deadline c f"
    using that False assms fire_later [of f] by (intro next_fire) (auto simp: pair_def)
  then show ?thesis using False fire_later [of c] fire_later [of f] by (auto simp: pair_def)
qed

text \<open>The loop ends, with the least gap between consecutive fires from \<open>c\<close> to the deadline, or its
  accumulator \<open>m\<close> when that is set and less.\<close>

lemma gap_loop_spec:
  assumes "fire c" "deadline - c \<le> cronProbeWindow" "m = - 1 \<or> 0 < m"
  shows "\<exists>r. gap_loop Next deadline c m = Some r \<and> (r = - 1 \<or> 0 < r) \<and>
    (\<forall>f. pair deadline c f \<longrightarrow> 0 < r \<and> r \<le> gap_seconds f) \<and> (0 < m \<longrightarrow> 0 < r \<and> r \<le> m) \<and>
    (r = m \<or> (\<exists>f. pair deadline c f \<and> r = gap_seconds f))"
  using assms
proof (induction "nat (deadline - c)" arbitrary: c m rule: less_induct)
  case less
  note step = pair_step [OF less.prems(1,2)]
  show ?case
  proof (cases "fire (Next c) \<and> Next c \<le> deadline")
    case False
    then have "is_zero (Next c) \<or> deadline < Next c" by (auto simp: fire_def is_zero_def)
    then show ?thesis using False less.prems step by (auto simp: gap_loop.simps [of _ _ c] Let_def)
  next
    case True
    define g where "g = gap_seconds c"
    define m' where "m' = (if g > 0 \<and> (m < 0 \<or> g < m) then g else m)"
    have lt: "c < Next c" and g: "1 \<le> g"
      using True fire_later gap_seconds_pos less.prems(1) by (auto simp: g_def)
    have m': "m' = - 1 \<or> 0 < m'" and m_le: "0 < m' \<and> m' \<le> g" "0 < m \<longrightarrow> m' \<le> m" "m' = m \<or> m' = g"
      using g less.prems(3) by (auto simp: m'_def)
    have "\<not> (is_zero (Next c) \<or> deadline < Next c)" using True by (auto simp: fire_def is_zero_def)
    then have "gap_loop Next deadline c m = gap_loop Next deadline (Next c) m'"
      using gap_value [of c] True less.prems(2)
      by (subst gap_loop.simps) (auto simp: Let_def m'_def g_def)
    moreover obtain r where r: "gap_loop Next deadline (Next c) m' = Some r" "r = - 1 \<or> 0 < r"
      "\<forall>f. pair deadline (Next c) f \<longrightarrow> 0 < r \<and> r \<le> gap_seconds f" "0 < m' \<longrightarrow> 0 < r \<and> r \<le> m'"
      "r = m' \<or> (\<exists>f. pair deadline (Next c) f \<and> r = gap_seconds f)"
      using less.hyps [of "Next c" m'] True lt less.prems(2) m' by (auto simp: nat_less_iff)
    ultimately show ?thesis
      using True m_le step by (intro exI [of _ r]) (auto simp: g_def)
  qed
qed

lemma gap_seconds_exact:
  assumes "fire f" "fire (Next f)"
  shows "gap_seconds f * second = Next f - f"
proof -
  have "second dvd Next f - f" using assms fire_second by (auto intro: dvd_diff)
  then show ?thesis by (simp add: gap_seconds_def)
qed

lemma minGapSeconds_spec:
  fixes start :: gotime
  defines "deadline \<equiv> start + cronProbeWindow"
  shows "if \<exists>f. fire f \<and> start < f \<and> f \<le> deadline
    then \<exists>g. minGapSeconds Next start = Some (Inr g) \<and>
      (\<forall>f. pair deadline (start + 1) f \<longrightarrow> g \<le> gap_seconds f) \<and>
      (g = 604800 \<or> (\<exists>f. pair deadline (start + 1) f \<and> g = gap_seconds f)) \<and> g \<le> 604800
    else minGapSeconds Next start = Some (Inl NeverFires)"
proof (cases "\<exists>f. fire f \<and> start < f \<and> f \<le> deadline")
  case True
  then obtain f where "fire f" "start < f" "f \<le> deadline" by blast
  then have first: "fire (Next start)" "Next start \<le> deadline" "start < Next start"
    using next_fire [of f start] fire_later [of start] by (auto simp: deadline_def)
  obtain r where r: "gap_loop Next deadline (Next start) (- 1) = Some r" "r = - 1 \<or> 0 < r"
    "\<forall>f. pair deadline (Next start) f \<longrightarrow> 0 < r \<and> r \<le> gap_seconds f"
    "r = - 1 \<or> (\<exists>f. pair deadline (Next start) f \<and> r = gap_seconds f)"
    using gap_loop_spec [OF first(1), of deadline "- 1"] first(3) by (auto simp: deadline_def)
  have same: "pair deadline (start + 1) f \<longleftrightarrow> pair deadline (Next start) f" for f
  proof -
    have "fire f \<Longrightarrow> start + 1 \<le> f \<longleftrightarrow> Next start \<le> f"
      using no_fire_between [of start f] first by (auto simp: fire_def)
    then show ?thesis by (auto simp: pair_def)
  qed
  have short: "gap_seconds f \<le> 604800" if "pair deadline (start + 1) f" for f
  proof -
    have "Next f - f \<le> 604800 * second" using that by (simp add: pair_def deadline_def cronProbeWindow_def)
    then show ?thesis unfolding gap_seconds_def using zdiv_mono1 [of "Next f - f" "604800 * second" second] by simp
  qed
  have "minGapSeconds Next start = Some (Inr (if r < 0 then 604800 else r))"
    using first r(1) by (auto simp: minGapSeconds_def deadline_def is_zero_def fire_def Let_def go_quot_nonneg cronProbeWindow_def)
  then show ?thesis using True r short unfolding same by auto
next
  case False
  then have "is_zero (Next start) \<or> deadline < Next start"
    using fire_Next [of start] later [of start] by (auto simp: is_zero_def not_le)
  then have "minGapSeconds Next start = Some (Inl NeverFires)"
    by (simp add: minGapSeconds_def deadline_def Let_def)
  then show ?thesis using False by simp
qed

end

text \<open>A schedule of the kind the library returns: \<open>30 * * * *\<close> in UTC, half past every hour.\<close>

definition half_past :: schedule where
  "half_past t = ((t - 30 * minute) div hour + 1) * hour + 30 * minute"

lemma half_past_bounds: "t < half_past t \<and> half_past t \<le> t + hour"
proof -
  have "(t - 30 * minute) div hour * hour + (t - 30 * minute) mod hour = t - 30 * minute"
    "0 \<le> (t - 30 * minute) mod hour" "(t - 30 * minute) mod hour < hour"
    by simp_all
  then show ?thesis unfolding half_past_def distrib_right by linarith
qed

lemma half_past_mod: "half_past t mod hour = 30 * minute"
  unfolding half_past_def by (subst add.commute, subst mod_mult_self1) simp

lemma half_past_nonzero: "half_past t \<noteq> zero_time"
proof
  assume "half_past t = zero_time"
  then have "half_past t mod hour = 0" by (simp add: zero_time_def)
  then show False by (simp add: half_past_mod)
qed

lemma half_past_second: "half_past t mod second = 0"
proof -
  have "half_past t = (((t - 30 * minute) div hour + 1) * 3600 + 1800) * second"
    unfolding half_past_def by simp
  then show ?thesis by (metis mod_mult_self2_is_0)
qed

lemma half_past_skip: "t \<le> u \<Longrightarrow> u < half_past t \<Longrightarrow> half_past u = half_past t"
proof -
  assume "t \<le> u" "u < half_past t"
  moreover have "half_past t \<le> half_past u \<and> half_past u < half_past t + hour"
    if "t \<le> u" "u < half_past t"
  proof
    show "half_past t \<le> half_past u"
      using that(1) by (simp add: half_past_def zdiv_mono1)
    have "(u - 30 * minute) div hour \<le> (half_past t - 1 - 30 * minute) div hour"
      using that(2) by (intro zdiv_mono1) auto
    also have "\<dots> = (t - 30 * minute) div hour"
    proof -
      have "half_past t - 1 - 30 * minute = (hour - 1) + (t - 30 * minute) div hour * hour"
        unfolding half_past_def by simp
      then show ?thesis by simp
    qed
    finally show "half_past u < half_past t + hour" by (simp add: half_past_def)
  qed
  ultimately have "\<bar>half_past u - half_past t\<bar> < hour" by auto
  then show ?thesis by (simp add: half_past_def)
qed

interpretation half_past: cron_schedule half_past
  by unfold_locales (use half_past_bounds half_past_nonzero half_past_skip half_past_second in auto)

definition example_lib :: timelib where
  "example_lib = \<lparr>tz_database = example_tzdb,
     parse_standard = (\<lambda>e. if e = ''30 * * * *'' then Some (\<lambda>loc. half_past) else None)\<rparr>"

lemma parse_half_past: "ParseCron example_lib ''30 * * * *'' = Inr (\<lambda>loc. half_past)"
  by (simp add: ParseCron_def example_lib_def TrimSpace_def Fields_def is_space_def Let_def)

section \<open>Properties\<close>

text \<open>C18: for a schedule that parses in a known zone, \<open>ValidateCronForCreate\<close> always returns, and
  accepts exactly when the schedule fires within seven days, all consecutive fires up to then are at
  least the minimum interval apart, and the clip is shorter than every gap (and than seven days).\<close>

theorem validate_cron_correct:
  assumes "ParseCron lib expr = Inr sched" "LoadLocation (tz_database lib) tz = Inr loc"
    and "cron_schedule (sched loc)" "0 < minIntervalSec" "0 < clipDurationSec"
  shows "\<exists>r. ValidateCronForCreate lib now expr tz minIntervalSec clipDurationSec = Some r \<and>
    (r = Inr () \<longleftrightarrow> minIntervalSec \<le> 604800 \<and> clipDurationSec < 604800 \<and>
      (\<exists>f. cron_schedule.fire (sched loc) f \<and> now < f \<and> f \<le> now + 604800 * second) \<and>
      (\<forall>f. cron_schedule.fire (sched loc) f \<and> now < f \<and> cron_schedule.fire (sched loc) (sched loc f) \<and>
           sched loc f \<le> now + 604800 * second \<longrightarrow>
           minIntervalSec * second \<le> sched loc f - f \<and> clipDurationSec * second < sched loc f - f))"
proof -
  let ?N = "sched loc" and ?d = "now + cronProbeWindow"
  note pair = cron_schedule.pair_def [OF assms(3)]
  have d: "now + 604800 * second = ?d" by (simp add: cronProbeWindow_def)
  have start: "now + 1 \<le> f \<longleftrightarrow> now < f" for f by arith
  have gap: "minIntervalSec \<le> cron_schedule.gap_seconds ?N f \<longleftrightarrow> minIntervalSec * second \<le> ?N f - f"
    "clipDurationSec < cron_schedule.gap_seconds ?N f \<longleftrightarrow> clipDurationSec * second < ?N f - f"
    if "cron_schedule.pair ?N ?d (now + 1) f" for f
    using cron_schedule.gap_seconds_exact [OF assms(3), of f] that by (auto simp: pair)
  show ?thesis
  proof (cases "\<exists>f. cron_schedule.fire ?N f \<and> now < f \<and> f \<le> ?d")
    case True
    then obtain g where g: "minGapSeconds ?N now = Some (Inr g)" "g \<le> 604800"
      "\<forall>f. cron_schedule.pair ?N ?d (now + 1) f \<longrightarrow> g \<le> cron_schedule.gap_seconds ?N f"
      "g = 604800 \<or> (\<exists>f. cron_schedule.pair ?N ?d (now + 1) f \<and> g = cron_schedule.gap_seconds ?N f)"
      using cron_schedule.minGapSeconds_spec [OF assms(3), of now] by auto
    have "minIntervalSec \<le> g \<and> clipDurationSec < g \<longleftrightarrow> minIntervalSec \<le> 604800 \<and> clipDurationSec < 604800 \<and>
       (\<forall>f. cron_schedule.pair ?N ?d (now + 1) f \<longrightarrow>
          minIntervalSec \<le> cron_schedule.gap_seconds ?N f \<and> clipDurationSec < cron_schedule.gap_seconds ?N f)"
      using g(2-4) by fastforce
    also have "\<dots> \<longleftrightarrow> minIntervalSec \<le> 604800 \<and> clipDurationSec < 604800 \<and>
       (\<forall>f. cron_schedule.pair ?N ?d (now + 1) f \<longrightarrow>
          minIntervalSec * second \<le> ?N f - f \<and> clipDurationSec * second < ?N f - f)"
      using gap by blast
    finally show ?thesis
      using assms(1,2,4,5) g(1) True unfolding d pair start by (auto simp: ValidateCronForCreate_def)
  next
    case False
    then have "minGapSeconds ?N now = Some (Inl NeverFires)"
      using cron_schedule.minGapSeconds_spec [OF assms(3), of now] by simp
    then show ?thesis using assms False unfolding d by (auto simp: ValidateCronForCreate_def)
  qed
qed

theorem validate_cron_correct_witness:
  "ValidateCronForCreate example_lib 0 ''30 * * * *'' [] 600 60 = Some (Inr ())"
proof -
  have "half_past.fire (half_past 0)" using half_past_nonzero by (intro half_past.fire_Next)
  moreover have "0 < half_past 0" "half_past 0 \<le> 604800 * second" using half_past_bounds [of 0] by simp_all
  moreover have "half_past f = f + hour" if "half_past.fire f" for f
  proof -
    from that obtain t where "f = half_past t" by (auto simp: half_past.fire_def)
    then show ?thesis by (simp add: half_past_def)
  qed
  moreover have "LoadLocation (tz_database example_lib) [] = Inr utc" by (simp add: LoadLocation_def TrimSpace_def)
  ultimately show ?thesis
    using validate_cron_correct [OF parse_half_past, of "[]" utc 600 60 0] half_past.cron_schedule_axioms by fastforce
qed

end
