(* ===== verification/Coverage.thy ===== *)
theory Coverage
  imports Cron
begin

text \<open>
  Expected clips of a schedule over a range: \<open>recsched/coverage.go\<close>. A walk returns the number it counts
  and the list of instants it yields; without a callback (\<open>collect\<close> false) the list is empty.
\<close>

datatype coverage_error =
    ClipNotPositive | BadScheduleShape | CoverageCron cron_error | CoverageZone | CoverageTooLarge

definition maxCoverageDays :: nat where "maxCoverageDays = 36600"
definition maxSampledClips :: nat where "maxSampledClips = 500000"
definition maxExpandedClipStarts :: nat where "maxExpandedClipStarts = 600000"

definition minTime :: "gotime \<Rightarrow> gotime \<Rightarrow> gotime" where
  "minTime a b = (if a < b then a else b)"

definition maxTime :: "gotime \<Rightarrow> gotime \<Rightarrow> gotime" where
  "maxTime a b = (if a > b then a else b)"

section \<open>Sampled schedules\<close>

text \<open>\<open>limit\<close> is what is left of the limit; the fires up to \<open>latestFire\<close> are listed.\<close>

fun sampled_loop :: "nat \<Rightarrow> schedule \<Rightarrow> gotime \<Rightarrow> gotime \<Rightarrow> coverage_error + gotime list" where
  "sampled_loop limit next latestFire fire =
     (if is_zero fire \<or> latestFire < fire then Inr []
      else case limit of 0 \<Rightarrow> Inl CoverageTooLarge
      | Suc n \<Rightarrow> (case sampled_loop n next latestFire (next fire) of
          Inl e \<Rightarrow> Inl e | Inr fires \<Rightarrow> Inr (fire # fires)))"

declare sampled_loop.simps [simp del]

definition walkExpectedSampledClipStarts ::
    "'a timelib_scheme \<Rightarrow> string \<Rightarrow> string \<Rightarrow> int \<Rightarrow> gotime \<Rightarrow> gotime \<Rightarrow> nat \<Rightarrow> bool \<Rightarrow> coverage_error + (int \<times> gotime list)" where
  "walkExpectedSampledClipStarts lib expr timezone clipDurationSec start until limit collect =
     (case ParseCron lib expr of Inl e \<Rightarrow> Inl (CoverageCron e) | Inr schedule \<Rightarrow>
      (case LoadLocation (tz_database lib) timezone of Inl e \<Rightarrow> Inl CoverageZone | Inr loc \<Rightarrow>
       let latestFire = until - clipDurationSec * second in
       if latestFire < start then Inr (0, [])
       else (case sampled_loop limit (schedule loc) latestFire (schedule loc (start - 1)) of
          Inl e \<Rightarrow> Inl e
        | Inr fires \<Rightarrow> Inr (int (length fires), if collect then fires else []))))"

section \<open>Continuous schedules\<close>

text \<open>The slots \<open>slot..last-1\<close> of one window; \<open>count\<close> clips were yielded before.\<close>

fun slot_loop :: "nat \<Rightarrow> nat \<Rightarrow> int \<Rightarrow> gotime \<Rightarrow> duration \<Rightarrow> int \<Rightarrow> coverage_error + (int \<times> gotime list)" where
  "slot_loop 0 limit count anchor segment slot = Inr (count, [])"
| "slot_loop (Suc n) limit count anchor segment slot =
     (if count + 1 > int limit then Inl CoverageTooLarge
      else case slot_loop n limit (count + 1) anchor segment (slot + 1) of
        Inl e \<Rightarrow> Inl e | Inr (c, slots) \<Rightarrow> Inr (c, (anchor + slot * segment) # slots))"

text \<open>The first and one past the last slot of the window that opens at \<open>opens\<close>.\<close>

definition slot_range :: "gotime \<Rightarrow> gotime \<Rightarrow> gotime \<Rightarrow> duration \<Rightarrow> gotime \<Rightarrow> gotime \<Rightarrow> gotime \<times> int \<times> int" where
  "slot_range opens closes scheduleStart segment start until =
     (let anchor = maxTime scheduleStart opens;
          first = (if start > anchor then go_quot (time_sub start anchor + segment - 1) segment else 0);
          last = go_quot (time_sub (minTime until closes) anchor) segment
      in (anchor, first, last))"

fun coverage_days ::
    "nat \<Rightarrow> location \<Rightarrow> TimeOfDay \<Rightarrow> TimeOfDay \<Rightarrow> WeekdaySet \<Rightarrow> int \<Rightarrow> gotime \<Rightarrow> gotime \<Rightarrow> gotime \<Rightarrow> nat \<Rightarrow> bool \<Rightarrow> int \<Rightarrow>
     int \<Rightarrow> coverage_error + (int \<times> gotime list)" where
  "coverage_days 0 loc windowStart windowEnd weekdays clipDurationSec scheduleStart start until limit collect day count =
     Inl CoverageTooLarge"
| "coverage_days (Suc n) loc windowStart windowEnd weekdays clipDurationSec scheduleStart start until limit collect day count =
     (let opens = onDay windowStart day loc in
      if \<not> opens < until then Inr (count, [])
      else
        let segment = clipDurationSec * second;
            closeDay = (if IsOvernightWindow windowStart windowEnd then nextLocalDate day loc else day);
            closes = onDay windowEnd closeDay loc;
            (anchor, first, last) = slot_range opens closes scheduleStart segment start until;
            visited = (if Contains weekdays (weekday loc opens) \<and> last > first
                       then (if collect then slot_loop (nat (last - first)) limit count anchor segment first
                             else Inr (count + (last - first), []))
                       else Inr (count, []))
        in case visited of Inl e \<Rightarrow> Inl e
           | Inr (count', slots) \<Rightarrow>
             (case coverage_days n loc windowStart windowEnd weekdays clipDurationSec scheduleStart start until limit collect
                     (local_day loc (add_days loc (go_date loc day 0 0) 1)) count' of
                Inl e \<Rightarrow> Inl e | Inr (count'', slots') \<Rightarrow> Inr (count'', slots @ slots')))"

definition walkExpectedContinuousClipStarts ::
    "'a timelib_scheme \<Rightarrow> string \<Rightarrow> TimeOfDay \<Rightarrow> TimeOfDay \<Rightarrow> WeekdaySet \<Rightarrow> int \<Rightarrow> gotime \<Rightarrow> gotime \<Rightarrow> gotime \<Rightarrow> nat \<Rightarrow>
     bool \<Rightarrow> coverage_error + (int \<times> gotime list)" where
  "walkExpectedContinuousClipStarts lib timezone windowStart windowEnd weekdays clipDurationSec scheduleStart start until
       limit collect =
     (case LoadLocation (tz_database lib) timezone of Inl e \<Rightarrow> Inl CoverageZone | Inr loc \<Rightarrow>
      let weekdays' = (if weekdays = 0 then AllWeekdays else weekdays);
          day = local_day loc (add_days loc start (- 1))
      in coverage_days maxCoverageDays loc windowStart windowEnd weekdays' clipDurationSec scheduleStart start until
           limit collect day 0)"

section \<open>The walk\<close>

definition walkExpectedClipStarts ::
    "'a timelib_scheme \<Rightarrow> string \<Rightarrow> string \<Rightarrow> string \<Rightarrow> TimeOfDay option \<Rightarrow> TimeOfDay option \<Rightarrow> WeekdaySet \<Rightarrow> int \<Rightarrow>
     gotime \<Rightarrow> gotime \<Rightarrow> gotime \<Rightarrow> nat \<Rightarrow> bool \<Rightarrow> coverage_error + (int \<times> gotime list)" where
  "walkExpectedClipStarts lib mode cronExpr timezone windowStart windowEnd weekdays clipDurationSec scheduleStart start
       until limit collect =
     (if clipDurationSec \<le> 0 then Inl ClipNotPositive
      else if \<not> start < until then Inr (0, [])
      else if mode = ''sampled'' then
        walkExpectedSampledClipStarts lib cronExpr timezone clipDurationSec start until limit collect
      else (case (windowStart, windowEnd) of
          (Some ws, Some we) \<Rightarrow>
            if mode \<noteq> ''continuous'' then Inl BadScheduleShape
            else walkExpectedContinuousClipStarts lib timezone ws we weekdays clipDurationSec scheduleStart start until
                   limit collect
        | _ \<Rightarrow> Inl BadScheduleShape))"

definition ExpectedClipCount ::
    "'a timelib_scheme \<Rightarrow> string \<Rightarrow> string \<Rightarrow> string \<Rightarrow> TimeOfDay option \<Rightarrow> TimeOfDay option \<Rightarrow> WeekdaySet \<Rightarrow> int \<Rightarrow>
     gotime \<Rightarrow> gotime \<Rightarrow> gotime \<Rightarrow> coverage_error + int" where
  "ExpectedClipCount lib mode cronExpr timezone windowStart windowEnd weekdays clipDurationSec scheduleStart start until =
     (case walkExpectedClipStarts lib mode cronExpr timezone windowStart windowEnd weekdays clipDurationSec scheduleStart
             start until maxSampledClips False of Inl e \<Rightarrow> Inl e | Inr (count, _) \<Rightarrow> Inr count)"

text \<open>The instants the callback is called with, in order.\<close>

definition VisitExpectedClipStarts ::
    "'a timelib_scheme \<Rightarrow> string \<Rightarrow> string \<Rightarrow> string \<Rightarrow> TimeOfDay option \<Rightarrow> TimeOfDay option \<Rightarrow> WeekdaySet \<Rightarrow> int \<Rightarrow>
     gotime \<Rightarrow> gotime \<Rightarrow> gotime \<Rightarrow> coverage_error + gotime list" where
  "VisitExpectedClipStarts lib mode cronExpr timezone windowStart windowEnd weekdays clipDurationSec scheduleStart start
       until =
     (case walkExpectedClipStarts lib mode cronExpr timezone windowStart windowEnd weekdays clipDurationSec scheduleStart
             start until maxExpandedClipStarts True of Inl e \<Rightarrow> Inl e | Inr (_, slots) \<Rightarrow> Inr slots)"

section \<open>Counting and visiting agree\<close>

lemma sampled_loop_limit:
  "sampled_loop m next latest f = Inr fs \<Longrightarrow> sampled_loop n next latest f = Inr gs \<Longrightarrow> fs = gs"
proof (induction m arbitrary: f n fs gs)
  case 0
  then show ?case
    by (auto simp: sampled_loop.simps [of 0 "next" latest f] sampled_loop.simps [of n "next" latest f] split: if_splits nat.splits)
next
  case (Suc m)
  show ?case
  proof (cases "is_zero f \<or> latest < f")
    case True
    then show ?thesis using Suc.prems by (simp add: sampled_loop.simps)
  next
    case False
    then obtain n' where n: "n = Suc n'" using Suc.prems(2) by (cases n) (simp_all add: sampled_loop.simps [of 0])
    then show ?thesis
      using Suc.prems False Suc.IH [of "next f" _ n']
      by (auto simp: sampled_loop.simps [of "Suc m"] sampled_loop.simps [of "Suc n'"] split: sum.splits)
  qed
qed

lemma slot_loop_spec:
  "slot_loop n limit count anchor segment slot = Inr (c, vs) \<Longrightarrow>
     c = count + int n \<and> vs = map (\<lambda>i. anchor + (slot + int i) * segment) [0..<n]"
proof (induction n arbitrary: count slot c vs)
  case (Suc n)
  then obtain vs' where vs: "vs = (anchor + slot * segment) # vs'"
    and "slot_loop n limit (count + 1) anchor segment (slot + 1) = Inr (c, vs')"
    by (auto split: if_splits sum.splits)
  with Suc.IH have "c = count + 1 + int n" "vs' = map (\<lambda>i. anchor + (slot + 1 + int i) * segment) [0..<n]"
    by blast+
  moreover have "[0..<Suc n] = 0 # map Suc [0..<n]" by (simp add: map_Suc_upt upt_conv_Cons del: upt.simps)
  ultimately show ?case by (simp add: vs algebra_simps del: upt.simps)
qed simp

lemma coverage_days_count:
  "coverage_days n loc ws we wds clip anchor from until limit True d count = Inr (c, vs) \<Longrightarrow>
     coverage_days n loc ws we wds clip anchor from until limit' False d count = Inr (c, []) \<and> c = count + int (length vs)"
proof (induction n arbitrary: d count c vs)
  case (Suc n)
  show ?case
  proof (cases "onDay ws d loc < until")
    case True
    define closes where "closes = onDay we (if IsOvernightWindow ws we then nextLocalDate d loc else d) loc"
    obtain a f l where range: "slot_range (onDay ws d loc) closes anchor (clip * second) from until = (a, f, l)"
      using prod_cases3 by blast
    let ?active = "Contains wds (weekday loc (onDay ws d loc)) \<and> f < l"
    obtain c1 vs1 vs2 where
      day: "(if ?active then slot_loop (nat (l - f)) limit count a (clip * second) f else Inr (count, [])) = Inr (c1, vs1)"
      and rest: "coverage_days n loc ws we wds clip anchor from until limit True
          (local_day loc (add_days loc (go_date loc d 0 0) 1)) c1 = Inr (c, vs2)" and vs: "vs = vs1 @ vs2"
      using Suc.prems True range by (auto simp: Let_def closes_def split: sum.splits if_splits)
    have "c1 = (if ?active then count + (l - f) else count)" "int (length vs1) = c1 - count"
      using day slot_loop_spec [of "nat (l - f)" limit count a "clip * second" f c1 vs1] by (auto split: if_splits)
    then show ?thesis
      using Suc.IH [OF rest] True range by (auto simp: Let_def closes_def vs)
  qed (use Suc.prems in simp)
qed simp

section \<open>The slots of a day\<close>

text \<open>The slots of local day \<open>d\<close>: whole segments counted from the window's opening or the schedule's
  start, whichever is later, inside the range and the window.\<close>

definition day_slot ::
    "location \<Rightarrow> TimeOfDay \<Rightarrow> TimeOfDay \<Rightarrow> int \<Rightarrow> gotime \<Rightarrow> gotime \<Rightarrow> gotime \<Rightarrow> int \<Rightarrow> gotime \<Rightarrow> bool" where
  "day_slot loc ws we clip scheduleStart from until d s \<longleftrightarrow>
     (\<exists>k \<ge> 0. s = max scheduleStart (opens_at loc ws d) + k * (clip * second)) \<and>
     from \<le> s \<and> s + clip * second \<le> until \<and> s + clip * second \<le> closes_at loc ws we d"

lemma ceiling_le_iff: "0 < (g::int) \<Longrightarrow> (x + g - 1) div g \<le> k \<longleftrightarrow> x \<le> k * g"
proof -
  assume g: "0 < g"
  have "(x + g - 1) div g \<le> k \<longleftrightarrow> (x + g - 1) div g < k + 1" by simp
  also have "\<dots> \<longleftrightarrow> x + g - 1 < (k + 1) * g" by (rule int_div_less_iff [OF g])
  also have "\<dots> \<longleftrightarrow> x \<le> k * g" by (auto simp: algebra_simps)
  finally show ?thesis .
qed

lemma less_quot_iff: "0 < (g::int) \<Longrightarrow> 0 \<le> k \<Longrightarrow> k < go_quot x g \<longleftrightarrow> (k + 1) * g \<le> x"
proof (cases "0 \<le> x")
  case True
  assume "0 < g" "0 \<le> k"
  then have "k + 1 \<le> x div g \<longleftrightarrow> (k + 1) * g \<le> x" by (intro int_le_div_iff)
  then show ?thesis using True \<open>0 < g\<close> by (simp add: go_quot_nonneg add1_zle_eq)
next
  case False
  assume g: "0 < g" "0 \<le> k"
  then have "0 \<le> (k + 1) * g" by simp
  then show ?thesis using False g go_quot_nonpos [of x g] by linarith
qed

text \<open>A window in a calendar whose days are shorter than a duration can express.\<close>

locale coverage_calendar = window_calendar +
  assumes short_days: "opens_at loc start (d + 2) \<le> opens_at loc start d + max_duration"
begin

lemma closes_before_next: "d < e \<Longrightarrow> closes_at loc start stop d \<le> opens_at loc start e"
proof -
  assume "d < e"
  have "closes_at loc start stop d \<le> opens_at loc start (d + 1)"
    using night_order [of "d + 1"] onDay_mono [OF valid_stop valid_start, of d "d + 1"]
    by (auto simp: closes_at_def opens_at_def)
  moreover have "opens_at loc start (d + 1) \<le> opens_at loc start e"
    using opens_at_mono [OF valid_start, of e "d + 1"] \<open>d < e\<close> by linarith
  ultimately show ?thesis by simp
qed

lemma slot_range_spec:
  assumes "0 < seg" "from < opens_at loc start (d + 2)"
    and "slot_range (opens_at loc start d) (closes_at loc start stop d) sched seg from until = (a, f, l)"
  shows "a = max sched (opens_at loc start d)" "0 \<le> f"
    and "0 \<le> k \<Longrightarrow> f \<le> k \<longleftrightarrow> from \<le> a + k * seg"
    and "0 \<le> k \<Longrightarrow> k < l \<longleftrightarrow> a + k * seg + seg \<le> until \<and> a + k * seg + seg \<le> closes_at loc start stop d"
proof -
  let ?o = "opens_at loc start d" and ?c = "closes_at loc start stop d"
  show a: "a = max sched ?o" using assms(3) by (auto simp: slot_range_def Let_def maxTime_def)
  have f: "f = (if a < from then (from - a + seg - 1) div seg else 0)"
    and l: "l = go_quot (time_sub (min until ?c) a) seg"
  proof -
    have "time_sub from a = from - a" if "a < from"
      using that assms(2) short_days [of d] a by (intro time_sub_exact) (auto simp: min_duration_def)
    then show "f = (if a < from then (from - a + seg - 1) div seg else 0)"
      using assms by (auto simp: slot_range_def Let_def maxTime_def max_def go_quot_nonneg split: if_splits)
    show "l = go_quot (time_sub (min until ?c) a) seg"
      using assms(3) by (auto simp: slot_range_def Let_def maxTime_def minTime_def max_def min_def split: if_splits)
  qed
  show f0: "0 \<le> f" using f assms(1) by (simp add: pos_imp_zdiv_nonneg_iff)
  show "f \<le> k \<longleftrightarrow> from \<le> a + k * seg" if k: "0 \<le> k"
  proof (cases "a < from")
    case True
    then show ?thesis using f ceiling_le_iff [OF assms(1), of "from - a" k] by auto
  next
    case False
    have "0 \<le> k * seg" using k assms(1) by simp
    then show ?thesis using f False k by simp
  qed
  show "k < l \<longleftrightarrow> a + k * seg + seg \<le> until \<and> a + k * seg + seg \<le> ?c" if k: "0 \<le> k"
  proof -
    have pos: "0 < (k + 1) * seg" using k assms(1) by simp
    have "min until ?c - a \<le> max_duration"
      using closes_before_next [of d "d + 2"] short_days [of d] a by auto
    then have "(k + 1) * seg \<le> time_sub (min until ?c) a \<longleftrightarrow> (k + 1) * seg \<le> min until ?c - a"
      using pos by (auto simp: time_sub_def min_duration_def)
    then have "k < l \<longleftrightarrow> (k + 1) * seg \<le> min until ?c - a"
      using l less_quot_iff [OF assms(1) k] by simp
    then show ?thesis by (auto simp: algebra_simps)
  qed
qed

lemma slot_list:
  assumes "0 < clip" "from < opens_at loc start (d + 2)"
    and "slot_range (opens_at loc start d) (closes_at loc start stop d) sched (clip * second) from until = (a, f, l)"
  shows "set (map (\<lambda>i. a + (f + int i) * (clip * second)) [0..<nat (l - f)]) = {s. day_slot loc start stop clip sched from until d s}"
    (is "?S = ?D")
proof -
  have seg: "0 < clip * second" using assms(1) by simp
  note range = slot_range_spec [OF seg assms(2,3)]
  have "s \<in> ?S \<longleftrightarrow> (\<exists>k \<ge> 0. f \<le> k \<and> k < l \<and> s = a + k * (clip * second))" for s
  proof
    assume "s \<in> ?S"
    then obtain i where "i < nat (l - f)" "s = a + (f + int i) * (clip * second)" by auto
    then show "\<exists>k \<ge> 0. f \<le> k \<and> k < l \<and> s = a + k * (clip * second)"
      using range(2) by (intro exI [of _ "f + int i"]) auto
  next
    assume "\<exists>k \<ge> 0. f \<le> k \<and> k < l \<and> s = a + k * (clip * second)"
    then obtain k where k: "f \<le> k" "k < l" "s = a + k * (clip * second)" by blast
    then show "s \<in> ?S" by (auto intro!: image_eqI [of _ _ "nat (k - f)"])
  qed
  also have "\<dots> s \<longleftrightarrow> s \<in> ?D" for s
    using range(3,4) unfolding range(1) by (auto simp: day_slot_def)
  finally show ?thesis by blast
qed

lemma day_slot_after: "0 < clip \<Longrightarrow> day_slot loc start stop clip sched from until e s \<Longrightarrow> opens_at loc start e \<le> s"
proof -
  assume "0 < clip" "day_slot loc start stop clip sched from until e s"
  then obtain k where "0 \<le> k * (clip * second)" "s = max sched (opens_at loc start e) + k * (clip * second)"
    by (auto simp: day_slot_def)
  then show ?thesis by linarith
qed

lemma coverage_days_spec:
  assumes "0 < clip"
  shows "local_day loc from \<le> d + 1 \<Longrightarrow>
    coverage_days n loc start stop wds clip sched from until limit True d count = Inr (c, vs) \<Longrightarrow>
    sorted_wrt (\<lambda>s s'. s + clip * second \<le> s') vs \<and>
    set vs = {s. \<exists>e \<ge> d. Contains wds (weekday_of_day e) \<and> day_slot loc start stop clip sched from until e s}"
proof (induction n arbitrary: d count c vs)
  case (Suc n)
  let ?slot = "day_slot loc start stop clip sched from until"
  let ?o = "opens_at loc start d"
  have seg: "0 < clip * second" using assms by simp
  show ?case
  proof (cases "?o < until")
    case False
    have "\<not> ?slot e s" if "d \<le> e" for e s
    proof -
      have "?o \<le> opens_at loc start e" using opens_at_mono [OF valid_start, of e d] that by linarith
      then show ?thesis using False seg day_slot_after [OF assms, of sched "from" until e s]
        by (auto simp: day_slot_def)
    qed
    then show ?thesis using Suc.prems False by (auto simp: opens_at_def)
  next
    case True
    have reach: "from < opens_at loc start (d + 2)"
      unfolding opens_at_def using Suc.prems(1) by (intro onDay_after [OF valid_start]) simp
    obtain a f l where range: "slot_range ?o (closes_at loc start stop d) sched (clip * second) from until = (a, f, l)"
      using prod_cases3 by blast
    let ?active = "Contains wds (weekday_of_day d)"
    obtain c1 vs1 vs2 where
      day: "(if ?active \<and> f < l then slot_loop (nat (l - f)) limit count a (clip * second) f else Inr (count, [])) = Inr (c1, vs1)"
      and rest: "coverage_days n loc start stop wds clip sched from until limit True (d + 1) c1 = Inr (c, vs2)"
      and vs: "vs = vs1 @ vs2"
      using Suc.prems(2) True range
      by (auto simp: Let_def opens_at_def closes_at_def weekday_onDay [OF valid_start] split: sum.splits if_splits)
    have vs1: "vs1 = (if ?active then map (\<lambda>i. a + (f + int i) * (clip * second)) [0..<nat (l - f)] else [])"
      using day slot_loop_spec [of "nat (l - f)" limit count a "clip * second" f c1 vs1] by (auto split: if_splits)
    have set1: "set vs1 = {s. ?active \<and> ?slot d s}"
      using slot_list [OF assms reach range] by (simp add: vs1)
    have IH: "sorted_wrt (\<lambda>s s'. s + clip * second \<le> s') vs2"
      "set vs2 = {s. \<exists>e \<ge> d + 1. Contains wds (weekday_of_day e) \<and> ?slot e s}"
      using Suc.IH [OF _ rest] Suc.prems(1) by auto
    have "(a + (f + int i) * g) + g \<le> a + (f + int j) * g" if "i < j" "0 < g" for i j and g :: int
    proof -
      have "(f + int i + 1) * g \<le> (f + int j) * g" using that by (intro mult_right_mono) auto
      then show ?thesis by (simp add: algebra_simps)
    qed
    then have "sorted_wrt (\<lambda>s s'. s + clip * second \<le> s') vs1"
      using seg by (auto simp: vs1 sorted_wrt_map sorted_wrt_iff_nth_less)
    moreover have "s + clip * second \<le> s'" if "s \<in> set vs1" "s' \<in> set vs2" for s s'
    proof -
      from that(2) obtain e where e: "d + 1 \<le> e" "?slot e s'" by (auto simp: IH(2))
      then have "d < e" "opens_at loc start e \<le> s'" using day_slot_after [OF assms e(2)] by auto
      moreover have "s + clip * second \<le> closes_at loc start stop d" using that(1) by (simp add: set1 day_slot_def)
      ultimately show ?thesis using closes_before_next [of d e] by linarith
    qed
    moreover have "d \<le> e \<longleftrightarrow> e = d \<or> d + 1 \<le> e" for e by arith
    ultimately show ?thesis using set1 IH by (auto simp: vs sorted_wrt_append)
  qed
qed simp

end

section \<open>Fires of a sampled schedule\<close>

context cron_schedule
begin

lemma sampled_loop_spec:
  assumes "latest \<le> t + 365 * 24 * hour"
  shows "sampled_loop n Next latest (Next t) = Inr fs \<Longrightarrow>
    sorted_wrt (<) fs \<and> set fs = {f. fire f \<and> t < f \<and> f \<le> latest}"
  using assms
proof (induction n arbitrary: t fs)
  case 0
  then have stop: "is_zero (Next t) \<or> latest < Next t" "fs = []"
    by (auto simp: sampled_loop.simps [of 0] split: if_splits)
  have "\<not> (fire f \<and> t < f \<and> f \<le> latest)" for f
    using stop(1) 0(2) no_fire_between [of t f] none_soon [of t] by (fastforce simp: is_zero_def fire_def)
  then show ?case using stop by auto
next
  case (Suc n)
  show ?case
  proof (cases "is_zero (Next t) \<or> latest < Next t")
    case True
    then have "fs = []" using Suc.prems(1) by (simp add: sampled_loop.simps [of "Suc n"])
    moreover have "\<not> (fire f \<and> t < f \<and> f \<le> latest)" for f
      using True Suc.prems(2) no_fire_between [of t f] none_soon [of t] by (fastforce simp: is_zero_def fire_def)
    ultimately show ?thesis by auto
  next
    case False
    then have f: "fire (Next t)" "t < Next t" using later by (auto simp: is_zero_def intro: fire_Next)
    obtain gs where gs: "sampled_loop n Next latest (Next (Next t)) = Inr gs" "fs = Next t # gs"
      using Suc.prems(1) False by (auto simp: sampled_loop.simps [of "Suc n"] split: sum.splits)
    have IH: "sorted_wrt (<) gs" "set gs = {f. fire f \<and> Next t < f \<and> f \<le> latest}"
      using Suc.IH [OF gs(1)] Suc.prems(2) f(2) by auto
    have "fire g \<and> t < g \<and> g \<le> latest \<longleftrightarrow> g = Next t \<or> fire g \<and> Next t < g \<and> g \<le> latest" for g
      using f False no_fire_between [of t g] by (metis is_zero_def not_le order.strict_trans1 order_le_less)
    then show ?thesis using IH gs(2) by auto
  qed
qed

end

section \<open>Properties\<close>

text \<open>For a sampled schedule whose range is at most a year, the instants
  \<open>VisitExpectedClipStarts\<close> yields are, in increasing order and without repetition, exactly the fires
  of the schedule in the range whose clip is complete by its end.\<close>

theorem sampled_starts_correct:
  assumes "ParseCron lib expr = Inr sched" "LoadLocation (tz_database lib) tz = Inr loc"
    and "cron_schedule (sched loc)" "0 < clip" "start < until" "until \<le> start + 364 * 24 * hour"
    and "VisitExpectedClipStarts lib ''sampled'' expr tz ws we wds clip sched_start start until = Inr fs"
  shows "sorted_wrt (<) fs \<and>
    set fs = {f. cron_schedule.fire (sched loc) f \<and> start \<le> f \<and> f + clip * second \<le> until}"
proof (cases "until - clip * second < start")
  case True
  then have "fs = []" using assms by (auto simp: VisitExpectedClipStarts_def walkExpectedClipStarts_def
        walkExpectedSampledClipStarts_def Let_def)
  with True show ?thesis by auto
next
  case False
  then have "sampled_loop maxExpandedClipStarts (sched loc) (until - clip * second) (sched loc (start - 1)) = Inr fs"
    using assms by (auto simp: VisitExpectedClipStarts_def walkExpectedClipStarts_def
        walkExpectedSampledClipStarts_def Let_def split: sum.splits)
  moreover have "until - clip * second \<le> (start - 1) + 365 * 24 * hour" using assms(4,6) by simp
  ultimately have "sorted_wrt (<) fs \<and>
      set fs = {f. cron_schedule.fire (sched loc) f \<and> start - 1 < f \<and> f \<le> until - clip * second}"
    by (intro cron_schedule.sampled_loop_spec [OF assms(3)])
  moreover have "start - 1 < f \<longleftrightarrow> start \<le> f" "f \<le> until - clip * second \<longleftrightarrow> f + clip * second \<le> until" for f
    by arith+
  ultimately show ?thesis by simp
qed

text \<open>Whenever both calls succeed, \<open>ExpectedClipCount\<close> is the number of instants
  \<open>VisitExpectedClipStarts\<close> yields, for sampled and continuous schedules, although the two run under
  different limits.\<close>

theorem count_is_number_visited:
  assumes "VisitExpectedClipStarts lib mode expr tz ws we wds clip sched_start start until = Inr vs"
    and "ExpectedClipCount lib mode expr tz ws we wds clip sched_start start until = Inr c"
  shows "c = int (length vs)"
proof -
  obtain n where v: "walkExpectedClipStarts lib mode expr tz ws we wds clip sched_start start until maxExpandedClipStarts True = Inr (n, vs)"
    using assms(1) by (auto simp: VisitExpectedClipStarts_def split: sum.splits prod.splits)
  obtain us where e: "walkExpectedClipStarts lib mode expr tz ws we wds clip sched_start start until maxSampledClips False = Inr (c, us)"
    using assms(2) by (auto simp: ExpectedClipCount_def split: sum.splits prod.splits)
  show ?thesis
  proof (cases "mode = ''sampled''")
    case True
    then show ?thesis
      using v e sampled_loop_limit
      by (fastforce simp: walkExpectedClipStarts_def walkExpectedSampledClipStarts_def Let_def split: if_splits sum.splits)
  next
    case False
    then show ?thesis
      using v e coverage_days_count [where limit' = maxSampledClips]
      by (fastforce simp: walkExpectedClipStarts_def walkExpectedContinuousClipStarts_def Let_def
          split: if_splits sum.splits option.splits)
  qed
qed

text \<open>C19: for a continuous schedule in a calendar with ordinary days, the instants
  \<open>VisitExpectedClipStarts\<close> yields are exactly the complete clip slots of the active days: counted in
  whole segments from the later of the window's opening and the schedule's start, inside the range and
  inside the window. They come in order and no two clips overlap.\<close>

theorem continuous_starts_correct:
  assumes "coverage_calendar loc ws we" "LoadLocation (tz_database lib) tz = Inr loc"
    and "0 < clip" "start < until" "wds \<noteq> 0"
    and "VisitExpectedClipStarts lib ''continuous'' expr tz (Some ws) (Some we) wds clip sched start until = Inr vs"
  shows "sorted_wrt (\<lambda>s s'. s + clip * second \<le> s') vs \<and>
    set vs = {s. \<exists>d. Contains wds (weekday_of_day d) \<and> day_slot loc ws we clip sched start until d s}"
proof -
  note win = coverage_calendar.axioms(1) [OF assms(1)]
  note cal = window_calendar.axioms(1) [OF win]
  let ?d = "local_day loc start - 1"
  obtain c where "coverage_days maxCoverageDays loc ws we wds clip sched start until maxExpandedClipStarts True ?d 0 = Inr (c, vs)"
    using assms(2-6) regular_calendar.day_add_days [OF cal, of start "- 1"]
    by (auto simp: VisitExpectedClipStarts_def walkExpectedClipStarts_def walkExpectedContinuousClipStarts_def Let_def
        split: sum.splits)
  then have "sorted_wrt (\<lambda>s s'. s + clip * second \<le> s') vs \<and>
      set vs = {s. \<exists>e \<ge> ?d. Contains wds (weekday_of_day e) \<and> day_slot loc ws we clip sched start until e s}"
    by (intro coverage_calendar.coverage_days_spec [OF assms(1,3)]) auto
  moreover have "?d \<le> e" if "day_slot loc ws we clip sched start until e s" for e s
  proof (rule ccontr)
    assume "\<not> ?d \<le> e"
    then have "closes_at loc ws we e < start"
      unfolding closes_at_def
      by (intro regular_calendar.onDay_before [OF cal window_calendar.valid_stop [OF win]]) auto
    then show False using that assms(3) by (auto simp: day_slot_def)
  qed
  ultimately show ?thesis by blast
qed

subsection \<open>Concrete schedules\<close>

interpretation utc_coverage: coverage_calendar utc midnight midnight
proof unfold_locales
  fix d
  show "opens_at utc midnight (d + 2) \<le> opens_at utc midnight d + max_duration"
    by (simp add: opens_at_def onDay_def go_date_def utc_fixed secondsOfDay_def midnight_def max_duration_def)
qed

lemma example_utc: "LoadLocation (tz_database example_lib) [] = Inr utc"
  by (simp add: LoadLocation_def TrimSpace_def)

lemma half_past_starts:
  "VisitExpectedClipStarts example_lib ''sampled'' ''30 * * * *'' [] None None 0 60 0 0 (2 * hour) =
     Inr [30 * minute, 90 * minute]"
proof -
  have limit: "maxExpandedClipStarts = Suc (Suc (Suc 599997))" by (simp add: maxExpandedClipStarts_def)
  have "half_past (- 1) = 30 * minute" "half_past (30 * minute) = 90 * minute" "half_past (90 * minute) = 150 * minute"
    by (simp_all add: half_past_def)
  then show ?thesis
    by (simp add: VisitExpectedClipStarts_def walkExpectedClipStarts_def walkExpectedSampledClipStarts_def parse_half_past
        example_utc Let_def limit sampled_loop.simps is_zero_def zero_time_def)
qed

theorem sampled_starts_correct_witness:
  "{30 * minute, 90 * minute} = {f. half_past.fire f \<and> 0 \<le> f \<and> f + 60 * second \<le> 2 * hour}"
  using sampled_starts_correct [OF parse_half_past example_utc half_past.cron_schedule_axioms _ _ _ half_past_starts]
  by auto

lemma full_day_run:
  "coverage_days (Suc (Suc (Suc n))) utc midnight midnight AllWeekdays 600 0 0 (1800 * second) (Suc (Suc (Suc m))) True (- 1) 0 =
     Inr (3, [0, 600 * second, 1200 * second])"
proof -
  have "onDay midnight d utc = d * 86400000000000" for d
    by (simp add: onDay_def go_date_def utc_fixed secondsOfDay_def midnight_def)
  moreover have day: "local_day utc 0 = 0" by (simp add: utc_fixed local_day_fixed unix_def)
  moreover have "slot_range (- 86400000000000) 0 0 (600 * second) 0 (1800 * second) = (0, 0, 0)"
    "slot_range 0 86400000000000 0 (600 * second) 0 (1800 * second) = (0, 0, 3)"
    by (simp_all add: slot_range_def maxTime_def minTime_def time_sub_def max_duration_def min_duration_def go_quot_def)
  moreover have "Contains AllWeekdays (weekday utc 0)"
    by (simp add: Contains_def AllWeekdays_def push_bit_of_1 weekday_def weekday_of_day_def day)
  moreover have "slot_loop 3 (Suc (Suc (Suc m))) 0 0 (600 * second) 0 = Inr (3, [0, 600 * second, 1200 * second])"
    by (simp add: numeral_3_eq_3)
  ultimately show ?thesis
    by (simp add: Let_def IsOvernightWindow_def)
qed

lemma full_day_starts:
  "VisitExpectedClipStarts example_lib ''continuous'' [] [] (Some midnight) (Some midnight) AllWeekdays 600 0 0 (1800 * second) =
     Inr [0, 600 * second, 1200 * second]"
proof -
  have "local_day utc (add_days utc 0 (- 1)) = - 1"
    by (subst utc_cal.day_add_days) (simp add: utc_fixed local_day_fixed unix_def)
  then show ?thesis
    using full_day_run [of 36597 599997]
    by (simp add: VisitExpectedClipStarts_def walkExpectedClipStarts_def walkExpectedContinuousClipStarts_def
        example_utc Let_def maxCoverageDays_def maxExpandedClipStarts_def AllWeekdays_def)
qed

theorem count_is_number_visited_witness:
  "ExpectedClipCount example_lib ''continuous'' [] [] (Some midnight) (Some midnight) AllWeekdays 600 0 0 (1800 * second) = Inr 3"
proof -
  obtain n where "walkExpectedClipStarts example_lib ''continuous'' [] [] (Some midnight) (Some midnight) AllWeekdays 600 0 0
      (1800 * second) maxExpandedClipStarts True = Inr (n, [0, 600 * second, 1200 * second])"
    using full_day_starts by (auto simp: VisitExpectedClipStarts_def split: sum.splits prod.splits)
  then obtain c where c: "ExpectedClipCount example_lib ''continuous'' [] [] (Some midnight) (Some midnight) AllWeekdays 600 0 0
      (1800 * second) = Inr c"
    using coverage_days_count [where limit' = maxSampledClips]
    by (fastforce simp: ExpectedClipCount_def walkExpectedClipStarts_def walkExpectedContinuousClipStarts_def Let_def
        split: if_splits sum.splits)
  then show ?thesis using count_is_number_visited [OF full_day_starts c] by simp
qed

theorem continuous_starts_correct_witness:
  "{0, 600 * second, 1200 * second} =
     {s. \<exists>d. Contains AllWeekdays (weekday_of_day d) \<and> day_slot utc midnight midnight 600 0 0 (1800 * second) d s}"
  using continuous_starts_correct [OF utc_coverage.coverage_calendar_axioms example_utc _ _ _ full_day_starts]
  by (simp add: AllWeekdays_def)

end
