(* ===== verification/Forecast.thy ===== *)
theory Forecast
  imports Coverage "HOL-Library.Product_Lexorder" "HOL-Library.Multiset"
begin

text \<open>
  The demand model of the autoscaler: the pure part of \<open>dropletpool/forecast.go\<close>. The recordings it runs
  on are loaded from the database in theory Demand.
\<close>

record forecastRecording =
  fr_mode :: string
  fr_cronExpr :: string
  fr_cronTimezone :: string
  fr_clipDurationSec :: int
  fr_dailyWindowStart :: string
  fr_dailyWindowEnd :: string
  fr_envStart :: gotime
  fr_envEnd :: gotime
  fr_activeWeekdays :: WeekdaySet

record Forecast =
  PeakConcurrent :: int
  NextFireAt :: gotime

record jobInterval =
  Start :: gotime
  End :: gotime

definition sampledScheduleDelayMargin :: duration where
  "sampledScheduleDelayMargin = 30 * second"

section \<open>Expansion of one recording\<close>

definition modeled_clip :: "int \<Rightarrow> duration" where
  "modeled_clip clipDurationSec =
     (let clip = clipDurationSec * second
      in (if clip \<le> 0 then second else clip) + sampledScheduleDelayMargin)"

text \<open>The loop over the fires of a sampled recording; \<open>next\<close> is \<open>NextFireUTC\<close> of its expression.\<close>

fun expand_fires ::
    "nat \<Rightarrow> (gotime \<Rightarrow> cron_error + gotime) \<Rightarrow> duration \<Rightarrow> gotime \<Rightarrow> gotime \<Rightarrow> gotime \<Rightarrow> gotime \<Rightarrow> jobInterval list \<Rightarrow>
     jobInterval list \<times> gotime" where
  "expand_fires 0 next modeledClip now windowEnd cursor first out = (out, first)"
| "expand_fires (Suc n) next modeledClip now windowEnd cursor first out =
     (case next cursor of Inl e \<Rightarrow> (out, first)
      | Inr fire \<Rightarrow>
        if is_zero fire then (out, first)
        else if windowEnd < fire then (out, first)
        else
          let ends = fire + modeledClip in
          if \<not> now < ends then expand_fires n next modeledClip now windowEnd fire first out
          else
            let first' = (if is_zero first then (if fire < now then now else fire) else first)
            in expand_fires n next modeledClip now windowEnd fire first' (out @ [\<lparr>Start = fire, End = ends\<rparr>]))"

text \<open>The window occurrence from \<open>openUTC\<close> to \<open>closeUTC\<close>, clamped to the capture envelope and to
  \<open>(now, windowEnd]\<close>.\<close>

definition clamp_interval :: "forecastRecording \<Rightarrow> gotime \<Rightarrow> gotime \<Rightarrow> gotime \<Rightarrow> gotime \<Rightarrow> jobInterval" where
  "clamp_interval r now windowEnd openUTC closeUTC =
     (let occOpen = (if openUTC < fr_envStart r then fr_envStart r else openUTC);
          occClose = (if \<not> is_zero (fr_envEnd r) \<and> fr_envEnd r < closeUTC then fr_envEnd r else closeUTC);
          ivStart = (if occOpen < now then now else occOpen);
          ivEnd = (if windowEnd < occClose then windowEnd else occClose)
      in \<lparr>Start = ivStart, End = ivEnd\<rparr>)"

definition earliest_open :: "gotime \<Rightarrow> gotime \<Rightarrow> gotime \<Rightarrow> gotime" where
  "earliest_open now openUTC first =
     (if now < openUTC \<and> (is_zero first \<or> openUTC < first) then openUTC
      else if is_zero first then openUTC else first)"

text \<open>The loop over the local days of a continuous recording. \<open>day\<close> is the running \<open>time.Time\<close>.\<close>

fun expand_days ::
    "nat \<Rightarrow> location \<Rightarrow> TimeOfDay \<Rightarrow> TimeOfDay \<Rightarrow> forecastRecording \<Rightarrow> gotime \<Rightarrow> gotime \<Rightarrow> gotime \<Rightarrow> gotime \<Rightarrow>
     jobInterval list \<Rightarrow> jobInterval list \<times> gotime" where
  "expand_days 0 loc start stop r now windowEnd day first out = (out, first)"
| "expand_days (Suc n) loc start stop r now windowEnd day first out =
     (let d = local_day loc day;
          openUTC = onDay start d loc;
          weekdays = (if fr_activeWeekdays r = 0 then AllWeekdays else fr_activeWeekdays r) in
      if \<not> Contains weekdays (weekday loc openUTC)
      then expand_days n loc start stop r now windowEnd (add_days loc day 1) first out
      else
        let closeUTC = (if IsOvernightWindow start stop
                        then onDay stop (local_day loc (add_days loc (go_date loc d 0 0) 1)) loc
                        else onDay stop d loc) in
        if windowEnd < openUTC then (out, first)
        else
          let iv = clamp_interval r now windowEnd openUTC closeUTC in
          if Start iv < End iv
          then expand_days n loc start stop r now windowEnd (add_days loc day 1) (earliest_open now openUTC first) (out @ [iv])
          else expand_days n loc start stop r now windowEnd (add_days loc day 1) first out)"

definition expandContinuousRecording ::
    "'a timelib_scheme \<Rightarrow> forecastRecording \<Rightarrow> gotime \<Rightarrow> gotime \<Rightarrow> jobInterval list \<times> gotime" where
  "expandContinuousRecording lib r now windowEnd =
     (case (ParseTimeOfDay (fr_dailyWindowStart r), ParseTimeOfDay (fr_dailyWindowEnd r),
            LoadLocation (tz_database lib) (fr_cronTimezone r)) of
        (Inr start, Inr stop, Inr loc) \<Rightarrow>
          (let day = (if IsOvernightWindow start stop then add_days loc now (- 1) else now)
           in expand_days 10 loc start stop r now windowEnd day zero_time [])
      | _ \<Rightarrow> ([], zero_time))"

definition expandRecording ::
    "'a timelib_scheme \<Rightarrow> forecastRecording \<Rightarrow> gotime \<Rightarrow> gotime \<Rightarrow> jobInterval list \<times> gotime" where
  "expandRecording lib r now windowEnd =
     (if fr_mode r = ''continuous'' then expandContinuousRecording lib r now windowEnd
      else let modeledClip = modeled_clip (fr_clipDurationSec r)
           in expand_fires 10000 (NextFireUTC lib (fr_cronExpr r) (fr_cronTimezone r)) modeledClip now windowEnd
                (now - modeledClip - 1) zero_time [])"

section \<open>Peak concurrency\<close>

fun sweep :: "(gotime \<times> int) list \<Rightarrow> int \<Rightarrow> int \<Rightarrow> int" where
  "sweep [] cur peak = peak"
| "sweep ((_, delta) # events) cur peak =
     (let cur' = cur + delta in sweep events cur' (if cur' > peak then cur' else peak))"

definition interval_events :: "jobInterval list \<Rightarrow> (gotime \<times> int) list" where
  "interval_events intervals = concat (map (\<lambda>iv. [(Start iv, 1), (End iv, - 1)]) intervals)"

text \<open>Events with equal instant and sign are indistinguishable, so the unstable sort of the code has one
  result.\<close>

definition peakConcurrency :: "jobInterval list \<Rightarrow> int" where
  "peakConcurrency intervals = (if intervals = [] then 0 else sweep (sort (interval_events intervals)) 0 0)"

fun forecast_loop ::
    "'a timelib_scheme \<Rightarrow> forecastRecording list \<Rightarrow> gotime \<Rightarrow> gotime \<Rightarrow> jobInterval list \<Rightarrow> gotime \<Rightarrow>
     jobInterval list \<times> gotime" where
  "forecast_loop lib [] now windowEnd intervals nextFire = (intervals, nextFire)"
| "forecast_loop lib (r # recs) now windowEnd intervals nextFire =
     (let (ivals, first) = expandRecording lib r now windowEnd;
          nextFire' = (if \<not> is_zero first \<and> (is_zero nextFire \<or> first < nextFire) then first else nextFire)
      in forecast_loop lib recs now windowEnd (intervals @ ivals) nextFire')"

definition forecastFromRecordings ::
    "'a timelib_scheme \<Rightarrow> forecastRecording list \<Rightarrow> gotime \<Rightarrow> duration \<Rightarrow> Forecast" where
  "forecastFromRecordings lib recs now lookahead =
     (if lookahead \<le> 0 then \<lparr>PeakConcurrent = 0, NextFireAt = zero_time\<rparr>
      else let (intervals, nextFire) = forecast_loop lib recs now (now + lookahead) [] zero_time
           in \<lparr>PeakConcurrent = peakConcurrency intervals, NextFireAt = nextFire\<rparr>)"

definition RequiredDroplets :: "int \<Rightarrow> int \<Rightarrow> int \<Rightarrow> int \<Rightarrow> int" where
  "RequiredDroplets peakConcurrent capacity mn mx =
     (let capacity' = (if capacity \<le> 0 then 1 else capacity);
          required = (if peakConcurrent > 0 then go_quot (peakConcurrent + capacity' - 1) capacity' else 0);
          required' = (if required < mn then mn else required)
      in if required' > mx then mx else required')"

section \<open>The sweep line\<close>

definition overlap :: "jobInterval list \<Rightarrow> gotime \<Rightarrow> int" where
  "overlap ivs t = int (length (filter (\<lambda>iv. Start iv \<le> t \<and> t < End iv) ivs))"

abbreviation total :: "(gotime \<times> int) list \<Rightarrow> int" where
  "total es \<equiv> sum_list (map snd es)"

lemma sweep_bounds:
  "peak \<le> sweep es cur peak \<and> (\<forall>xs ys. es = xs @ ys \<and> xs \<noteq> [] \<longrightarrow> cur + total xs \<le> sweep es cur peak) \<and>
   (sweep es cur peak = peak \<or> (\<exists>xs ys. es = xs @ ys \<and> xs \<noteq> [] \<and> sweep es cur peak = cur + total xs))"
proof (induction es cur peak rule: sweep.induct)
  case (2 t delta es cur peak)
  let ?c = "cur + delta" and ?p = "if cur + delta > peak then cur + delta else peak"
  have IH: "?p \<le> sweep es ?c ?p" "\<And>xs ys. es = xs @ ys \<Longrightarrow> xs \<noteq> [] \<Longrightarrow> ?c + total xs \<le> sweep es ?c ?p"
    "sweep es ?c ?p = ?p \<or> (\<exists>xs ys. es = xs @ ys \<and> xs \<noteq> [] \<and> sweep es ?c ?p = ?c + total xs)"
    using 2 [OF refl] by blast+
  have eq: "sweep ((t, delta) # es) cur peak = sweep es ?c ?p" by (simp add: Let_def)
  have "cur + total xs \<le> sweep es ?c ?p" if "(t, delta) # es = xs @ ys" "xs \<noteq> []" for xs ys
  proof -
    from that obtain zs where "xs = (t, delta) # zs" "es = zs @ ys" by (cases xs) auto
    then show ?thesis using IH(1) IH(2) [of zs ys] by (cases "zs = []") (auto split: if_splits)
  qed
  moreover have "sweep es ?c ?p = peak \<or> (\<exists>xs ys. (t, delta) # es = xs @ ys \<and> xs \<noteq> [] \<and> sweep es ?c ?p = cur + total xs)"
    using IH(3)
  proof
    assume "sweep es ?c ?p = ?p"
    moreover have "(t, delta) # es = [(t, delta)] @ es" "total [(t, delta)] = delta" by simp_all
    ultimately show ?thesis by (metis list.discI)
  next
    assume "\<exists>xs ys. es = xs @ ys \<and> xs \<noteq> [] \<and> sweep es ?c ?p = ?c + total xs"
    then obtain xs ys where "es = xs @ ys" "sweep es ?c ?p = ?c + total xs" by blast
    then show ?thesis by (intro disjI2 exI [of _ "(t, delta) # xs"] exI [of _ ys]) simp
  qed
  moreover have "peak \<le> sweep es ?c ?p" using IH(1) by (auto split: if_splits)
  ultimately show ?case unfolding eq by blast
qed simp

definition event_list :: "(gotime \<times> int) list \<Rightarrow> bool" where
  "event_list es \<longleftrightarrow> sorted es \<and> (\<forall>e \<in> set es. snd e = 1 \<or> snd e = - 1)"

text \<open>The events up to an instant are a prefix, and no prefix exceeds the sum up to some instant.\<close>

lemma total_until_prefix:
  assumes "sorted es"
  shows "\<exists>xs ys. es = xs @ ys \<and> total xs = total (filter (\<lambda>e. fst e \<le> t) es)"
proof -
  let ?P = "\<lambda>e :: gotime \<times> int. fst e \<le> t"
  have "filter ?P es = takeWhile ?P es"
    using assms
  proof (induction es)
    case (Cons e es)
    have "filter ?P es = []" if "\<not> ?P e"
      using that Cons.prems by (fastforce simp: filter_empty_conv less_eq_prod_def)
    with Cons show ?case by (cases "?P e") simp_all
  qed simp
  then show ?thesis by (intro exI [of _ "takeWhile ?P es"] exI [of _ "dropWhile ?P es"]) simp
qed

lemma total_ge:
  "(\<forall>e \<in> set es. c \<le> snd e) \<Longrightarrow> 0 \<le> c \<Longrightarrow> 0 \<le> total es"
  by (induction es) auto

lemma total_le:
  "(\<forall>e \<in> set es. snd e \<le> c) \<Longrightarrow> c \<le> 0 \<Longrightarrow> total es \<le> 0"
  by (induction es) auto

lemma total_partition: "total es = total (filter P es) + total (filter (\<lambda>e. \<not> P e) es)"
  by (induction es) auto

lemma prefix_below_total:
  assumes "event_list (xs @ ys)" "xs \<noteq> []"
  shows "\<exists>t. total xs \<le> total (filter (\<lambda>e. fst e \<le> t) (xs @ ys))"
proof -
  obtain zs t d where xs: "xs = zs @ [(t, d)]" using assms(2) by (metis append_butlast_last_id surj_pair)
  have before: "e \<le> (t, d)" if "e \<in> set xs" for e
    using assms(1) that by (auto simp: event_list_def xs sorted_append)
  have after: "(t, d) \<le> e" if "e \<in> set ys" for e
    using assms(1) that by (auto simp: event_list_def xs sorted_append)
  have unit: "snd e = 1 \<or> snd e = - 1" if "e \<in> set (xs @ ys)" for e
    using assms(1) that by (simp add: event_list_def)
  show ?thesis
  proof (cases "d = 1")
    case True
    have "filter (\<lambda>e. fst e \<le> t) xs = xs" using before by (fastforce simp: filter_id_conv less_eq_prod_def)
    moreover have "0 \<le> total (filter (\<lambda>e. fst e \<le> t) ys)"
      using after unit True by (intro total_ge [where c = 1]) (fastforce simp: less_eq_prod_def)+
    ultimately show ?thesis by (intro exI [of _ t]) simp
  next
    case False
    then have d: "d = - 1" using unit [of "(t, d)"] by (simp add: xs)
    let ?P = "\<lambda>e :: gotime \<times> int. fst e \<le> t - 1"
    have "filter ?P ys = []" using after by (fastforce simp: filter_empty_conv less_eq_prod_def)
    moreover have "total (filter (\<lambda>e. \<not> ?P e) xs) \<le> 0"
      using before d by (intro total_le [where c = "- 1"]) (fastforce simp: less_eq_prod_def)+
    ultimately show ?thesis
      using total_partition [of xs ?P] by (intro exI [of _ "t - 1"]) simp
  qed
qed

lemma total_sort: "total (filter P (sort es)) = total (filter P es)"
proof -
  have "mset (map snd (filter P (sort es))) = mset (map snd (filter P es))" by simp
  then show ?thesis by (metis sum_mset_sum_list)
qed

lemma total_overlap:
  "\<forall>iv \<in> set ivs. Start iv < End iv \<Longrightarrow> total (filter (\<lambda>e. fst e \<le> t) (interval_events ivs)) = overlap ivs t"
  by (induction ivs) (auto simp: interval_events_def overlap_def)

lemma event_list_sort: "event_list (sort (interval_events ivs))"
  by (auto simp: event_list_def interval_events_def)

lemma overlap_nonneg: "0 \<le> overlap ivs t"
  by (simp add: overlap_def)

lemma peak_ge_overlap:
  assumes "\<forall>iv \<in> set ivs. Start iv < End iv"
  shows "overlap ivs t \<le> peakConcurrency ivs"
proof (cases "ivs = []")
  case False
  let ?es = "sort (interval_events ivs)"
  obtain xs ys where split: "?es = xs @ ys" and total: "total xs = overlap ivs t"
    using total_until_prefix [of ?es t] total_sort [of _ "interval_events ivs"] total_overlap [OF assms, of t]
    by (metis sorted_sort)
  have "overlap ivs t \<le> sweep ?es 0 0"
  proof (cases "xs = []")
    case True
    then show ?thesis using total sweep_bounds [of 0 ?es 0] by simp
  next
    case ne: False
    then show ?thesis using sweep_bounds [of 0 ?es 0] split total by (metis add_0)
  qed
  then show ?thesis using False by (simp add: peakConcurrency_def)
qed (simp add: overlap_def peakConcurrency_def)

lemma peak_attained:
  assumes "\<forall>iv \<in> set ivs. Start iv < End iv"
  shows "peakConcurrency ivs = 0 \<or> (\<exists>t. overlap ivs t = peakConcurrency ivs)"
proof (cases "ivs = []")
  case False
  let ?es = "sort (interval_events ivs)"
  consider "sweep ?es 0 0 = 0" | xs ys where "?es = xs @ ys" "xs \<noteq> []" "sweep ?es 0 0 = total xs"
    using sweep_bounds [of 0 ?es 0] by auto
  then show ?thesis
  proof cases
    case 2
    obtain t where "total xs \<le> total (filter (\<lambda>e. fst e \<le> t) ?es)"
      using prefix_below_total [of xs ys] event_list_sort [of ivs] 2(1,2) by metis
    then have "peakConcurrency ivs \<le> overlap ivs t"
      using 2(3) False by (simp only: total_sort total_overlap [OF assms] peakConcurrency_def if_False)
    then show ?thesis using peak_ge_overlap [OF assms, of t] by (intro disjI2 exI [of _ t]) simp
  qed (simp add: peakConcurrency_def)
qed (simp add: peakConcurrency_def)

section \<open>Demand\<close>

text \<open>
  The clips of \<open>r\<close> that can be running at an instant: for a continuous recording one while the
  scheduler's gate reports its window open; for a sampled recording one per fire whose clip, delayed by
  at most the scheduler's jitter of 30 seconds, can contain the instant.
\<close>

definition demand :: "'a timelib_scheme \<Rightarrow> forecastRecording \<Rightarrow> gotime \<Rightarrow> int" where
  "demand lib r t =
     (if fr_mode r = ''continuous''
      then (case (ParseTimeOfDay (fr_dailyWindowStart r), ParseTimeOfDay (fr_dailyWindowEnd r)) of
          (Inr start, Inr stop) \<Rightarrow>
            (case currentOpenContinuousWindowOn (tz_database lib) (fr_cronTimezone r) start stop (fr_activeWeekdays r)
                    (fr_envStart r) (fr_envEnd r) t of
               Inr (True, _, _) \<Rightarrow> 1 | _ \<Rightarrow> 0)
        | _ \<Rightarrow> 0)
      else (case (ParseCron lib (fr_cronExpr r), LoadLocation (tz_database lib) (fr_cronTimezone r)) of
          (Inr sched, Inr loc) \<Rightarrow>
            int (card {f. cron_schedule.fire (sched loc) f \<and>
              (\<exists>delay. 0 \<le> delay \<and> delay \<le> 30 * second \<and> f + delay \<le> t \<and> t < f + delay + fr_clipDurationSec r * second)})
        | _ \<Rightarrow> 0))"

text \<open>What the bounds of the code (10 local days, 10000 fires) require of a recording.\<close>

definition forecastable :: "'a timelib_scheme \<Rightarrow> gotime \<Rightarrow> duration \<Rightarrow> forecastRecording \<Rightarrow> bool" where
  "forecastable lib now lookahead r \<longleftrightarrow>
     (if fr_mode r = ''continuous''
      then \<exists>start stop loc. ParseTimeOfDay (fr_dailyWindowStart r) = Inr start \<and> ParseTimeOfDay (fr_dailyWindowEnd r) = Inr stop \<and>
        LoadLocation (tz_database lib) (fr_cronTimezone r) = Inr loc \<and> window_calendar loc start stop \<and>
        local_day loc (now + lookahead) \<le> local_day loc now + 8
      else \<exists>sched loc. ParseCron lib (fr_cronExpr r) = Inr sched \<and> LoadLocation (tz_database lib) (fr_cronTimezone r) = Inr loc \<and>
        cron_schedule (sched loc) \<and> 0 < fr_clipDurationSec r \<and> fr_clipDurationSec r \<le> 86400 \<and>
        card {f. cron_schedule.fire (sched loc) f \<and> now - modeled_clip (fr_clipDurationSec r) \<le> f \<and> f \<le> now + lookahead} < 10000)"

context cron_schedule
begin

lemma finite_fires: "finite {f. fire f \<and> a < f \<and> f \<le> b}"
  by (rule finite_subset [of _ "{a<..b}"]) auto

lemma fires_after:
  assumes "Next c \<noteq> zero_time"
  shows "{f. fire f \<and> c < f \<and> f \<le> w} =
    (if Next c \<le> w then insert (Next c) {f. fire f \<and> Next c < f \<and> f \<le> w} else {})"
proof -
  have n: "fire (Next c)" "c < Next c" using assms later by (auto intro: fire_Next)
  have after: "fire f \<and> c < f \<longleftrightarrow> f = Next c \<or> fire f \<and> Next c < f" for f
    using no_fire_between [OF assms, of f] n by (metis order.strict_trans order_le_less)
  show ?thesis
  proof (rule set_eqI)
    fix f
    show "f \<in> {f. fire f \<and> c < f \<and> f \<le> w} \<longleftrightarrow>
        f \<in> (if Next c \<le> w then insert (Next c) {f. fire f \<and> Next c < f \<and> f \<le> w} else {})"
      using after [of f] by auto
  qed
qed

lemma expand_fires_spec:
  assumes "\<And>c. nf c = Inr (Next c)" "w \<le> cursor + 365 * 24 * hour"
    and "card {f. fire f \<and> cursor < f \<and> f \<le> w} < n"
  shows "\<exists>fs first'. expand_fires n nf m now w cursor first out =
      (out @ map (\<lambda>f. \<lparr>Start = f, End = f + m\<rparr>) fs, first') \<and> distinct fs \<and>
      set fs = {f. fire f \<and> cursor < f \<and> f \<le> w \<and> now < f + m}"
  using assms(2,3)
proof (induction n arbitrary: cursor first out)
  case (Suc n)
  show ?case
  proof (cases "is_zero (Next cursor) \<or> w < Next cursor")
    case True
    have "{f. fire f \<and> cursor < f \<and> f \<le> w} = {}"
      using True Suc.prems(1) no_fire_between [of cursor] none_soon [of cursor]
      by (fastforce simp: is_zero_def fire_def)
    then have none: "{f. fire f \<and> cursor < f \<and> f \<le> w \<and> now < f + m} = {}" by auto
    have "expand_fires (Suc n) nf m now w cursor first out = (out, first)" using True assms(1) by auto
    then show ?thesis using none by (intro exI [of _ "[]"]) auto
  next
    case False
    let ?f = "Next cursor"
    have nz: "?f \<noteq> zero_time" "?f \<le> w" using False by (auto simp: is_zero_def)
    then have f: "fire ?f" "cursor < ?f" using later by (auto intro: fire_Next)
    have split: "{f. fire f \<and> cursor < f \<and> f \<le> w} = insert ?f {f. fire f \<and> ?f < f \<and> f \<le> w}"
      using fires_after [OF nz(1), of w] nz(2) by simp
    then have card: "card {f. fire f \<and> ?f < f \<and> f \<le> w} < n"
      using Suc.prems(2) finite_fires [of ?f w] by simp
    have split': "{f. fire f \<and> cursor < f \<and> f \<le> w \<and> now < f + m} =
        (if now < ?f + m then {?f} else {}) \<union> {f. fire f \<and> ?f < f \<and> f \<le> w \<and> now < f + m}"
    proof (rule set_eqI)
      fix g
      have "g \<in> {f. fire f \<and> cursor < f \<and> f \<le> w} \<longleftrightarrow> g \<in> insert ?f {f. fire f \<and> ?f < f \<and> f \<le> w}"
        by (simp only: split)
      then show "g \<in> {f. fire f \<and> cursor < f \<and> f \<le> w \<and> now < f + m} \<longleftrightarrow>
          g \<in> (if now < ?f + m then {?f} else {}) \<union> {f. fire f \<and> ?f < f \<and> f \<le> w \<and> now < f + m}"
        by auto
    qed
    show ?thesis
    proof (cases "now < ?f + m")
      case True
      define first1 where "first1 = (if is_zero first then (if ?f < now then now else ?f) else first)"
      define out1 where "out1 = out @ [\<lparr>Start = ?f, End = ?f + m\<rparr>]"
      have "expand_fires (Suc n) nf m now w cursor first out = expand_fires n nf m now w ?f first1 out1"
        using True False assms(1) by (simp add: Let_def first1_def out1_def)
      moreover obtain fs first' where "expand_fires n nf m now w ?f first1 out1 =
          (out1 @ map (\<lambda>f. \<lparr>Start = f, End = f + m\<rparr>) fs, first')" "distinct fs"
        "set fs = {f. fire f \<and> ?f < f \<and> f \<le> w \<and> now < f + m}"
        using Suc.IH [of ?f first1 out1] Suc.prems(1) f(2) card by auto
      ultimately show ?thesis
        using True split' by (intro exI [of _ "?f # fs"] exI [of _ first']) (auto simp: out1_def)
    next
      case early: False
      have "expand_fires (Suc n) nf m now w cursor first out = expand_fires n nf m now w ?f first out"
        using early False assms(1) by (simp add: Let_def)
      then show ?thesis
        using Suc.IH [of ?f first out] Suc.prems(1) f(2) card early split' by auto
    qed
  qed
qed simp

end

lemma overlap_append: "overlap (xs @ ys) t = overlap xs t + overlap ys t"
  by (simp add: overlap_def)

lemma overlap_pos: "iv \<in> set ivs \<Longrightarrow> Start iv \<le> t \<Longrightarrow> t < End iv \<Longrightarrow> 1 \<le> overlap ivs t"
proof -
  assume "iv \<in> set ivs" "Start iv \<le> t" "t < End iv"
  then have "filter (\<lambda>iv. Start iv \<le> t \<and> t < End iv) ivs \<noteq> []" by (auto simp: filter_empty_conv)
  then show ?thesis by (simp add: overlap_def Suc_leI)
qed

lemma expand_days_keeps: "iv \<in> set out \<Longrightarrow> iv \<in> set (fst (expand_days n loc start stop r now w day first out))"
  by (induction n arbitrary: day first out) (auto simp: Let_def)

definition proper :: "jobInterval list \<Rightarrow> bool" where
  "proper ivs \<longleftrightarrow> (\<forall>iv \<in> set ivs. Start iv < End iv)"

lemma proper_simps [simp]: "proper []" "proper (xs @ ys) \<longleftrightarrow> proper xs \<and> proper ys"
  "proper [iv] \<longleftrightarrow> Start iv < End iv"
  by (auto simp: proper_def)

lemma expand_days_proper: "proper out \<Longrightarrow> proper (fst (expand_days n loc start stop r now w day first out))"
  by (induction n arbitrary: day first out) (simp_all add: Let_def)

lemma expand_fires_proper:
  "0 < m \<Longrightarrow> proper out \<Longrightarrow> proper (fst (expand_fires n nf m now w cursor first out))"
  by (induction n arbitrary: cursor first out) (auto simp: Let_def split: sum.splits)

lemma modeled_clip_pos: "0 < modeled_clip c"
  by (simp add: modeled_clip_def Let_def sampledScheduleDelayMargin_def)

lemma expandRecording_proper: "proper (fst (expandRecording lib r now w))"
  by (auto simp: expandRecording_def expandContinuousRecording_def Let_def expand_days_proper expand_fires_proper
      modeled_clip_pos split: sum.splits prod.splits)

context window_calendar
begin

lemma expand_days_covers:
  assumes "now \<le> t" "t < w" "in_envelope (fr_envStart r) (fr_envEnd r) t" "fr_activeWeekdays r \<noteq> 0"
    and "Contains (fr_activeWeekdays r) (weekday_of_day d)" "covers d t"
  shows "local_day loc day \<le> d \<Longrightarrow> d < local_day loc day + int n \<Longrightarrow>
    \<exists>iv \<in> set (fst (expand_days n loc start stop r now w day first out)). Start iv \<le> t \<and> t < End iv"
proof (induction n arbitrary: day first out)
  case (Suc n)
  let ?e = "local_day loc day"
  have next_day: "local_day loc (add_days loc day 1) = ?e + 1" by (rule day_add_days)
  show ?case
  proof (cases "?e = d")
    case True
    let ?iv = "clamp_interval r now w (opens_at loc start d) (closes_at loc start stop d)"
    have iv: "Start ?iv \<le> t" "t < End ?iv" using assms by (auto simp: in_envelope_def clamp_interval_def Let_def)
    then have "Start ?iv < End ?iv" by linarith
    then have "\<exists>f. expand_days (Suc n) loc start stop r now w day first out =
        expand_days n loc start stop r now w (add_days loc day 1) f (out @ [?iv])"
      using True assms(2,4,5,6)
      by (auto simp: Let_def weekday_onDay [OF valid_start] opens_at_def closes_at_def)
    then show ?thesis using iv expand_days_keeps [of ?iv "out @ [?iv]"] by (metis in_set_conv_decomp)
  next
    case False
    have "opens_at loc start ?e \<le> t"
      using opens_at_mono [OF valid_start, of ?e d] False Suc.prems(1) assms(6) by auto
    then have "\<exists>f o'. expand_days (Suc n) loc start stop r now w day first out =
        expand_days n loc start stop r now w (add_days loc day 1) f o'"
      using assms(2) by (auto simp: Let_def opens_at_def)
    then show ?thesis using Suc.IH [of "add_days loc day 1"] Suc.prems False next_day by fastforce
  qed
qed simp

end

section \<open>The forecast covers the demand\<close>

lemma continuous_covered:
  assumes "fr_mode r = ''continuous''" "forecastable lib now lookahead r" "now \<le> t" "t < now + lookahead"
  shows "demand lib r t \<le> overlap (fst (expandRecording lib r now (now + lookahead))) t"
proof (cases "demand lib r t \<le> 0")
  case False
  obtain start stop loc where p: "ParseTimeOfDay (fr_dailyWindowStart r) = Inr start" "ParseTimeOfDay (fr_dailyWindowEnd r) = Inr stop"
    and loc: "LoadLocation (tz_database lib) (fr_cronTimezone r) = Inr loc" and win: "window_calendar loc start stop"
    and days: "local_day loc (now + lookahead) \<le> local_day loc now + 8"
    using assms(1,2) by (auto simp: forecastable_def)
  obtain u v where "currentOpenContinuousWindowOn (tz_database lib) (fr_cronTimezone r) start stop (fr_activeWeekdays r)
      (fr_envStart r) (fr_envEnd r) t = Inr (True, u, v)"
    using False assms(1) p by (auto simp: demand_def split: sum.splits bool.splits prod.splits)
  then obtain d where env: "in_envelope (fr_envStart r) (fr_envEnd r) t" and d: "Contains (fr_activeWeekdays r) (weekday_of_day d)"
    and covers: "opens_at loc start d \<le> t \<and> t < closes_at loc start stop d"
    unfolding window_calendar.current_open_iff [OF win loc] by auto
  have active: "fr_activeWeekdays r \<noteq> 0" using d by (auto simp: Contains_def)
  note cal = window_calendar.axioms(1) [OF win]
  have range: "local_day loc now \<le> local_day loc t" "local_day loc t \<le> local_day loc (now + lookahead)"
    using assms(3,4) regular_calendar.day_mono [OF cal] by auto
  define day where "day = (if IsOvernightWindow start stop then add_days loc now (- 1) else now)"
  have day: "local_day loc day = (if IsOvernightWindow start stop then local_day loc now - 1 else local_day loc now)"
    using regular_calendar.day_add_days [OF cal, of now "- 1"] by (simp add: day_def)
  have "local_day loc day \<le> d" "d < local_day loc day + int 10"
    using window_calendar.covering_days [OF win covers] range days day by (auto split: if_splits)
  then obtain iv where "iv \<in> set (fst (expand_days 10 loc start stop r now (now + lookahead) day zero_time []))"
      "Start iv \<le> t" "t < End iv"
    using window_calendar.expand_days_covers [OF win assms(3,4) env active d covers] by blast
  moreover have "demand lib r t \<le> 1"
    using assms(1) by (auto simp: demand_def split: sum.splits bool.splits prod.splits)
  ultimately show ?thesis
    using assms(1) p loc overlap_pos
    by (fastforce simp: expandRecording_def expandContinuousRecording_def day_def Let_def)
qed (use overlap_nonneg order_trans in blast)

lemma sampled_covered:
  assumes "fr_mode r \<noteq> ''continuous''" "forecastable lib now lookahead r" "now \<le> t" "t < now + lookahead"
    and "lookahead \<le> 7 * 24 * hour"
  shows "demand lib r t \<le> overlap (fst (expandRecording lib r now (now + lookahead))) t"
proof -
  obtain sched loc where sched: "ParseCron lib (fr_cronExpr r) = Inr sched" "cron_schedule (sched loc)"
    and loc: "LoadLocation (tz_database lib) (fr_cronTimezone r) = Inr loc"
    and clip: "0 < fr_clipDurationSec r" "fr_clipDurationSec r \<le> 86400"
    and few: "card {f. cron_schedule.fire (sched loc) f \<and> now - modeled_clip (fr_clipDurationSec r) \<le> f \<and> f \<le> now + lookahead} < 10000"
    using assms(1,2) by (auto simp: forecastable_def)
  define m where "m = modeled_clip (fr_clipDurationSec r)"
  have m: "m = fr_clipDurationSec r * second + 30 * second"
    using clip by (simp add: m_def modeled_clip_def sampledScheduleDelayMargin_def)
  have step: "now - m - 1 < f \<longleftrightarrow> now - m \<le> f" for f by arith
  have nf: "NextFireUTC lib (fr_cronExpr r) (fr_cronTimezone r) c = Inr (sched loc c)" for c
    using sched(1) loc by (auto simp: NextFireUTC_def is_zero_def Let_def)
  obtain fs first' where fs: "expand_fires 10000 (NextFireUTC lib (fr_cronExpr r) (fr_cronTimezone r)) m now (now + lookahead)
      (now - m - 1) zero_time [] = (map (\<lambda>f. \<lparr>Start = f, End = f + m\<rparr>) fs, first')" "distinct fs"
    "set fs = {f. cron_schedule.fire (sched loc) f \<and> now - m \<le> f \<and> f \<le> now + lookahead \<and> now < f + m}"
    using cron_schedule.expand_fires_spec [OF sched(2) nf, of "now + lookahead" "now - m - 1" 10000 m now zero_time "[]"]
      few clip assms(5) unfolding step m_def [symmetric] by (auto simp: m)
  let ?run = "\<lambda>f. f \<le> t \<and> t < f + m"
  have "overlap (map (\<lambda>f. \<lparr>Start = f, End = f + m\<rparr>) fs) t = int (length (filter ?run fs))"
    by (simp add: overlap_def filter_map o_def)
  also have "\<dots> = int (card {f \<in> set fs. ?run f})"
    using fs(2) by (metis distinct_card distinct_filter set_filter)
  also have "\<dots> \<ge> int (card {f. cron_schedule.fire (sched loc) f \<and>
      (\<exists>delay. 0 \<le> delay \<and> delay \<le> 30 * second \<and> f + delay \<le> t \<and> t < f + delay + fr_clipDurationSec r * second)})"
  proof (intro of_nat_mono card_mono)
    show "finite {f \<in> set fs. ?run f}" by simp
  qed (use assms(3,4) in \<open>auto simp: fs(3) m\<close>)
  finally show ?thesis
    using assms(1) sched(1) loc fs(1)
    by (simp add: demand_def expandRecording_def m_def Let_def)
qed

lemma forecast_loop_intervals:
  "fst (forecast_loop lib recs now w ivs nf) = ivs @ concat (map (\<lambda>r. fst (expandRecording lib r now w)) recs)"
  by (induction recs arbitrary: ivs nf) (simp_all add: Let_def split_beta)

lemma overlap_concat: "overlap (concat xss) t = sum_list (map (\<lambda>xs. overlap xs t) xss)"
  by (induction xss) (simp_all add: overlap_append overlap_def)

lemma proper_concat: "(\<And>xs. xs \<in> set xss \<Longrightarrow> proper xs) \<Longrightarrow> proper (concat xss)"
  by (induction xss) simp_all

section \<open>Properties\<close>

text \<open>The sweep computes the true peak: no instant has more overlapping intervals, and some instant has
  as many (or the peak is 0).\<close>

theorem peak_concurrency_correct:
  assumes "proper ivs"
  shows "(\<forall>t. overlap ivs t \<le> peakConcurrency ivs) \<and>
    (peakConcurrency ivs = 0 \<or> (\<exists>t. overlap ivs t = peakConcurrency ivs))"
  using peak_ge_overlap peak_attained assms by (simp add: proper_def)

theorem peak_concurrency_correct_witness:
  "peakConcurrency [\<lparr>Start = 0, End = 10\<rparr>, \<lparr>Start = 5, End = 12\<rparr>, \<lparr>Start = 10, End = 20\<rparr>] = 2 \<and>
   overlap [\<lparr>Start = 0, End = 10\<rparr>, \<lparr>Start = 5, End = 12\<rparr>, \<lparr>Start = 10, End = 20\<rparr>] 3 \<le> 2"
  using peak_concurrency_correct [of "[\<lparr>Start = 0, End = 10\<rparr>, \<lparr>Start = 5, End = 12\<rparr>, \<lparr>Start = 10, End = 20\<rparr>]"]
  by (simp add: peakConcurrency_def interval_events_def less_eq_prod_def less_prod_def overlap_def)

text \<open>C10: the autoscaler never plans for fewer clips than can run. At every instant of the lookahead, the
  recordings with an open window together with the sampled clips that can be running then, whatever
  the scheduler's jitter, are at most the forecast peak.\<close>

theorem forecast_covers_demand:
  assumes "\<forall>r \<in> set recs. forecastable lib now lookahead r" "now \<le> t" "t < now + lookahead"
    and "lookahead \<le> 7 * 24 * hour"
  shows "sum_list (map (\<lambda>r. demand lib r t) recs) \<le> PeakConcurrent (forecastFromRecordings lib recs now lookahead)"
proof -
  let ?ivs = "concat (map (\<lambda>r. fst (expandRecording lib r now (now + lookahead))) recs)"
  have "sum_list (map (\<lambda>r. demand lib r t) recs) \<le> sum_list (map (\<lambda>r. overlap (fst (expandRecording lib r now (now + lookahead))) t) recs)"
    using assms continuous_covered sampled_covered by (intro sum_list_mono) blast
  also have "\<dots> = overlap ?ivs t" by (simp add: overlap_concat o_def)
  also have "\<dots> \<le> peakConcurrency ?ivs"
  proof -
    have "proper ?ivs" by (rule proper_concat) (auto simp: expandRecording_proper)
    then show ?thesis by (intro peak_ge_overlap) (simp add: proper_def)
  qed
  finally show ?thesis
    using assms(2,3) forecast_loop_intervals [of lib recs now "now + lookahead" "[]" zero_time]
    by (simp add: forecastFromRecordings_def split_beta)
qed

text \<open>Two full-day streams in UTC and a hourly sampled one, over the hour after the epoch.\<close>

definition full_day_stream :: forecastRecording where
  "full_day_stream = \<lparr>fr_mode = ''continuous'', fr_cronExpr = [], fr_cronTimezone = [], fr_clipDurationSec = 60,
     fr_dailyWindowStart = ''00:00:00'', fr_dailyWindowEnd = ''00:00:00'', fr_envStart = 0, fr_envEnd = zero_time,
     fr_activeWeekdays = AllWeekdays\<rparr>"

definition half_past_clip :: forecastRecording where
  "half_past_clip = \<lparr>fr_mode = ''sampled'', fr_cronExpr = ''30 * * * *'', fr_cronTimezone = [], fr_clipDurationSec = 60,
     fr_dailyWindowStart = [], fr_dailyWindowEnd = [], fr_envStart = 0, fr_envEnd = zero_time,
     fr_activeWeekdays = AllWeekdays\<rparr>"

lemma parse_midnight: "ParseTimeOfDay ''00:00:00'' = Inr midnight"
proof -
  have "clock_text midnight = ''00:00:00''"
    by (simp add: clock_text_def two_digits_def midnight_def digit_char_def char_of_def bit_Suc_0_iff)
  then show ?thesis using parse_clock_texts(1) [of midnight] by simp
qed

lemma half_past_fire_mod: "half_past.fire f \<Longrightarrow> f mod hour = 30 * minute"
  using half_past_mod by (auto simp: half_past.fire_def)

theorem forecast_covers_demand_witness:
  "sum_list (map (\<lambda>r. demand example_lib r 0) [full_day_stream, full_day_stream, half_past_clip]) \<le>
     PeakConcurrent (forecastFromRecordings example_lib [full_day_stream, full_day_stream, half_past_clip] 0 hour)"
proof -
  have "forecastable example_lib 0 hour full_day_stream"
    using parse_midnight example_utc utc_full_day.window_calendar_axioms
    by (auto simp: forecastable_def full_day_stream_def utc_fixed local_day_fixed unix_def)
  moreover have "forecastable example_lib 0 hour half_past_clip"
  proof -
    have "{f. half_past.fire f \<and> 0 - modeled_clip 60 \<le> f \<and> f \<le> 0 + hour} \<subseteq> {30 * minute}"
    proof
      fix f
      assume "f \<in> {f. half_past.fire f \<and> 0 - modeled_clip 60 \<le> f \<and> f \<le> 0 + hour}"
      then have f: "f mod hour = 30 * minute" "- 90000000000 \<le> f" "f \<le> hour"
        using half_past_fire_mod by (auto simp: modeled_clip_def sampledScheduleDelayMargin_def)
      moreover have "f div hour * hour + f mod hour = f" by simp
      ultimately have "f div hour = 0" by linarith
      then show "f \<in> {30 * minute}" using f(1) \<open>f div hour * hour + f mod hour = f\<close> by simp
    qed
    then have "card {f. half_past.fire f \<and> 0 - modeled_clip 60 \<le> f \<and> f \<le> 0 + hour} \<le> card {30 * minute}"
      by (intro card_mono) auto
    then show ?thesis
      using parse_half_past example_utc half_past.cron_schedule_axioms
      by (auto simp: forecastable_def half_past_clip_def)
  qed
  ultimately show ?thesis
    by (intro forecast_covers_demand) auto
qed

end
