(* ===== verification/Decisions.thy ===== *)
theory Decisions
  imports Forecast
begin

text \<open>
  The pure decisions of the droplet pool: \<open>dropletpool/state.go\<close>, and the row types of
  \<open>dropletpool/store.go\<close> and \<open>dropletpool/do.go\<close> it works on.
\<close>

section \<open>Rows\<close>

datatype droplet_state = Provisioning | Active | Draining | Destroying | Destroyed | Failed

datatype pool_role = Shared | DedicatedCanary

record Droplet =
  d_ID :: int
  d_Name :: string
  d_NodeID :: "int option"
  d_NodeTokenID :: "int option"
  d_DODropletID :: "int option"
  d_Region :: string
  d_Size :: string
  d_Capacity :: int
  d_State :: droplet_state
  d_PoolRole :: pool_role
  d_IPAddress :: string
  d_BuildSHA :: string
  d_LastSeenAt :: "gotime option"
  d_NodeHeartbeatAt :: "gotime option"
  d_IdleSince :: "gotime option"
  d_DrainStartedAt :: "gotime option"
  d_CreatedAt :: gotime

record DODroplet =
  do_ID :: int
  do_Name :: string
  do_IP :: string
  do_CreatedAt :: gotime

record PoolState =
  LastScaleUpAt :: "gotime option"
  LastScaleDownAt :: "gotime option"

section \<open>The scale decision\<close>

record Decision =
  ScaleUpCount :: int
  ScaleUpBlockedByCap :: bool
  CapShortfall :: int
  DrainCount :: int

record DecisionParams =
  p_Now :: gotime
  p_Forecast :: Forecast
  p_Live :: int
  p_IdleEligible :: int
  p_PoolState :: PoolState
  p_Capacity :: int
  p_Min :: int
  p_Max :: int
  p_MaxScaleUpBatch :: int
  p_ProvisionLead :: duration
  p_IdleGrace :: duration
  p_ScaleUpCooldown :: duration
  p_ScaleDownCooldown :: duration

definition cooldownElapsed :: "gotime option \<Rightarrow> gotime \<Rightarrow> duration \<Rightarrow> bool" where
  "cooldownElapsed stamp now cooldown =
     (case stamp of None \<Rightarrow> True | Some at \<Rightarrow> cooldown \<le> time_sub now at)"

definition capacity_of :: "DecisionParams \<Rightarrow> int" where
  "capacity_of p = (if p_Capacity p \<le> 0 then 1 else p_Capacity p)"

definition required_uncapped :: "DecisionParams \<Rightarrow> int" where
  "required_uncapped p =
     (let peak = PeakConcurrent (p_Forecast p);
          wanted = (if peak > 0 then go_quot (peak + capacity_of p - 1) (capacity_of p) else 0)
      in if wanted < p_Min p then p_Min p else wanted)"

definition required_droplets :: "DecisionParams \<Rightarrow> int" where
  "required_droplets p = (if required_uncapped p > p_Max p then p_Max p else required_uncapped p)"

definition imminent_demand :: "DecisionParams \<Rightarrow> bool" where
  "imminent_demand p \<longleftrightarrow> PeakConcurrent (p_Forecast p) > 0 \<and> \<not> is_zero (NextFireAt (p_Forecast p)) \<and>
     time_sub (NextFireAt (p_Forecast p)) (p_Now p) \<le> p_ProvisionLead p"

definition Decide :: "DecisionParams \<Rightarrow> Decision" where
  "Decide p =
     (let capacity = capacity_of p;
          requiredUncapped = required_uncapped p;
          required = required_droplets p;
          imminent = imminent_demand p;
          wantUp = (required > p_Live p \<and> (imminent \<or> required \<le> p_Min p \<or> p_Live p < p_Min p));
          batch = (if p_MaxScaleUpBatch p \<le> 0 then 1 else p_MaxScaleUpBatch p);
          d = \<lparr>ScaleUpCount = 0,
               ScaleUpBlockedByCap = (requiredUncapped > p_Max p \<and> p_Live p \<ge> p_Max p \<and> (imminent \<or> p_Min p > p_Max p)),
               CapShortfall = (if requiredUncapped > p_Max p then requiredUncapped - p_Max p else 0),
               DrainCount = 0\<rparr>
      in if wantUp then
           (if p_Live p \<ge> p_Max p then d\<lparr>ScaleUpBlockedByCap := True\<rparr>
            else if cooldownElapsed (LastScaleUpAt (p_PoolState p)) (p_Now p) (p_ScaleUpCooldown p) then
              (let gap = required - p_Live p;
                   gap = (if gap > batch then batch else gap);
                   gap = (if gap < 0 then 0 else gap)
               in d\<lparr>ScaleUpCount := gap\<rparr>)
            else d)
         else if p_Live p > p_Min p \<and> p_Live p > required \<and> p_IdleEligible p > 0 then
           (let hysteresisOK = (PeakConcurrent (p_Forecast p) \<le> (p_Live p - 1) * capacity);
                next = NextFireAt (p_Forecast p);
                noImminentFire = (is_zero next \<or> time_sub next (p_Now p) > p_IdleGrace p + p_ProvisionLead p)
            in if hysteresisOK \<and> noImminentFire \<and>
                  cooldownElapsed (LastScaleDownAt (p_PoolState p)) (p_Now p) (p_ScaleDownCooldown p) then
                 (let surplus = p_Live p - max required (p_Min p);
                      surplus = (if surplus > p_IdleEligible p then p_IdleEligible p else surplus);
                      surplus = (if surplus < 0 then 0 else surplus)
                  in d\<lparr>DrainCount := surplus\<rparr>)
               else d)
         else d)"

section \<open>Idle, unresponsive and orphaned workers\<close>

definition IdleEligibleDroplets :: "Droplet list \<Rightarrow> gotime \<Rightarrow> duration \<Rightarrow> Droplet list" where
  "IdleEligibleDroplets droplets now idleGrace =
     filter (\<lambda>d. d_State d = Active \<and> (case d_IdleSince d of None \<Rightarrow> False | Some t \<Rightarrow> idleGrace \<le> time_sub now t)) droplets"

definition WorkerLastLiveAt :: "Droplet \<Rightarrow> gotime" where
  "WorkerLastLiveAt d =
     foldl (\<lambda>last t. case t of None \<Rightarrow> last | Some u \<Rightarrow> if u > last then u else last)
       (d_CreatedAt d) [d_LastSeenAt d, d_NodeHeartbeatAt d]"

definition UnresponsiveDroplets :: "Droplet list \<Rightarrow> gotime \<Rightarrow> duration \<Rightarrow> Droplet list" where
  "UnresponsiveDroplets droplets now staleAfter =
     (if staleAfter \<le> 0 then []
      else filter (\<lambda>d. d_State d = Active \<and> staleAfter \<le> time_sub now (WorkerLastLiveAt d)) droplets)"

record OrphanPlan =
  AdoptByName :: "DODroplet list"
  DestroyOrphan :: "DODroplet list"
  MissingFromDO :: "Droplet list"

definition dropletAge :: "DODroplet \<Rightarrow> gotime \<Rightarrow> duration" where
  "dropletAge d now = (if is_zero (do_CreatedAt d) then 2 ^ 62 - 1 else time_sub now (do_CreatedAt d))"

text \<open>The first loop, over the DO fleet; the maps of the code are used for membership only.\<close>

fun orphan_loop ::
    "DODroplet list \<Rightarrow> string list \<Rightarrow> int list \<Rightarrow> gotime \<Rightarrow> duration \<Rightarrow> DODroplet list \<times> DODroplet list" where
  "orphan_loop [] liveNames liveDOIDs now provisionTimeout = ([], [])"
| "orphan_loop (d # ds) liveNames liveDOIDs now provisionTimeout =
     (let (adopt, destroy) = orphan_loop ds liveNames liveDOIDs now provisionTimeout in
      if do_ID d \<in> set liveDOIDs then (adopt, destroy)
      else if do_Name d \<in> set liveNames then (d # adopt, destroy)
      else if dropletAge d now \<ge> provisionTimeout then (adopt, d # destroy)
      else (d # adopt, destroy))"

definition ReconcileOrphans :: "DODroplet list \<Rightarrow> Droplet list \<Rightarrow> gotime \<Rightarrow> duration \<Rightarrow> OrphanPlan" where
  "ReconcileOrphans doFleet liveRows now provisionTimeout =
     (let (adopt, destroy) = orphan_loop doFleet (map d_Name liveRows) (List.map_filter d_DODropletID liveRows) now provisionTimeout;
          presentDOIDs = map do_ID doFleet;
          missing = filter (\<lambda>r. case d_DODropletID r of None \<Rightarrow> False
            | Some i \<Rightarrow> \<not> (d_State r = Provisioning \<and> time_sub now (d_CreatedAt r) < provisionTimeout) \<and>
                i \<notin> set presentDOIDs) liveRows
      in \<lparr>AdoptByName = adopt, DestroyOrphan = destroy, MissingFromDO = missing\<rparr>)"

section \<open>Lemmas on the decision\<close>

lemma capacity_of_pos: "0 < capacity_of p"
  by (simp add: capacity_of_def)

lemma required_uncapped_serves: "PeakConcurrent (p_Forecast p) \<le> required_uncapped p * capacity_of p \<or> required_uncapped p < 0"
proof (cases "PeakConcurrent (p_Forecast p) > 0")
  case True
  let ?peak = "PeakConcurrent (p_Forecast p)" and ?c = "capacity_of p"
  let ?q = "(?peak + ?c - 1) div ?c"
  have c: "0 < ?c" by (rule capacity_of_pos)
  have "?peak \<le> ?q * ?c" using ceiling_le_iff [OF c, of ?peak ?q] by simp
  moreover have "?q \<le> required_uncapped p"
    using True c by (simp add: required_uncapped_def Let_def go_quot_nonneg)
  then have "?q * ?c \<le> required_uncapped p * ?c" using c by simp
  ultimately show ?thesis by linarith
next
  case False
  moreover have "0 \<le> required_uncapped p * capacity_of p \<or> required_uncapped p < 0"
    using capacity_of_pos [of p] by (simp add: zero_le_mult_iff) linarith
  ultimately show ?thesis by linarith
qed

lemma required_uncapped_nonneg: "0 \<le> required_uncapped p"
proof -
  let ?peak = "PeakConcurrent (p_Forecast p)" and ?c = "capacity_of p"
  have "0 \<le> (if ?peak > 0 then go_quot (?peak + ?c - 1) ?c else 0)"
    using capacity_of_pos [of p] by (simp add: go_quot_nonneg pos_imp_zdiv_nonneg_iff)
  then show ?thesis unfolding required_uncapped_def Let_def by (rule order_trans) simp
qed

lemma RequiredDroplets_eq:
  "RequiredDroplets (PeakConcurrent (p_Forecast p)) (p_Capacity p) (p_Min p) (p_Max p) = required_droplets p"
  by (simp add: RequiredDroplets_def required_droplets_def required_uncapped_def capacity_of_def Let_def)

lemma Decide_up:
  "ScaleUpCount (Decide p) = (if required_droplets p > p_Live p \<and>
      (imminent_demand p \<or> required_droplets p \<le> p_Min p \<or> p_Live p < p_Min p) \<and> p_Live p < p_Max p \<and>
      cooldownElapsed (LastScaleUpAt (p_PoolState p)) (p_Now p) (p_ScaleUpCooldown p)
    then min (required_droplets p - p_Live p) (max 1 (p_MaxScaleUpBatch p)) else 0)"
  by (auto simp: Decide_def Let_def)

text \<open>The lemma on drains.\<close>

lemma Decide_drain:
  assumes "0 < DrainCount (Decide p)"
  shows "ScaleUpCount (Decide p) = 0" "DrainCount (Decide p) \<le> p_IdleEligible p"
    "max (required_droplets p) (p_Min p) \<le> p_Live p - DrainCount (Decide p)"
    "is_zero (NextFireAt (p_Forecast p)) \<or>
       p_IdleGrace p + p_ProvisionLead p < time_sub (NextFireAt (p_Forecast p)) (p_Now p)"
    "cooldownElapsed (LastScaleDownAt (p_PoolState p)) (p_Now p) (p_ScaleDownCooldown p)"
    "PeakConcurrent (p_Forecast p) \<le> (p_Live p - 1) * capacity_of p"
  using assms by (auto simp: Decide_def Let_def split: if_splits)

section \<open>Properties\<close>

text \<open>C11: a tick never scales up and drains at once. A scale-up is at least one droplet and never more
  than the batch, the demand gap or the hard cap allows, and waits for its cooldown. A drain never takes
  more droplets than are idle, never goes below the minimum or the required count, waits for its
  cooldown, and only happens when one droplet less than the live ones could serve the forecast peak (the hysteresis)
  and no fire is due within the idle grace plus the provision lead.\<close>

theorem decide_safe:
  "if 0 < ScaleUpCount (Decide p) then
     DrainCount (Decide p) = 0 \<and> p_Live p + ScaleUpCount (Decide p) \<le> p_Max p \<and>
     p_Live p + ScaleUpCount (Decide p) \<le> required_droplets p \<and> ScaleUpCount (Decide p) \<le> max 1 (p_MaxScaleUpBatch p) \<and>
     cooldownElapsed (LastScaleUpAt (p_PoolState p)) (p_Now p) (p_ScaleUpCooldown p)
   else ScaleUpCount (Decide p) = 0 \<and> 0 \<le> DrainCount (Decide p) \<and>
     (if 0 < DrainCount (Decide p) then
        DrainCount (Decide p) \<le> p_IdleEligible p \<and> p_Min p \<le> p_Live p - DrainCount (Decide p) \<and>
        required_droplets p \<le> p_Live p - DrainCount (Decide p) \<and>
        PeakConcurrent (p_Forecast p) \<le> (p_Live p - 1) * capacity_of p \<and>
        (is_zero (NextFireAt (p_Forecast p)) \<or>
         p_IdleGrace p + p_ProvisionLead p < time_sub (NextFireAt (p_Forecast p)) (p_Now p)) \<and>
        cooldownElapsed (LastScaleDownAt (p_PoolState p)) (p_Now p) (p_ScaleDownCooldown p)
      else True)"
proof (cases "0 < ScaleUpCount (Decide p)")
  case True
  then have "\<not> 0 < DrainCount (Decide p)" using Decide_drain(1) by fastforce
  moreover have "0 \<le> DrainCount (Decide p)" by (auto simp: Decide_def Let_def)
  moreover have "required_droplets p \<le> p_Max p" by (simp add: required_droplets_def)
  ultimately show ?thesis using True by (auto simp: Decide_up split: if_splits)
next
  case False
  moreover have "0 \<le> DrainCount (Decide p)" by (auto simp: Decide_def Let_def)
  moreover have "0 \<le> ScaleUpCount (Decide p)" by (simp add: Decide_up max.coboundedI1)
  ultimately show ?thesis using Decide_drain [of p] by auto
qed

text \<open>Unless the hard cap already falls short of the demand, the droplets left after a drain can
  serve the forecast peak.\<close>

theorem drain_keeps_capacity:
  assumes "0 < DrainCount (Decide p)" "required_uncapped p \<le> p_Max p"
  shows "PeakConcurrent (p_Forecast p) \<le> (p_Live p - DrainCount (Decide p)) * capacity_of p"
proof -
  have "required_uncapped p \<le> p_Live p - DrainCount (Decide p)"
    using Decide_drain(3) [OF assms(1)] assms(2) by (simp add: required_droplets_def)
  then have "required_uncapped p * capacity_of p \<le> (p_Live p - DrainCount (Decide p)) * capacity_of p"
    using capacity_of_pos [of p] by simp
  then show ?thesis using required_uncapped_serves [of p] required_uncapped_nonneg [of p] by linarith
qed

definition quiet_pool :: DecisionParams where
  "quiet_pool = \<lparr>p_Now = 0, p_Forecast = \<lparr>PeakConcurrent = 7, NextFireAt = 10 * hour\<rparr>, p_Live = 6, p_IdleEligible = 5,
     p_PoolState = \<lparr>LastScaleUpAt = None, LastScaleDownAt = None\<rparr>, p_Capacity = 3, p_Min = 1, p_Max = 10,
     p_MaxScaleUpBatch = 2, p_ProvisionLead = 10 * minute, p_IdleGrace = 10 * minute,
     p_ScaleUpCooldown = minute, p_ScaleDownCooldown = minute\<rparr>"

lemma quiet_pool_values:
  "DrainCount (Decide quiet_pool) = 3" "required_uncapped quiet_pool = 3"
  by (simp_all add: Decide_def Let_def required_droplets_def required_uncapped_def capacity_of_def quiet_pool_def
      imminent_demand_def cooldownElapsed_def go_quot_def time_sub_def max_duration_def min_duration_def)

theorem drain_keeps_capacity_witness: "(7::int) \<le> (6 - DrainCount (Decide quiet_pool)) * 3"
  using drain_keeps_capacity [of quiet_pool] quiet_pool_values
  by (simp add: quiet_pool_def capacity_of_def)

lemma orphan_loop_filter:
  "orphan_loop ds names ids now timeout =
     (filter (\<lambda>d. do_ID d \<notin> set ids \<and> (do_Name d \<in> set names \<or> dropletAge d now < timeout)) ds,
      filter (\<lambda>d. do_ID d \<notin> set ids \<and> do_Name d \<notin> set names \<and> timeout \<le> dropletAge d now) ds)"
  by (induction ds) (simp_all add: not_less [symmetric])

lemma map_filter_Some: "i \<in> set (List.map_filter f xs) \<longleftrightarrow> Some i \<in> f ` set xs"
  by (induction xs) (auto simp: List.map_filter_simps split: option.splits)

text \<open>C20: the reconcile plan is exact. A DO droplet is destroyed as an orphan exactly when no live row has
  its id or its name and it is past the provision timeout; it is adopted exactly when no row has its id
  but one has its name or it is young (the comment above the function says that a droplet whose name is known is matched and needs no
  action: the code, as the comment inside the loop says, adopts it to bind its id); a row is reported missing exactly when its DO id is absent from
  the fleet and it is not a provisioning row younger than the timeout.\<close>

theorem reconcile_plan_exact:
  "set (DestroyOrphan (ReconcileOrphans fleet rows now timeout)) =
     {d \<in> set fleet. Some (do_ID d) \<notin> d_DODropletID ` set rows \<and> do_Name d \<notin> d_Name ` set rows \<and> timeout \<le> dropletAge d now} \<and>
   set (AdoptByName (ReconcileOrphans fleet rows now timeout)) =
     {d \<in> set fleet. Some (do_ID d) \<notin> d_DODropletID ` set rows \<and> (do_Name d \<in> d_Name ` set rows \<or> dropletAge d now < timeout)} \<and>
   set (MissingFromDO (ReconcileOrphans fleet rows now timeout)) =
     {r \<in> set rows. \<exists>i. d_DODropletID r = Some i \<and> i \<notin> do_ID ` set fleet \<and>
        \<not> (d_State r = Provisioning \<and> time_sub now (d_CreatedAt r) < timeout)}"
proof -
  have "set (MissingFromDO (ReconcileOrphans fleet rows now timeout)) =
     {r \<in> set rows. \<exists>i. d_DODropletID r = Some i \<and> i \<notin> do_ID ` set fleet \<and>
        \<not> (d_State r = Provisioning \<and> time_sub now (d_CreatedAt r) < timeout)}"
    by (auto simp: ReconcileOrphans_def orphan_loop_filter Let_def not_less split: option.splits)
  then show ?thesis
    by (simp add: ReconcileOrphans_def orphan_loop_filter Let_def map_filter_Some)
qed

end
