(* ===== verification/Projection.thy ===== *)
theory Projection
  imports Cron
begin

text \<open>
  The forward projection of billable record-hours: \<open>api/billing_projection.go\<close>. Counts are returned as
  integers; the code converts them to \<open>float64\<close>, exactly.
\<close>

record projectedRecording =
  pr_Mode :: string
  pr_CronExpr :: string
  pr_CronTimezone :: string
  pr_DailyStart :: string
  pr_DailyEnd :: string
  pr_StartAt :: gotime
  pr_EndAt :: "gotime option"
  pr_ActiveWeekdays :: WeekdaySet

definition projectionMaxDays :: nat where "projectionMaxDays = 400"
definition projectionMaxFires :: nat where "projectionMaxFires = 600000"

definition ceilHour :: "gotime \<Rightarrow> gotime" where
  "ceilHour t = (let trunc = truncate_hour t in if trunc = t then trunc else trunc + hour)"

text \<open>The loop over hours from \<open>b\<close>.\<close>

function hour_starts :: "gotime \<Rightarrow> gotime \<Rightarrow> gotime list" where
  "hour_starts b stop_at = (if b < stop_at then b # hour_starts (b + hour) stop_at else [])"
  by auto
termination by (relation "measure (\<lambda>(b, stop_at). nat (stop_at - b))") auto

declare hour_starts.simps [simp del]

definition hourBucketsInSpan :: "gotime \<Rightarrow> gotime \<Rightarrow> int" where
  "hourBucketsInSpan start stop_at = int (length (hour_starts (truncate_hour start) stop_at))"

text \<open>The set of buckets is a list without repetition, keyed by Unix seconds.\<close>

fun sampled_buckets :: "nat \<Rightarrow> schedule \<Rightarrow> gotime \<Rightarrow> gotime \<Rightarrow> int list \<Rightarrow> int list" where
  "sampled_buckets 0 sched projEnd cursor buckets = buckets"
| "sampled_buckets (Suc n) sched projEnd cursor buckets =
     (let next = sched cursor in
      if is_zero next \<or> \<not> next < projEnd then buckets
      else sampled_buckets n sched projEnd next (List.insert (unix (truncate_hour next)) buckets))"

definition sampledRecordHours :: "'a timelib_scheme \<Rightarrow> projectedRecording \<Rightarrow> gotime \<Rightarrow> gotime \<Rightarrow> int" where
  "sampledRecordHours lib rec projStart projEnd =
     (case ParseCron lib (pr_CronExpr rec) of Inl e \<Rightarrow> hourBucketsInSpan projStart projEnd
      | Inr sched \<Rightarrow>
        (case LoadLocation (tz_database lib) (pr_CronTimezone rec) of Inl e \<Rightarrow> hourBucketsInSpan projStart projEnd
         | Inr loc \<Rightarrow> int (length (sampled_buckets projectionMaxFires (sched loc) projEnd (projStart - second) []))))"

fun continuous_buckets ::
    "nat \<Rightarrow> location \<Rightarrow> TimeOfDay \<Rightarrow> TimeOfDay \<Rightarrow> WeekdaySet \<Rightarrow> gotime \<Rightarrow> gotime \<Rightarrow> int \<Rightarrow> int list \<Rightarrow> int list" where
  "continuous_buckets 0 loc start stop active projStart projEnd d buckets = buckets"
| "continuous_buckets (Suc n) loc start stop active projStart projEnd d buckets =
     (let openUTC = onDay start d loc in
      if \<not> openUTC < projEnd then buckets
      else
        let weekdays = (if active = 0 then AllWeekdays else active);
            nd = local_day loc (add_days loc (go_date loc d 0 0) 1) in
        if \<not> Contains weekdays (weekday loc openUTC)
        then continuous_buckets n loc start stop active projStart projEnd nd buckets
        else
          let closeUTC = (if IsOvernightWindow start stop
                          then onDay stop (local_day loc (add_days loc (go_date loc d 0 0) 1)) loc
                          else onDay stop d loc);
              segStart = (if openUTC > projStart then openUTC else projStart);
              segEnd = (if closeUTC < projEnd then closeUTC else projEnd)
          in continuous_buckets n loc start stop active projStart projEnd nd
               (foldl (\<lambda>bs b. List.insert (unix b) bs) buckets (hour_starts (truncate_hour segStart) segEnd)))"

definition continuousRecordHours :: "'a timelib_scheme \<Rightarrow> projectedRecording \<Rightarrow> gotime \<Rightarrow> gotime \<Rightarrow> int" where
  "continuousRecordHours lib rec projStart projEnd =
     (case (ParseTimeOfDay (pr_DailyStart rec), ParseTimeOfDay (pr_DailyEnd rec)) of
        (Inr start, Inr stop) \<Rightarrow>
          (case LoadLocation (tz_database lib) (pr_CronTimezone rec) of Inl e \<Rightarrow> 0
           | Inr loc \<Rightarrow>
             (let d = local_day loc projStart;
                  d' = (if IsOvernightWindow start stop then local_day loc (add_days loc (go_date loc d 0 0) (- 1)) else d)
              in int (length (continuous_buckets (projectionMaxDays + 2) loc start stop (pr_ActiveWeekdays rec)
                        projStart projEnd d' []))))
      | _ \<Rightarrow> 0)"

definition projectRecordingHours :: "'a timelib_scheme \<Rightarrow> projectedRecording \<Rightarrow> gotime \<Rightarrow> gotime \<Rightarrow> int" where
  "projectRecordingHours lib rec now winEnd =
     (let projStart = (if pr_StartAt rec > now then pr_StartAt rec else now);
          projEnd = (case pr_EndAt rec of None \<Rightarrow> winEnd | Some e \<Rightarrow> if e < winEnd then e else winEnd)
      in if \<not> projStart < projEnd then 0
         else
           let projStart = ceilHour projStart;
               maxEnd = add_days utc projStart (int projectionMaxDays);
               projEnd = (if projEnd > maxEnd then maxEnd else projEnd)
           in if \<not> projStart < projEnd then 0
              else if pr_Mode rec = ''continuous'' then continuousRecordHours lib rec projStart projEnd
              else sampledRecordHours lib rec projStart projEnd)"

section \<open>Hours\<close>

text \<open>The hour, counted from the epoch, an instant lies in; the bucket of hour \<open>h\<close> is its Unix second.\<close>

definition hour_of :: "gotime \<Rightarrow> int" where
  "hour_of t = t div hour"

lemma unix_hour: "unix (h * hour) = h * 3600"
proof -
  have "h * hour = (h * 3600) * second" by simp
  then show ?thesis unfolding unix_def by simp
qed

lemma unix_truncate: "unix (truncate_hour t) = hour_of t * 3600"
  by (simp add: truncate_hour_def hour_of_def unix_hour del: mult_numeral_left)

lemma hour_starts_set:
  "unix ` set (hour_starts (h * hour) e) = (\<lambda>k. k * 3600) ` {k. h \<le> k \<and> k * hour < e}"
proof (induction "nat (e - h * hour)" arbitrary: h rule: less_induct)
  case less
  show ?case
  proof (cases "h * hour < e")
    case True
    have next_hour: "h * hour + hour = (h + 1) * hour" by simp
    have IH: "unix ` set (hour_starts ((h + 1) * hour) e) = (\<lambda>k. k * 3600) ` {k. h + 1 \<le> k \<and> k * hour < e}"
      using True by (intro less.hyps) simp
    have "hour_starts (h * hour) e = h * hour # hour_starts ((h + 1) * hour) e"
      using True by (subst hour_starts.simps) (simp only: next_hour if_True)
    moreover have "{k. h \<le> k \<and> k * hour < e} = insert h {k. h + 1 \<le> k \<and> k * hour < e}" using True by auto
    ultimately show ?thesis using IH by (simp add: unix_hour del: mult_numeral_left)
  next
    case False
    moreover have "\<not> k * hour < e" if "h \<le> k" for k using False that by linarith
    ultimately show ?thesis by (subst hour_starts.simps) auto
  qed
qed

lemma foldl_insert_set: "set (foldl (\<lambda>bs b. List.insert (f b) bs) bs xs) = set bs \<union> f ` set xs"
  by (induction xs arbitrary: bs) auto

lemma foldl_insert_distinct: "distinct bs \<Longrightarrow> distinct (foldl (\<lambda>bs b. List.insert (f b) bs) bs xs)"
  by (induction xs arbitrary: bs) auto

text \<open>The hours that overlap a span.\<close>

lemma hours_of_span:
  "(\<lambda>k. k * 3600) ` {k. hour_of a \<le> k \<and> k * hour < b} = (\<lambda>t. hour_of t * 3600) ` {t. a \<le> t \<and> t < b}"
  if "a < b"
proof -
  have "{k. hour_of a \<le> k \<and> k * hour < b} = hour_of ` {t. a \<le> t \<and> t < b}"
  proof (intro set_eqI iffI)
    fix k
    assume "k \<in> {k. hour_of a \<le> k \<and> k * hour < b}"
    then have k: "hour_of a \<le> k" "k * hour < b" by auto
    show "k \<in> hour_of ` {t. a \<le> t \<and> t < b}"
    proof (cases "hour_of a = k")
      case True
      then show ?thesis using that by (intro image_eqI [of _ _ a]) auto
    next
      case False
      then have "a < k * hour" using k(1) int_div_less_iff [of hour a k] by (simp add: hour_of_def)
      then show ?thesis using k(2) by (intro image_eqI [of _ _ "k * hour"]) (auto simp: hour_of_def)
    qed
  next
    fix k
    assume "k \<in> hour_of ` {t. a \<le> t \<and> t < b}"
    then obtain t where t: "a \<le> t" "t < b" "k = hour_of t" by auto
    then have "hour_of a \<le> k" by (simp add: hour_of_def zdiv_mono1)
    moreover have "k * hour \<le> t" using t int_le_div_iff [of hour k t] by (simp add: hour_of_def)
    ultimately show "k \<in> {k. hour_of a \<le> k \<and> k * hour < b}" using t by auto
  qed
  then show ?thesis by (simp add: image_image)
qed

section \<open>The hours of a continuous recording\<close>

locale proper_window = window_calendar +
  assumes nonempty: "opens_at loc start d < closes_at loc start stop d"
begin

text \<open>The instants of the span at which a window of the active days \<open>D\<close> is open.\<close>

definition open_instants :: "WeekdaySet \<Rightarrow> gotime \<Rightarrow> gotime \<Rightarrow> int set \<Rightarrow> gotime set" where
  "open_instants wds a b D = {t. a \<le> t \<and> t < b \<and> (\<exists>d \<in> D. Contains wds (weekday_of_day d) \<and> covers d t)}"

lemma day_buckets:
  assumes "opens_at loc start d < e"
  shows "unix ` set (hour_starts (truncate_hour (max (opens_at loc start d) (h * hour))) (min (closes_at loc start stop d) e)) =
    (\<lambda>t. hour_of t * 3600) ` {t. h * hour \<le> t \<and> t < e \<and> covers d t}"
proof -
  let ?o = "opens_at loc start d" and ?c = "closes_at loc start stop d"
  let ?a = "max ?o (h * hour)" and ?b = "min ?c e"
  have trunc: "truncate_hour ?a = hour_of ?a * hour" by (simp add: truncate_hour_def hour_of_def)
  have set: "{t. h * hour \<le> t \<and> t < e \<and> covers d t} = {t. ?a \<le> t \<and> t < ?b}" by auto
  show ?thesis
  proof (cases "?a < ?b")
    case True
    then show ?thesis unfolding trunc set hour_starts_set by (rule hours_of_span)
  next
    case False
    then have "?b \<le> h * hour" "?o \<le> h * hour" using nonempty [of d] assms by auto
    then have "hour_of ?a * hour = h * hour" by (simp add: hour_of_def max_def)
    then have "hour_starts (truncate_hour ?a) ?b = []"
      using \<open>?b \<le> h * hour\<close> by (subst hour_starts.simps) (simp only: trunc not_less [symmetric] if_False)
    moreover have "{t. ?a \<le> t \<and> t < ?b} = {}" using False by auto
    ultimately show ?thesis unfolding set by (metis empty_set image_empty)
  qed
qed

lemma continuous_buckets_spec:
  assumes "wds \<noteq> 0"
  shows "distinct buckets \<Longrightarrow>
    distinct (continuous_buckets n loc start stop wds (h * hour) e d buckets) \<and>
    set (continuous_buckets n loc start stop wds (h * hour) e d buckets) =
      set buckets \<union> (\<lambda>t. hour_of t * 3600) ` open_instants wds (h * hour) e {d..<d + int n}"
proof (induction n arbitrary: d buckets)
  case 0
  then show ?case by (simp add: open_instants_def)
next
  case (Suc n)
  let ?o = "opens_at loc start d"
  have days: "{d..<d + int (Suc n)} = insert d {d + 1..<d + 1 + int n}" by auto
  show ?case
  proof (cases "?o < e")
    case False
    have "open_instants wds (h * hour) e {d..<d + int (Suc n)} = {}"
    proof -
      have "?o \<le> opens_at loc start k" if "d \<le> k" for k
        using opens_at_mono [OF valid_start, of k d] that by linarith
      then show ?thesis using False by (force simp: open_instants_def)
    qed
    then show ?thesis using False Suc.prems by (simp add: opens_at_def)
  next
    case True
    let ?active = "Contains wds (weekday_of_day d)"
    define bs where "bs = (if ?active then foldl (\<lambda>bs b. List.insert (unix b) bs) buckets
      (hour_starts (truncate_hour (max ?o (h * hour))) (min (closes_at loc start stop d) e)) else buckets)"
    have step: "continuous_buckets (Suc n) loc start stop wds (h * hour) e d buckets =
        continuous_buckets n loc start stop wds (h * hour) e (d + 1) bs"
      using True assms
      by (simp add: Let_def weekday_onDay [OF valid_start] opens_at_def closes_at_def bs_def max_def min_def not_less
          del: mult_numeral_left)
    have bs: "distinct bs" using Suc.prems by (simp add: bs_def foldl_insert_distinct)
    have "set bs = set buckets \<union> (if ?active then (\<lambda>t. hour_of t * 3600) ` {t. h * hour \<le> t \<and> t < e \<and> covers d t} else {})"
      using day_buckets [OF True, of h] by (simp add: bs_def foldl_insert_set)
    moreover have "open_instants wds (h * hour) e {d..<d + int (Suc n)} =
        (if ?active then {t. h * hour \<le> t \<and> t < e \<and> covers d t} else {}) \<union> open_instants wds (h * hour) e {d + 1..<d + 1 + int n}"
      unfolding days open_instants_def by auto
    ultimately show ?thesis
      using Suc.IH [OF bs, of "d + 1"] unfolding step by (auto simp: image_Un)
  qed
qed

end

section \<open>Properties\<close>

lemma ceilHour_hour: "\<exists>h. ceilHour t = h * hour"
  by (auto simp: ceilHour_def truncate_hour_def Let_def intro: exI [of _ "t div hour"] exI [of _ "t div hour + 1"])

text \<open>C23: in ordinary calendars and within the bound of 400 days, the hours projected for a continuous
  recording are exactly the distinct UTC hours, from the first whole hour at or after now and the
  recording's start up to its end, during which a window of an active day is open.\<close>

theorem continuous_projection_exact:
  assumes "ParseTimeOfDay (pr_DailyStart rec) = Inr start" "ParseTimeOfDay (pr_DailyEnd rec) = Inr stop"
    and "LoadLocation (tz_database lib) (pr_CronTimezone rec) = Inr loc" "proper_window loc start stop"
    and "pr_ActiveWeekdays rec \<noteq> 0" "pr_Mode rec = ''continuous''"
    and "a = ceilHour (max now (pr_StartAt rec))" "b = (case pr_EndAt rec of None \<Rightarrow> winEnd | Some e \<Rightarrow> min e winEnd)"
    and "b \<le> a + 400 * 24 * hour" "local_day loc b \<le> local_day loc a + 400"
  shows "projectRecordingHours lib rec now winEnd =
    int (card (hour_of ` {t. a \<le> t \<and> t < b \<and>
      (\<exists>d. Contains (pr_ActiveWeekdays rec) (weekday_of_day d) \<and> opens_at loc start d \<le> t \<and> t < closes_at loc start stop d)}))"
    (is "_ = int (card (hour_of ` ?T))")
proof -
  note win = proper_window.axioms(1) [OF assms(4)]
  note cal = window_calendar.axioms(1) [OF win]
  have later: "max now (pr_StartAt rec) \<le> a"
  proof -
    have "t \<le> ceilHour t" for t
      using int_div_less_iff [of hour t "t div hour + 1"] by (simp add: ceilHour_def truncate_hour_def Let_def)
    then show ?thesis using assms(7) by simp
  qed
  have maxEnd: "add_days utc a 400 = a + 400 * 24 * hour"
  proof -
    have "unix a div day_seconds * day_seconds + unix a mod day_seconds = unix a" "unix a * second + nsec a = a"
      by (simp_all add: unix_def nsec_def)
    then show ?thesis
      by (simp add: add_days_def go_date_def utc_fixed local_day_fixed local_clock_def local_seconds_def algebra_simps)
  qed
  show ?thesis
  proof (cases "a < b")
    case False
    then have none: "?T = {}" by auto
    have T: "int (card (hour_of ` ?T)) = 0" unfolding none by simp
    have "projectRecordingHours lib rec now winEnd = 0"
      using False assms(7-9) maxEnd
      by (auto simp: projectRecordingHours_def Let_def max_def min_def projectionMaxDays_def split: option.splits if_splits)
    then show ?thesis using T by simp
  next
    case True
    obtain h where h: "a = h * hour" using ceilHour_hour assms(7) by blast
    let ?d = "local_day loc a"
    let ?d' = "if IsOvernightWindow start stop then ?d - 1 else ?d"
    define bs where "bs = continuous_buckets 402 loc start stop (pr_ActiveWeekdays rec) a b ?d' []"
    have result: "projectRecordingHours lib rec now winEnd = int (length bs)"
      using assms(1-3,5-9) True later maxEnd regular_calendar.day_add_days [OF cal, of "go_date loc ?d 0 0" "- 1"]
        regular_calendar.day_of_date [OF cal, of 0 0 ?d]
      by (auto simp: projectRecordingHours_def continuousRecordHours_def Let_def max_def min_def projectionMaxDays_def bs_def
          split: option.splits if_splits)
    have bs: "distinct bs" "set bs = (\<lambda>t. hour_of t * 3600) `
        proper_window.open_instants loc start stop (pr_ActiveWeekdays rec) a b {?d'..<?d' + 402}"
      using proper_window.continuous_buckets_spec [OF assms(4,5), of "[]" 402 h b ?d'] unfolding bs_def h by auto
    have "proper_window.open_instants loc start stop (pr_ActiveWeekdays rec) a b {?d'..<?d' + 402} = ?T"
    proof -
      have "d \<in> {?d'..<?d' + 402}" if "a \<le> t" "t < b" "opens_at loc start d \<le> t \<and> t < closes_at loc start stop d" for d t
        using window_calendar.covering_days [OF win that(3)] regular_calendar.day_mono [OF cal that(1)]
          regular_calendar.day_mono [OF cal, of t b] that(2) assms(10) by (auto split: if_splits)
      then show ?thesis unfolding proper_window.open_instants_def [OF assms(4)] by blast
    qed
    then have "set bs = (\<lambda>k. k * 3600) ` hour_of ` ?T" by (simp add: bs(2) image_image)
    then have "card (set bs) = card (hour_of ` ?T)" by (simp add: card_image inj_on_def)
    then show ?thesis using result distinct_card [OF bs(1)] by simp
  qed
qed

text \<open>The full day from midnight to midnight in UTC, every day.\<close>

interpretation utc_projection: proper_window utc midnight midnight
proof unfold_locales
  fix d
  show "opens_at utc midnight d < closes_at utc midnight midnight d"
    by (simp add: opens_at_def closes_at_def IsOvernightWindow_def onDay_def go_date_def utc_fixed secondsOfDay_def midnight_def)
qed

definition all_day_recording :: "gotime \<Rightarrow> projectedRecording" where
  "all_day_recording startAt = \<lparr>pr_Mode = ''continuous'', pr_CronExpr = [], pr_CronTimezone = [], pr_DailyStart = ''00:00:00'',
     pr_DailyEnd = ''00:00:00'', pr_StartAt = startAt, pr_EndAt = None, pr_ActiveWeekdays = AllWeekdays\<rparr>"

lemma parse_clock_midnight: "ParseTimeOfDay ''00:00:00'' = Inr midnight"
proof -
  have "clock_text midnight = ''00:00:00''"
    by (simp add: clock_text_def two_digits_def midnight_def digit_char_def char_of_def bit_Suc_0_iff)
  then show ?thesis using parse_clock_texts(1) [of midnight] by simp
qed

lemma always_open:
  "(\<exists>d. Contains AllWeekdays (weekday_of_day d) \<and> opens_at utc midnight d \<le> t \<and> t < closes_at utc midnight midnight d) \<longleftrightarrow> True"
proof -
  have all: "Contains AllWeekdays w" if "0 \<le> w" "w < 7" for w
  proof -
    have "w \<in> {0, 1, 2, 3, 4, 5, 6}" using that by auto
    then show ?thesis by (auto simp: Contains_def AllWeekdays_def push_bit_of_1)
  qed
  let ?d = "t div 86400000000000"
  have "onDay midnight d utc = d * 86400000000000" for d
    by (simp add: onDay_def go_date_def utc_fixed secondsOfDay_def midnight_def)
  moreover have "?d * 86400000000000 \<le> t" "t < (?d + 1) * 86400000000000"
    using int_le_div_iff [of 86400000000000 ?d t] int_div_less_iff [of 86400000000000 t "?d + 1"] by simp_all
  ultimately have "opens_at utc midnight ?d \<le> t \<and> t < closes_at utc midnight midnight ?d"
    by (simp add: opens_at_def closes_at_def IsOvernightWindow_def)
  then show ?thesis using all [of "weekday_of_day ?d"] by (auto simp: weekday_of_day_def)
qed

lemma utc_day: "local_day utc t = t div second div day_seconds"
  by (simp add: utc_fixed local_day_fixed unix_def)

lemma utc_midnight: "onDay midnight d utc = d * 86400000000000"
  by (simp add: onDay_def go_date_def utc_fixed secondsOfDay_def midnight_def)

lemma load_utc: "LoadLocation (tz_database example_lib) [] = Inr utc"
  by (simp add: LoadLocation_def TrimSpace_def)

theorem continuous_projection_exact_witness:
  "projectRecordingHours example_lib (all_day_recording 0) 1 (3 * hour) = int (card (hour_of ` {t. hour \<le> t \<and> t < 3 * hour}))"
proof -
  have "LoadLocation (tz_database example_lib) (pr_CronTimezone (all_day_recording 0)) = Inr utc"
    by (simp add: all_day_recording_def load_utc)
  moreover have "ceilHour (max 1 (pr_StartAt (all_day_recording 0))) = hour"
    by (simp add: ceilHour_def truncate_hour_def all_day_recording_def)
  ultimately show ?thesis
    using continuous_projection_exact [of "all_day_recording 0" midnight midnight example_lib utc hour 1 "3 * hour" "3 * hour"]
      parse_clock_midnight utc_projection.proper_window_axioms
    by (simp add: all_day_recording_def always_open utc_day) (simp add: AllWeekdays_def)
qed

text \<open>The projection is not exact for a recording that starts later: rounding its start up to the
  next hour drops the hour the recording starts in, which is not the hour in progress now and whose
  clips will be billed. A stream recorded all day from 10:15 until 12:00 starts clips in two hours, and one is
  projected.\<close>

theorem projection_drops_starting_hour:
  "projectRecordingHours example_lib (all_day_recording (10 * hour + 15 * minute)) 0 (12 * hour) = 1 \<and>
   hour_of ` {t. 10 * hour + 15 * minute \<le> t \<and> t < 12 * hour} = {10, 11}"
proof
  let ?start = "10 * hour + 15 * minute"
  have mask: "Contains AllWeekdays w" if "0 \<le> w" "w < 7" for w
  proof -
    have "w \<in> {0, 1, 2, 3, 4, 5, 6}" using that by auto
    then show ?thesis by (auto simp: Contains_def AllWeekdays_def push_bit_of_1)
  qed
  then have active: "Contains AllWeekdays (weekday utc t)" for t by (simp add: weekday_def weekday_of_day_def)
  have hours: "hour_starts (11 * hour) (12 * hour) = [11 * hour]" "hour_starts (11 * hour) 0 = []"
    by (simp_all add: hour_starts.simps)
  have "continuous_buckets (Suc (Suc (Suc n))) utc midnight midnight AllWeekdays (11 * hour) (12 * hour) (- 1) [] = [39600]" for n
    using active hours
    by (simp add: Let_def utc_midnight IsOvernightWindow_def truncate_hour_def unix_def)
  note run = this [of 399]
  have "add_days utc (11 * hour) 400 = 34599600 * second"
    by (simp add: add_days_def go_date_def local_day_fixed local_clock_def local_seconds_def nsec_def unix_def utc_fixed)
  moreover have "local_day utc (11 * hour) = 0" by (simp add: utc_day)
  moreover have "local_day utc (add_days utc (go_date utc 0 0 0) (- 1)) = - 1"
    by (simp add: utc_cal.day_add_days utc_cal.day_of_date)
  ultimately show "projectRecordingHours example_lib (all_day_recording ?start) 0 (12 * hour) = 1"
    using run
    by (simp add: projectRecordingHours_def continuousRecordHours_def all_day_recording_def parse_clock_midnight load_utc
        ceilHour_def truncate_hour_def Let_def projectionMaxDays_def IsOvernightWindow_def)
  show "hour_of ` {t. ?start \<le> t \<and> t < 12 * hour} = {10, 11}"
  proof (intro equalityI subsetI)
    fix k
    assume "k \<in> hour_of ` {t. ?start \<le> t \<and> t < 12 * hour}"
    then obtain t where t: "?start \<le> t" "t < 12 * hour" "k = t div hour" by (auto simp: hour_of_def)
    have "10 \<le> k" using t int_le_div_iff [of hour 10 t] by simp
    moreover have "k < 12" using t int_div_less_iff [of hour t 12] by simp
    ultimately show "k \<in> {10, 11}" by auto
  next
    fix k :: int
    assume "k \<in> {10, 11}"
    moreover have "10 \<in> hour_of ` {t. ?start \<le> t \<and> t < 12 * hour}"
      by (intro image_eqI [of _ _ "10 * hour + 15 * minute"]) (simp_all add: hour_of_def)
    moreover have "11 \<in> hour_of ` {t. ?start \<le> t \<and> t < 12 * hour}"
      by (intro image_eqI [of _ _ "11 * hour"]) (simp_all add: hour_of_def)
    ultimately show "k \<in> hour_of ` {t. ?start \<le> t \<and> t < 12 * hour}" by blast
  qed
qed

end
