(* ===== verification/QualityGrade.thy ===== *)
theory QualityGrade
  imports GoTime Complex_Main
begin

text \<open>
  Daily quality grades and the 14-day tiers: \<open>qualitygrade/grade.go\<close>. The metrics are floating-point numbers
  that are only compared, so they are reals here; NaN is not modelled. A day's date is an instant.
\<close>

datatype Grade = GradeA | GradeB | GradeC | GradeD | GradeE | GradeF | GradeUnknown | GradeMissing

definition MetricVersion_const :: int where "MetricVersion_const = 2"

record WindowMetrics =
  Measured :: bool
  CoveragePct :: "real option"
  LargestGapSeconds :: "real option"
  GapsOver30s :: "int option"
  GapsOver5m :: "int option"
  Overlaps :: "int option"
  MetricVersion :: "int option"
  ClipCount :: int

definition Classify :: "WindowMetrics \<Rightarrow> Grade" where
  "Classify m =
     (case (MetricVersion m, CoveragePct m, LargestGapSeconds m, GapsOver30s m, GapsOver5m m, Overlaps m) of
        (Some v, Some coverage, Some gap, Some over30, Some over5, Some ov) \<Rightarrow>
          if \<not> Measured m \<or> v \<noteq> MetricVersion_const then GradeUnknown
          else let noOverlap = (ov = 0) in
            if noOverlap \<and> coverage \<ge> 99 \<and> gap \<le> 120 then GradeA
            else if noOverlap \<and> coverage \<ge> 95 \<and> gap \<le> 900 \<and> over5 \<le> 1 \<and> over30 \<le> 6 then GradeB
            else if noOverlap \<and> coverage \<ge> 90 \<and> gap \<le> 1800 \<and> over5 \<le> 2 then GradeC
            else if ClipCount m = 0 \<or> coverage = 0 then GradeF
            else if coverage < 80 then GradeE
            else GradeD
      | _ \<Rightarrow> GradeUnknown)"

definition Poor :: "Grade \<Rightarrow> bool" where
  "Poor g \<longleftrightarrow> g = GradeE \<or> g = GradeF \<or> g = GradeUnknown"

datatype Tier = TierFine | TierGood | TierGreat

definition Tiers :: "Tier list" where "Tiers = [TierFine, TierGood, TierGreat]"

definition RunLength :: nat where "RunLength = 14"
definition maxGoodE :: nat where "maxGoodE = 2"

fun admits :: "Tier \<Rightarrow> Grade \<Rightarrow> bool" where
  "admits TierFine g = (g \<noteq> GradeMissing)"
| "admits TierGood g = (g \<noteq> GradeMissing \<and> g \<noteq> GradeF \<and> g \<noteq> GradeUnknown)"
| "admits TierGreat g = (g = GradeA \<or> g = GradeB \<or> g = GradeC)"

text \<open>The loop of \<open>qualifies\<close>, with the running count of E days: \<open>None\<close> for the early return.\<close>

fun count_E :: "Tier \<Rightarrow> nat \<Rightarrow> Grade list \<Rightarrow> nat option" where
  "count_E t e [] = Some e"
| "count_E t e (g # days) =
     (if \<not> admits t g then None else count_E t (if g = GradeE then e + 1 else e) days)"

definition qualifies :: "Tier \<Rightarrow> Grade list \<Rightarrow> bool" where
  "qualifies t days = (case count_E t 0 days of None \<Rightarrow> False | Some e \<Rightarrow> t \<noteq> TierGood \<or> e \<le> maxGoodE)"

record Day =
  Date :: gotime
  day_Grade :: Grade

record Progress =
  prog_Tier :: Tier
  Completed :: bool
  RunDays :: nat
  DaysToGo :: nat
  ECount :: nat
  FCount :: nat

text \<open>The dates are normalised to UTC midnight, so \<open>AddDate(0, 0, 1)\<close> adds 24 hours. The inner loop lists the
  missing days from \<open>gap\<close> up to \<open>stop_at\<close>.\<close>

function missing_days :: "gotime \<Rightarrow> gotime \<Rightarrow> Day list" where
  "missing_days gap stop_at =
     (if gap < stop_at then \<lparr>Date = gap, day_Grade = GradeMissing\<rparr> # missing_days (gap + 24 * hour) stop_at else [])"
  by auto
termination by (relation "measure (\<lambda>(gap, stop_at). nat (stop_at - gap))") auto

declare missing_days.simps [simp del]

fun fill_from :: "Day \<Rightarrow> Day list \<Rightarrow> Day list" where
  "fill_from prev [] = []"
| "fill_from prev (d # days) = missing_days (Date prev + 24 * hour) (Date d) @ d # fill_from d days"

definition FillMissing :: "Day list \<Rightarrow> Day list" where
  "FillMissing days = (case days of [] \<Rightarrow> [] | d # ds \<Rightarrow> d # fill_from d ds)"

text \<open>\<open>grades[start : start+RunLength]\<close> qualifies for some \<open>start\<close>.\<close>

definition some_window :: "Tier \<Rightarrow> Grade list \<Rightarrow> bool" where
  "some_window tier grades = list_ex (\<lambda>start. start + RunLength \<le> length grades \<and>
     qualifies tier (take RunLength (drop start grades))) [0..<length grades]"

text \<open>The loop for the current run: the length of the longest qualifying suffix of at most \<open>k\<close> days.\<close>

fun longest_run :: "Tier \<Rightarrow> Grade list \<Rightarrow> nat \<Rightarrow> nat" where
  "longest_run tier grades 0 = 0"
| "longest_run tier grades (Suc k) =
     (if qualifies tier (drop (length grades - Suc k) grades) then Suc k else longest_run tier grades k)"

definition evaluate_tier :: "Grade list \<Rightarrow> Tier \<Rightarrow> Progress" where
  "evaluate_tier grades tier =
     (let k = longest_run tier grades (min RunLength (length grades));
          run = drop (length grades - k) grades
      in \<lparr>prog_Tier = tier, Completed = some_window tier grades, RunDays = k, DaysToGo = RunLength - k,
          ECount = length (filter (\<lambda>g. g = GradeE) run),
          FCount = length (filter (\<lambda>g. g = GradeF \<or> g = GradeUnknown) run)\<rparr>)"

definition Evaluate :: "Day list \<Rightarrow> Progress list" where
  "Evaluate days = map (evaluate_tier (map day_Grade days)) Tiers"

section \<open>Qualifying runs\<close>

lemma count_E_spec:
  "count_E t e days = (if \<forall>g \<in> set days. admits t g then Some (e + length (filter (\<lambda>g. g = GradeE) days)) else None)"
  by (induction t e days rule: count_E.induct) auto

lemma qualifies_iff:
  "qualifies t days \<longleftrightarrow> (\<forall>g \<in> set days. admits t g) \<and> (t = TierGood \<longrightarrow> length (filter (\<lambda>g. g = GradeE) days) \<le> maxGoodE)"
  by (simp add: qualifies_def count_E_spec)

lemma qualifies_drop: "qualifies t days \<Longrightarrow> qualifies t (drop n days)"
proof -
  assume q: "qualifies t days"
  have "length (filter P (drop n days)) \<le> length (filter P days)" for P
    by (metis append_take_drop_id filter_append le_add2 length_append)
  then show ?thesis using q by (auto simp: qualifies_iff dest: in_set_dropD intro: order_trans)
qed

lemma longest_run_le: "longest_run t gs k \<le> k"
  by (induction k) auto

lemma longest_run_qualifies: "qualifies t (drop (length gs - longest_run t gs k) gs)"
  by (induction k) (auto simp: qualifies_iff)

lemma longest_run_maximal: "longest_run t gs k < j \<Longrightarrow> j \<le> k \<Longrightarrow> \<not> qualifies t (drop (length gs - j) gs)"
  by (induction k) (auto split: if_splits simp: le_Suc_eq)

text \<open>Tiers are ordered by strength.\<close>

fun stronger :: "Tier \<Rightarrow> Tier \<Rightarrow> bool" where
  "stronger TierGreat _ = True"
| "stronger TierGood t = (t \<noteq> TierGreat)"
| "stronger TierFine t = (t = TierFine)"

lemma stronger_qualifies:
  assumes st: "stronger s t" and q: "qualifies s days"
  shows "qualifies t days"
proof (cases "s = t")
  case False
  have "\<forall>g \<in> set days. admits t g"
    using st q by (cases s; cases t) (auto simp: qualifies_iff)
  moreover have "filter (\<lambda>g. g = GradeE) days = []" if "t = TierGood"
    using st q False that by (cases s) (auto simp: qualifies_iff filter_empty_conv)
  ultimately show ?thesis by (auto simp: qualifies_iff)
qed (use q in simp)

section \<open>Properties\<close>

text \<open>The run \<open>Evaluate\<close> reports for a tier is the longest qualifying run of most recent days: it is at
  most 14 days, it qualifies, every longer run of at most 14 days does not, every shorter one does, and
  14 days are reported only when the tier is completed.\<close>

theorem current_run_is_longest:
  assumes "p = evaluate_tier grades tier"
  shows "RunDays p \<le> 14 \<and> RunDays p + DaysToGo p = 14 \<and>
    (\<forall>k \<le> min 14 (length grades). qualifies tier (drop (length grades - k) grades) \<longleftrightarrow> k \<le> RunDays p) \<and>
    (RunDays p = 14 \<longrightarrow> Completed p)"
proof -
  let ?n = "length grades" and ?r = "longest_run tier grades (min 14 (length grades))"
  have run: "RunDays p = ?r" "DaysToGo p = 14 - ?r" "Completed p = some_window tier grades"
    by (simp_all add: assms evaluate_tier_def Let_def RunLength_def)
  have le: "?r \<le> 14" "?r \<le> ?n" using longest_run_le [of tier grades "min 14 ?n"] by auto
  have "qualifies tier (drop (?n - k) grades) \<longleftrightarrow> k \<le> ?r" if k: "k \<le> min 14 ?n" for k
  proof (cases "k \<le> ?r")
    case True
    have "drop (?n - k) grades = drop (?r - k) (drop (?n - ?r) grades)" using True le(2) by simp
    then show ?thesis using True longest_run_qualifies qualifies_drop by metis
  next
    case False
    then show ?thesis using longest_run_maximal [of tier grades "min 14 ?n" k] k by auto
  qed
  moreover have "some_window tier grades" if "?r = 14"
  proof -
    have "qualifies tier (take RunLength (drop (?n - 14) grades))"
      using longest_run_qualifies [of tier grades "min 14 ?n"] that le by (simp add: RunLength_def)
    moreover have "?n - 14 + RunLength \<le> ?n" "?n - 14 \<in> set [0..<?n]" using that le by (auto simp: RunLength_def)
    ultimately show ?thesis unfolding some_window_def list_ex_iff by blast
  qed
  ultimately show ?thesis using le by (simp add: run)
qed

theorem current_run_is_longest_witness:
  "RunDays (evaluate_tier (GradeF # replicate 3 GradeA) TierGood) = 3 \<and>
   (qualifies TierGood (replicate 3 GradeA) \<longleftrightarrow> (3::nat) \<le> 3)"
  using current_run_is_longest [OF refl, of "GradeF # replicate 3 GradeA" TierGood]
  by (auto simp: evaluate_tier_def Let_def qualifies_iff RunLength_def maxGoodE_def numeral_eq_Suc dest: spec [of _ 3])

text \<open>Tiers are nested. Over any history, a stronger tier's current run is no longer than a weaker
  tier's, and completing the stronger tier completes the weaker one.\<close>

theorem tiers_are_nested:
  assumes "stronger s t"
  shows "RunDays (evaluate_tier grades s) \<le> RunDays (evaluate_tier grades t) \<and>
    (Completed (evaluate_tier grades s) \<longrightarrow> Completed (evaluate_tier grades t))"
proof
  let ?m = "min RunLength (length grades)"
  show "RunDays (evaluate_tier grades s) \<le> RunDays (evaluate_tier grades t)"
  proof (rule ccontr)
    assume "\<not> ?thesis"
    then have "longest_run t grades ?m < longest_run s grades ?m" by (simp add: evaluate_tier_def Let_def)
    then show False
      using longest_run_maximal longest_run_le longest_run_qualifies stronger_qualifies [OF assms] by metis
  qed
  show "Completed (evaluate_tier grades s) \<longrightarrow> Completed (evaluate_tier grades t)"
    using stronger_qualifies [OF assms] by (auto simp: evaluate_tier_def Let_def some_window_def list_ex_iff)
qed

theorem tiers_are_nested_witness:
  "RunDays (evaluate_tier [GradeA, GradeE, GradeB] TierGreat) \<le> RunDays (evaluate_tier [GradeA, GradeE, GradeB] TierGood)"
  using tiers_are_nested [of TierGreat TierGood "[GradeA, GradeE, GradeB]"] by simp

end
