(* ===== verification/DeliveryPool.thy ===== *)
theory DeliveryPool
  imports GoTime "HOL-Library.Multiset"
begin

text \<open>
  Concurrent delivery of the segments of one capture attempt: \<open>recordingworker/delivery_pool.go\<close>. The pool's
  fields, guarded by its mutex, are the record \<open>delivery_pool\<close>; each critical section is a function on it;
  the goroutines are the step relation \<open>delivery_step\<close>, which interleaves the capture goroutine's
  \<open>Submit\<close> and \<open>close\<close> with the workers' steps. A worker that finds nothing to do falls asleep on the condition
  variable and steps again only when it is woken: \<open>Submit\<close> signals one sleeper, \<open>close\<close> all of them. The delivery itself
  is not modelled: it ends with any of its outcomes. The queue-depth observer and the queueing time stamped on a
  segment are not modelled.
\<close>

section \<open>Progress clock\<close>

definition mark :: "gotime \<Rightarrow> gotime \<Rightarrow> gotime" where
  "mark p_at at = (if at > p_at then at else p_at)"

section \<open>The pool\<close>

record ('seg, 'e) delivery_pool =
  queue :: "'seg list"
  first_err :: "'e option"
  submitted :: nat
  inFlight :: int
  ingested :: bool
  pool_closed :: bool

record 'e segmentDeliveryResult =
  r_err :: "'e option"
  r_submitted :: nat
  r_pending :: int
  r_ingested :: bool

definition new_pool :: "('seg, 'e) delivery_pool" where
  "new_pool = \<lparr>queue = [], first_err = None, submitted = 0, inFlight = 0, ingested = False, pool_closed = False\<rparr>"

datatype 'e submit_error = DeliveryError 'e | SubmitCanceled

definition Submit :: "'seg \<Rightarrow> ('seg, 'e) delivery_pool \<Rightarrow> 'e submit_error option \<times> ('seg, 'e) delivery_pool" where
  "Submit seg p =
     (case first_err p of Some e \<Rightarrow> (Some (DeliveryError e), p)
      | None \<Rightarrow>
        if pool_closed p then (Some SubmitCanceled, p)
        else (None, p\<lparr>submitted := submitted p + 1, inFlight := inFlight p + 1, queue := queue p @ [seg]\<rparr>))"

text \<open>\<open>take\<close>: \<open>None\<close> while the worker has to wait; \<open>Some None\<close> when it is told to exit.\<close>

definition take_seg :: "('seg, 'e) delivery_pool \<Rightarrow> ('seg option \<times> ('seg, 'e) delivery_pool) option" where
  "take_seg p =
     (case queue p of
        [] \<Rightarrow> if pool_closed p then Some (None, p) else None
      | seg # rest \<Rightarrow> Some (Some seg, p\<lparr>queue := rest\<rparr>))"

definition failed :: "('seg, 'e) delivery_pool \<Rightarrow> bool" where
  "failed p \<longleftrightarrow> first_err p \<noteq> None"

definition fail_with :: "'e \<Rightarrow> ('seg, 'e) delivery_pool \<Rightarrow> ('seg, 'e) delivery_pool" where
  "fail_with e p = (if first_err p = None then p\<lparr>first_err := Some e\<rparr> else p)"

definition acknowledge :: "bool \<Rightarrow> ('seg, 'e) delivery_pool \<Rightarrow> ('seg, 'e) delivery_pool" where
  "acknowledge uniqueIngest p =
     (let p = p\<lparr>inFlight := inFlight p - 1\<rparr> in if uniqueIngest then p\<lparr>ingested := True\<rparr> else p)"

definition begin_close :: "('seg, 'e) delivery_pool \<Rightarrow> ('seg, 'e) delivery_pool" where
  "begin_close p = (if pool_closed p then p else p\<lparr>pool_closed := True\<rparr>)"

definition close_result :: "('seg, 'e) delivery_pool \<Rightarrow> 'e segmentDeliveryResult" where
  "close_result p = \<lparr>r_err = first_err p, r_submitted = submitted p, r_pending = inFlight p, r_ingested = ingested p\<rparr>"

section \<open>The goroutines\<close>

text \<open>Where a worker is in \<open>run\<close>: about to look at the queue, asleep in \<open>ready.Wait\<close>, with a segment taken, delivering it,
  returned.\<close>

datatype 'seg worker = Waiting | Asleep | Taken 'seg | Delivering 'seg | Exited

text \<open>What happened, for the properties: segments accepted, taken, acknowledged, drained without upload, failed.\<close>

datatype ('seg, 'e) event =
    Accepted 'seg | Took 'seg | Acked 'seg bool | Skipped 'seg | FailedSeg 'seg 'e

record ('seg, 'e) attempt =
  pool :: "('seg, 'e) delivery_pool"
  workers :: "'seg worker list"
  history :: "('seg, 'e) event list"

definition start_attempt :: "int \<Rightarrow> ('seg, 'e) attempt" where
  "start_attempt n = \<lparr>pool = new_pool, workers = replicate (if n \<le> 0 then 1 else nat n) Waiting, history = []\<rparr>"

definition set_worker :: "nat \<Rightarrow> 'seg worker \<Rightarrow> ('seg, 'e) delivery_pool \<Rightarrow> ('seg, 'e) event list \<Rightarrow>
    ('seg, 'e) attempt \<Rightarrow> ('seg, 'e) attempt" where
  "set_worker w pc p evs c = c\<lparr>pool := p, workers := (workers c)[w := pc], history := history c @ evs\<rparr>"

text \<open>\<open>ready.Signal\<close> wakes one of the sleepers, if there is any; \<open>ready.Broadcast\<close> wakes them all.\<close>

definition signalled :: "'seg worker list \<Rightarrow> 'seg worker list \<Rightarrow> bool" where
  "signalled ws ws' \<longleftrightarrow> (if Asleep \<in> set ws then \<exists>w < length ws. ws ! w = Asleep \<and> ws' = ws[w := Waiting] else ws' = ws)"

definition wake_all :: "'seg worker list \<Rightarrow> 'seg worker list" where
  "wake_all ws = map (\<lambda>pc. case pc of Asleep \<Rightarrow> Waiting | _ \<Rightarrow> pc) ws"

text \<open>\<open>close\<close>, up to where it waits for the workers.\<close>

definition close_entry :: "('seg, 'e) attempt \<Rightarrow> ('seg, 'e) attempt" where
  "close_entry c = (if pool_closed (pool c) then c else c\<lparr>pool := begin_close (pool c), workers := wake_all (workers c)\<rparr>)"

text \<open>The steps of \<open>run\<close> for worker \<open>w\<close>: each is one critical section. A delivery acknowledges a replay, ingests
  the segment or fails with an error \<open>e\<close>.\<close>

inductive worker_step :: "('seg, 'e) attempt \<Rightarrow> ('seg, 'e) attempt \<Rightarrow> bool" where
  take_one: "\<lbrakk>w < length (workers c); workers c ! w = Waiting; take_seg (pool c) = Some (Some seg, p)\<rbrakk> \<Longrightarrow>
    worker_step c (set_worker w (Taken seg) p [Took seg] c)"
| sleep: "\<lbrakk>w < length (workers c); workers c ! w = Waiting; take_seg (pool c) = None\<rbrakk> \<Longrightarrow>
    worker_step c (set_worker w Asleep (pool c) [] c)"
| leave: "\<lbrakk>w < length (workers c); workers c ! w = Waiting; take_seg (pool c) = Some (None, p)\<rbrakk> \<Longrightarrow>
    worker_step c (set_worker w Exited p [] c)"
| drain: "\<lbrakk>w < length (workers c); workers c ! w = Taken seg; failed (pool c)\<rbrakk> \<Longrightarrow>
    worker_step c (set_worker w Waiting (pool c) [Skipped seg] c)"
| deliver: "\<lbrakk>w < length (workers c); workers c ! w = Taken seg; \<not> failed (pool c)\<rbrakk> \<Longrightarrow>
    worker_step c (set_worker w (Delivering seg) (pool c) [] c)"
| replay: "\<lbrakk>w < length (workers c); workers c ! w = Delivering seg\<rbrakk> \<Longrightarrow>
    worker_step c (set_worker w Waiting (acknowledge False (pool c)) [Acked seg False] c)"
| ingest: "\<lbrakk>w < length (workers c); workers c ! w = Delivering seg\<rbrakk> \<Longrightarrow>
    worker_step c (set_worker w Waiting (acknowledge True (pool c)) [Acked seg True] c)"
| failure: "\<lbrakk>w < length (workers c); workers c ! w = Delivering seg\<rbrakk> \<Longrightarrow>
    worker_step c (set_worker w Waiting (fail_with e (pool c)) [FailedSeg seg e] c)"

inductive delivery_step :: "('seg, 'e) attempt \<Rightarrow> ('seg, 'e) attempt \<Rightarrow> bool" where
  submit: "\<lbrakk>Submit seg (pool c) = (None, p); signalled (workers c) ws\<rbrakk> \<Longrightarrow>
    delivery_step c (c\<lparr>pool := p, workers := ws, history := history c @ [Accepted seg]\<rparr>)"
| refused: "Submit seg (pool c) = (Some e, p) \<Longrightarrow> delivery_step c (c\<lparr>pool := p\<rparr>)"
| closing: "delivery_step c (close_entry c)"
| worker: "worker_step c c' \<Longrightarrow> delivery_step c c'"

inductive_cases worker_stepE: "worker_step c c'"

definition reachable :: "('seg, 'e) attempt \<Rightarrow> bool" where
  "reachable c \<longleftrightarrow> (\<exists>n. delivery_step\<^sup>*\<^sup>* (start_attempt n) c)"

lemma reachable_induct [consumes 1, case_names start step]:
  assumes "reachable c" "\<And>n. P (start_attempt n)" "\<And>c c'. reachable c \<Longrightarrow> P c \<Longrightarrow> delivery_step c c' \<Longrightarrow> P c'"
  shows "P c"
proof -
  obtain n where "delivery_step\<^sup>*\<^sup>* (start_attempt n) c" using assms(1) by (auto simp: reachable_def)
  then have "reachable c \<and> P c"
  proof (induction rule: rtranclp_induct)
    case base
    then show ?case using assms(2) by (auto simp: reachable_def)
  next
    case (step c c')
    then show ?case using assms(3) by (auto simp: reachable_def intro: rtranclp.rtrancl_into_rtrancl)
  qed
  then show ?thesis by simp
qed

section \<open>Where a segment is\<close>

definition accepted :: "('seg, 'e) event list \<Rightarrow> 'seg list" where
  "accepted es = concat (map (\<lambda>ev. case ev of Accepted s \<Rightarrow> [s] | _ \<Rightarrow> []) es)"

definition taken :: "('seg, 'e) event list \<Rightarrow> 'seg list" where
  "taken es = concat (map (\<lambda>ev. case ev of Took s \<Rightarrow> [s] | _ \<Rightarrow> []) es)"

definition acked :: "('seg, 'e) event list \<Rightarrow> ('seg \<times> bool) list" where
  "acked es = concat (map (\<lambda>ev. case ev of Acked s b \<Rightarrow> [(s, b)] | _ \<Rightarrow> []) es)"

definition lost :: "('seg, 'e) event list \<Rightarrow> 'seg list" where
  "lost es = concat (map (\<lambda>ev. case ev of Skipped s \<Rightarrow> [s] | FailedSeg s e \<Rightarrow> [s] | _ \<Rightarrow> []) es)"

definition errors :: "('seg, 'e) event list \<Rightarrow> 'e list" where
  "errors es = concat (map (\<lambda>ev. case ev of FailedSeg s e \<Rightarrow> [e] | _ \<Rightarrow> []) es)"

lemmas log_defs = accepted_def taken_def acked_def lost_def errors_def

lemma log_nil: "accepted [] = []" "taken [] = []" "acked [] = []" "lost [] = []" "errors [] = []"
  by (simp_all add: log_defs)

lemma log_snoc:
  "accepted (es @ [ev]) = accepted es @ (case ev of Accepted s \<Rightarrow> [s] | _ \<Rightarrow> [])"
  "taken (es @ [ev]) = taken es @ (case ev of Took s \<Rightarrow> [s] | _ \<Rightarrow> [])"
  "acked (es @ [ev]) = acked es @ (case ev of Acked s b \<Rightarrow> [(s, b)] | _ \<Rightarrow> [])"
  "lost (es @ [ev]) = lost es @ (case ev of Skipped s \<Rightarrow> [s] | FailedSeg s e \<Rightarrow> [s] | _ \<Rightarrow> [])"
  "errors (es @ [ev]) = errors es @ (case ev of FailedSeg s e \<Rightarrow> [e] | _ \<Rightarrow> [])"
  by (simp_all add: log_defs)

lemmas log_simps = log_nil log_snoc

fun held :: "'seg worker \<Rightarrow> 'seg multiset" where
  "held (Taken s) = {#s#}"
| "held (Delivering s) = {#s#}"
| "held _ = {#}"

definition in_hands :: "'seg worker list \<Rightarrow> 'seg multiset" where
  "in_hands ws = sum_list (map held ws)"

lemma in_hands_update:
  assumes "w < length ws"
  shows "in_hands (ws[w := pc]) + held (ws ! w) = in_hands ws + held pc"
  using assms
proof (induction ws arbitrary: w)
  case (Cons x ws)
  then show ?case by (cases w) (simp_all add: in_hands_def add.assoc add.commute add.left_commute)
qed simp

lemma in_hands_signalled: "signalled ws ws' \<Longrightarrow> in_hands ws' = in_hands ws"
  using in_hands_update [of _ ws Waiting] by (fastforce simp: signalled_def split: if_splits)

lemma in_hands_wake: "in_hands (wake_all ws) = in_hands ws"
  by (induction ws) (auto simp: in_hands_def wake_all_def split: worker.splits)

lemma exited_wake: "Exited \<in> set (wake_all ws) \<longleftrightarrow> Exited \<in> set ws"
  by (induction ws) (auto simp: wake_all_def split: worker.splits)

definition delivery_inv :: "('seg, 'e) attempt \<Rightarrow> bool" where
  "delivery_inv c \<longleftrightarrow>
     accepted (history c) = taken (history c) @ queue (pool c) \<and>
     mset (taken (history c)) = in_hands (workers c) + mset (map fst (acked (history c))) + mset (lost (history c)) \<and>
     submitted (pool c) = length (accepted (history c)) \<and>
     inFlight (pool c) = int (submitted (pool c)) - int (length (acked (history c))) \<and>
     first_err (pool c) = (case errors (history c) of [] \<Rightarrow> None | e # _ \<Rightarrow> Some e) \<and>
     (ingested (pool c) \<longleftrightarrow> True \<in> snd ` set (acked (history c))) \<and>
     (first_err (pool c) = None \<longrightarrow> lost (history c) = []) \<and>
     (Exited \<in> set (workers c) \<longrightarrow> pool_closed (pool c) \<and> queue (pool c) = [])"

lemma start_attempt_inv: "delivery_inv (start_attempt n)"
proof -
  have "in_hands (replicate k Waiting) = {#}" for k by (induction k) (simp_all add: in_hands_def)
  from this [of 1] this [of "nat n"] show ?thesis
    by (auto simp: delivery_inv_def start_attempt_def new_pool_def log_simps)
qed

lemma exited_update: "Exited \<in> set (ws[w := pc]) \<Longrightarrow> pc = Exited \<or> Exited \<in> set ws"
  using set_update_subset_insert [of ws w pc] by auto

lemma exited_signalled: "signalled ws ws' \<Longrightarrow> Exited \<in> set ws' \<Longrightarrow> Exited \<in> set ws"
  using exited_update [of ws _ Waiting] by (auto simp: signalled_def split: if_splits)

lemma worker_step_inv:
  assumes "worker_step c c'" "delivery_inv c"
  shows "delivery_inv c'"
  using assms(1)
proof cases
  case (take_one w seg p)
  then have "queue (pool c) = seg # queue p" "p = (pool c)\<lparr>queue := queue p\<rparr>"
    by (auto simp: take_seg_def split: list.splits if_splits)
  then show ?thesis
    using take_one assms(2) in_hands_update [of w "workers c" "Taken seg"] exited_update [of "workers c" w "Taken seg"]
    by (cases p) (auto simp: delivery_inv_def set_worker_def log_simps)
next
  case (sleep w)
  then show ?thesis
    using assms(2) in_hands_update [of w "workers c" Asleep] exited_update [of "workers c" w Asleep]
    by (auto simp: delivery_inv_def set_worker_def log_simps)
next
  case (leave w p)
  then have "queue (pool c) = []" "pool_closed (pool c)" "p = pool c"
    by (auto simp: take_seg_def split: list.splits if_splits)
  then show ?thesis
    using leave assms(2) in_hands_update [of w "workers c" Exited]
    by (auto simp: delivery_inv_def set_worker_def)
next
  case (drain w seg)
  then show ?thesis
    using assms(2) in_hands_update [of w "workers c" Waiting] exited_update [of "workers c" w Waiting]
    by (auto simp: delivery_inv_def set_worker_def log_simps failed_def)
next
  case (deliver w seg)
  then show ?thesis
    using assms(2) in_hands_update [of w "workers c" "Delivering seg"] exited_update [of "workers c" w "Delivering seg"]
    by (auto simp: delivery_inv_def set_worker_def log_simps)
next
  case (replay w seg)
  then show ?thesis
    using assms(2) in_hands_update [of w "workers c" Waiting] exited_update [of "workers c" w Waiting]
    by (auto simp: delivery_inv_def set_worker_def log_simps acknowledge_def Let_def)
next
  case (ingest w seg)
  then show ?thesis
    using assms(2) in_hands_update [of w "workers c" Waiting] exited_update [of "workers c" w Waiting]
    by (auto simp: delivery_inv_def set_worker_def log_simps acknowledge_def Let_def)
next
  case (failure w seg e)
  then show ?thesis
    using assms(2) in_hands_update [of w "workers c" Waiting] exited_update [of "workers c" w Waiting]
    by (auto simp: delivery_inv_def set_worker_def log_simps fail_with_def split: list.splits)
qed

lemma delivery_step_inv:
  assumes "delivery_step c c'" "delivery_inv c"
  shows "delivery_inv c'"
  using assms(1)
proof cases
  case (submit seg p ws)
  then show ?thesis
    using assms(2) in_hands_signalled [OF submit(3)] exited_signalled [OF submit(3)]
    by (auto simp: delivery_inv_def Submit_def log_simps split: option.splits if_splits)
next
  case (refused seg e p)
  then show ?thesis using assms(2) by (auto simp: Submit_def split: option.splits if_splits)
next
  case closing
  then show ?thesis using assms(2) by (auto simp: delivery_inv_def close_entry_def begin_close_def in_hands_wake exited_wake)
next
  case worker
  then show ?thesis using worker_step_inv assms(2) by blast
qed

lemma reachable_inv: "reachable c \<Longrightarrow> delivery_inv c"
  by (induction rule: reachable_induct) (auto intro: start_attempt_inv delivery_step_inv)

section \<open>No lost wakeup\<close>

definition awake :: "'seg worker \<Rightarrow> bool" where
  "awake pc \<longleftrightarrow> pc \<noteq> Asleep \<and> pc \<noteq> Exited"

text \<open>Nobody sleeps once the pool is closed, and nobody but sleepers is left only when the queue is empty.\<close>

definition wakeup_inv :: "('seg, 'e) attempt \<Rightarrow> bool" where
  "wakeup_inv c \<longleftrightarrow> workers c \<noteq> [] \<and> (pool_closed (pool c) \<longrightarrow> Asleep \<notin> set (workers c)) \<and>
     (queue (pool c) \<noteq> [] \<longrightarrow> (\<exists>pc \<in> set (workers c). awake pc))"

lemma asleep_update: "Asleep \<in> set (ws[w := pc]) \<Longrightarrow> pc = Asleep \<or> Asleep \<in> set ws"
  using set_update_subset_insert [of ws w pc] by auto

lemma none_asleep: "Asleep \<notin> set (wake_all ws)"
  by (induction ws) (auto simp: wake_all_def split: worker.splits)

lemma awake_wake: "pc \<in> set ws \<Longrightarrow> awake pc \<Longrightarrow> pc \<in> set (wake_all ws)"
  by (induction ws) (auto simp: wake_all_def awake_def split: worker.splits)

text \<open>A step that leaves its worker awake keeps the invariant, whatever it does to the pool.\<close>

lemma wakeup_set_worker:
  assumes "wakeup_inv c" "w < length (workers c)" "awake pc" "pool_closed p = pool_closed (pool c)"
  shows "wakeup_inv (set_worker w pc p evs c)"
  using assms asleep_update [of "workers c" w pc] set_update_memI [OF assms(2)] by (auto simp: wakeup_inv_def set_worker_def awake_def)

lemma worker_step_wakeup: "worker_step c c' \<Longrightarrow> wakeup_inv c \<Longrightarrow> wakeup_inv c'"
proof (induction rule: worker_step.induct)
  case (sleep w c)
  then have "queue (pool c) = []" "\<not> pool_closed (pool c)" by (auto simp: take_seg_def split: list.splits if_splits)
  then show ?case using sleep by (simp add: wakeup_inv_def set_worker_def)
next
  case (leave w c p)
  then have "queue (pool c) = []" "p = pool c" by (auto simp: take_seg_def split: list.splits if_splits)
  then show ?case using leave asleep_update [of "workers c" w Exited] by (auto simp: wakeup_inv_def set_worker_def)
qed (auto intro!: wakeup_set_worker simp: awake_def take_seg_def acknowledge_def fail_with_def Let_def split: list.splits if_splits)

lemma delivery_step_wakeup:
  assumes "delivery_step c c'" "wakeup_inv c" "delivery_inv c"
  shows "wakeup_inv c'"
  using assms(1)
proof cases
  case (submit seg p ws)
  then have open_pool: "\<not> pool_closed (pool c)" "pool_closed p = pool_closed (pool c)" by (auto simp: Submit_def split: option.splits if_splits)
  then have running: "Exited \<notin> set (workers c)" using assms(3) by (auto simp: delivery_inv_def)
  have "ws \<noteq> [] \<and> (\<exists>pc \<in> set ws. awake pc)"
  proof (cases "Asleep \<in> set (workers c)")
    case True
    then obtain w where "w < length (workers c)" "ws = (workers c)[w := Waiting]" using submit(3) by (auto simp: signalled_def)
    then show ?thesis using set_update_memI [of w "workers c" Waiting] by (auto simp: awake_def)
  next
    case False
    then have "ws = workers c" "ws \<noteq> []" using submit(3) assms(2) by (simp_all add: signalled_def wakeup_inv_def)
    then have "hd (workers c) \<in> set (workers c)" using hd_in_set by metis
    then have "awake (hd ws)" "hd ws \<in> set ws" using False running \<open>ws = workers c\<close> unfolding awake_def by metis+
    then show ?thesis using \<open>ws \<noteq> []\<close> by blast
  qed
  then show ?thesis using submit(1) open_pool by (simp add: wakeup_inv_def)
next
  case (refused seg e p)
  then show ?thesis using assms(2) by (auto simp: Submit_def split: option.splits if_splits)
next
  case closing
  have "wake_all (workers c) \<noteq> []" using assms(2) by (simp add: wakeup_inv_def wake_all_def)
  then show ?thesis
    using closing assms(2) none_asleep [of "workers c"] awake_wake [of _ "workers c"] by (auto simp: wakeup_inv_def close_entry_def begin_close_def)
next
  case worker
  then show ?thesis using worker_step_wakeup assms(2) by blast
qed

lemma reachable_wakeup: "reachable c \<Longrightarrow> wakeup_inv c"
proof (induction rule: reachable_induct)
  case (start n)
  then show ?case by (auto simp: wakeup_inv_def start_attempt_def new_pool_def)
next
  case (step c c')
  then show ?case using delivery_step_wakeup reachable_inv by blast
qed

section \<open>Closing\<close>

fun worker_work :: "'seg worker \<Rightarrow> nat" where
  "worker_work Waiting = 1"
| "worker_work Asleep = 0"
| "worker_work (Taken s) = 3"
| "worker_work (Delivering s) = 2"
| "worker_work Exited = 0"

text \<open>A bound on the steps the workers can still take.\<close>

definition work_left :: "('seg, 'e) attempt \<Rightarrow> nat" where
  "work_left c = 3 * length (queue (pool c)) + sum_list (map worker_work (workers c))"

lemma sum_list_update_nat:
  "w < length ws \<Longrightarrow> sum_list (map f (ws[w := pc])) + f (ws ! w) = sum_list (map f ws) + (f pc :: nat)"
proof (induction ws arbitrary: w)
  case (Cons x ws)
  then show ?case by (cases w) simp_all
qed simp

lemma worker_step_work: "worker_step c c' \<Longrightarrow> work_left c' < work_left c"
proof (induction rule: worker_step.induct)
  case (take_one w c seg p)
  then have "queue (pool c) = seg # queue p" by (auto simp: take_seg_def split: list.splits if_splits)
  then show ?case
    using take_one sum_list_update_nat [of w "workers c" worker_work "Taken seg"]
    by (simp add: work_left_def set_worker_def)
next
  case (sleep w c)
  then show ?case
    using sum_list_update_nat [of w "workers c" worker_work Asleep] by (simp add: work_left_def set_worker_def)
next
  case (leave w c p)
  then have "p = pool c" by (auto simp: take_seg_def split: list.splits if_splits)
  then show ?case
    using leave sum_list_update_nat [of w "workers c" worker_work Exited] by (simp add: work_left_def set_worker_def)
next
  case (drain w c seg)
  then show ?case
    using sum_list_update_nat [of w "workers c" worker_work Waiting] by (simp add: work_left_def set_worker_def)
next
  case (deliver w c seg)
  then show ?case
    using sum_list_update_nat [of w "workers c" worker_work "Delivering seg"] by (simp add: work_left_def set_worker_def)
next
  case (replay w c seg)
  then show ?case
    using sum_list_update_nat [of w "workers c" worker_work Waiting]
    by (simp add: work_left_def set_worker_def acknowledge_def Let_def)
next
  case (ingest w c seg)
  then show ?case
    using sum_list_update_nat [of w "workers c" worker_work Waiting]
    by (simp add: work_left_def set_worker_def acknowledge_def Let_def)
next
  case (failure w c seg e)
  then show ?case
    using sum_list_update_nat [of w "workers c" worker_work Waiting]
    by (simp add: work_left_def set_worker_def fail_with_def)
qed

lemma worker_step_closed: "worker_step c c' \<Longrightarrow> pool_closed (pool c') = pool_closed (pool c)"
  by (induction rule: worker_step.induct)
    (auto simp: set_worker_def take_seg_def acknowledge_def fail_with_def Let_def split: list.splits if_splits)

text \<open>Every worker that is neither asleep nor gone can take its next step.\<close>

lemma awake_progress:
  assumes "w < length (workers c)" "awake (workers c ! w)"
  shows "\<exists>c'. worker_step c c' \<and> workers c' ! w \<noteq> workers c ! w"
proof (cases "workers c ! w")
  case Waiting
  show ?thesis
  proof (cases "take_seg (pool c)")
    case None
    then have "worker_step c (set_worker w Asleep (pool c) [] c)" by (rule worker_step.sleep [OF assms(1) Waiting])
    then show ?thesis using assms(1) Waiting by (intro exI conjI) (auto simp: set_worker_def)
  next
    case (Some r)
    obtain seg p where r: "r = (seg, p)" by fastforce
    show ?thesis
    proof (cases seg)
      case None
      have "worker_step c (set_worker w Exited p [] c)" using Some r None by (intro worker_step.leave [OF assms(1) Waiting]) simp
      then show ?thesis using assms(1) Waiting by (intro exI conjI) (auto simp: set_worker_def)
    next
      case (Some s)
      have "worker_step c (set_worker w (Taken s) p [Took s] c)"
        using \<open>take_seg (pool c) = Some r\<close> r Some by (intro worker_step.take_one [OF assms(1) Waiting]) simp
      then show ?thesis using assms(1) Waiting by (intro exI conjI) (auto simp: set_worker_def)
    qed
  qed
next
  case (Taken seg)
  show ?thesis
  proof (cases "failed (pool c)")
    case True
    then have "worker_step c (set_worker w Waiting (pool c) [Skipped seg] c)" by (rule worker_step.drain [OF assms(1) Taken])
    then show ?thesis using assms(1) Taken by (intro exI conjI) (auto simp: set_worker_def)
  next
    case False
    then have "worker_step c (set_worker w (Delivering seg) (pool c) [] c)" by (rule worker_step.deliver [OF assms(1) Taken])
    then show ?thesis using assms(1) Taken by (intro exI conjI) (auto simp: set_worker_def)
  qed
next
  case (Delivering seg)
  have "worker_step c (set_worker w Waiting (acknowledge True (pool c)) [Acked seg True] c)" by (rule worker_step.ingest [OF assms(1) Delivering])
  then show ?thesis using assms(1) Delivering by (intro exI conjI) (auto simp: set_worker_def)
qed (use assms(2) in \<open>simp_all add: awake_def\<close>)

lemma worker_steps_bounded: "(worker_step ^^ n) c c' \<Longrightarrow> n + work_left c' \<le> work_left c \<and> pool_closed (pool c') = pool_closed (pool c)"
proof (induction n arbitrary: c')
  case (Suc n)
  then obtain b where "(worker_step ^^ n) c b" "worker_step b c'" by auto
  then show ?case using Suc.IH worker_step_work worker_step_closed by fastforce
qed simp

lemma in_hands_empty: "\<forall>pc \<in> set ws. held pc = {#} \<Longrightarrow> in_hands ws = {#}"
  by (induction ws) (auto simp: in_hands_def)

lemma errors_lost: "length (errors es) \<le> length (lost es)"
  by (induction es rule: rev_induct) (auto simp: log_simps split: event.splits)

section \<open>Properties\<close>

text \<open>C9: under every interleaving, no accepted segment is lost from sight or delivered twice. Segments are taken in
  the order they were submitted, each accepted segment is exactly once in the queue, in a worker's
  hands, acknowledged, or given up after a failure, and the in-flight count is the accepted segments
  not acknowledged.\<close>

theorem delivery_accounts_for_every_segment:
  assumes "reachable c"
  shows "accepted (history c) = taken (history c) @ queue (pool c) \<and>
    mset (accepted (history c)) = mset (queue (pool c)) + in_hands (workers c) +
      mset (map fst (acked (history c))) + mset (lost (history c)) \<and>
    submitted (pool c) = length (accepted (history c)) \<and>
    inFlight (pool c) = int (length (accepted (history c))) - int (length (acked (history c)))"
  using reachable_inv [OF assms] by (simp add: delivery_inv_def ac_simps)

text \<open>The pool reports the first failure. The recorded error is the first delivery error in time; from then on every
  \<open>Submit\<close> returns it and accepts nothing.\<close>

theorem first_error_is_kept:
  assumes "reachable c" "errors (history c) = e # es"
  shows "first_err (pool c) = Some e \<and> Submit seg (pool c) = (Some (DeliveryError e), pool c)"
  using reachable_inv [OF assms(1)] assms(2) by (simp add: delivery_inv_def Submit_def)

text \<open>Once every worker has exited, as \<open>close\<close> waits for, its result is complete: the pending count is the number of
  accepted segments given up, and there is no error exactly when every accepted segment was
  acknowledged.\<close>

theorem close_result_complete:
  assumes "reachable c" "set (workers c) = {Exited}" "r = close_result (pool c)"
  shows "r_pending r = int (length (lost (history c))) \<and> r_submitted r = length (accepted (history c)) \<and>
    (r_err r = None \<longleftrightarrow> mset (map fst (acked (history c))) = mset (accepted (history c))) \<and>
    (r_ingested r \<longleftrightarrow> True \<in> snd ` set (acked (history c)))"
proof -
  note inv = reachable_inv [OF assms(1)]
  have hands: "in_hands (workers c) = {#}"
  proof -
    have "\<forall>pc \<in> set (workers c). held pc = {#}" using assms(2) by auto
    then show ?thesis by (rule in_hands_empty)
  qed
  have total: "mset (accepted (history c)) = mset (map fst (acked (history c))) + mset (lost (history c))"
    using inv hands assms(2) by (simp add: delivery_inv_def)
  have len: "length (accepted (history c)) = length (acked (history c)) + length (lost (history c))"
    using arg_cong [OF total, of size] by simp
  have err: "first_err (pool c) = None \<longleftrightarrow> lost (history c) = []"
  proof
    show "first_err (pool c) = None" if "lost (history c) = []"
      using inv that errors_lost [of "history c"] by (simp add: delivery_inv_def)
  qed (use inv in \<open>simp add: delivery_inv_def\<close>)
  have "mset (map fst (acked (history c))) = mset (accepted (history c)) \<longleftrightarrow> lost (history c) = []"
    unfolding total by simp
  then show ?thesis using inv len err by (simp add: delivery_inv_def assms(3) close_result_def)
qed

text \<open>C21: \<open>close\<close> returns, provided deliveries do. Once the pool is closed no worker is asleep on the condition variable, whatever
  interleaving led there; from then on the workers take at most \<open>work_left\<close> steps in all, and at every moment each worker that
  has not exited can take its own next step, so that they all exit and the wait for them ends.\<close>

theorem close_terminates:
  assumes "reachable c" "pool_closed (pool c)" "(worker_step ^^ n) c c'"
  shows "n \<le> work_left c \<and> Asleep \<notin> set (workers c') \<and>
    (\<forall>w < length (workers c'). workers c' ! w \<noteq> Exited \<longrightarrow> (\<exists>c''. worker_step c' c'' \<and> workers c'' ! w \<noteq> workers c' ! w))"
proof -
  have "(worker_step ^^ n) c c' \<Longrightarrow> wakeup_inv c'" for n c'
  proof (induction n arbitrary: c')
    case (Suc n)
    then show ?case using worker_step_wakeup by auto
  qed (use reachable_wakeup [OF assms(1)] in simp)
  then have "Asleep \<notin> set (workers c')" using assms(2,3) worker_steps_bounded by (fastforce simp: wakeup_inv_def)
  then show ?thesis
    using worker_steps_bounded [OF assms(3)] awake_progress [of _ c'] nth_mem [of _ "workers c'"] by (fastforce simp: awake_def)
qed

text \<open>C22: no segment waits for a worker that sleeps: whenever the queue is not empty, some worker is awake and can take its next
  step, since every accepted segment wakes a sleeper and a worker falls asleep only on an empty queue.\<close>

theorem no_lost_wakeup:
  assumes "reachable c" "queue (pool c) \<noteq> []"
  shows "\<exists>w < length (workers c). workers c ! w \<noteq> Asleep \<and> (\<exists>c'. worker_step c c' \<and> workers c' ! w \<noteq> workers c ! w)"
proof -
  obtain w where "w < length (workers c)" "awake (workers c ! w)"
    using reachable_wakeup [OF assms(1)] assms(2) by (auto simp: wakeup_inv_def in_set_conv_nth)
  then show ?thesis using awake_progress [of w c] unfolding awake_def by blast
qed

subsection \<open>A run\<close>

text \<open>One worker; segment 7 is submitted, its upload fails, and the pool is closed.\<close>

definition after_failure :: "(nat, string) attempt" where
  "after_failure = \<lparr>pool = \<lparr>queue = [], first_err = Some ''network'', submitted = 1, inFlight = 1, ingested = False, pool_closed = False\<rparr>,
     workers = [Waiting], history = [Accepted 7, Took 7, FailedSeg 7 ''network'']\<rparr>"

definition after_close :: "(nat, string) attempt" where
  "after_close = \<lparr>pool = \<lparr>queue = [], first_err = Some ''network'', submitted = 1, inFlight = 1, ingested = False, pool_closed = True\<rparr>,
     workers = [Exited], history = [Accepted 7, Took 7, FailedSeg 7 ''network'']\<rparr>"

definition mid_attempt :: "nat list \<Rightarrow> nat worker \<Rightarrow> (nat, string) event list \<Rightarrow> (nat, string) attempt" where
  "mid_attempt q pc h = \<lparr>pool = \<lparr>queue = q, first_err = None, submitted = 1, inFlight = 1, ingested = False, pool_closed = False\<rparr>,
     workers = [pc], history = h\<rparr>"

lemma reachable_step: "reachable c \<Longrightarrow> delivery_step c c' \<Longrightarrow> reachable c'"
  unfolding reachable_def by (blast intro: rtranclp.rtrancl_into_rtrancl)

lemma after_failure_reachable: "reachable after_failure"
proof -
  have "reachable (start_attempt 1 :: (nat, string) attempt)" by (auto simp: reachable_def)
  moreover have "delivery_step (start_attempt 1) (mid_attempt [7] Waiting [Accepted 7])"
    using delivery_step.submit [of "7 :: nat" "start_attempt 1 :: (nat, string) attempt" _ "[Waiting]"]
    by (fastforce simp: Submit_def start_attempt_def new_pool_def mid_attempt_def signalled_def)
  moreover have "worker_step (mid_attempt [7] Waiting [Accepted 7]) (mid_attempt [] (Taken 7) [Accepted 7, Took 7])"
    using worker_step.take_one [of 0 "mid_attempt [7] Waiting [Accepted 7]"]
    by (fastforce simp: take_seg_def mid_attempt_def set_worker_def)
  moreover have "worker_step (mid_attempt [] (Taken 7) [Accepted 7, Took 7]) (mid_attempt [] (Delivering 7) [Accepted 7, Took 7])"
    using worker_step.deliver [of 0 "mid_attempt [] (Taken 7) [Accepted 7, Took 7]" 7]
    by (simp add: failed_def mid_attempt_def set_worker_def)
  moreover have "worker_step (mid_attempt [] (Delivering 7) [Accepted 7, Took 7]) after_failure"
    using worker_step.failure [of 0 "mid_attempt [] (Delivering 7) [Accepted 7, Took 7]" 7 "''network''"]
    by (simp add: fail_with_def mid_attempt_def set_worker_def after_failure_def)
  ultimately show ?thesis by (meson delivery_step.worker reachable_step)
qed

text \<open>The pool is closed while its worker sleeps.\<close>

definition closed_asleep :: "(nat, string) attempt" where
  "closed_asleep = close_entry (after_failure\<lparr>workers := [Asleep]\<rparr>)"

lemma closed_asleep_reachable: "reachable closed_asleep"
proof -
  have "worker_step after_failure (after_failure\<lparr>workers := [Asleep]\<rparr>)"
    using worker_step.sleep [of 0 after_failure] by (simp add: after_failure_def take_seg_def set_worker_def)
  then show ?thesis unfolding closed_asleep_def
    using after_failure_reachable by (meson delivery_step.worker delivery_step.closing reachable_step)
qed

lemma closed_asleep_exits: "worker_step closed_asleep after_close"
  using worker_step.leave [of 0 closed_asleep "pool closed_asleep"]
  by (simp add: closed_asleep_def close_entry_def wake_all_def take_seg_def after_failure_def begin_close_def set_worker_def after_close_def)

lemma after_close_reachable: "reachable after_close"
  using closed_asleep_reachable closed_asleep_exits by (meson delivery_step.worker reachable_step)

lemmas after_simps = after_failure_def after_close_def log_defs close_result_def

theorem delivery_accounts_for_every_segment_witness:
  "submitted (pool after_failure) = length (accepted (history after_failure)) \<and> inFlight (pool after_failure) = 1"
  using delivery_accounts_for_every_segment [OF after_failure_reachable] by (simp add: after_simps)

theorem first_error_is_kept_witness:
  "Submit 8 (pool after_failure) = (Some (DeliveryError ''network''), pool after_failure)"
  using first_error_is_kept [OF after_failure_reachable, of "''network''" "[]" 8] by (simp add: after_simps)

theorem close_result_complete_witness:
  "r_pending (close_result (pool after_close)) = 1 \<and> r_err (close_result (pool after_close)) \<noteq> None"
  using close_result_complete [OF after_close_reachable _ refl] by (simp add: after_simps)

theorem close_terminates_witness:
  "(1::nat) \<le> work_left closed_asleep \<and> Asleep \<notin> set (workers after_close) \<and> (\<exists>c. worker_step closed_asleep c \<and> workers c ! 0 \<noteq> Waiting)"
proof -
  have closed: "pool_closed (pool closed_asleep)" "workers closed_asleep = [Waiting]"
    by (simp_all add: closed_asleep_def close_entry_def after_failure_def begin_close_def wake_all_def)
  have one: "(worker_step ^^ 1) closed_asleep after_close" using closed_asleep_exits by (simp add: relcompp_apply)
  have none: "(worker_step ^^ 0) closed_asleep closed_asleep" by simp
  show ?thesis
    using close_terminates [OF closed_asleep_reachable closed(1) one] close_terminates [OF closed_asleep_reachable closed(1) none] closed(2)
    by (auto simp: after_close_def)
qed

theorem no_lost_wakeup_witness: "\<exists>c. reachable c \<and> queue (pool c) = [7 :: nat] \<and> workers c = [Waiting] \<and> (\<exists>c'. worker_step c (c' :: (nat, string) attempt))"
proof -
  have "delivery_step (start_attempt 1) (mid_attempt [7] Waiting [Accepted 7])"
    using delivery_step.submit [of "7 :: nat" "start_attempt 1 :: (nat, string) attempt" _ "[Waiting]"]
    by (fastforce simp: Submit_def start_attempt_def new_pool_def mid_attempt_def signalled_def)
  then have "reachable (mid_attempt [7] Waiting [Accepted 7])" by (meson reachable_def reachable_step rtranclp.rtrancl_refl)
  from no_lost_wakeup [OF this] this show ?thesis by (intro exI [of _ "mid_attempt [7] Waiting [Accepted 7]"]) (auto simp: mid_attempt_def)
qed

end
