(* ===== verification/Database.thy ===== *)
theory Database
  imports GoTime GoStrings Windows Decisions
begin

text \<open>
  The tables of the recorder's database that the scheduler, the clip-job API and the droplet pool read and
  write (\<open>infra/sql/migrations/0051, 0053, 0055, 0066, 0079, 0100, 0101, 0109, 0136, 0153\<close>), and
  transactions over them. A table is the list of its rows; a nullable column is an option. Columns that
  none of the modelled statements reads are left out, and so is \<open>updated_at\<close>. One counter stands for the
  sequences of the serial ids.

  A transaction is a session: the working copy of the database, the savepoints, whether PostgreSQL has put
  the transaction in the failed state, and the outcomes of the statements to come (no entry: the statement
  succeeds). A statement that fails aborts the transaction: every later statement fails until a rollback to a
  savepoint, and a commit discards the work.
\<close>

section \<open>Rows\<close>

datatype rec_status = RecActive | RecPaused | RecCanceled | RecCompleted
datatype job_status = Pending | Leased | Done | JobError | JobCanceled
datatype job_kind = Clip | ContinuousJob

record recording =
  rec_id :: int
  rec_account :: int
  rec_status :: rec_status
  rec_mode :: string
  rec_cron_expr :: "string option"
  rec_cron_timezone :: string
  rec_clip_duration :: int
  rec_daily_start :: "string option"
  rec_daily_end :: "string option"
  rec_weekdays :: WeekdaySet
  rec_start_at :: gotime
  rec_end_at :: "gotime option"
  rec_last_enqueued :: "gotime option"
  rec_next_fire :: "gotime option"
  rec_captured :: "int option"
  rec_expected :: "int option"
  rec_failures :: int
  rec_last_error :: string
  rec_last_error_at :: "gotime option"
  rec_capture_via :: string
  rec_youtube :: bool
  rec_preferred_group :: "int option"

record job =
  job_id :: int
  job_recording :: int
  fire_at :: gotime
  scheduled_for :: gotime
  job_clip_duration :: int
  job_status :: job_status
  lease_owner :: "string option"
  lease_expires_at :: "gotime option"
  lease_token :: "nat option"
  attempt_count :: int
  max_attempts :: int
  job_error :: string
  idempotency_key :: string
  job_completed_at :: "gotime option"
  job_kind :: job_kind
  window_end_at :: "gotime option"
  handoff_owner :: "string option"
  handoff_until :: "gotime option"
  fairness_started_at :: "gotime option"

record clip =
  clip_recording :: int
  clip_job :: "int option"
  clip_start_at :: gotime
  clip_end_at :: gotime
  clip_created_at :: gotime
  clip_lease_token :: "nat option"

record droplet_row =
  dr_id :: int
  dr_name :: string
  dr_node :: "int option"
  dr_do_id :: "int option"
  dr_region :: string
  dr_size :: string
  dr_capacity :: int
  dr_state :: droplet_state
  dr_role :: pool_role
  dr_ip :: string
  dr_build :: string
  dr_last_seen :: "gotime option"
  dr_first_seen :: "gotime option"
  dr_activated :: "gotime option"
  dr_error :: string
  dr_idle_since :: "gotime option"
  dr_drain_started :: "gotime option"
  dr_created :: gotime
  dr_destroyed :: "gotime option"

record node_row =
  node_id :: int
  node_account :: int
  node_type :: string
  node_name :: string
  node_status :: string
  node_heartbeat :: "gotime option"
  node_max_streams :: int
  node_group :: "int option"
  node_youtube_ready :: bool

record group_row =
  group_id :: int
  group_account :: int
  group_max_streams :: int
  group_bandwidth :: "int option"

record canary_row =
  canary_node :: int
  canary_expires :: gotime

record token_row =
  token_id :: int
  token_node :: int
  token_hash :: string
  token_revoked :: "gotime option"

datatype reservation_state = ReservationActive | ReservationReleased | ReservationFailed

record reservation =
  dc_recording :: int
  dc_worker :: string
  dc_owner :: string
  dc_expires :: gotime
  dc_state :: reservation_state
  dc_released :: "gotime option"

record alert_row =
  alert_key :: string
  alert_signal :: string
  alert_first :: gotime
  alert_last :: gotime
  alert_alerted :: "gotime option"
  alert_resolved :: "gotime option"

record node_failure =
  nf_job :: int
  nf_node :: int
  nf_count :: int
  nf_last :: gotime

record db =
  recordings :: "recording list"
  jobs :: "job list"
  clips :: "clip list"
  payers :: "int list"
  droplets :: "droplet_row list"
  nodes :: "node_row list"
  tokens :: "token_row list"
  reservations :: "reservation list"
  node_failures :: "node_failure list"
  pool_state :: "PoolState option"
  alerts :: "alert_row list"
  relay_groups :: "group_row list"
  bandwidths :: "(int \<times> int) list"
  canaries :: "canary_row list"
  serial :: int

text \<open>\<open>payers\<close> lists the accounts whose billing row has a payment method. \<open>rec_youtube\<close> is whether the recording's stream
  is of execution class \<open>youtube_direct\<close>; \<open>node_youtube_ready\<close> whether the node's capabilities say so with the
  boolean true; \<open>bandwidths\<close> is \<open>recording_bandwidth_observations\<close>.\<close>

section \<open>Updating a table\<close>

text \<open>\<open>UPDATE ... SET f WHERE p\<close>, with the rows that matched.\<close>

definition update_where :: "('r \<Rightarrow> bool) \<Rightarrow> ('r \<Rightarrow> 'r) \<Rightarrow> 'r list \<Rightarrow> 'r list" where
  "update_where p f rows = map (\<lambda>r. if p r then f r else r) rows"

lemma update_where_Nil [simp]: "update_where p f [] = []"
  by (simp add: update_where_def)

lemma length_update_where [simp]: "length (update_where p f rows) = length rows"
  by (simp add: update_where_def)

lemma map_update_where: "(\<And>r. p r \<Longrightarrow> k (f r) = k r) \<Longrightarrow> map k (update_where p f rows) = map k rows"
  by (simp add: update_where_def)

lemma in_update_where:
  "r \<in> set (update_where p f rows) \<longleftrightarrow> (\<exists>r0 \<in> set rows. r = (if p r0 then f r0 else r0))"
  by (auto simp: update_where_def)

lemma update_whereE:
  assumes "r \<in> set (update_where p f rows)"
  obtains r0 where "r0 \<in> set rows" "p r0" "r = f r0" | "r \<in> set rows" "\<not> p r"
  using assms by (auto simp: in_update_where split: if_splits)

lemma ball_update_where: "(\<forall>r \<in> set (update_where p f rows). P r) \<longleftrightarrow> (\<forall>r \<in> set rows. P (if p r then f r else r))"
  unfolding update_where_def set_map ball_simps by (rule refl)

lemma bex_update_where: "(\<exists>r \<in> set (update_where p f rows). P r) \<longleftrightarrow> (\<exists>r \<in> set rows. P (if p r then f r else r))"
  unfolding update_where_def set_map bex_simps by (rule refl)

lemma image_update_where: "(\<And>r. p r \<Longrightarrow> k (f r) = k r) \<Longrightarrow> k ` set (update_where p f rows) = k ` set rows"
  using map_update_where [of p k f rows] by (metis list.set_map)

lemma update_where_ball:
  "(\<And>r. r \<in> set rows \<Longrightarrow> P r) \<Longrightarrow> (\<And>r. r \<in> set rows \<Longrightarrow> p r \<Longrightarrow> P r \<Longrightarrow> P (f r)) \<Longrightarrow>
    r \<in> set (update_where p f rows) \<Longrightarrow> P r"
  by (auto simp: in_update_where split: if_splits)

lemma update_where_none: "(\<And>r. r \<in> set rows \<Longrightarrow> \<not> p r) \<Longrightarrow> update_where p f rows = rows"
  by (simp add: update_where_def map_idI)

lemma filter_update_where_same:
  "(\<And>r. p r \<Longrightarrow> q (f r) = q r) \<Longrightarrow> filter q (update_where p f rows) = update_where p f (filter q rows)"
  by (induction rows) (auto simp: update_where_def)

section \<open>SQL helpers\<close>

text \<open>\<open>expires > now()\<close> is not true for a NULL.\<close>

definition later_than :: "gotime option \<Rightarrow> gotime \<Rightarrow> bool" where
  "later_than t now = (case t of None \<Rightarrow> False | Some e \<Rightarrow> now < e)"

definition secs :: "int \<Rightarrow> duration" where "secs n = n * second"

definition btrim :: "string \<Rightarrow> string" where
  "btrim s = rev (dropWhile (\<lambda>c. c = CHR '' '') (rev (dropWhile (\<lambda>c. c = CHR '' '') s)))"

text \<open>A job whose lease is live and held by a worker; what the pool and the lease gate count.\<close>

definition live_lease :: "gotime \<Rightarrow> string \<Rightarrow> job \<Rightarrow> bool" where
  "live_lease now name j \<longleftrightarrow> job_status j = Leased \<and> lease_owner j = Some name \<and> later_than (lease_expires_at j) now"

section \<open>Transactions\<close>

datatype db_failure = StatementFailed

record 'd session =
  work :: 'd
  saves :: "'d list"
  aborted :: bool
  outcomes :: "bool list"

definition next_ok :: "'d session \<Rightarrow> bool" where
  "next_ok s = (case outcomes s of [] \<Rightarrow> True | b # _ \<Rightarrow> b)"

definition exec :: "('d \<Rightarrow> 'a \<times> 'd) \<Rightarrow> ('d session, db_failure + 'a) state" where
  "exec f = State (\<lambda>s. let s' = s\<lparr>outcomes := tl (outcomes s)\<rparr> in
     if aborted s then (Inl StatementFailed, s')
     else if \<not> next_ok s then (Inl StatementFailed, s'\<lparr>aborted := True\<rparr>)
     else case f (work s) of (a, d) \<Rightarrow> (Inr a, s'\<lparr>work := d\<rparr>))"

definition savepoint :: "('d session, db_failure + unit) state" where
  "savepoint = State (\<lambda>s. let s' = s\<lparr>outcomes := tl (outcomes s)\<rparr> in
     if aborted s then (Inl StatementFailed, s')
     else if \<not> next_ok s then (Inl StatementFailed, s'\<lparr>aborted := True\<rparr>)
     else (Inr (), s'\<lparr>saves := work s # saves s\<rparr>))"

definition rollback_to :: "('d session, db_failure + unit) state" where
  "rollback_to = State (\<lambda>s. let s' = s\<lparr>outcomes := tl (outcomes s)\<rparr> in
     if \<not> next_ok s then (Inl StatementFailed, s'\<lparr>aborted := True\<rparr>)
     else case saves s of [] \<Rightarrow> (Inl StatementFailed, s'\<lparr>aborted := True\<rparr>)
       | d # _ \<Rightarrow> (Inr (), s'\<lparr>work := d, aborted := False\<rparr>))"

definition release :: "('d session, db_failure + unit) state" where
  "release = State (\<lambda>s. let s' = s\<lparr>outcomes := tl (outcomes s)\<rparr> in
     if aborted s then (Inl StatementFailed, s')
     else if \<not> next_ok s \<or> saves s = [] then (Inl StatementFailed, s'\<lparr>aborted := True\<rparr>)
     else (Inr (), s'\<lparr>saves := tl (saves s)\<rparr>))"

text \<open>Begin, run the body, commit; the deferred rollback discards the work on every other path. The result
  is the body's, and the database after it.\<close>

definition begin_tx :: "'d \<Rightarrow> bool list \<Rightarrow> 'd session" where
  "begin_tx d os = \<lparr>work = d, saves = [], aborted = False, outcomes = os\<rparr>"

definition commit_tx :: "'d \<Rightarrow> 'd session \<Rightarrow> (db_failure + unit) \<times> 'd" where
  "commit_tx d s = (if aborted s \<or> \<not> next_ok s then (Inl StatementFailed, d) else (Inr (), work s))"

subsection \<open>Facts about statements\<close>

lemma exec_aborted:
  assumes "aborted s"
  shows "run_state (exec f) s = (Inl StatementFailed, s\<lparr>outcomes := tl (outcomes s)\<rparr>)"
  using assms by (simp add: exec_def Let_def)

lemma exec_fails:
  assumes "\<not> next_ok s"
  shows "run_state (exec f) s = (Inl StatementFailed, s\<lparr>outcomes := tl (outcomes s), aborted := True\<rparr>)"
  using assms by (cases "aborted s") (simp_all add: exec_def Let_def)

lemma exec_ok:
  assumes "\<not> aborted s" "next_ok s"
  shows "run_state (exec f) s = (Inr (fst (f (work s))), s\<lparr>outcomes := tl (outcomes s), work := snd (f (work s))\<rparr>)"
  using assms by (simp add: exec_def Let_def split: prod.splits)

lemma exec_Inr:
  assumes "run_state (exec f) s = (Inr a, s')"
  shows "\<not> aborted s \<and> next_ok s \<and> a = fst (f (work s)) \<and> work s' = snd (f (work s)) \<and> saves s' = saves s \<and> \<not> aborted s'"
  using assms by (auto simp: exec_def Let_def split: if_splits prod.splits)

lemma exec_Inl:
  assumes "run_state (exec f) s = (Inl e, s')"
  shows "aborted s' \<and> work s' = work s \<and> saves s' = saves s"
  using assms by (auto simp: exec_def Let_def split: if_splits prod.splits)

lemma next_ok_tl: "outcomes s = [] \<Longrightarrow> next_ok s"
  by (simp add: next_ok_def)

text \<open>An invariant of the database that a statement keeps is kept by the session, savepoints included.\<close>

definition session_inv :: "('d \<Rightarrow> bool) \<Rightarrow> 'd session \<Rightarrow> bool" where
  "session_inv I s \<longleftrightarrow> I (work s) \<and> (\<forall>d \<in> set (saves s). I d)"

lemma keeps_exec:
  assumes "\<And>d. I d \<Longrightarrow> I (snd (f d))"
  shows "keeps (session_inv I) (exec f)"
  using assms by (intro keepsI) (simp add: exec_def Let_def session_inv_def split_beta)

lemma keeps_savepoint [valid_intro]: "keeps (session_inv I) savepoint"
  by (intro keepsI) (auto simp: savepoint_def Let_def session_inv_def)

lemma keeps_rollback_to [valid_intro]: "keeps (session_inv I) rollback_to"
  by (intro keepsI) (auto simp: rollback_to_def Let_def session_inv_def split: list.splits)

lemma keeps_release [valid_intro]: "keeps (session_inv I) release"
  by (intro keepsI) (auto simp: release_def Let_def session_inv_def dest: list.set_sel(2))

section \<open>Loops that stop at the first error\<close>

fun try_each :: "'a list \<Rightarrow> ('a \<Rightarrow> ('w, 'e + unit) state) \<Rightarrow> ('w, 'e + unit) state" where
  "try_each [] f = ret (Inr ())"
| "try_each (x # xs) f = orfail (f x) (\<lambda>_. try_each xs f)"

lemma keeps_try_each [valid_intro]: "(\<And>x. keeps I (f x)) \<Longrightarrow> keeps I (try_each xs f)"
  by (induction xs) (auto intro!: valid_intro)

section \<open>Successful runs\<close>

text \<open>\<open>succeeds P m Q\<close>: a run of \<open>m\<close> from \<open>P\<close> that returns no error ends in \<open>Q\<close>.\<close>

definition succeeds :: "('w \<Rightarrow> bool) \<Rightarrow> ('w, 'e + 'a) state \<Rightarrow> ('a \<Rightarrow> 'w \<Rightarrow> bool) \<Rightarrow> bool" where
  "succeeds P m Q \<longleftrightarrow> (\<forall>w x w'. P w \<longrightarrow> run_state m w = (Inr x, w') \<longrightarrow> Q x w')"

lemma run_bind: "run_state (State_Monad.bind m f) s = (case run_state m s of (a, s') \<Rightarrow> run_state (f a) s')"
  by (simp add: State_Monad.bind_def split_beta)

lemma run_ret [simp]: "run_state (ret x) s = (x, s)"
  by (simp add: State_Monad.return_def)

lemma run_orfail:
  "run_state (orfail m f) s = (case run_state m s of (Inl e, s') \<Rightarrow> (Inl e, s') | (Inr x, s') \<Rightarrow> run_state (f x) s')"
  by (auto simp: orfail_def run_bind split: prod.splits sum.splits)

lemma succeedsI: "(\<And>w x w'. P w \<Longrightarrow> run_state m w = (Inr x, w') \<Longrightarrow> Q x w') \<Longrightarrow> succeeds P m Q"
  by (simp add: succeeds_def)

lemma succeedsD: "succeeds P m Q \<Longrightarrow> P w \<Longrightarrow> run_state m w = (Inr x, w') \<Longrightarrow> Q x w'"
  by (simp add: succeeds_def)

lemma succeeds_weaken: "succeeds P m Q \<Longrightarrow> (\<And>w. P' w \<Longrightarrow> P w) \<Longrightarrow> (\<And>x w. Q x w \<Longrightarrow> Q' x w) \<Longrightarrow> succeeds P' m Q'"
  unfolding succeeds_def by blast

lemma succeeds_conj: "succeeds P m Q \<Longrightarrow> succeeds P m Q' \<Longrightarrow> succeeds P m (\<lambda>x w. Q x w \<and> Q' x w)"
  unfolding succeeds_def by blast

lemma succeeds_fail [valid_intro]: "succeeds P (ret (Inl e)) Q"
  by (simp add: succeeds_def)

lemma succeeds_ret: "(\<And>w. P w \<Longrightarrow> Q x w) \<Longrightarrow> succeeds P (ret (Inr x)) Q"
  by (simp add: succeeds_def)

lemma succeeds_orfail: "succeeds P m R \<Longrightarrow> (\<And>x. succeeds (R x) (f x) Q) \<Longrightarrow> succeeds P (orfail m f) Q"
  by (fastforce simp: succeeds_def run_orfail split: prod.splits sum.splits)

lemma succeeds_try_each:
  assumes "\<And>x. x \<in> set xs \<Longrightarrow> succeeds I (f x) (\<lambda>_. I)"
  shows "succeeds I (try_each xs f) (\<lambda>_. I)"
  using assms
proof (induction xs)
  case (Cons x xs)
  show ?case unfolding try_each.simps
    using Cons by (intro succeeds_orfail [where R = "\<lambda>_. I"]) simp_all
qed (auto intro: succeeds_ret)

text \<open>What every pass of the loop establishes and the later ones keep.\<close>

lemma succeeds_try_each_all:
  assumes "\<And>x. x \<in> set xs \<Longrightarrow> succeeds I (f x) (\<lambda>_ s. I s \<and> D x s)"
    and "\<And>x y. x \<in> set xs \<Longrightarrow> y \<in> set xs \<Longrightarrow> succeeds (\<lambda>s. I s \<and> D y s) (f x) (\<lambda>_. D y)"
  shows "succeeds I (try_each xs f) (\<lambda>_ s. I s \<and> (\<forall>x \<in> set xs. D x s))"
  using assms
proof (induction xs)
  case Nil
  then show ?case by (auto intro: succeeds_ret)
next
  case (Cons x xs)
  have keep: "succeeds (\<lambda>s. I s \<and> D x s) (try_each xs f) (\<lambda>_ s. I s \<and> D x s)"
  proof (rule succeeds_try_each)
    fix y assume "y \<in> set xs"
    then show "succeeds (\<lambda>s. I s \<and> D x s) (f y) (\<lambda>_ s. I s \<and> D x s)"
      using Cons.prems(1) [of y] Cons.prems(2) [of y x] unfolding succeeds_def by (meson list.set_intros)
  qed
  have "succeeds I (try_each xs f) (\<lambda>_ s. I s \<and> (\<forall>x \<in> set xs. D x s))"
  proof (rule Cons.IH)
    show "succeeds I (f y) (\<lambda>_ s. I s \<and> D y s)" if "y \<in> set xs" for y
      using that by (intro Cons.prems(1)) simp
    show "succeeds (\<lambda>s. I s \<and> D z s) (f y) (\<lambda>_. D z)" if "y \<in> set xs" "z \<in> set xs" for y z
      using that by (intro Cons.prems(2)) simp_all
  qed
  then have "succeeds (\<lambda>s. I s \<and> D x s) (try_each xs f) (\<lambda>_ s. I s \<and> (\<forall>x \<in> set xs. D x s))"
    by (rule succeeds_weaken) simp_all
  then have rest: "succeeds (\<lambda>s. I s \<and> D x s) (try_each xs f) (\<lambda>_ s. I s \<and> (\<forall>y \<in> set (x # xs). D y s))"
    by (rule succeeds_weaken [OF succeeds_conj [OF keep]]) simp_all
  have head: "succeeds I (f x) (\<lambda>_ s. I s \<and> D x s)"
    by (rule Cons.prems(1)) simp
  show ?case unfolding try_each.simps by (rule succeeds_orfail [OF head rest])
qed

end
