(* ===== verification/Fires.thy ===== *)
theory Fires
  imports Cron GoStrings
begin

text \<open>
  The pure helpers of the job scheduler, at the end of \<open>recsched/scheduler.go\<close>: the catch-up cursor, the
  enumeration of due fire instants, and the per-recording jitter.
\<close>

section \<open>Definitions\<close>

text \<open>At most 30 seconds and at most a twentieth of the minimum interval.\<close>

definition jitter_span :: "int \<Rightarrow> int" where
  "jitter_span minIntervalSec =
     (if minIntervalSec > 0 \<and> go_quot minIntervalSec 20 < 30 then go_quot minIntervalSec 20 else 30)"

definition fireJitter :: "int \<Rightarrow> int \<Rightarrow> duration" where
  "fireJitter recordingID minIntervalSec =
     (let span = jitter_span minIntervalSec in
      if span < 1 then 0
      else (let offset = go_rem recordingID span in (if offset < 0 then - offset else offset) * second))"

definition catchupCursor :: "gotime option \<Rightarrow> gotime \<Rightarrow> duration \<Rightarrow> gotime" where
  "catchupCursor lastEnqueuedFireAt now window =
     (let cursor = now - window in
      case lastEnqueuedFireAt of None \<Rightarrow> cursor | Some t \<Rightarrow> if cursor < t then t else cursor)"

definition catchupInstantCap :: "duration \<Rightarrow> int \<Rightarrow> int" where
  "catchupInstantCap window minIntervalSec =
     (if minIntervalSec \<le> 0 then 1
      else (let n = go_quot (go_quot window second) minIntervalSec in if n < 1 then 1 else n))"

text \<open>The loop of \<open>dueFireInstants\<close>: \<open>room\<close> is how many instants may still be added.\<close>

fun due_loop :: "nat \<Rightarrow> schedule \<Rightarrow> gotime \<Rightarrow> gotime \<Rightarrow> gotime list" where
  "due_loop 0 next now f = []"
| "due_loop (Suc room) next now f =
     (if is_zero f then [] else if now < f then [] else f # due_loop room next now (next f))"

definition dueFireInstants :: "schedule \<Rightarrow> gotime \<Rightarrow> gotime \<Rightarrow> int \<Rightarrow> gotime list" where
  "dueFireInstants next cursor now maxInstants =
     (if maxInstants < 1 then [] else due_loop (nat maxInstants) next now (next cursor))"

section \<open>Due instants\<close>

lemma length_due_loop: "length (due_loop room next now f) \<le> room"
  by (induction room "next" now f rule: due_loop.induct) auto

context cron_schedule
begin

lemma due_loop_spec:
  assumes "now \<le> cursor + 365 * 24 * hour"
  shows "sorted_wrt (<) (due_loop room Next now (Next cursor)) \<and>
    set (due_loop room Next now (Next cursor)) \<subseteq> {f. fire f \<and> cursor < f \<and> f \<le> now} \<and>
    (\<forall>f. fire f \<and> cursor < f \<and> f \<le> now \<and> f \<notin> set (due_loop room Next now (Next cursor)) \<longrightarrow>
       length (due_loop room Next now (Next cursor)) = room \<and>
       (\<forall>g \<in> set (due_loop room Next now (Next cursor)). g < f))"
  using assms
proof (induction room arbitrary: cursor)
  case 0
  then show ?case by simp
next
  case (Suc room)
  let ?n = "Next cursor"
  show ?case
  proof (cases "is_zero ?n \<or> now < ?n")
    case True
    have "\<not> (fire f \<and> cursor < f \<and> f \<le> now)" for f
    proof
      assume f: "fire f \<and> cursor < f \<and> f \<le> now"
      show False
      proof (cases "is_zero ?n")
        case True
        then show False using f none_soon [of cursor] Suc.prems by (force simp: is_zero_def fire_def)
      next
        case False
        then show False using f no_fire_between [of cursor f] \<open>is_zero ?n \<or> now < ?n\<close> by (auto simp: is_zero_def)
      qed
    qed
    then show ?thesis using True by auto
  next
    case False
    then have n: "fire ?n" "cursor < ?n" "?n \<le> now"
      using fire_Next [of cursor] later [of cursor] by (auto simp: is_zero_def)
    have first: "?n \<le> f" if "fire f" "cursor < f" for f
      using no_fire_between [OF _ that] False by (simp add: is_zero_def)
    have eq: "due_loop (Suc room) Next now ?n = ?n # due_loop room Next now (Next ?n)" using False by simp
    have ih: "sorted_wrt (<) (due_loop room Next now (Next ?n)) \<and>
      set (due_loop room Next now (Next ?n)) \<subseteq> {f. fire f \<and> ?n < f \<and> f \<le> now} \<and>
      (\<forall>f. fire f \<and> ?n < f \<and> f \<le> now \<and> f \<notin> set (due_loop room Next now (Next ?n)) \<longrightarrow>
         length (due_loop room Next now (Next ?n)) = room \<and>
         (\<forall>g \<in> set (due_loop room Next now (Next ?n)). g < f))"
      using Suc.IH [of ?n] Suc.prems n(2) by simp
    show ?thesis unfolding eq
    proof (intro conjI allI impI)
      show "sorted_wrt (<) (?n # due_loop room Next now (Next ?n))" using ih by auto
      show "set (?n # due_loop room Next now (Next ?n)) \<subseteq> {f. fire f \<and> cursor < f \<and> f \<le> now}"
        using ih n by auto
    next
      fix f
      assume f: "fire f \<and> cursor < f \<and> f \<le> now \<and> f \<notin> set (?n # due_loop room Next now (Next ?n))"
      then have "?n < f" using first [of f] by fastforce
      then have "length (due_loop room Next now (Next ?n)) = room \<and> (\<forall>g \<in> set (due_loop room Next now (Next ?n)). g < f)"
        using conjunct2 [OF conjunct2 [OF ih]] f by (meson list.set_intros(2))
      then show "length (?n # due_loop room Next now (Next ?n)) = Suc room"
        and "\<forall>g \<in> set (?n # due_loop room Next now (Next ?n)). g < f"
        using \<open>?n < f\<close> by auto
    qed
  qed
qed

lemma validate_returns:
  assumes "0 < minIntervalSec" "0 < clipDurationSec"
    and "ParseCron lib expr = Inr sched" "LoadLocation (tz_database lib) tz = Inr loc" "sched loc = Next"
  shows "\<exists>r. ValidateCronForCreate lib now expr tz minIntervalSec clipDurationSec = Some r"
proof -
  have "\<exists>r. minGapSeconds Next now = Some r"
    using minGapSeconds_spec [of now] by (auto split: if_splits)
  then show ?thesis using assms by (auto simp: ValidateCronForCreate_def split: sum.splits)
qed

end

section \<open>Jitter\<close>

lemma jitter_span_bounds: "jitter_span m \<le> 30" "0 < m \<Longrightarrow> jitter_span m * 20 \<le> m"
proof -
  show "jitter_span m \<le> 30" by (simp add: jitter_span_def)
  assume m: "0 < m"
  then have "go_quot m 20 = m div 20" by (simp add: go_quot_nonneg)
  then have "jitter_span m \<le> m div 20" using m by (simp add: jitter_span_def not_less)
  then show "jitter_span m * 20 \<le> m" by (simp add: int_le_div_iff)
qed

lemma fireJitter_bounds:
  "0 \<le> fireJitter rid m \<and> fireJitter rid m < 30 * second \<and> (0 < m \<longrightarrow> 20 * fireJitter rid m \<le> m * second)"
proof (cases "jitter_span m < 1")
  case True
  then show ?thesis by (simp add: fireJitter_def)
next
  case False
  then have "\<bar>go_rem rid (jitter_span m)\<bar> < jitter_span m" by (intro abs_go_rem_less) simp
  moreover have "fireJitter rid m = \<bar>go_rem rid (jitter_span m)\<bar> * second"
    using False by (simp add: fireJitter_def abs_if Let_def)
  ultimately show ?thesis using jitter_span_bounds [of m] by fastforce
qed

section \<open>Properties\<close>

text \<open>The catch-up enumeration is exact. The due instants are fires after the cursor and not after now, in
  increasing order and at most the cap; a fire in that range is left out only when the cap is reached, and
  then it comes after all those returned.\<close>

theorem due_instants_exact:
  assumes "cron_schedule sched" "now \<le> cursor + 365 * 24 * hour" "1 \<le> cap"
    and "out = dueFireInstants sched cursor now cap"
  shows "sorted_wrt (<) out \<and> int (length out) \<le> cap \<and>
    set out \<subseteq> {f. cron_schedule.fire sched f \<and> cursor < f \<and> f \<le> now} \<and>
    (\<forall>f. cron_schedule.fire sched f \<and> cursor < f \<and> f \<le> now \<and> f \<notin> set out \<longrightarrow>
       int (length out) = cap \<and> (\<forall>g \<in> set out. g < f))"
  using cron_schedule.due_loop_spec [OF assms(1,2), of "nat cap"] length_due_loop [of "nat cap" sched now "sched cursor"] assms(3,4)
  by (simp add: dueFireInstants_def nat_le_iff)

theorem due_instants_exact_witness:
  "int (length (dueFireInstants half_past 0 (4 * hour) 3)) \<le> 3 \<and> dueFireInstants half_past 0 (4 * hour) 3 = [30 * minute, 90 * minute, 150 * minute]"
proof
  show "int (length (dueFireInstants half_past 0 (4 * hour) 3)) \<le> 3"
    using due_instants_exact [OF half_past.cron_schedule_axioms, of "4 * hour" 0 3 "dueFireInstants half_past 0 (4 * hour) 3"]
    by auto
  show "dueFireInstants half_past 0 (4 * hour) 3 = [30 * minute, 90 * minute, 150 * minute]"
    by code_simp
qed

text \<open>The jitter never moves a job by 30 seconds or more, nor by more than a twentieth of the minimum interval,
  and never before its fire.\<close>

theorem jitter_bounded:
  "0 \<le> fireJitter rid m \<and> fireJitter rid m < 30 * second \<and> 20 * fireJitter rid m \<le> max (m * second) (600 * second)"
  using fireJitter_bounds [of rid m] by (cases "0 < m") auto

text \<open>The cap does not cover every catch-up window. With the default window of 15 minutes and minimum interval
  of ten minutes the cap is one instant, while a schedule that fires every ten minutes has two fires in the
  window; the second waits for the next tick.\<close>

definition every_ten_minutes :: schedule where
  "every_ten_minutes t = (t div (10 * minute) + 1) * (10 * minute)"

theorem cap_below_window:
  "catchupInstantCap (15 * minute) 600 = 1 \<and>
   dueFireInstants every_ten_minutes (5 * minute) (20 * minute) (catchupInstantCap (15 * minute) 600) = [10 * minute] \<and>
   dueFireInstants every_ten_minutes (5 * minute) (20 * minute) 2 = [10 * minute, 20 * minute]"
  by code_simp

end
