(* ===== verification/Scheduler.thy ===== *)
theory Scheduler
  imports Database Coverage Fires "HOL-Library.AList"
begin

text \<open>
  The job scheduler's tick: \<open>recsched/scheduler.go\<close>. One transaction stops expired recordings, reclaims expired
  leases, gives up stale jobs, and enqueues the jobs that are due. Every statement is a function on the
  database run by \<open>exec\<close>, so any of them may fail. \<open>now\<close> is the transaction's \<open>now()\<close>, \<open>clock\<close> the instant
  \<open>time.Now()\<close> returns in the tick. The tick's transaction runs without concurrent writers in the model:
  it locks the recordings it changes, and interleaving with the workers' job updates is not modelled.
\<close>

section \<open>Configuration and errors\<close>

record Config =
  TickInterval :: duration
  CatchupWindow :: duration
  MinIntervalSec :: int
  MaxJobsPerTick :: int
  BillingEnabled :: bool

definition New :: "Config \<Rightarrow> Config" where
  "New cfg = cfg\<lparr>
     TickInterval := (if TickInterval cfg \<le> 0 then 15 * second else TickInterval cfg),
     CatchupWindow := (if CatchupWindow cfg \<le> 0 then 15 * minute else CatchupWindow cfg),
     MinIntervalSec := (if MinIntervalSec cfg \<le> 0 then 600 else MinIntervalSec cfg),
     MaxJobsPerTick := (if MaxJobsPerTick cfg \<le> 0 then 500 else MaxJobsPerTick cfg)\<rparr>"

text \<open>\<open>NeverReturns\<close> stands for a schedule whose validation loop does not end; it is passed up to the tick, which
  then does not return either.\<close>

datatype sched_error =
    DbError | WindowMissing | WindowError window_error | CoverageError coverage_error
  | CronMissing | CronError cron_error | NeverReturns

type_synonym 'a tick = "(db session, sched_error + 'a) state"

definition sql :: "(db \<Rightarrow> 'a \<times> db) \<Rightarrow> 'a tick" where
  "sql f = State_Monad.bind (exec f) (\<lambda>r. ret (case r of Inl _ \<Rightarrow> Inl DbError | Inr a \<Rightarrow> Inr a))"

definition dbe :: "(db session, db_failure + 'a) state \<Rightarrow> 'a tick" where
  "dbe m = State_Monad.bind m (\<lambda>r. ret (case r of Inl _ \<Rightarrow> Inl DbError | Inr a \<Rightarrow> Inr a))"

section \<open>Stopping expired recordings\<close>

definition captured_count :: "db \<Rightarrow> recording \<Rightarrow> gotime \<Rightarrow> int" where
  "captured_count d r end_at = int (length (filter (\<lambda>c. clip_recording c = rec_id r \<and> rec_start_at r \<le> clip_start_at c \<and>
     clip_start_at c < end_at \<and> clip_end_at c \<le> end_at) (clips d)))"

text \<open>The rows of the first query: recording, end and captured clips.\<close>

definition expired_recordings :: "gotime \<Rightarrow> db \<Rightarrow> (recording \<times> gotime \<times> int) list" where
  "expired_recordings now d = concat (map (\<lambda>r. case rec_end_at r of None \<Rightarrow> []
       | Some e \<Rightarrow> if rec_status r = RecActive \<and> e \<le> now then [(r, e, captured_count d r e)] else [])
     (sort_key rec_id (recordings d)))"

definition window_args :: "recording \<Rightarrow> sched_error + (TimeOfDay option \<times> TimeOfDay option)" where
  "window_args r =
     (if rec_mode r = ''continuous'' then
        (case (rec_daily_start r, rec_daily_end r) of
           (Some s, Some e) \<Rightarrow>
             (case ParseTimeOfDay s of Inl x \<Rightarrow> Inl (WindowError x) | Inr start \<Rightarrow>
              (case ParseTimeOfDay e of Inl x \<Rightarrow> Inl (WindowError x) | Inr stop \<Rightarrow> Inr (Some start, Some stop)))
         | _ \<Rightarrow> Inl WindowMissing)
      else Inr (None, None))"

definition complete_row :: "int \<Rightarrow> int option \<Rightarrow> int option \<Rightarrow> db \<Rightarrow> unit \<times> db" where
  "complete_row i captured expected d = ((), d\<lparr>recordings := update_where (\<lambda>r. rec_id r = i \<and> rec_status r = RecActive)
     (\<lambda>r. r\<lparr>rec_status := RecCompleted, rec_next_fire := None, rec_captured := captured, rec_expected := expected\<rparr>)
     (recordings d)\<rparr>)"

definition cron_text :: "recording \<Rightarrow> string" where
  "cron_text r = (case rec_cron_expr r of None \<Rightarrow> [] | Some e \<Rightarrow> e)"

definition stop_recording :: "'a timelib_scheme \<Rightarrow> recording \<times> gotime \<times> int \<Rightarrow> unit tick" where
  "stop_recording lib row =
     (case row of (r, end_at, captured) \<Rightarrow>
      case window_args r of Inl e \<Rightarrow> ret (Inl e) | Inr (start, stop) \<Rightarrow>
      (case ExpectedClipCount lib (rec_mode r) (cron_text r) (rec_cron_timezone r) start stop (rec_weekdays r)
              (rec_clip_duration r) (rec_start_at r) (rec_start_at r) end_at of
         Inl e \<Rightarrow> if e = CoverageTooLarge then sql (complete_row (rec_id r) None None) else ret (Inl (CoverageError e))
       | Inr expected \<Rightarrow> sql (complete_row (rec_id r) (Some captured) (Some expected))))"

definition cancel_completed_jobs :: "db \<Rightarrow> unit \<times> db" where
  "cancel_completed_jobs d = ((), d\<lparr>jobs := update_where
     (\<lambda>j. job_status j \<in> {Pending, Leased} \<and> job_recording j \<in> rec_id ` {r \<in> set (recordings d). rec_status r = RecCompleted})
     (\<lambda>j. j\<lparr>job_status := JobCanceled\<rparr>) (jobs d)\<rparr>)"

definition autoStopExpiredRecordings :: "'a timelib_scheme \<Rightarrow> gotime \<Rightarrow> unit tick" where
  "autoStopExpiredRecordings lib now =
     orfail (sql (\<lambda>d. (expired_recordings now d, d))) (\<lambda>rows.
     orfail (try_each rows (stop_recording lib)) (\<lambda>_.
     sql cancel_completed_jobs))"

section \<open>Giving up stale jobs\<close>

definition freshnessGraceSec :: int where "freshnessGraceSec = 30"

definition has_clips :: "db \<Rightarrow> job \<Rightarrow> bool" where
  "has_clips d j \<longleftrightarrow> (\<exists>c \<in> set (clips d). clip_job c = Some (job_id j))"

text \<open>The capture window of a job has passed: \<open>fire_at + (clip_duration_sec + 30 s) <= now()\<close>, or the window's end for a
  continuous job.\<close>

definition stale :: "gotime \<Rightarrow> job \<Rightarrow> bool" where
  "stale now j \<longleftrightarrow> job_status j = Pending \<and>
     ((job_kind j = Clip \<and> fire_at j + secs (job_clip_duration j + freshnessGraceSec) \<le> now) \<or>
      (job_kind j = ContinuousJob \<and> (case window_end_at j of None \<Rightarrow> False | Some e \<Rightarrow> e \<le> now)))"

definition no_clips_text :: string where
  "no_clips_text = ''continuous recording produced no clips''"

definition stale_row :: "db \<Rightarrow> gotime \<Rightarrow> job \<Rightarrow> job" where
  "stale_row d now j =
     (let kept = job_kind j = ContinuousJob \<and> has_clips d j in
      j\<lparr>job_status := (if kept then Done else JobError),
        job_error := (if kept then job_error j
          else if job_kind j = ContinuousJob then (if btrim (job_error j) = [] then no_clips_text else btrim (job_error j))
          else ''capacity: not captured on schedule (freshness deadline exceeded)''),
        lease_owner := None, lease_token := None, lease_expires_at := None, job_completed_at := Some now\<rparr>)"

definition mark_stale :: "gotime \<Rightarrow> db \<Rightarrow> (int \<times> job_status \<times> string) list \<times> db" where
  "mark_stale now d =
     (map (\<lambda>j. (job_recording j, job_status j, job_error j)) (map (stale_row d now) (filter (stale now) (jobs d))),
      d\<lparr>jobs := update_where (stale now) (stale_row d now) (jobs d)\<rparr>)"

text \<open>The tally of missed jobs per recording, in order of first appearance (Go iterates its map in any order; the
  updates are of distinct rows).\<close>

fun tally_missed :: "(int \<times> job_status \<times> string) list \<Rightarrow> (int \<times> int \<times> string) list \<Rightarrow> (int \<times> int \<times> string) list" where
  "tally_missed [] m = m"
| "tally_missed ((i, status, text) # rows) m =
     (if status \<noteq> JobError then tally_missed rows m
      else (case map_of m i of
          None \<Rightarrow> tally_missed rows (m @ [(i, 1, text)])
        | Some (n, message) \<Rightarrow>
            (let message' = (if message = [] \<or> (message = no_clips_text \<and> text \<noteq> no_clips_text) then text else message)
             in tally_missed rows (AList.update i (n + 1, message') m))))"

definition bump_missed :: "gotime \<Rightarrow> int \<times> int \<times> string \<Rightarrow> db \<Rightarrow> unit \<times> db" where
  "bump_missed now m d = (case m of (i, n, message) \<Rightarrow> ((), d\<lparr>recordings := update_where (\<lambda>r. rec_id r = i)
     (\<lambda>r. r\<lparr>rec_failures := rec_failures r + n, rec_last_error := message, rec_last_error_at := Some now\<rparr>)
     (recordings d)\<rparr>))"

definition markStaleJobsMissed :: "gotime \<Rightarrow> unit tick" where
  "markStaleJobsMissed now =
     orfail (sql (mark_stale now)) (\<lambda>rows.
     try_each (tally_missed rows []) (\<lambda>m. sql (bump_missed now m)))"

section \<open>Enqueueing\<close>

text \<open>\<open>INSERT ... ON CONFLICT (idempotency_key) DO NOTHING\<close>, with the number of rows inserted.\<close>

definition insert_job :: "job \<Rightarrow> db \<Rightarrow> int \<times> db" where
  "insert_job j d =
     (if idempotency_key j \<in> idempotency_key ` set (jobs d) then (0, d)
      else (1, d\<lparr>jobs := jobs d @ [j\<lparr>job_id := serial d\<rparr>], serial := serial d + 1\<rparr>))"

definition new_job :: "int \<Rightarrow> gotime \<Rightarrow> gotime \<Rightarrow> int \<Rightarrow> string \<Rightarrow> job_kind \<Rightarrow> gotime option \<Rightarrow> job" where
  "new_job recording fire scheduled duration key kind window_end =
     \<lparr>job_id = 0, job_recording = recording, fire_at = fire, scheduled_for = scheduled, job_clip_duration = duration,
      job_status = Pending, lease_owner = None, lease_expires_at = None, lease_token = None, attempt_count = 0,
      max_attempts = 3, job_error = [], idempotency_key = key, job_completed_at = None, job_kind = kind,
      window_end_at = window_end, handoff_owner = None, handoff_until = None, fairness_started_at = None\<rparr>"

definition clip_key :: "int \<Rightarrow> gotime \<Rightarrow> string" where
  "clip_key recording fire = ''recjob:'' @ Itoa recording @ '':'' @ Itoa (unix fire)"

definition window_key :: "int \<Rightarrow> gotime \<Rightarrow> string" where
  "window_key recording open_at = ''reccont:'' @ Itoa recording @ '':'' @ Itoa (unix open_at)"

fun fire_loop :: "recording \<Rightarrow> duration \<Rightarrow> int \<Rightarrow> gotime list \<Rightarrow> int \<Rightarrow> gotime \<Rightarrow> (int \<times> gotime) tick" where
  "fire_loop r jitter budget [] enqueued lastFire = ret (Inr (enqueued, lastFire))"
| "fire_loop r jitter budget (f # fs) enqueued lastFire =
     (if enqueued \<ge> budget then ret (Inr (enqueued, lastFire))
      else orfail (sql (insert_job (new_job (rec_id r) f (f + jitter) (rec_clip_duration r) (clip_key (rec_id r) f) Clip None)))
        (\<lambda>n. fire_loop r jitter budget fs (if n = 1 then enqueued + 1 else enqueued) f))"

definition enqueueRecordingFires ::
    "'a timelib_scheme \<Rightarrow> Config \<Rightarrow> recording \<Rightarrow> gotime \<Rightarrow> int \<Rightarrow> (int \<times> gotime) tick" where
  "enqueueRecordingFires lib cfg r clock budget =
     (case ParseCron lib (cron_text r) of Inl e \<Rightarrow> ret (Inl (CronError e)) | Inr sched \<Rightarrow>
      (case LoadLocation (tz_database lib) (rec_cron_timezone r) of Inl e \<Rightarrow> ret (Inl (WindowError e)) | Inr loc \<Rightarrow>
       (let cursor = catchupCursor (rec_last_enqueued r) clock (CatchupWindow cfg);
            instants = dueFireInstants (sched loc) cursor clock (catchupInstantCap (CatchupWindow cfg) (MinIntervalSec cfg))
        in fire_loop r (fireJitter (rec_id r) (MinIntervalSec cfg)) budget instants 0 zero_time)))"

text \<open>\<open>GREATEST(COALESCE(last, epoch), COALESCE(arg, COALESCE(last, epoch)))\<close>.\<close>

definition advance_cursor :: "int \<Rightarrow> gotime option \<Rightarrow> gotime option \<Rightarrow> db \<Rightarrow> unit \<times> db" where
  "advance_cursor i last_arg next_arg d = ((), d\<lparr>recordings := update_where (\<lambda>r. rec_id r = i)
     (\<lambda>r. let last = (case rec_last_enqueued r of None \<Rightarrow> 0 | Some t \<Rightarrow> t) in
       r\<lparr>rec_last_enqueued := Some (max last (case last_arg of None \<Rightarrow> last | Some t \<Rightarrow> t)), rec_next_fire := next_arg\<rparr>)
     (recordings d)\<rparr>)"

definition time_arg :: "gotime \<Rightarrow> gotime option" where
  "time_arg t = (if is_zero t then None else Some t)"

definition continuousErrorReviveBackoff :: duration where "continuousErrorReviveBackoff = 5 * minute"

text \<open>The job's row may go back to pending: canceled, failed long enough ago, or done with the window extended or no
  clip.\<close>

definition revivable :: "db \<Rightarrow> gotime \<Rightarrow> int \<Rightarrow> string \<Rightarrow> gotime \<Rightarrow> job \<Rightarrow> bool" where
  "revivable d now recording key effective_end j \<longleftrightarrow>
     job_recording j = recording \<and> idempotency_key j = key \<and> job_kind j = ContinuousJob \<and>
     (case job_status j of
        JobCanceled \<Rightarrow> True
      | JobError \<Rightarrow> (case job_completed_at j of None \<Rightarrow> True | Some t \<Rightarrow> t < now - continuousErrorReviveBackoff)
      | Done \<Rightarrow> (case window_end_at j of None \<Rightarrow> False | Some e \<Rightarrow> e < effective_end) \<or> \<not> has_clips d j
      | _ \<Rightarrow> False)"

definition revive_row :: "gotime \<Rightarrow> int \<Rightarrow> gotime \<Rightarrow> job \<Rightarrow> job" where
  "revive_row now duration effective_end j = j\<lparr>job_status := Pending, scheduled_for := now, job_clip_duration := duration,
     lease_owner := None, lease_token := None, lease_expires_at := None, fairness_started_at := None,
     attempt_count := 0, job_error := [], job_completed_at := None, window_end_at := Some effective_end\<rparr>"

definition revive_window :: "gotime \<Rightarrow> int \<Rightarrow> int \<Rightarrow> gotime \<Rightarrow> string \<Rightarrow> db \<Rightarrow> int \<times> db" where
  "revive_window now recording duration effective_end key d =
     (let p = revivable d now recording key effective_end in
      (int (length (filter p (jobs d))),
       d\<lparr>jobs := update_where p (revive_row now duration effective_end) (jobs d)\<rparr>))"

definition enqueue_open_window :: "gotime \<Rightarrow> recording \<Rightarrow> gotime \<Rightarrow> gotime \<Rightarrow> int tick" where
  "enqueue_open_window now r opens_utc effective_end =
     (let key = window_key (rec_id r) opens_utc in
      orfail (sql (revive_window now (rec_id r) (rec_clip_duration r) effective_end key)) (\<lambda>n.
      orfail (sql (insert_job (new_job (rec_id r) opens_utc opens_utc (rec_clip_duration r) key ContinuousJob (Some effective_end))))
        (\<lambda>m. ret (Inr (if m = 1 then 1 else if n = 1 then 1 else 0)))))"

definition envelope_end :: "recording \<Rightarrow> gotime" where
  "envelope_end r = (case rec_end_at r of None \<Rightarrow> zero_time | Some e \<Rightarrow> e)"

definition enqueueContinuousRecording :: "'a timelib_scheme \<Rightarrow> gotime \<Rightarrow> recording \<Rightarrow> gotime \<Rightarrow> int tick" where
  "enqueueContinuousRecording lib now r clock =
     (case (rec_daily_start r, rec_daily_end r) of (Some s, Some e) \<Rightarrow>
       (case ParseTimeOfDay s of Inl x \<Rightarrow> ret (Inl (WindowError x)) | Inr start \<Rightarrow>
       (case ParseTimeOfDay e of Inl x \<Rightarrow> ret (Inl (WindowError x)) | Inr stop \<Rightarrow>
       (case currentOpenContinuousWindowOn (tz_database lib) (rec_cron_timezone r) start stop (rec_weekdays r)
               (rec_start_at r) (envelope_end r) clock of
          Inl x \<Rightarrow> ret (Inl (WindowError x))
        | Inr (is_open, opens_utc, closes_utc) \<Rightarrow>
          orfail (if is_open
              then enqueue_open_window now r opens_utc
                (if \<not> is_zero (envelope_end r) \<and> envelope_end r < closes_utc then envelope_end r else closes_utc)
              else ret (Inr 0)) (\<lambda>enqueued.
          (case NextWindowOpenUTCOn (tz_database lib) (rec_cron_timezone r) start (rec_weekdays r)
                  (rec_start_at r) (envelope_end r) clock of
             Inl x \<Rightarrow> ret (Inl (WindowError x))
           | Inr nextOpen \<Rightarrow>
             orfail (sql (advance_cursor (rec_id r) (if is_open then Some opens_utc else None) (time_arg nextOpen)))
               (\<lambda>_. ret (Inr enqueued)))))))
     | _ \<Rightarrow> ret (Inl WindowMissing))"

text \<open>The fires of a sampled recording are enqueued in a savepoint, which is rolled back on an error.\<close>

definition in_savepoint :: "'a tick \<Rightarrow> 'a tick" where
  "in_savepoint body =
     orfail (dbe savepoint) (\<lambda>_.
     State_Monad.bind body (\<lambda>r. case r of
       Inl e \<Rightarrow> orfail (dbe rollback_to) (\<lambda>_. State_Monad.bind release (\<lambda>_. ret (Inl e)))
     | Inr x \<Rightarrow> orfail (dbe release) (\<lambda>_. ret (Inr x))))"

definition enqueueRecording :: "'a timelib_scheme \<Rightarrow> Config \<Rightarrow> gotime \<Rightarrow> recording \<Rightarrow> gotime \<Rightarrow> int \<Rightarrow> int tick" where
  "enqueueRecording lib cfg now r clock budget =
     (if rec_mode r = ''continuous'' then enqueueContinuousRecording lib now r clock
      else if rec_cron_expr r = None then ret (Inl CronMissing)
      else (case ValidateCronForCreate lib clock (cron_text r) (rec_cron_timezone r) (MinIntervalSec cfg) (rec_clip_duration r) of
          None \<Rightarrow> ret (Inl NeverReturns)
        | Some (Inl e) \<Rightarrow> ret (Inl (CronError e))
        | Some (Inr _) \<Rightarrow>
          orfail (in_savepoint (enqueueRecordingFires lib cfg r clock budget)) (\<lambda>(enqueued, lastFire).
          (case NextFireUTC lib (cron_text r) (rec_cron_timezone r) clock of Inl e \<Rightarrow> ret (Inl (CronError e))
           | Inr nextFire \<Rightarrow>
             orfail (sql (advance_cursor (rec_id r) (time_arg lastFire) (time_arg nextFire)))
               (\<lambda>_. ret (Inr enqueued))))))"


section \<open>The tick\<close>

definition lock_recordings :: "db \<Rightarrow> unit \<times> db" where
  "lock_recordings d = ((), d)"

definition reclaimable :: "gotime \<Rightarrow> job \<Rightarrow> bool" where
  "reclaimable now j \<longleftrightarrow> job_status j = Leased \<and> (case lease_expires_at j of None \<Rightarrow> False | Some e \<Rightarrow> e < now)"

definition reclaim_row :: "job \<Rightarrow> job" where
  "reclaim_row j = j\<lparr>job_status := Pending, lease_owner := None, lease_expires_at := None, lease_token := None,
     fairness_started_at := None\<rparr>"

definition reclaim_expired :: "gotime \<Rightarrow> db \<Rightarrow> unit \<times> db" where
  "reclaim_expired now d = ((), d\<lparr>jobs := update_where (reclaimable now) reclaim_row (jobs d)\<rparr>)"

text \<open>The recordings whose capture is open now: active, started, not ended, and paid for when billing is on.\<close>

definition capture_open :: "Config \<Rightarrow> gotime \<Rightarrow> db \<Rightarrow> recording \<Rightarrow> bool" where
  "capture_open cfg now d r \<longleftrightarrow> rec_status r = RecActive \<and> rec_start_at r \<le> now \<and>
     (case rec_end_at r of None \<Rightarrow> True | Some e \<Rightarrow> now < e) \<and> (\<not> BillingEnabled cfg \<or> rec_account r \<in> set (payers d))"

definition active_recordings :: "Config \<Rightarrow> gotime \<Rightarrow> db \<Rightarrow> recording list" where
  "active_recordings cfg now d = sort_key rec_id (filter (capture_open cfg now d) (recordings d))"

fun enqueue_loop :: "'a timelib_scheme \<Rightarrow> Config \<Rightarrow> gotime \<Rightarrow> gotime \<Rightarrow> recording list \<Rightarrow> int \<Rightarrow> unit tick" where
  "enqueue_loop lib cfg now clock [] budget = ret (Inr ())"
| "enqueue_loop lib cfg now clock (r # rs) budget =
     (if budget \<le> 0 then ret (Inr ())
      else State_Monad.bind (enqueueRecording lib cfg now r clock budget) (\<lambda>res. case res of
          Inl e \<Rightarrow> if e = NeverReturns then ret (Inl NeverReturns) else enqueue_loop lib cfg now clock rs budget
        | Inr enqueued \<Rightarrow> enqueue_loop lib cfg now clock rs (budget - enqueued)))"

definition EnqueueDueRecordingJobs :: "'a timelib_scheme \<Rightarrow> Config \<Rightarrow> gotime \<Rightarrow> gotime \<Rightarrow> unit tick" where
  "EnqueueDueRecordingJobs lib cfg now clock =
     orfail (sql lock_recordings) (\<lambda>_.
     orfail (sql (reclaim_expired now)) (\<lambda>_.
     orfail (markStaleJobsMissed now) (\<lambda>_.
     orfail (sql (\<lambda>d. (active_recordings cfg now d, d))) (\<lambda>recs.
     enqueue_loop lib cfg now clock recs (MaxJobsPerTick cfg)))))"

definition tick_body :: "'a timelib_scheme \<Rightarrow> Config \<Rightarrow> gotime \<Rightarrow> gotime \<Rightarrow> unit tick" where
  "tick_body lib cfg now clock =
     orfail (autoStopExpiredRecordings lib now) (\<lambda>_. EnqueueDueRecordingJobs lib cfg now clock)"

text \<open>A tick on the committed database, with the outcomes of its statements (\<open>begin\<close> and \<open>commit\<close> included): its
  error and the committed database after it.\<close>

definition tick :: "'a timelib_scheme \<Rightarrow> Config \<Rightarrow> gotime \<Rightarrow> gotime \<Rightarrow> bool list \<Rightarrow> db \<Rightarrow> (sched_error + unit) \<times> db" where
  "tick lib cfg now clock os d =
     (let s0 = begin_tx d os in
      if \<not> next_ok s0 then (Inl DbError, d)
      else (case run_state (tick_body lib cfg now clock) (begin_tx d (tl os)) of
          (Inl e, s) \<Rightarrow> (Inl e, d)
        | (Inr _, s) \<Rightarrow> (case commit_tx d s of (Inl _, d') \<Rightarrow> (Inl DbError, d') | (Inr _, d') \<Rightarrow> (Inr (), d'))))"

section \<open>What a sweep keeps\<close>

lemma run_sql: "run_state (sql f) s = (case run_state (exec f) s of (Inl _, s') \<Rightarrow> (Inl DbError, s') | (Inr a, s') \<Rightarrow> (Inr a, s'))"
  by (auto simp: sql_def run_bind split: prod.splits sum.splits)

lemma sql_Inr:
  assumes "run_state (sql f) s = (Inr a, s')"
  shows "\<not> aborted s \<and> a = fst (f (work s)) \<and> work s' = snd (f (work s)) \<and> saves s' = saves s \<and> \<not> aborted s'"
  using assms by (auto simp: run_sql exec_def Let_def split_beta split: if_splits)

lemma sql_Inl:
  assumes "run_state (sql f) s = (Inl e, s')"
  shows "e = DbError \<and> aborted s' \<and> work s' = work s \<and> saves s' = saves s"
  using assms by (auto simp: run_sql exec_def Let_def split_beta split: if_splits)

lemma keeps_sql: "(\<And>d. I d \<Longrightarrow> I (snd (f d))) \<Longrightarrow> keeps (session_inv I) (sql f)"
  unfolding sql_def by (intro valid_intro keeps_exec)

lemma keeps_dbe [valid_intro]: "keeps I m \<Longrightarrow> keeps I (dbe m)"
  unfolding dbe_def by (intro valid_intro)

lemma keeps_in_savepoint [valid_intro]: "keeps (session_inv I) body \<Longrightarrow> keeps (session_inv I) (in_savepoint body)"
  unfolding in_savepoint_def by (intro valid_intro)

lemma keeps_read:
  assumes "\<And>x s. session_inv I s \<Longrightarrow> x = q (work s) \<Longrightarrow> keeps (session_inv I) (f x)"
  shows "keeps (session_inv I) (orfail (sql (\<lambda>d. (q d, d))) f)"
proof (rule keepsI)
  fix s assume s: "session_inv I s"
  show "session_inv I (snd (run_state (orfail (sql (\<lambda>d. (q d, d))) f) s))"
  proof (cases "run_state (sql (\<lambda>d. (q d, d))) s")
    case (Pair r s')
    show ?thesis
    proof (cases r)
      case (Inl e)
      with Pair have "run_state (sql (\<lambda>d. (q d, d))) s = (Inl e, s')" by simp
      from sql_Inl [OF this] Inl Pair s show ?thesis by (simp add: run_orfail session_inv_def)
    next
      case (Inr x)
      with Pair have "run_state (sql (\<lambda>d. (q d, d))) s = (Inr x, s')" by simp
      from sql_Inr [OF this] s have inv: "session_inv I s'" and x: "x = q (work s)" by (simp_all add: session_inv_def)
      moreover have "session_inv I (snd (run_state (f x) s'))" by (rule keepsD [OF assms [OF s x] inv])
      ultimately show ?thesis using Inr Pair by (simp add: run_orfail)
    qed
  qed
qed

text \<open>The key of a job: its kind, recording and the second it fires in.\<close>

definition key_of :: "job_kind \<Rightarrow> int \<Rightarrow> gotime \<Rightarrow> string" where
  "key_of kind recording fire = (case kind of Clip \<Rightarrow> clip_key recording fire | ContinuousJob \<Rightarrow> window_key recording fire)"

text \<open>An invariant of the database that every statement of the sweep keeps, given that it enqueues only for the
  recordings \<open>allowed\<close>; the sweep selects allowed recordings only.\<close>

locale sweep_invariant =
  fixes I :: "db \<Rightarrow> bool" and allowed :: "int \<Rightarrow> bool" and cfg :: Config and now :: gotime
  assumes keep_reclaim: "I d \<Longrightarrow> I (snd (reclaim_expired now d))"
    and keep_stale: "I d \<Longrightarrow> I (snd (mark_stale now d))"
    and keep_bump: "I d \<Longrightarrow> I (snd (bump_missed now m d))"
    and keep_insert: "I d \<Longrightarrow> allowed i \<Longrightarrow> I (snd (insert_job (new_job i f at dur (key_of kind i f) kind close) d))"
    and keep_revive: "I d \<Longrightarrow> allowed i \<Longrightarrow> I (snd (revive_window now i dur stop key d))"
    and keep_advance: "I d \<Longrightarrow> I (snd (advance_cursor i prev nxt d))"
    and selected: "I d \<Longrightarrow> r \<in> set (active_recordings cfg now d) \<Longrightarrow> allowed (rec_id r)"
begin

lemma keeps_fire_loop: "allowed (rec_id r) \<Longrightarrow> keeps (session_inv I) (fire_loop r jitter budget fs n prev)"
  using keep_insert [where kind = Clip]
  by (induction fs arbitrary: n prev) (auto simp: key_of_def intro!: valid_intro keeps_sql)

lemma keeps_enqueue_open_window:
  "allowed (rec_id r) \<Longrightarrow> keeps (session_inv I) (enqueue_open_window now r opens close)"
  using keep_insert [where kind = ContinuousJob] keep_revive
  unfolding enqueue_open_window_def Let_def by (auto simp: key_of_def intro!: valid_intro keeps_sql)

lemma keeps_enqueueContinuous:
  "allowed (rec_id r) \<Longrightarrow> keeps (session_inv I) (enqueueContinuousRecording lib now r clock)"
  unfolding enqueueContinuousRecording_def Let_def
  by (intro valid_intro keeps_sql keep_advance keeps_enqueue_open_window)

lemma keeps_enqueueFires:
  "allowed (rec_id r) \<Longrightarrow> keeps (session_inv I) (enqueueRecordingFires lib cfg r clock budget)"
  unfolding enqueueRecordingFires_def Let_def by (intro valid_intro keeps_fire_loop)

lemma keeps_enqueueRecording:
  assumes "allowed (rec_id r)"
  shows "keeps (session_inv I) (enqueueRecording lib cfg now r clock budget)"
proof (cases "ValidateCronForCreate lib clock (cron_text r) (rec_cron_timezone r) (MinIntervalSec cfg) (rec_clip_duration r)")
  case None
  then show ?thesis using assms unfolding enqueueRecording_def
    by (simp only: option.case) (intro valid_intro keeps_enqueueContinuous)
next
  case (Some v)
  show ?thesis using assms unfolding enqueueRecording_def Some
    by (simp only: option.case) (intro valid_intro keeps_enqueueContinuous keeps_enqueueFires keeps_sql keep_advance)
qed

lemma keeps_enqueue_loop:
  "\<forall>r \<in> set rs. allowed (rec_id r) \<Longrightarrow> keeps (session_inv I) (enqueue_loop lib cfg now clock rs budget)"
proof (induction rs arbitrary: budget)
  case (Cons r rs)
  then show ?case by (auto intro!: valid_intro keeps_enqueueRecording)
qed (simp add: keeps_ret)

lemma keeps_sweep: "keeps (session_inv I) (EnqueueDueRecordingJobs lib cfg now clock)"
  unfolding EnqueueDueRecordingJobs_def markStaleJobsMissed_def
  by (intro valid_intro keeps_sql keeps_read keeps_enqueue_loop)
    (auto simp: lock_recordings_def session_inv_def keep_reclaim keep_stale keep_bump intro: selected)

end

section \<open>Job rows stay well formed\<close>

definition job_key :: "job \<Rightarrow> string" where
  "job_key j = key_of (job_kind j) (job_recording j) (fire_at j)"

definition jobs_ok :: "db \<Rightarrow> bool" where
  "jobs_ok d \<longleftrightarrow> distinct (map idempotency_key (jobs d)) \<and> distinct (map job_id (jobs d)) \<and>
     (\<forall>j \<in> set (jobs d). job_id j < serial d \<and> idempotency_key j = job_key j)"

text \<open>A statement that updates jobs in place and leaves their identity alone.\<close>

lemma jobs_ok_update:
  assumes "jobs_ok d" "\<And>j. job_id (f j) = job_id j \<and> idempotency_key (f j) = idempotency_key j \<and> job_key (f j) = job_key j"
    and "jobs d' = update_where p f (jobs d)" "serial d' = serial d"
  shows "jobs_ok d'"
  using assms by (auto simp: jobs_ok_def map_update_where in_update_where)

lemma jobs_ok_same: "jobs_ok d \<Longrightarrow> jobs d' = jobs d \<Longrightarrow> serial d' = serial d \<Longrightarrow> jobs_ok d'"
  by (simp add: jobs_ok_def)

lemma jobs_ok_insert: "jobs_ok d \<Longrightarrow> jobs_ok (snd (insert_job (new_job i f at dur (key_of kind i f) kind close) d))"
  by (force simp: jobs_ok_def insert_job_def new_job_def job_key_def)

interpretation well_formed: sweep_invariant jobs_ok "\<lambda>_. True" cfg now
proof unfold_locales
  fix d assume d: "jobs_ok d"
  show "jobs_ok (snd (reclaim_expired now d))"
    by (rule jobs_ok_update [OF d, where p = "reclaimable now" and f = reclaim_row])
      (simp_all add: reclaim_expired_def reclaim_row_def job_key_def)
  show "jobs_ok (snd (mark_stale now d))"
    by (rule jobs_ok_update [OF d, where p = "stale now" and f = "stale_row d now"])
      (simp_all add: mark_stale_def stale_row_def job_key_def Let_def)
next
  fix d i f at dur kind close assume "jobs_ok d"
  then show "jobs_ok (snd (insert_job (new_job i f at dur (key_of kind i f) kind close) d))" by (rule jobs_ok_insert)
next
  fix d i dur stop key assume d: "jobs_ok d"
  show "jobs_ok (snd (revive_window now i dur stop key d))"
    by (rule jobs_ok_update [OF d, where p = "revivable d now i key stop" and f = "revive_row now dur stop"])
      (simp_all add: revive_window_def revive_row_def Let_def job_key_def)
qed (auto simp: bump_missed_def advance_cursor_def split: prod.splits intro: jobs_ok_same)

lemma keeps_autostop:
  assumes "\<And>d i c e. I d \<Longrightarrow> I (snd (complete_row i c e d))" "\<And>d. I d \<Longrightarrow> I (snd (cancel_completed_jobs d))"
  shows "keeps (session_inv I) (autoStopExpiredRecordings lib now)"
  unfolding autoStopExpiredRecordings_def stop_recording_def
  by (intro valid_intro keeps_sql) (simp_all add: assms)

lemma jobs_ok_autostop: "keeps (session_inv jobs_ok) (autoStopExpiredRecordings lib now)"
proof (rule keeps_autostop)
  fix d assume d: "jobs_ok d"
  show "jobs_ok (snd (complete_row i c e d))" for i c e
    using d by (rule jobs_ok_same) (simp_all add: complete_row_def)
  show "jobs_ok (snd (cancel_completed_jobs d))"
    by (rule jobs_ok_update [OF d, where f = "\<lambda>j. j\<lparr>job_status := JobCanceled\<rparr>"])
      (auto simp: cancel_completed_jobs_def job_key_def)
qed

lemma tick_invariant:
  assumes "keeps (session_inv I) (tick_body lib cfg now clock)" "I d"
  shows "I (snd (tick lib cfg now clock os d))"
proof -
  have "session_inv I (snd (run_state (tick_body lib cfg now clock) (begin_tx d (tl os))))"
    by (rule keepsD [OF assms(1)]) (simp add: session_inv_def begin_tx_def assms(2))
  then show ?thesis using assms(2)
    by (auto simp: tick_def Let_def commit_tx_def session_inv_def split: prod.splits sum.splits if_splits)
qed

lemma jobs_ok_tick: "jobs_ok d \<Longrightarrow> jobs_ok (snd (tick lib cfg now clock os d))"
  by (rule tick_invariant) (auto simp: tick_body_def intro!: valid_intro jobs_ok_autostop well_formed.keeps_sweep)

section \<open>After a tick no expired recording is active\<close>

definition statuses :: "db \<Rightarrow> (int \<times> rec_status \<times> gotime option) list" where
  "statuses d = map (\<lambda>r. (rec_id r, rec_status r, rec_end_at r)) (recordings d)"

definition expired :: "gotime \<Rightarrow> recording \<Rightarrow> bool" where
  "expired now r \<longleftrightarrow> (case rec_end_at r of None \<Rightarrow> False | Some e \<Rightarrow> e \<le> now)"

definition none_expired :: "gotime \<Rightarrow> db \<Rightarrow> bool" where
  "none_expired now d \<longleftrightarrow> (\<forall>r \<in> set (recordings d). rec_status r = RecActive \<longrightarrow> \<not> expired now r)"

definition live :: "job \<Rightarrow> bool" where
  "live j \<longleftrightarrow> job_status j = Pending \<or> job_status j = Leased"

definition completed_idle :: "db \<Rightarrow> bool" where
  "completed_idle d \<longleftrightarrow> (\<forall>j \<in> set (jobs d). live j \<longrightarrow> (job_recording j, RecCompleted) \<notin> (\<lambda>r. (rec_id r, rec_status r)) ` set (recordings d))"

definition settled :: "gotime \<Rightarrow> (int \<times> rec_status \<times> gotime option) list \<Rightarrow> db \<Rightarrow> bool" where
  "settled now M d \<longleftrightarrow> statuses d = M \<and> distinct (map fst M) \<and> completed_idle d"

text \<open>The recordings that are not completed.\<close>

definition not_completed :: "(int \<times> rec_status \<times> gotime option) list \<Rightarrow> int \<Rightarrow> bool" where
  "not_completed M i \<longleftrightarrow> (i, RecCompleted) \<notin> (\<lambda>(i, s, e). (i, s)) ` set M"

lemma completed_idle_iff:
  "completed_idle d \<longleftrightarrow> (\<forall>j \<in> set (jobs d). live j \<longrightarrow> not_completed (statuses d) (job_recording j))"
  by (auto simp: completed_idle_def not_completed_def statuses_def image_iff)

lemma settled_jobs:
  assumes "settled now M d" "statuses d' = statuses d"
    and "\<And>j'. j' \<in> set (jobs d') \<Longrightarrow> live j' \<Longrightarrow> not_completed M (job_recording j') \<or> (\<exists>j \<in> set (jobs d). live j \<and> job_recording j = job_recording j')"
  shows "settled now M d'"
  using assms unfolding settled_def completed_idle_iff by metis

lemma settled_update:
  assumes "settled now M d" "statuses d' = statuses d" "jobs d' = update_where p f (jobs d)"
    and "\<And>j. p j \<Longrightarrow> live (f j) \<Longrightarrow> (live j \<or> not_completed M (job_recording j)) \<and> job_recording (f j) = job_recording j"
  shows "settled now M d'"
proof (rule settled_jobs [OF assms(1,2)])
  fix j' assume j': "j' \<in> set (jobs d')" "live j'"
  from j'(1) assms(3) obtain j where j: "j \<in> set (jobs d)" "j' = (if p j then f j else j)"
    by (auto simp: in_update_where)
  with j'(2) assms(4) [of j]
  show "not_completed M (job_recording j') \<or> (\<exists>j \<in> set (jobs d). live j \<and> job_recording j = job_recording j')"
    by (cases "p j") auto
qed

lemma statuses_update_where:
  "(\<And>r. rec_id (f r) = rec_id r \<and> rec_status (f r) = rec_status r \<and> rec_end_at (f r) = rec_end_at r) \<Longrightarrow>
   recordings d' = update_where p f (recordings d) \<Longrightarrow> statuses d' = statuses d"
  by (simp add: statuses_def map_update_where)

lemma settled_selected:
  assumes "settled now M d" "r \<in> set (active_recordings cfg now d)"
  shows "not_completed M (rec_id r)"
proof -
  from assms(2) have r: "r \<in> set (recordings d)" "rec_status r = RecActive"
    by (auto simp: active_recordings_def capture_open_def)
  then have "(rec_id r, RecActive, rec_end_at r) \<in> set M" "distinct (map fst M)"
    using assms(1) by (auto simp: settled_def statuses_def image_iff intro!: bexI [of _ r])
  then show ?thesis by (auto simp: not_completed_def dest: eq_key_imp_eq_value)
qed

interpretation settled: sweep_invariant "settled now M" "not_completed M" cfg now
proof unfold_locales
  fix d assume d: "settled now M d"
  show "settled now M (snd (reclaim_expired now d))"
    by (rule settled_update [OF d, where p = "reclaimable now" and f = reclaim_row])
      (simp_all add: reclaim_expired_def reclaim_row_def reclaimable_def statuses_def live_def)
  show "settled now M (snd (mark_stale now d))"
    by (rule settled_update [OF d, where p = "stale now" and f = "stale_row d now"])
      (simp_all add: mark_stale_def stale_row_def stale_def statuses_def live_def Let_def)
  show "settled now M (snd (bump_missed now m d))" for m
    by (rule settled_jobs [OF d]) (auto simp: bump_missed_def statuses_def map_update_where split: prod.splits)
  show "settled now M (snd (advance_cursor i prev nxt d))" for i prev nxt
    by (rule settled_jobs [OF d]) (auto simp: advance_cursor_def statuses_def map_update_where Let_def)
  show "not_completed M (rec_id r)" if "r \<in> set (active_recordings cfg now d)" for r
    using settled_selected [OF d that] .
next
  fix d i assume d: "settled now M d" "not_completed M i"
  show "settled now M (snd (insert_job (new_job i f at dur (key_of kind i f) kind close) d))" for f at dur kind close
    by (rule settled_jobs [OF d(1)]) (use d(2) in \<open>auto simp: insert_job_def new_job_def statuses_def split: if_splits\<close>)
  show "settled now M (snd (revive_window now i dur stop key d))" for dur stop key
    by (rule settled_update [OF d(1), where p = "revivable d now i key stop" and f = "revive_row now dur stop"])
      (use d(2) in \<open>auto simp: revive_window_def revive_row_def Let_def statuses_def revivable_def\<close>)
qed

lemma succeeds_sql: "(\<And>s. P s \<Longrightarrow> Q (fst (f (work s))) (snd (f (work s)))) \<Longrightarrow> succeeds P (sql f) (\<lambda>x s. Q x (work s))"
  by (rule succeedsI) (metis sql_Inr)

lemma succeeds_keeps: "keeps I m \<Longrightarrow> succeeds I m (\<lambda>_. I)"
  by (rule succeedsI) (metis keepsD snd_conv)

lemma in_expired_recordings:
  "r \<in> set (recordings d) \<Longrightarrow> rec_status r = RecActive \<Longrightarrow> expired now r \<Longrightarrow>
   \<exists>e n. (r, e, n) \<in> set (expired_recordings now d)"
  by (cases "rec_end_at r") (auto simp: expired_recordings_def expired_def intro!: bexI [of _ r])

lemma statuses_expired:
  "statuses d' = statuses d \<Longrightarrow> none_expired now d' = none_expired now d"
proof -
  have "none_expired now d \<longleftrightarrow> (\<forall>(i, st, e) \<in> set (statuses d). st = RecActive \<longrightarrow> (case e of None \<Rightarrow> True | Some e \<Rightarrow> \<not> e \<le> now))" for d
    by (auto simp: none_expired_def statuses_def expired_def split: option.splits)
  then show "statuses d' = statuses d \<Longrightarrow> none_expired now d' = none_expired now d" by simp
qed

text \<open>Stopping one row: the row is no longer active, and nothing else changes its status or end.\<close>

definition stopped :: "int \<Rightarrow> db \<Rightarrow> bool" where
  "stopped i d \<longleftrightarrow> (\<forall>r \<in> set (recordings d). rec_id r = i \<longrightarrow> rec_status r \<noteq> RecActive)"

definition only_expired :: "gotime \<Rightarrow> int set \<Rightarrow> int list \<Rightarrow> db \<Rightarrow> bool" where
  "only_expired now S ids d \<longleftrightarrow> map rec_id (recordings d) = ids \<and>
     (\<forall>r \<in> set (recordings d). rec_status r = RecActive \<and> expired now r \<longrightarrow> rec_id r \<in> S)"

lemma complete_row_spec:
  assumes "only_expired now S ids d"
  shows "only_expired now S ids (snd (complete_row i c e d)) \<and> stopped i (snd (complete_row i c e d)) \<and>
    (stopped k d \<longrightarrow> stopped k (snd (complete_row i c e d)))"
  using assms unfolding only_expired_def stopped_def complete_row_def
  by (simp add: ball_update_where map_update_where expired_def)

lemma stop_recording_spec:
  "succeeds (\<lambda>s. only_expired now S ids (work s)) (stop_recording lib row) (\<lambda>_ s. only_expired now S ids (work s) \<and> stopped (rec_id (fst row)) (work s))"
  "succeeds (\<lambda>s. only_expired now S ids (work s) \<and> stopped k (work s)) (stop_recording lib row) (\<lambda>_ s. stopped k (work s))"
proof -
  have a: "succeeds (\<lambda>s. only_expired now S ids (work s)) (sql (complete_row i c e)) (\<lambda>_ s. only_expired now S ids (work s) \<and> stopped i (work s))" for i c e
    by (rule succeeds_sql) (use complete_row_spec in blast)
  have b: "succeeds (\<lambda>s. only_expired now S ids (work s) \<and> stopped k (work s)) (sql (complete_row i c e)) (\<lambda>_ s. stopped k (work s))" for i c e
    by (rule succeeds_sql) (use complete_row_spec in blast)
  show "succeeds (\<lambda>s. only_expired now S ids (work s)) (stop_recording lib row) (\<lambda>_ s. only_expired now S ids (work s) \<and> stopped (rec_id (fst row)) (work s))"
    by (auto simp: stop_recording_def succeeds_fail intro!: a split: prod.splits sum.splits)
  show "succeeds (\<lambda>s. only_expired now S ids (work s) \<and> stopped k (work s)) (stop_recording lib row) (\<lambda>_ s. stopped k (work s))"
    by (auto simp: stop_recording_def succeeds_fail intro!: b split: prod.splits sum.splits)
qed

lemma cancel_spec:
  assumes "only_expired now S ids d" "\<forall>i \<in> S. stopped i d" "distinct ids"
  shows "settled now (statuses (snd (cancel_completed_jobs d))) (snd (cancel_completed_jobs d)) \<and> none_expired now (snd (cancel_completed_jobs d))"
proof -
  have "completed_idle (snd (cancel_completed_jobs d))"
    by (simp add: completed_idle_def cancel_completed_jobs_def ball_update_where live_def) force
  moreover have "none_expired now d" using assms(1,2) by (auto simp: none_expired_def only_expired_def stopped_def)
  moreover have "distinct (map fst (statuses d))" using assms(1,3) by (simp add: only_expired_def statuses_def comp_def)
  ultimately show ?thesis using statuses_expired [of "snd (cancel_completed_jobs d)" d now]
    by (simp add: settled_def statuses_def cancel_completed_jobs_def)
qed

lemma autostop_spec:
  assumes "distinct ids"
  shows "succeeds (\<lambda>s. map rec_id (recordings (work s)) = ids) (autoStopExpiredRecordings lib now)
    (\<lambda>_ s. \<exists>M. settled now M (work s) \<and> none_expired now (work s))"
proof -
  have "succeeds (\<lambda>s. map rec_id (recordings (work s)) = ids) (sql (\<lambda>d. (expired_recordings now d, d)))
      (\<lambda>rows s. only_expired now ((\<lambda>row. rec_id (fst row)) ` set rows) ids (work s))"
    by (rule succeeds_sql) (use in_expired_recordings in \<open>force simp: only_expired_def image_iff\<close>)
  moreover have "succeeds (\<lambda>s. only_expired now ((\<lambda>row. rec_id (fst row)) ` set rows) ids (work s)) (try_each rows (stop_recording lib))
      (\<lambda>_ s. only_expired now ((\<lambda>row. rec_id (fst row)) ` set rows) ids (work s) \<and> (\<forall>row \<in> set rows. stopped (rec_id (fst row)) (work s)))" for rows
    by (rule succeeds_try_each_all) (rule stop_recording_spec)+
  moreover have "succeeds (\<lambda>s. only_expired now ((\<lambda>row. rec_id (fst row)) ` set rows) ids (work s) \<and> (\<forall>row \<in> set rows. stopped (rec_id (fst row)) (work s)))
      (sql cancel_completed_jobs) (\<lambda>_ s. \<exists>M. settled now M (work s) \<and> none_expired now (work s))" for rows
    using cancel_spec assms by (intro succeeds_sql) blast
  ultimately show ?thesis unfolding autoStopExpiredRecordings_def by (blast intro: succeeds_orfail)
qed

lemma keeps_saves_sql: "keeps (\<lambda>s. saves s = []) (sql f)"
  by (rule keepsI) (simp add: run_sql exec_def Let_def split_beta)

lemma autostop_saves:
  assumes "saves s = []" "run_state (autoStopExpiredRecordings lib now) s = (r, s')"
  shows "saves s' = []"
proof -
  have "keeps (\<lambda>s. saves s = []) (autoStopExpiredRecordings lib now)"
    unfolding autoStopExpiredRecordings_def stop_recording_def by (intro valid_intro keeps_saves_sql)
  then show ?thesis using keepsD [of "\<lambda>s. saves s = []", OF _ assms(1)] assms(2) by fastforce
qed

lemma sweep_spec:
  "succeeds (\<lambda>s. \<exists>M. settled now M (work s) \<and> none_expired now (work s) \<and> saves s = []) (EnqueueDueRecordingJobs lib cfg now clock)
     (\<lambda>_ s. completed_idle (work s) \<and> none_expired now (work s))"
proof (rule succeedsI, elim exE conjE)
  fix s x s' M
  assume s: "settled now M (work s)" "none_expired now (work s)" "saves s = []"
    and run: "run_state (EnqueueDueRecordingJobs lib cfg now clock) s = (Inr x, s')"
  have "session_inv (settled now M) s" using s by (simp add: session_inv_def)
  then have "session_inv (settled now M) s'" using keepsD [OF settled.keeps_sweep, of now M s lib cfg clock] run by simp
  then have "settled now M (work s')" by (simp add: session_inv_def)
  then show "completed_idle (work s') \<and> none_expired now (work s')"
    using s statuses_expired [of "work s'" "work s" now] by (simp add: settled_def)
qed

section \<open>Catching up\<close>

definition job_keys :: "db \<Rightarrow> string set" where
  "job_keys d = idempotency_key ` set (jobs d)"

lemma insert_job_keys: "job_keys (snd (insert_job j d)) = insert (idempotency_key j) (job_keys d)"
  by (auto simp: insert_job_def job_keys_def)

lemma fire_loop_spec:
  assumes "run_state (fire_loop r jitter budget fs n prev) s = (Inr (n', last'), s')"
  shows "\<exists>k \<le> length fs. last' = (if k = 0 then prev else fs ! (k - 1)) \<and> clip_key (rec_id r) ` set (take k fs) \<subseteq> job_keys (work s') \<and>
    job_keys (work s) \<subseteq> job_keys (work s') \<and> n \<le> n' \<and> n' \<le> max n budget \<and> (k < length fs \<longrightarrow> budget \<le> n')"
  using assms
proof (induction fs arbitrary: n prev s)
  case Nil
  then show ?case by auto
next
  case (Cons f fs)
  show ?case
  proof (cases "n \<ge> budget")
    case True
    then show ?thesis using Cons.prems by (intro exI [of _ 0]) auto
  next
    case False
    let ?j = "new_job (rec_id r) f (f + jitter) (rec_clip_duration r) (clip_key (rec_id r) f) Clip None"
    obtain m s1 where m: "run_state (sql (insert_job ?j)) s = (Inr m, s1)"
      and rest: "run_state (fire_loop r jitter budget fs (if m = 1 then n + 1 else n) f) s1 = (Inr (n', last'), s')"
      using Cons.prems False by (auto simp: run_orfail split: prod.splits sum.splits)
    have keys: "job_keys (work s1) = insert (clip_key (rec_id r) f) (job_keys (work s))"
      using sql_Inr [OF m] insert_job_keys [of ?j] by (simp add: new_job_def)
    from Cons.IH [OF rest] obtain k where k: "k \<le> length fs" "last' = (if k = 0 then f else fs ! (k - 1))"
      "clip_key (rec_id r) ` set (take k fs) \<subseteq> job_keys (work s')" "job_keys (work s1) \<subseteq> job_keys (work s')"
      "(if m = 1 then n + 1 else n) \<le> n'" "n' \<le> max (if m = 1 then n + 1 else n) budget" "k < length fs \<longrightarrow> budget \<le> n'"
      by blast
    have "last' = (f # fs) ! k" using k(2) by (cases k) simp_all
    moreover have "clip_key (rec_id r) ` set (take (Suc k) (f # fs)) \<subseteq> job_keys (work s')"
      using k(3,4) keys by auto
    moreover have "n \<le> n' \<and> n' \<le> max n budget" using k(5,6) False by (cases "m = 1") auto
    ultimately show ?thesis using k(1,4,7) keys by (intro exI [of _ "Suc k"]) auto
  qed
qed

lemma sorted_take_le:
  assumes "sorted_wrt (<) (fs :: int list)" "0 < k" "k \<le> length fs" "f \<in> set fs" "f \<le> fs ! (k - 1)"
  shows "f \<in> set (take k fs)"
proof -
  obtain i where i: "i < length fs" "f = fs ! i" using assms(4) by (auto simp: in_set_conv_nth)
  then have "\<not> k - 1 < i" using assms(1,5) by (auto dest: sorted_wrt_nth_less)
  then have "i < k" using assms(2) by simp
  then show ?thesis using i assms(3) by (auto simp: in_set_conv_nth intro!: exI [of _ i])
qed

text \<open>C6: catching up skips no fire. When the fires of a recording have been enqueued up to the instant the cursor is
  set to, every fire of the schedule after the old cursor and up to that instant has its job; that instant
  is a due fire, and no more new jobs are made than the budget allows.\<close>

theorem catchup_skips_no_fire:
  assumes "run_state (enqueueRecordingFires lib cfg r clock budget) s = (Inr (n, lastFire), s')" "lastFire \<noteq> zero_time"
    and "ParseCron lib (cron_text r) = Inr sched" "LoadLocation (tz_database lib) (rec_cron_timezone r) = Inr loc"
    and "cron_schedule (sched loc)" "CatchupWindow cfg \<le> 365 * 24 * hour"
    and "cursor = catchupCursor (rec_last_enqueued r) clock (CatchupWindow cfg)"
  shows "(\<forall>f. cron_schedule.fire (sched loc) f \<and> cursor < f \<and> f \<le> lastFire \<longrightarrow> clip_key (rec_id r) f \<in> job_keys (work s')) \<and>
    cron_schedule.fire (sched loc) lastFire \<and> cursor < lastFire \<and> lastFire \<le> clock \<and> 0 \<le> n \<and> n \<le> max 0 budget"
proof -
  let ?cap = "nat (catchupInstantCap (CatchupWindow cfg) (MinIntervalSec cfg))"
  define fs where "fs = due_loop ?cap (sched loc) clock (sched loc cursor)"
  have cap: "1 \<le> catchupInstantCap (CatchupWindow cfg) (MinIntervalSec cfg)" by (simp add: catchupInstantCap_def Let_def)
  have "run_state (fire_loop r (fireJitter (rec_id r) (MinIntervalSec cfg)) budget fs 0 zero_time) s = (Inr (n, lastFire), s')"
    using assms(1,3,4,7) cap by (simp add: enqueueRecordingFires_def dueFireInstants_def fs_def Let_def)
  from fire_loop_spec [OF this] assms(2) obtain k where k: "0 < k" "k \<le> length fs" "lastFire = fs ! (k - 1)"
    "clip_key (rec_id r) ` set (take k fs) \<subseteq> job_keys (work s')" "0 \<le> n" "n \<le> max 0 budget"
    by (metis gr0I)
  have "clock \<le> cursor + 365 * 24 * hour" using assms(6,7) by (auto simp: catchupCursor_def Let_def split: option.splits)
  note spec = cron_schedule.due_loop_spec [OF assms(5) this, of ?cap, folded fs_def]
  have lastFire: "lastFire \<in> set fs" using k by auto
  have "f \<in> set fs" if "cron_schedule.fire (sched loc) f \<and> cursor < f \<and> f \<le> lastFire" for f
  proof (rule ccontr)
    assume "f \<notin> set fs"
    moreover have "lastFire \<le> clock" using spec lastFire by blast
    ultimately have "\<forall>g \<in> set fs. g < f" using spec that by fastforce
    then show False using lastFire that by fastforce
  qed
  then have "clip_key (rec_id r) f \<in> job_keys (work s')" if "cron_schedule.fire (sched loc) f \<and> cursor < f \<and> f \<le> lastFire" for f
    using sorted_take_le [of fs k f] spec k that by blast
  then show ?thesis using spec lastFire k(5,6) by blast
qed

definition example_recording :: recording where
  "example_recording = \<lparr>rec_id = 7, rec_account = 1, rec_status = RecActive, rec_mode = ''sampled'',
     rec_cron_expr = Some ''30 * * * *'', rec_cron_timezone = [], rec_clip_duration = 60, rec_daily_start = None,
     rec_daily_end = None, rec_weekdays = AllWeekdays, rec_start_at = 40 * minute, rec_end_at = None,
     rec_last_enqueued = None, rec_next_fire = None, rec_captured = None, rec_expected = None, rec_failures = 0,
     rec_last_error = [], rec_last_error_at = None, rec_capture_via = ''cloud'',
     rec_youtube = False, rec_preferred_group = None\<rparr>"

definition example_db :: db where
  "example_db = \<lparr>recordings = [example_recording], jobs = [], clips = [], payers = [], droplets = [], nodes = [],
     tokens = [], reservations = [], node_failures = [], pool_state = None, alerts = [],
     relay_groups = [], bandwidths = [], canaries = [], serial = 1\<rparr>"

definition example_cfg :: Config where
  "example_cfg = New \<lparr>TickInterval = 0, CatchupWindow = 0, MinIntervalSec = 0, MaxJobsPerTick = 0, BillingEnabled = False\<rparr>"

lemma example_parse: "ParseCron example_lib (cron_text example_recording) = Inr (\<lambda>loc. half_past)"
  by (simp add: parse_half_past cron_text_def example_recording_def)

lemma example_loc: "LoadLocation (tz_database example_lib) (rec_cron_timezone example_recording) = Inr utc"
  by (simp add: LoadLocation_def TrimSpace_def example_recording_def)

lemma example_due:
  "dueFireInstants half_past (catchupCursor (rec_last_enqueued example_recording) (41 * minute) (CatchupWindow example_cfg))
     (41 * minute) (catchupInstantCap (CatchupWindow example_cfg) (MinIntervalSec example_cfg)) = [30 * minute]"
  by code_simp

lemma example_jitter: "fireJitter (rec_id example_recording) (MinIntervalSec example_cfg) = 7 * second"
  by code_simp

lemma example_fires:
  "run_state (enqueueRecordingFires example_lib example_cfg example_recording (41 * minute) 500) (begin_tx example_db []) =
     (Inr (1, 30 * minute), begin_tx (example_db\<lparr>jobs := [(new_job 7 (30 * minute) (30 * minute + 7 * second) 60
        (clip_key 7 (30 * minute)) Clip None)\<lparr>job_id := 1\<rparr>], serial := 2\<rparr>) [])"
  unfolding enqueueRecordingFires_def example_parse example_loc example_due example_jitter sum.case Let_def
  by (simp add: run_orfail run_sql exec_def begin_tx_def next_ok_def insert_job_def new_job_def example_db_def
      example_recording_def Let_def)

theorem catchup_skips_no_fire_witness:
  "clip_key 7 (30 * minute) \<in> job_keys (work (snd (run_state (enqueueRecordingFires example_lib example_cfg example_recording
     (41 * minute) 500) (begin_tx example_db []))))"
proof -
  have "half_past.fire (half_past 0)" using half_past_nonzero by (intro half_past.fire_Next)
  moreover have "half_past 0 = 30 * minute" by code_simp
  ultimately have "half_past.fire (30 * minute)" by simp
  moreover have "catchupCursor (rec_last_enqueued example_recording) (41 * minute) (CatchupWindow example_cfg) < 30 * minute"
    by code_simp
  moreover have "CatchupWindow example_cfg \<le> 365 * 24 * hour" by code_simp
  moreover have "30 * minute \<noteq> zero_time" by code_simp
  ultimately have "clip_key (rec_id example_recording) (30 * minute) \<in> job_keys (work (begin_tx (example_db\<lparr>jobs := [(new_job 7 (30 * minute)
     (30 * minute + 7 * second) 60 (clip_key 7 (30 * minute)) Clip None)\<lparr>job_id := 1\<rparr>], serial := 2\<rparr>) []))"
    using catchup_skips_no_fire [OF example_fires _ example_parse example_loc half_past.cron_schedule_axioms] by blast
  then show ?thesis unfolding example_fires by (simp add: example_recording_def)
qed

text \<open>An example of a fire from before its recording starts that is enqueued. A recording that starts at 00:40 and fires at half
  past gets, in the tick at 00:41, a job for its fire at 00:30: the catch-up window is not cut at the start.\<close>

theorem fire_before_start_enqueued:
  "\<exists>j \<in> set (jobs (work (snd (run_state (enqueueRecordingFires example_lib example_cfg example_recording (41 * minute) 500)
      (begin_tx example_db []))))). fire_at j < rec_start_at example_recording \<and> job_recording j = rec_id example_recording \<and>
      job_status j = Pending"
  unfolding example_fires by (simp add: begin_tx_def new_job_def example_recording_def)

section \<open>Properties of a tick\<close>

text \<open>C4: whatever statements fail, a tick never makes a second job for a fire: keys and ids stay unique, every
  job's key is the one of its kind, recording and second, so two jobs of a recording with the same kind and
  fire are the same.\<close>

theorem one_job_per_fire:
  assumes "jobs_ok d" "d' = snd (tick lib cfg now clock os d)"
  shows "jobs_ok d' \<and> (\<forall>j \<in> set (jobs d'). \<forall>j' \<in> set (jobs d').
    job_kind j = job_kind j' \<and> job_recording j = job_recording j' \<and> unix (fire_at j) = unix (fire_at j') \<longrightarrow> j = j')"
proof -
  have ok: "jobs_ok d'" unfolding assms(2) by (rule jobs_ok_tick [OF assms(1)])
  have "j = j'" if "j \<in> set (jobs d')" "j' \<in> set (jobs d')" "job_kind j = job_kind j'" "job_recording j = job_recording j'"
    "unix (fire_at j) = unix (fire_at j')" for j j'
  proof -
    have "idempotency_key j = idempotency_key j'" using ok that
      by (simp add: jobs_ok_def job_key_def key_of_def clip_key_def window_key_def split: job_kind.splits)
    moreover have "inj_on idempotency_key (set (jobs d'))" using ok by (simp add: jobs_ok_def distinct_map)
    ultimately show ?thesis using that(1,2) by (blast dest: inj_onD)
  qed
  with ok show ?thesis by blast
qed

theorem one_job_per_fire_witness:
  "jobs_ok (snd (tick example_lib example_cfg (41 * minute) (41 * minute) [True, True, False] example_db))"
proof -
  have "jobs_ok example_db" by (simp add: jobs_ok_def example_db_def)
  from one_job_per_fire [OF this refl] show ?thesis by blast
qed

text \<open>C5: after a tick that commits, no active recording is past its end, and no completed recording has a
  job that is pending or leased.\<close>

theorem tick_stops_expired:
  assumes "distinct (map rec_id (recordings d))" "tick lib cfg now clock os d = (Inr (), d')"
  shows "(\<forall>r \<in> set (recordings d'). rec_status r = RecActive \<longrightarrow> \<not> expired now r) \<and>
    (\<forall>j \<in> set (jobs d'). \<forall>r \<in> set (recordings d'). rec_id r = job_recording j \<and> rec_status r = RecCompleted \<longrightarrow> \<not> live j)"
proof -
  let ?s = "begin_tx d (tl os)"
  obtain s' where run: "run_state (tick_body lib cfg now clock) ?s = (Inr (), s')" and d': "d' = work s'"
    using assms(2) by (auto simp: tick_def Let_def commit_tx_def split: if_splits prod.splits sum.splits)
  obtain s1 where stop: "run_state (autoStopExpiredRecordings lib now) ?s = (Inr (), s1)"
    and sweep: "run_state (EnqueueDueRecordingJobs lib cfg now clock) s1 = (Inr (), s')"
    using run by (auto simp: tick_body_def run_orfail split: prod.splits sum.splits)
  have "\<exists>M. settled now M (work s1) \<and> none_expired now (work s1)"
    using succeedsD [OF autostop_spec [OF assms(1)] _ stop] by (simp add: begin_tx_def)
  moreover have "saves s1 = []"
    using autostop_saves [OF _ stop] by (simp add: begin_tx_def)
  ultimately have "completed_idle d' \<and> none_expired now d'"
    using succeedsD [OF sweep_spec _ sweep] unfolding d' by blast
  then show ?thesis unfolding completed_idle_def none_expired_def by (metis (mono_tags, lifting) imageI)
qed

definition ended_db :: db where
  "ended_db = example_db\<lparr>recordings := [example_recording\<lparr>rec_end_at := Some (30 * minute)\<rparr>],
     jobs := [new_job 7 0 0 60 (clip_key 7 0) Clip None]\<rparr>"

lemma ended_tick: "fst (tick example_lib example_cfg (41 * minute) (41 * minute) [] ended_db) = Inr ()"
proof -
  have "expired_recordings (41 * minute) ended_db =
      [(example_recording\<lparr>rec_end_at := Some (30 * minute)\<rparr>, 30 * minute, 0)]"
    by (simp add: expired_recordings_def ended_db_def example_db_def example_recording_def captured_count_def)
  then show ?thesis
    by (simp add: tick_def tick_body_def begin_tx_def next_ok_def commit_tx_def run_orfail run_sql exec_def Let_def
        autoStopExpiredRecordings_def stop_recording_def window_args_def example_recording_def ended_db_def example_db_def
        ExpectedClipCount_def walkExpectedClipStarts_def complete_row_def update_where_def cancel_completed_jobs_def
        EnqueueDueRecordingJobs_def lock_recordings_def reclaim_expired_def markStaleJobsMissed_def mark_stale_def
        active_recordings_def capture_open_def new_job_def stale_def reclaimable_def Collect_conv_if Collect_conv_if2)
qed

theorem tick_stops_expired_witness:
  "\<not> (\<exists>j \<in> set (jobs (snd (tick example_lib example_cfg (41 * minute) (41 * minute) [] ended_db))). live j \<and>
     (\<exists>r \<in> set (recordings (snd (tick example_lib example_cfg (41 * minute) (41 * minute) [] ended_db))).
        rec_id r = job_recording j \<and> rec_status r = RecCompleted))"
proof -
  have "tick example_lib example_cfg (41 * minute) (41 * minute) [] ended_db =
      (Inr (), snd (tick example_lib example_cfg (41 * minute) (41 * minute) [] ended_db))"
    using ended_tick by (metis prod.collapse)
  moreover have "distinct (map rec_id (recordings ended_db))" by (simp add: ended_db_def)
  ultimately show ?thesis using tick_stops_expired by blast
qed

lemma keeps_saves_fires: "keeps (\<lambda>s. saves s = S) (enqueueRecordingFires lib cfg r clock budget)"
proof -
  have stmt: "keeps (\<lambda>s. saves s = S) (sql f)" for f :: "db \<Rightarrow> int \<times> db"
    by (rule keepsI) (simp add: run_sql exec_def Let_def split_beta)
  have "keeps (\<lambda>s. saves s = S) (fire_loop r jitter budget fs n prev)" for jitter fs n prev
    by (induction fs arbitrary: n prev) (auto intro!: valid_intro stmt)
  then show ?thesis unfolding enqueueRecordingFires_def Let_def by (intro valid_intro)
qed

text \<open>A failure while a sampled recording's fires are enqueued is contained. Whatever its statements did is rolled
  back to the savepoint: unless the rollback fails too, the transaction goes on with the database as it
  was before the recording.\<close>

theorem sampled_fault_contained:
  assumes "run_state (in_savepoint (enqueueRecordingFires lib cfg r clock budget)) s = (Inl e, s')" "\<not> aborted s'"
  shows "work s' = work s"
proof -
  let ?body = "enqueueRecordingFires lib cfg r clock budget"
  obtain s1 where s1: "run_state (dbe savepoint) s = (Inr (), s1)"
    using assms by (auto simp: in_savepoint_def run_orfail dbe_def run_bind savepoint_def Let_def split: if_splits)
  then have w: "work s1 = work s" "saves s1 = work s # saves s"
    by (auto simp: dbe_def run_bind savepoint_def Let_def split: if_splits)
  obtain res s2 where s2: "run_state ?body s1 = (res, s2)" by (cases "run_state ?body s1")
  then have sv: "saves s2 = work s # saves s"
    using keepsD [OF keeps_saves_fires, of s1 "work s # saves s" lib cfg r clock budget] w by simp
  show ?thesis
  proof (cases res)
    case (Inl x)
    then show ?thesis using assms s1 s2 sv
      by (auto simp: in_savepoint_def run_orfail dbe_def run_bind rollback_to_def release_def Let_def split: if_splits prod.splits)
  next
    case (Inr x)
    then show ?thesis using assms s1 s2 sv
      by (auto simp: in_savepoint_def run_orfail dbe_def run_bind release_def Let_def split: if_splits)
  qed
qed

theorem sampled_fault_contained_witness:
  "work (snd (run_state (in_savepoint (enqueueRecordingFires example_lib example_cfg example_recording (41 * minute) 500))
     (begin_tx example_db [True, False]))) = example_db"
proof -
  let ?s = "begin_tx example_db [True, False]"
  obtain res s' where run: "run_state (in_savepoint (enqueueRecordingFires example_lib example_cfg example_recording (41 * minute) 500)) ?s = (res, s')"
    by (cases "run_state (in_savepoint (enqueueRecordingFires example_lib example_cfg example_recording (41 * minute) 500)) ?s")
  have "\<exists>e. res = Inl e" "\<not> aborted s'"
    using run unfolding enqueueRecordingFires_def example_parse example_loc example_due example_jitter sum.case Let_def
    by (auto simp: in_savepoint_def dbe_def run_bind run_orfail run_sql exec_def savepoint_def rollback_to_def release_def begin_tx_def
        next_ok_def Let_def)
  then obtain e where "res = Inl e" "\<not> aborted s'" by blast
  then have "work s' = work ?s" using run by (intro sampled_fault_contained) simp_all
  then show ?thesis using run by (simp add: begin_tx_def)
qed

text \<open>A failed transaction stays failed through the rest of the sweep: there is no savepoint to return to.\<close>

lemma keeps_aborted_sql: "keeps aborted (sql f)"
  by (rule keepsI) (simp add: run_sql exec_def Let_def)

lemma keeps_aborted_savepoint: "keeps aborted (in_savepoint body)"
  by (rule keepsI) (simp add: in_savepoint_def run_orfail dbe_def run_bind savepoint_def Let_def)

lemma keeps_aborted_continuous: "keeps aborted (enqueueContinuousRecording lib now r clock)"
  unfolding enqueueContinuousRecording_def enqueue_open_window_def Let_def by (intro valid_intro keeps_aborted_sql)

lemma keeps_aborted_recording: "keeps aborted (enqueueRecording lib cfg now r clock budget)"
proof (cases "ValidateCronForCreate lib clock (cron_text r) (rec_cron_timezone r) (MinIntervalSec cfg) (rec_clip_duration r)")
  case None
  then show ?thesis unfolding enqueueRecording_def
    by (simp only: option.case) (intro valid_intro keeps_aborted_continuous)
next
  case (Some v)
  show ?thesis unfolding enqueueRecording_def Some
    by (simp only: option.case) (intro valid_intro keeps_aborted_continuous keeps_aborted_savepoint keeps_aborted_sql)
qed

lemma keeps_aborted_loop: "keeps aborted (enqueue_loop lib cfg now clock rs budget)"
  by (induction rs arbitrary: budget) (auto intro!: valid_intro keeps_aborted_recording)

text \<open>\<open>DbError\<close> only comes from a statement, and leaves the transaction failed.\<close>

definition fails_aborted :: "'a tick \<Rightarrow> bool" where
  "fails_aborted m \<longleftrightarrow> (\<forall>s s'. run_state m s = (Inl DbError, s') \<longrightarrow> aborted s')"

lemma fails_aborted_sql: "fails_aborted (sql f)"
  using sql_Inl by (fastforce simp: fails_aborted_def)

lemma fails_aborted_ret: "r \<noteq> Inl DbError \<Longrightarrow> fails_aborted (ret r)"
  by (simp add: fails_aborted_def)

lemma fails_aborted_orfail: "fails_aborted m \<Longrightarrow> (\<And>x. fails_aborted (f x)) \<Longrightarrow> fails_aborted (orfail m f)"
  by (auto simp: fails_aborted_def run_orfail split: prod.splits sum.splits)

lemma fails_aborted_continuous: "fails_aborted (enqueueContinuousRecording lib now r clock)"
  unfolding enqueueContinuousRecording_def enqueue_open_window_def Let_def
  by (auto intro!: fails_aborted_ret fails_aborted_orfail fails_aborted_sql split: option.splits sum.splits)

text \<open>C24: a failed statement of a continuous recording is not contained: it has no savepoint, so whatever the other
  recordings of the tick do afterwards, the commit fails and the tick leaves no trace.\<close>

theorem continuous_fault_discards_tick:
  assumes "run_state (enqueueContinuousRecording lib now r clock) s = (Inl DbError, s')"
  shows "commit_tx d (snd (run_state (enqueue_loop lib cfg now clock rs budget) s')) = (Inl StatementFailed, d)"
proof -
  have "aborted s'" using fails_aborted_continuous [unfolded fails_aborted_def] assms by blast
  then have "aborted (snd (run_state (enqueue_loop lib cfg now clock rs budget) s'))"
    by (rule keepsD [OF keeps_aborted_loop])
  then show ?thesis by (simp add: commit_tx_def)
qed

text \<open>A stream recorded around the clock in UTC.\<close>

definition all_day :: recording where
  "all_day = example_recording\<lparr>rec_id := 8, rec_mode := ''continuous'', rec_start_at := 0,
     rec_daily_start := Some ''06:00:00'', rec_daily_end := Some ''18:00:00''\<rparr>"

theorem continuous_fault_discards_tick_witness:
  "commit_tx example_db (snd (run_state (enqueue_loop example_lib example_cfg (7 * hour) (7 * hour) [example_recording] 500)
     (snd (run_state (enqueueContinuousRecording example_lib (7 * hour) all_day (7 * hour)) (begin_tx example_db [False]))))) =
   (Inl StatementFailed, example_db)"
proof -
  have "fst (run_state (enqueueContinuousRecording example_lib (7 * hour) all_day (7 * hour)) (begin_tx example_db [False])) = Inl DbError"
    by code_simp
  then show ?thesis by (metis continuous_fault_discards_tick prod.collapse)
qed

section \<open>One job per window\<close>

lemma revive_none:
  "(\<forall>j \<in> set (jobs d). idempotency_key j = key \<longrightarrow> live j) \<Longrightarrow> revive_window now i dur stop key d = (0, d)"
proof -
  assume live: "\<forall>j \<in> set (jobs d). idempotency_key j = key \<longrightarrow> live j"
  have none: "\<not> revivable d now i key stop j" if "j \<in> set (jobs d)" for j
    using live that by (auto simp: revivable_def live_def split: job_status.splits)
  then have "filter (revivable d now i key stop) (jobs d) = []" by (simp add: filter_empty_conv)
  with none show ?thesis by (simp add: revive_window_def update_where_none)
qed

lemma enqueue_open_windowE:
  assumes "run_state (enqueue_open_window now r opens close) s = (Inr n, s')"
  obtains a s1 b where
    "run_state (sql (revive_window now (rec_id r) (rec_clip_duration r) close (window_key (rec_id r) opens))) s = (Inr a, s1)"
    "run_state (sql (insert_job (new_job (rec_id r) opens opens (rec_clip_duration r) (window_key (rec_id r) opens) ContinuousJob (Some close)))) s1 = (Inr b, s')"
    "n = (if b = 1 then 1 else if a = 1 then 1 else 0)"
  using assms by (force simp: enqueue_open_window_def Let_def run_orfail split: prod.splits sum.splits)

text \<open>The window's job is made once. After a tick has enqueued the open window, its job exists; as long as it is
  pending or leased, enqueueing the window again in a later tick does nothing.\<close>

theorem window_enqueued_once:
  assumes "run_state (enqueue_open_window now r opens close) s = (Inr n, s')"
    and "\<forall>j \<in> set (jobs (work t)). idempotency_key j = window_key (rec_id r) opens \<longrightarrow> live j"
    and "window_key (rec_id r) opens \<in> job_keys (work t)" "run_state (enqueue_open_window now' r opens close) t = (Inr m, t')"
  shows "window_key (rec_id r) opens \<in> job_keys (work s') \<and> n \<in> {0, 1} \<and> m = 0 \<and> work t' = work t"
proof -
  let ?key = "window_key (rec_id r) opens"
  let ?j = "new_job (rec_id r) opens opens (rec_clip_duration r) ?key ContinuousJob (Some close)"
  obtain l s1 k where "run_state (sql (revive_window now (rec_id r) (rec_clip_duration r) close ?key)) s = (Inr l, s1)"
    and s1: "run_state (sql (insert_job ?j)) s1 = (Inr k, s')" and n: "n = (if k = 1 then 1 else if l = 1 then 1 else 0)"
    by (rule enqueue_open_windowE [OF assms(1)]) (rule that)
  have made: "?key \<in> job_keys (work s')" using sql_Inr [OF s1] insert_job_keys [of ?j] by (simp add: new_job_def)
  obtain a t1 b where t1: "run_state (sql (revive_window now' (rec_id r) (rec_clip_duration r) close ?key)) t = (Inr a, t1)"
    and t2: "run_state (sql (insert_job ?j)) t1 = (Inr b, t')" and m: "m = (if b = 1 then 1 else if a = 1 then 1 else 0)"
    by (rule enqueue_open_windowE [OF assms(4)]) (rule that)
  have a: "a = 0" "work t1 = work t" using sql_Inr [OF t1] revive_none [OF assms(2)] by simp_all
  moreover have "insert_job ?j (work t) = (0, work t)" using assms(3) by (simp add: insert_job_def job_keys_def new_job_def)
  ultimately have "b = 0" "work t' = work t" using sql_Inr [OF t2] by simp_all
  with a made n m show ?thesis by simp
qed

theorem window_enqueued_once_witness:
  "work (snd (run_state (enqueue_open_window 5 all_day 0 (18 * hour)) (snd (run_state (enqueue_open_window 4 all_day 0 (18 * hour))
     (begin_tx example_db []))))) = work (snd (run_state (enqueue_open_window 4 all_day 0 (18 * hour)) (begin_tx example_db [])))"
proof -
  let ?t = "snd (run_state (enqueue_open_window 4 all_day 0 (18 * hour)) (begin_tx example_db []))"
  have live: "\<forall>j \<in> set (jobs (work ?t)). live j" and key: "window_key (rec_id all_day) 0 \<in> job_keys (work ?t)"
    and ok: "\<exists>n. run_state (enqueue_open_window 4 all_day 0 (18 * hour)) (begin_tx example_db []) = (Inr n, ?t)"
    and again: "\<exists>m t'. run_state (enqueue_open_window 5 all_day 0 (18 * hour)) ?t = (Inr m, t')"
    by (simp_all add: enqueue_open_window_def run_orfail run_sql exec_def begin_tx_def next_ok_def Let_def revive_window_def
        insert_job_def new_job_def example_db_def job_keys_def live_def update_where_def)
  from ok again obtain n m t' where "run_state (enqueue_open_window 4 all_day 0 (18 * hour)) (begin_tx example_db []) = (Inr n, ?t)"
    "run_state (enqueue_open_window 5 all_day 0 (18 * hour)) ?t = (Inr m, t')" by blast
  from window_enqueued_once [OF this(1) _ key this(2)] live this(2) show ?thesis by simp
qed

end
