(* ===== verification/Leases.thy ===== *)
theory Leases
  imports Scheduler "HOL-Library.Char_ord"
begin

text \<open>
  The clip-job API that recorders call: the cloud part of \<open>api/server_recording_clips.go\<close>. A worker leases a due
  job, keeps the lease alive by heartbeats, and ends it by completing, failing or surrendering the job.
  Each handler is a function of the transaction's \<open>now()\<close>, the request and the database, and returns the
  response and the database after it. A request is authenticated before it gets here; \<open>None\<close> for the
  principal is a request without one. HTTP decoding is not modelled: a request arrives with its parsed
  fields, \<open>None\<close> for a lease token that does not parse. A database error answers 500 and changes nothing;
  only the responses after successful statements are modelled here. The row locks make each single
  statement, and the two statements of the lease transaction, atomic.
\<close>

section \<open>Constants and principals\<close>

definition recordingCaptureTimeoutMarginSec :: int where "recordingCaptureTimeoutMarginSec = 90"
definition recordingUploadMarginSec :: int where "recordingUploadMarginSec = 60"
definition recordingContinuousPostWindowLeaseSec :: int where "recordingContinuousPostWindowLeaseSec = 45 * 60 + 60"
definition recordingFreshnessGraceSec :: int where "recordingFreshnessGraceSec = 30"

definition lease_margin :: int where
  "lease_margin = recordingCaptureTimeoutMarginSec + recordingUploadMarginSec"

definition nodeTypeRelay :: string where "nodeTypeRelay = ''relay''"
definition nodeTypeLocalRecorder :: string where "nodeTypeLocalRecorder = ''local_recorder''"

record nodePrincipal =
  NodeID :: int
  AccountID :: int
  NodeType :: string
  DisplayName :: string

definition recorderWorkerID :: "nodePrincipal \<Rightarrow> string" where
  "recorderWorkerID p = (if NodeType p = nodeTypeRelay then ''node:'' @ Itoa (NodeID p) else TrimSpace (DisplayName p))"

datatype 'a response = Unauthorized | BadRequest | Forbidden | Conflict | OkResponse 'a

section \<open>Leasing\<close>

text \<open>\<open>cloudRecorderLockSQL\<close>: the worker's droplet row, which the lease transaction locks.\<close>

definition cloud_recorder :: "string \<Rightarrow> int \<Rightarrow> db \<Rightarrow> droplet_row option" where
  "cloud_recorder worker node d = List.find (\<lambda>r. dr_name r = worker \<and> dr_node r = Some node \<and> dr_state r \<in> {Provisioning, Active}) (droplets d)"

text \<open>The schedule-integrity gate: the job can still be captured on time.\<close>

definition capturable :: "gotime \<Rightarrow> job \<Rightarrow> bool" where
  "capturable now j \<longleftrightarrow> (job_kind j = ContinuousJob \<and> later_than (window_end_at j) now) \<or>
     (job_kind j \<noteq> ContinuousJob \<and> now < fire_at j + secs (job_clip_duration j + recordingFreshnessGraceSec))"

definition live_count :: "gotime \<Rightarrow> string \<Rightarrow> db \<Rightarrow> nat" where
  "live_count now worker d = length (filter (live_lease now worker) (jobs d))"

definition reserved_for_canary :: "db \<Rightarrow> int \<Rightarrow> bool" where
  "reserved_for_canary d recording \<longleftrightarrow> (\<exists>dc \<in> set (reservations d). dc_recording dc = recording \<and> dc_state dc = ReservationActive)"

definition canary_reservation :: "gotime \<Rightarrow> db \<Rightarrow> int \<Rightarrow> string \<Rightarrow> bool" where
  "canary_reservation now d recording worker \<longleftrightarrow> (\<exists>dc \<in> set (reservations d). dc_recording dc = recording \<and>
     dc_worker dc = worker \<and> dc_state dc = ReservationActive \<and> now < dc_expires dc)"

definition role_admits :: "gotime \<Rightarrow> db \<Rightarrow> string \<Rightarrow> pool_role \<Rightarrow> int \<Rightarrow> bool" where
  "role_admits now d worker role recording \<longleftrightarrow>
     (case role of Shared \<Rightarrow> \<not> reserved_for_canary d recording
      | DedicatedCanary \<Rightarrow> canary_reservation now d recording worker)"

definition handoff_allows :: "gotime \<Rightarrow> string \<Rightarrow> job \<Rightarrow> bool" where
  "handoff_allows now worker j \<longleftrightarrow> (case handoff_owner j of None \<Rightarrow> True
     | Some owner \<Rightarrow> owner \<noteq> worker \<or> (case handoff_until j of None \<Rightarrow> False | Some u \<Rightarrow> u \<le> now))"

text \<open>The recording is active, started, not ended and, when billing is on, paid for.\<close>

definition recording_open :: "gotime \<Rightarrow> bool \<Rightarrow> db \<Rightarrow> recording \<Rightarrow> bool" where
  "recording_open now billingDisabled d r \<longleftrightarrow> rec_status r = RecActive \<and> rec_start_at r \<le> now \<and>
     (case rec_end_at r of None \<Rightarrow> True | Some e \<Rightarrow> now < e) \<and> (billingDisabled \<or> rec_account r \<in> set (payers d))"

definition cloud_leasable :: "gotime \<Rightarrow> bool \<Rightarrow> string \<Rightarrow> int \<Rightarrow> pool_role \<Rightarrow> db \<Rightarrow> job \<Rightarrow> bool" where
  "cloud_leasable now billingDisabled worker capacity role d j \<longleftrightarrow>
     int (live_count now worker d) < capacity \<and>
     job_status j = Pending \<and> scheduled_for j \<le> now \<and> capturable now j \<and>
     (\<exists>r \<in> set (recordings d). rec_id r = job_recording j \<and> recording_open now billingDisabled d r \<and> rec_capture_via r = ''cloud'') \<and>
     role_admits now d worker role (job_recording j) \<and> handoff_allows now worker j"

text \<open>\<open>ORDER BY scheduled_for, id LIMIT 1 FOR UPDATE SKIP LOCKED\<close>; \<open>locked\<close> are the jobs other transactions hold.\<close>

definition first_due :: "int set \<Rightarrow> (job \<Rightarrow> bool) \<Rightarrow> job list \<Rightarrow> job option" where
  "first_due locked p js = (case sort_key (\<lambda>j. scheduled_for j) (sort_key job_id (filter (\<lambda>j. p j \<and> job_id j \<notin> locked) js)) of
     [] \<Rightarrow> None | j # _ \<Rightarrow> Some j)"

definition lease_row :: "gotime \<Rightarrow> string \<Rightarrow> nat option \<Rightarrow> job \<Rightarrow> job" where
  "lease_row now worker token j = j\<lparr>job_status := Leased, lease_owner := Some worker,
     lease_expires_at := Some (now + secs (job_clip_duration j + lease_margin)), handoff_owner := None, handoff_until := None,
     attempt_count := attempt_count j + 1, lease_token := token\<rparr>"

definition set_job :: "int \<Rightarrow> (job \<Rightarrow> job) \<Rightarrow> db \<Rightarrow> db" where
  "set_job i f d = d\<lparr>jobs := update_where (\<lambda>j. job_id j = i) f (jobs d)\<rparr>"

text \<open>\<open>uuid\<close> is what \<open>gen_random_uuid()\<close> returns.\<close>

definition cloud_lease :: "gotime \<Rightarrow> bool \<Rightarrow> int set \<Rightarrow> nat \<Rightarrow> bool \<Rightarrow> nodePrincipal \<Rightarrow> db \<Rightarrow> job option \<times> db" where
  "cloud_lease now billingDisabled locked uuid tokenSupported p d =
     (let worker = recorderWorkerID p in
      case cloud_recorder worker (NodeID p) d of None \<Rightarrow> (None, d)
      | Some r \<Rightarrow>
        (case first_due locked (cloud_leasable now billingDisabled worker (dr_capacity r) (dr_role r) d) (jobs d) of
           None \<Rightarrow> (None, d)
         | Some j \<Rightarrow>
           (let leased = lease_row now worker (if tokenSupported then Some uuid else None) j
            in (Some leased, set_job (job_id j) (\<lambda>_. leased) d))))"

text \<open>The cloud branch of the handler.\<close>

definition handleCloudJobsLease ::
    "gotime \<Rightarrow> bool \<Rightarrow> int set \<Rightarrow> nat \<Rightarrow> bool \<Rightarrow> nodePrincipal option \<Rightarrow> db \<Rightarrow> job option response \<times> db" where
  "handleCloudJobsLease now billingDisabled locked uuid tokenSupported po d =
     (case po of None \<Rightarrow> (Unauthorized, d) | Some p \<Rightarrow>
      if recorderWorkerID p = [] then (BadRequest, d)
      else (case cloud_lease now billingDisabled locked uuid tokenSupported p d of (r, d') \<Rightarrow> (OkResponse r, d')))"

section \<open>Liveness\<close>

definition touchDropletLiveness :: "gotime \<Rightarrow> string \<Rightarrow> int \<Rightarrow> string \<Rightarrow> db \<Rightarrow> db" where
  "touchDropletLiveness now worker node build d = d\<lparr>droplets := update_where (\<lambda>r. dr_name r = worker \<and> dr_node r = Some node)
     (\<lambda>r. r\<lparr>dr_last_seen := Some now, dr_build := (if build \<noteq> [] then build else dr_build r),
        dr_first_seen := (case dr_first_seen r of None \<Rightarrow> Some now | Some t \<Rightarrow> Some t),
        dr_activated := (case dr_activated r of None \<Rightarrow> if dr_state r = Active then Some now else None | Some t \<Rightarrow> Some t)\<rparr>)
     (droplets d)\<rparr>"

definition hex_char :: "char \<Rightarrow> bool" where
  "hex_char c \<longleftrightarrow> (CHR ''0'' \<le> c \<and> c \<le> CHR ''9'') \<or> (CHR ''a'' \<le> c \<and> c \<le> CHR ''f'')"

text \<open>\<open>strings.ToLower\<close> on ASCII letters (other runes fail the check below either way).\<close>

definition to_lower :: "string \<Rightarrow> string" where
  "to_lower s = map (\<lambda>c. if CHR ''A'' \<le> c \<and> c \<le> CHR ''Z'' then char_of (of_char c + (32::nat)) else c) s"

definition handleRecordingDropletHeartbeat :: "gotime \<Rightarrow> nodePrincipal option \<Rightarrow> string \<Rightarrow> db \<Rightarrow> unit response \<times> db" where
  "handleRecordingDropletHeartbeat now po build_sha d =
     (case po of None \<Rightarrow> (Unauthorized, d) | Some p \<Rightarrow>
      let worker = recorderWorkerID p; build = to_lower (TrimSpace build_sha) in
      if worker = [] then (BadRequest, d)
      else if build \<noteq> [] \<and> \<not> (40 \<le> length build \<and> length build \<le> 64 \<and> list_all hex_char build) then (BadRequest, d)
      else (OkResponse (), touchDropletLiveness now worker (NodeID p) build d))"

section \<open>Heartbeats\<close>

text \<open>\<open>dedicatedCanaryLeaseFenceSQL\<close>: a job leased by a dedicated canary needs its unexpired reservation.\<close>

definition canary_fence :: "gotime \<Rightarrow> db \<Rightarrow> job \<Rightarrow> bool" where
  "canary_fence now d j \<longleftrightarrow>
     \<not> (\<exists>r \<in> set (droplets d). Some (dr_name r) = lease_owner j \<and> dr_role r = DedicatedCanary) \<or>
     (case lease_owner j of None \<Rightarrow> False | Some owner \<Rightarrow> canary_reservation now d (job_recording j) owner)"

text \<open>The job is leased by this worker under this token; a missing token matches only a lease without one.\<close>

definition holds_lease :: "int \<Rightarrow> string \<Rightarrow> nat option \<Rightarrow> job \<Rightarrow> bool" where
  "holds_lease i worker token j \<longleftrightarrow> job_id j = i \<and> job_status j = Leased \<and> lease_owner j = Some worker \<and> lease_token j = token"

definition fenced :: "gotime \<Rightarrow> nodePrincipal \<Rightarrow> db \<Rightarrow> job \<Rightarrow> bool" where
  "fenced now p d j \<longleftrightarrow> NodeType p = nodeTypeLocalRecorder \<longrightarrow> canary_fence now d j"

definition leased_here :: "gotime \<Rightarrow> nodePrincipal \<Rightarrow> int \<Rightarrow> nat option \<Rightarrow> db \<Rightarrow> job \<Rightarrow> bool" where
  "leased_here now p i token d j \<longleftrightarrow> holds_lease i (recorderWorkerID p) token j \<and> fenced now p d j"

definition heartbeat_expiry :: "gotime \<Rightarrow> job \<Rightarrow> gotime" where
  "heartbeat_expiry now j =
     (let extended = now + secs (job_clip_duration j + lease_margin) in
      if job_kind j = ContinuousJob
      then (case window_end_at j of None \<Rightarrow> extended | Some e \<Rightarrow> min extended (e + secs recordingContinuousPostWindowLeaseSec))
      else extended)"

definition may_heartbeat :: "gotime \<Rightarrow> int \<Rightarrow> string \<Rightarrow> nat option \<Rightarrow> job \<Rightarrow> bool" where
  "may_heartbeat now i worker token j \<longleftrightarrow> holds_lease i worker token j \<and> later_than (lease_expires_at j) now \<and>
     (job_kind j \<noteq> ContinuousJob \<or> (case window_end_at j of None \<Rightarrow> False
        | Some e \<Rightarrow> now < e + secs recordingContinuousPostWindowLeaseSec))"

text \<open>The lock of a relay's own row, and its account.\<close>

definition relay_locked :: "nodePrincipal \<Rightarrow> db \<Rightarrow> bool" where
  "relay_locked p d \<longleftrightarrow> (\<exists>n \<in> set (nodes d). node_id n = NodeID p \<and> node_account n = AccountID p \<and> node_type n = nodeTypeRelay \<and>
     (case node_group n of None \<Rightarrow> True | Some g \<Rightarrow>
        (\<exists>gr \<in> set (relay_groups d). group_id gr = g \<and> group_account gr = AccountID p)))"

definition heartbeat_match :: "gotime \<Rightarrow> nodePrincipal \<Rightarrow> int \<Rightarrow> string \<Rightarrow> nat option \<Rightarrow> db \<Rightarrow> job \<Rightarrow> bool" where
  "heartbeat_match now p i worker token d j \<longleftrightarrow> may_heartbeat now i worker token j \<and>
     (if NodeType p \<noteq> nodeTypeRelay then canary_fence now d j else relay_locked p d)"

definition heartbeatRecordingJob :: "gotime \<Rightarrow> nodePrincipal \<Rightarrow> int \<Rightarrow> string \<Rightarrow> nat option \<Rightarrow> db \<Rightarrow> gotime option \<times> db" where
  "heartbeatRecordingJob now p i worker token d =
     (let q = heartbeat_match now p i worker token d in
      case List.find q (jobs d) of None \<Rightarrow> (None, d)
      | Some j \<Rightarrow> (Some (heartbeat_expiry now j),
          d\<lparr>jobs := update_where q (\<lambda>j. j\<lparr>lease_expires_at := Some (heartbeat_expiry now j)\<rparr>) (jobs d)\<rparr>))"

definition handleRecordingJobHeartbeat ::
    "gotime \<Rightarrow> nodePrincipal option \<Rightarrow> int \<Rightarrow> nat option option \<Rightarrow> db \<Rightarrow> gotime response \<times> db" where
  "handleRecordingJobHeartbeat now po i token_header d =
     (case po of None \<Rightarrow> (Unauthorized, d) | Some p \<Rightarrow>
      let worker = recorderWorkerID p in
      case token_header of None \<Rightarrow> (BadRequest, d) | Some token \<Rightarrow>
      (case heartbeatRecordingJob now p i worker token d of
         (None, d') \<Rightarrow> (Conflict, d')
       | (Some expires, d') \<Rightarrow> (OkResponse expires, touchDropletLiveness now worker (NodeID p) [] d')))"

section \<open>Completing\<close>

definition job_clips :: "db \<Rightarrow> int \<Rightarrow> nat" where
  "job_clips d i = length (filter (\<lambda>c. clip_job c = Some i) (clips d))"

text \<open>The first statement: the job's recording, kind, number of clips and error.\<close>

definition load_leased :: "gotime \<Rightarrow> nodePrincipal \<Rightarrow> int \<Rightarrow> nat option \<Rightarrow> db \<Rightarrow> (int \<times> job_kind \<times> nat \<times> string) option" where
  "load_leased now p i token d =
     (case List.find (leased_here now p i token d) (jobs d) of
        None \<Rightarrow> None | Some j \<Rightarrow> Some (job_recording j, job_kind j, job_clips d i, job_error j))"

definition bump_failures :: "gotime \<Rightarrow> int \<Rightarrow> string \<Rightarrow> db \<Rightarrow> db" where
  "bump_failures now recording text d = d\<lparr>recordings := update_where (\<lambda>r. rec_id r = recording)
     (\<lambda>r. r\<lparr>rec_failures := rec_failures r + 1, rec_last_error := text, rec_last_error_at := Some now\<rparr>) (recordings d)\<rparr>"

definition mark_empty_failed :: "gotime \<Rightarrow> nodePrincipal \<Rightarrow> int \<Rightarrow> nat option \<Rightarrow> string \<Rightarrow> db \<Rightarrow> db" where
  "mark_empty_failed now p i token text d = d\<lparr>jobs := update_where
     (leased_here now p i token d)
     (\<lambda>j. j\<lparr>job_status := JobError, job_completed_at := Some now, lease_expires_at := None, job_error := text\<rparr>) (jobs d)\<rparr>"

definition mark_done :: "gotime \<Rightarrow> nodePrincipal \<Rightarrow> int \<Rightarrow> nat option \<Rightarrow> db \<Rightarrow> nat \<times> db" where
  "mark_done now p i token d =
     (let q = leased_here now p i token d in
      (length (filter q (jobs d)),
       d\<lparr>jobs := update_where q (\<lambda>j. j\<lparr>job_status := Done, job_completed_at := Some now, lease_expires_at := None\<rparr>) (jobs d)\<rparr>))"

text \<open>The handler reads, then writes in another transaction: \<open>others\<close> is what other transactions did in between,
  \<open>now'\<close> the second transaction's clock. \<open>sanitize\<close> stands for \<open>sanitizeRecordingSurrenderError\<close>, which
  removes credentials from the text.\<close>

definition handleRecordingJobComplete ::
    "(string \<Rightarrow> string \<Rightarrow> string) \<Rightarrow> gotime \<Rightarrow> (db \<Rightarrow> db) \<Rightarrow> gotime \<Rightarrow> nodePrincipal option \<Rightarrow> int \<Rightarrow> nat option option \<Rightarrow> db \<Rightarrow>
     unit response \<times> db" where
  "handleRecordingJobComplete sanitize now others now' po i token_header d =
     (case po of None \<Rightarrow> (Unauthorized, d) | Some p \<Rightarrow>
      case token_header of None \<Rightarrow> (BadRequest, d) | Some token \<Rightarrow>
      (case load_leased now p i token d of None \<Rightarrow> (Conflict, d)
       | Some (recording, kind, clip_count, error) \<Rightarrow>
         (let d1 = others d in
          if kind = ContinuousJob \<and> clip_count = 0 then
            (let text = sanitize error ''continuous recording produced no clips''
             in (Conflict, bump_failures now' recording text (mark_empty_failed now' p i token text d1)))
          else (case mark_done now' p i token d1 of (n, d2) \<Rightarrow> if n = 0 then (Conflict, d2) else (OkResponse (), d2)))))"

section \<open>Surrendering\<close>

datatype surrender_reason = NoProgress | DiskPressure | SelfUpdate

text \<open>Only the three known reasons are valid; \<open>None\<close> is any other text.\<close>

definition reason_text :: "surrender_reason \<Rightarrow> string" where
  "reason_text r = (case r of NoProgress \<Rightarrow> ''no_progress'' | DiskPressure \<Rightarrow> ''disk_pressure'' | SelfUpdate \<Rightarrow> ''self_update'')"

definition surrenderable :: "gotime \<Rightarrow> int \<Rightarrow> string \<Rightarrow> nat option \<Rightarrow> job \<Rightarrow> bool" where
  "surrenderable now i worker token j \<longleftrightarrow> holds_lease i worker token j \<and> job_kind j = ContinuousJob \<and>
     later_than (window_end_at j) now \<and> later_than (lease_expires_at j) now"

definition count_failure :: "gotime \<Rightarrow> int \<Rightarrow> int \<Rightarrow> db \<Rightarrow> db" where
  "count_failure now i node d =
     (if \<exists>f \<in> set (node_failures d). nf_job f = i \<and> nf_node f = node
      then d\<lparr>node_failures := update_where (\<lambda>f. nf_job f = i \<and> nf_node f = node)
             (\<lambda>f. f\<lparr>nf_count := nf_count f + 1, nf_last := now\<rparr>) (node_failures d)\<rparr>
      else d\<lparr>node_failures := node_failures d @ [\<lparr>nf_job = i, nf_node = node, nf_count = 1, nf_last = now\<rparr>]\<rparr>)"

definition surrendered_row :: "gotime \<Rightarrow> duration \<Rightarrow> string \<Rightarrow> string \<Rightarrow> job \<Rightarrow> job" where
  "surrendered_row now delay worker text j = j\<lparr>job_status := Pending, scheduled_for := now + delay, lease_owner := None,
     lease_expires_at := None, lease_token := None, handoff_owner := Some worker, handoff_until := Some (now + 5 * minute),
     job_error := text, job_completed_at := None\<rparr>"

definition relay_surrender :: "gotime \<Rightarrow> nodePrincipal \<Rightarrow> int \<Rightarrow> string \<Rightarrow> nat option \<Rightarrow> bool \<Rightarrow> db \<Rightarrow> gotime option \<times> db" where
  "relay_surrender now p i text token failed d =
     (let worker = recorderWorkerID p; q = surrenderable now i worker token in
      case List.find q (jobs d) of None \<Rightarrow> (None, d)
      | Some j \<Rightarrow> (Some (now + 5 * minute),
          (if failed then count_failure now i (NodeID p) else (\<lambda>d. d))
            (d\<lparr>jobs := update_where q (\<lambda>j. surrendered_row now 0 worker text (j\<lparr>fairness_started_at := None\<rparr>)) (jobs d)\<rparr>)))"

text \<open>How long a surrendered cloud lease waits: not at all when this lease, or the window in the last half hour, landed a
  clip; else by the number of attempts.\<close>

definition had_clips :: "db \<Rightarrow> job \<Rightarrow> bool" where
  "had_clips d j \<longleftrightarrow> (\<exists>c \<in> set (clips d). clip_job c = Some (job_id j) \<and> clip_lease_token c = lease_token j)"

definition recently_healthy :: "gotime \<Rightarrow> db \<Rightarrow> job \<Rightarrow> bool" where
  "recently_healthy now d j \<longleftrightarrow> (\<exists>c \<in> set (clips d). clip_job c = Some (job_id j) \<and> now - 30 * minute < clip_created_at c)"

definition surrender_delay :: "gotime \<Rightarrow> db \<Rightarrow> job \<Rightarrow> duration" where
  "surrender_delay now d j =
     (if had_clips d j \<or> recently_healthy now d j then 0
      else if attempt_count j \<le> 1 then minute
      else if attempt_count j = 2 then 2 * minute
      else 5 * minute)"

definition cloud_surrender_match :: "gotime \<Rightarrow> nodePrincipal \<Rightarrow> int \<Rightarrow> string \<Rightarrow> nat option \<Rightarrow> db \<Rightarrow> job \<Rightarrow> bool" where
  "cloud_surrender_match now p i worker token d j \<longleftrightarrow>
     surrenderable now i worker token j \<and> canary_fence now d j \<and> cloud_recorder worker (NodeID p) d \<noteq> None"

definition cloud_surrender :: "gotime \<Rightarrow> nodePrincipal \<Rightarrow> int \<Rightarrow> string \<Rightarrow> nat option \<Rightarrow> db \<Rightarrow> (gotime \<times> gotime \<times> bool) option \<times> db" where
  "cloud_surrender now p i text token d =
     (let worker = recorderWorkerID p;
          q = cloud_surrender_match now p i worker token d in
      case List.find q (jobs d) of None \<Rightarrow> (None, d)
      | Some j \<Rightarrow> (Some (now + 5 * minute, now + surrender_delay now d j, had_clips d j),
          d\<lparr>jobs := update_where q (\<lambda>j. surrendered_row now (surrender_delay now d j) worker text j) (jobs d)\<rparr>))"

text \<open>The answer: when the handoff ends, the next retry (\<open>clock\<close> for a relay) and whether this lease landed clips.\<close>

definition handleRecordingJobSurrender ::
    "(string \<Rightarrow> string \<Rightarrow> string) \<Rightarrow> gotime \<Rightarrow> gotime \<Rightarrow> nodePrincipal option \<Rightarrow> int \<Rightarrow> nat option option \<Rightarrow>
     surrender_reason option \<Rightarrow> string \<Rightarrow> db \<Rightarrow> (gotime \<times> gotime \<times> bool) response \<times> db" where
  "handleRecordingJobSurrender sanitize now clock po i token_header reason error_text d =
     (case po of None \<Rightarrow> (Unauthorized, d) | Some p \<Rightarrow>
      if NodeType p \<noteq> nodeTypeRelay \<and> NodeType p \<noteq> nodeTypeLocalRecorder then (Forbidden, d)
      else (case token_header of None \<Rightarrow> (BadRequest, d) | Some token \<Rightarrow>
      (case reason of None \<Rightarrow> (BadRequest, d) | Some why \<Rightarrow>
       if NodeType p = nodeTypeLocalRecorder \<and> why \<noteq> NoProgress then (BadRequest, d)
       else (let text = sanitize error_text (reason_text why) in
         if NodeType p = nodeTypeLocalRecorder then
           (case cloud_surrender now p i text token d of (None, d') \<Rightarrow> (Conflict, d') | (Some r, d') \<Rightarrow> (OkResponse r, d'))
         else
           (case relay_surrender now p i text token (why = NoProgress) d of
              (None, d') \<Rightarrow> (Conflict, d') | (Some u, d') \<Rightarrow> (OkResponse (u, clock, False), d'))))))"

section \<open>Failing\<close>

definition fail_row :: "gotime \<Rightarrow> string \<Rightarrow> job \<Rightarrow> job" where
  "fail_row now text j =
     (let again = attempt_count j < max_attempts j in
      j\<lparr>job_status := (if again then Pending else JobError),
        scheduled_for := (if again then now + 60 * second else scheduled_for j),
        lease_owner := None, lease_expires_at := None, lease_token := None, job_error := text,
        job_completed_at := (if again then None else Some now)\<rparr>)"

definition handleRecordingJobFail ::
    "gotime \<Rightarrow> nodePrincipal option \<Rightarrow> int \<Rightarrow> nat option option \<Rightarrow> string \<Rightarrow> db \<Rightarrow> unit response \<times> db" where
  "handleRecordingJobFail now po i token_header error_text d =
     (case po of None \<Rightarrow> (Unauthorized, d) | Some p \<Rightarrow>
      case token_header of None \<Rightarrow> (BadRequest, d) | Some token \<Rightarrow>
      (let text = (if TrimSpace error_text = [] then ''recording capture failed'' else TrimSpace error_text);
           q = leased_here now p i token d in
       case List.find q (jobs d) of None \<Rightarrow> (Conflict, d)
       | Some j \<Rightarrow> (OkResponse (), bump_failures now (job_recording j) text
           (d\<lparr>jobs := update_where q (fail_row now text) (jobs d)\<rparr>))))"

lemma set_update_one:
  assumes "x \<in> set xs" "p x" "\<And>k. k \<in> set xs \<Longrightarrow> p k \<Longrightarrow> k = x"
  shows "set (update_where p f xs) = insert (f x) (set xs - {x})"
proof (rule set_eqI)
  fix y
  have "y \<in> set (update_where p f xs) \<longleftrightarrow> (\<exists>k \<in> set xs. y = (if p k then f k else k))" by (rule in_update_where)
  also have "\<dots> \<longleftrightarrow> y = f x \<or> (y \<in> set xs \<and> y \<noteq> x)" using assms by (metis (full_types))
  finally show "y \<in> set (update_where p f xs) \<longleftrightarrow> y \<in> insert (f x) (set xs - {x})" by simp
qed

section \<open>Counting leases\<close>

lemma length_filter_mono: "(\<And>x. P x \<Longrightarrow> Q x) \<Longrightarrow> length (filter P xs) \<le> length (filter Q xs)"
  by (induction xs) (auto intro: le_SucI)

lemma filter_update_le:
  "(\<And>x. x \<in> set xs \<Longrightarrow> p x \<Longrightarrow> q (f x) \<Longrightarrow> q x) \<Longrightarrow> length (filter q (update_where p f xs)) \<le> length (filter q xs)"
  by (induction xs) (auto simp: update_where_def)

lemma filter_update_one:
  "distinct (map k xs) \<Longrightarrow> length (filter q (update_where (\<lambda>x. k x = i) f xs)) \<le> Suc (length (filter q xs))"
proof (induction xs)
  case (Cons x xs)
  show ?case
  proof (cases "k x = i")
    case True
    then have "update_where (\<lambda>x. k x = i) f xs = xs"
      using Cons.prems by (intro update_where_none) (metis distinct.simps(2) image_eqI list.set_map list.simps(9))
    then show ?thesis using True by (simp add: update_where_def)
  next
    case False
    then show ?thesis using Cons by (simp add: update_where_def)
  qed
qed simp

text \<open>A change to the jobs that creates no live lease.\<close>

definition no_new_lease :: "gotime \<Rightarrow> job list \<Rightarrow> job list \<Rightarrow> bool" where
  "no_new_lease now js js' \<longleftrightarrow> (\<forall>w. length (filter (live_lease now w) js') \<le> length (filter (live_lease now w) js))"

lemma no_new_lease_refl [simp]: "no_new_lease now js js"
  by (simp add: no_new_lease_def)

lemma no_new_lease_update:
  "(\<And>j w. p j \<Longrightarrow> live_lease now w (f j) \<Longrightarrow> live_lease now w j) \<Longrightarrow> no_new_lease now js (update_where p f js)"
  by (auto simp: no_new_lease_def intro: filter_update_le)

lemma no_new_lease_append: "(\<And>w. \<not> live_lease now w j) \<Longrightarrow> no_new_lease now js (js @ [j])"
  by (simp add: no_new_lease_def)

lemma no_new_lease_trans: "no_new_lease now a b \<Longrightarrow> no_new_lease now b c \<Longrightarrow> no_new_lease now a c"
  by (meson no_new_lease_def order_trans)

text \<open>Well-formed jobs, the given droplets, and no worker with more live leases than \<open>caps\<close> gives it.\<close>

definition droplet_shape :: "db \<Rightarrow> (string \<times> int \<times> droplet_state) list" where
  "droplet_shape d = map (\<lambda>r. (dr_name r, dr_capacity r, dr_state r)) (droplets d)"

definition within :: "(string \<times> int) list \<Rightarrow> (string \<times> int \<times> droplet_state) list \<Rightarrow> gotime \<Rightarrow> db \<Rightarrow> bool" where
  "within caps shape now d \<longleftrightarrow> distinct (map job_id (jobs d)) \<and> (\<forall>j \<in> set (jobs d). job_id j < serial d) \<and> droplet_shape d = shape \<and>
     (\<forall>(w, c) \<in> set caps. int (live_count now w d) \<le> c)"

text \<open>Names are unique, and \<open>caps\<close> gives no worker that can lease less than its capacity.\<close>

definition fits :: "(string \<times> int) list \<Rightarrow> (string \<times> int \<times> droplet_state) list \<Rightarrow> bool" where
  "fits caps shape \<longleftrightarrow> distinct (map fst shape) \<and>
     (\<forall>(n, k, st) \<in> set shape. st \<in> {Provisioning, Active} \<longrightarrow> (\<forall>(w, c) \<in> set caps. w = n \<longrightarrow> k \<le> c))"

text \<open>Each worker within its own capacity.\<close>

definition leases_ok :: "gotime \<Rightarrow> db \<Rightarrow> bool" where
  "leases_ok now d \<longleftrightarrow> distinct (map job_id (jobs d)) \<and> (\<forall>j \<in> set (jobs d). job_id j < serial d) \<and> distinct (map dr_name (droplets d)) \<and>
     (\<forall>r \<in> set (droplets d). int (live_count now (dr_name r) d) \<le> dr_capacity r)"

definition capacities :: "(string \<times> int \<times> droplet_state) list \<Rightarrow> (string \<times> int) list" where
  "capacities shape = map (\<lambda>(n, k, st). (n, k)) shape"

lemma leases_ok_within:
  assumes "leases_ok now d"
  shows "within (capacities (droplet_shape d)) (droplet_shape d) now d"
  using assms by (auto simp: leases_ok_def within_def capacities_def droplet_shape_def)

lemma fits_capacities: "distinct (map fst shape) \<Longrightarrow> fits (capacities shape) shape"
proof -
  assume d: "distinct (map fst shape)"
  have "k = k'" if "(n, k, st) \<in> set shape" "(n, k', st') \<in> set shape" for n k k' st st'
    using d inj_onD [of fst "set shape" "(n, k, st)" "(n, k', st')"] that by (simp add: distinct_map)
  then show ?thesis using d by (fastforce simp: fits_def capacities_def)
qed

lemma in_droplet_shape: "r \<in> set (droplets d) \<Longrightarrow> (dr_name r, dr_capacity r, dr_state r) \<in> set (droplet_shape d)"
  by (force simp: droplet_shape_def)

lemma within_step:
  assumes "within caps shape now d" "droplet_shape d' = droplet_shape d" "no_new_lease now (jobs d) (jobs d')"
    and "distinct (map job_id (jobs d'))" "\<forall>j \<in> set (jobs d'). job_id j < serial d'"
  shows "within caps shape now d'"
proof -
  have "int (live_count now w d') \<le> c" if "(w, c) \<in> set caps" for w c
  proof -
    have "int (live_count now w d') \<le> int (live_count now w d)"
      using assms(3) by (simp add: no_new_lease_def live_count_def)
    also have "\<dots> \<le> c" using assms(1) that by (auto simp: within_def)
    finally show ?thesis .
  qed
  then show ?thesis using assms(1,2,4,5) by (auto simp: within_def)
qed

lemma within_update:
  assumes "within caps shape now d" "droplet_shape d' = droplet_shape d" "jobs d' = update_where p f (jobs d)" "serial d' = serial d"
    and "\<And>j. job_id (f j) = job_id j" "\<And>j w. p j \<Longrightarrow> live_lease now w (f j) \<Longrightarrow> live_lease now w j"
  shows "within caps shape now d'"
  using assms(1,2)
proof (rule within_step)
  show "no_new_lease now (jobs d) (jobs d')" unfolding assms(3) by (rule no_new_lease_update) (rule assms(6))
  show "distinct (map job_id (jobs d'))" using assms(1,3,5) by (simp add: within_def map_update_where)
  show "\<forall>j \<in> set (jobs d'). job_id j < serial d'" using assms(1,3,4,5) by (simp add: within_def ball_update_where)
qed

lemma within_later:
  assumes "within caps shape now d" "now \<le> now'"
  shows "within caps shape now' d"
proof -
  have "int (live_count now' w d) \<le> c" if "(w, c) \<in> set caps" for w c
  proof -
    have "int (live_count now' w d) \<le> int (live_count now w d)" unfolding live_count_def of_nat_le_iff
      by (rule length_filter_mono) (use assms(2) in \<open>auto simp: live_lease_def later_than_def split: option.splits\<close>)
    also have "\<dots> \<le> c" using assms(1) that by (auto simp: within_def)
    finally show ?thesis .
  qed
  then show ?thesis using assms(1) by (auto simp: within_def)
qed

section \<open>No operation exceeds a worker's capacity\<close>

lemma first_due_in: "first_due locked p js = Some j \<Longrightarrow> j \<in> set js \<and> p j \<and> job_id j \<notin> locked"
proof -
  assume "first_due locked p js = Some j"
  then obtain js' where "sort_key (\<lambda>j. scheduled_for j) (sort_key job_id (filter (\<lambda>j. p j \<and> job_id j \<notin> locked) js)) = j # js'"
    by (auto simp: first_due_def split: list.splits)
  from arg_cong [OF this, of set] show ?thesis by auto
qed

lemma cloud_recorder_in: "cloud_recorder w n d = Some r \<Longrightarrow> r \<in> set (droplets d) \<and> dr_name r = w \<and> dr_node r = Some n \<and> dr_state r \<in> {Provisioning, Active}"
  by (auto simp: cloud_recorder_def find_Some_iff dest: nth_mem)

lemma within_lease:
  assumes "within caps shape now d" "job_id j \<in> job_id ` set (jobs d)" "job_id j' = job_id j" "lease_owner j' = Some w"
    and "\<And>c. (w, c) \<in> set caps \<Longrightarrow> int (live_count now w d) < c"
  shows "within caps shape now (set_job (job_id j) (\<lambda>_. j') d)"
proof -
  let ?d = "set_job (job_id j) (\<lambda>_. j') d"
  have ids: "map job_id (jobs ?d) = map job_id (jobs d)"
    unfolding set_job_def by (simp, rule map_update_where) (simp add: assms(3))
  have "live_count now v ?d \<le> live_count now v d" if "v \<noteq> w" for v
    using that assms(4) by (auto simp: live_count_def set_job_def live_lease_def intro!: filter_update_le)
  moreover have "live_count now w ?d \<le> Suc (live_count now w d)"
    using assms(1) by (simp add: live_count_def set_job_def within_def filter_update_one)
  ultimately have "int (live_count now v ?d) \<le> c" if "(v, c) \<in> set caps" for v c
    using assms(1) assms(5) [of c] that by (cases "v = w") (fastforce simp: within_def)+
  moreover have "job_id k < serial d" if "k \<in> set (jobs ?d)" for k
  proof -
    have "job_id k \<in> set (map job_id (jobs ?d))" using that by simp
    then show ?thesis using assms(1) unfolding ids by (auto simp: within_def)
  qed
  moreover have "droplet_shape ?d = shape" using assms(1) by (simp add: set_job_def within_def droplet_shape_def)
  moreover have "serial ?d = serial d" by (simp add: set_job_def)
  ultimately show ?thesis using assms(1) ids by (auto simp: within_def)
qed

lemma within_cloud:
  assumes "within caps shape now d" "fits caps shape" "handleCloudJobsLease now bd locked uuid ts po d = (r, d')"
  shows "within caps shape now d'"
proof (cases po)
  case None
  then show ?thesis using assms by (simp add: handleCloudJobsLease_def)
next
  case (Some p)
  let ?w = "recorderWorkerID p"
  show ?thesis
  proof (cases "d' = d")
    case True
    then show ?thesis using assms(1) by simp
  next
    case False
    then obtain row j where row: "cloud_recorder ?w (NodeID p) d = Some row"
      and j: "first_due locked (cloud_leasable now bd ?w (dr_capacity row) (dr_role row) d) (jobs d) = Some j"
      and d': "d' = set_job (job_id j) (\<lambda>_. lease_row now ?w (if ts then Some uuid else None) j) d"
      using assms(3) Some
      by (auto simp: handleCloudJobsLease_def cloud_lease_def Let_def split: if_splits option.splits prod.splits)
    have "int (live_count now ?w d) < c" if "(?w, c) \<in> set caps" for c
    proof -
      have "(?w, dr_capacity row, dr_state row) \<in> set shape" "dr_state row \<in> {Provisioning, Active}"
        using cloud_recorder_in [OF row] in_droplet_shape [of row d] assms(1) by (auto simp: within_def)
      then have "dr_capacity row \<le> c" using assms(2) that by (fastforce simp: fits_def)
      then show ?thesis using first_due_in [OF j] by (simp add: cloud_leasable_def)
    qed
    then show ?thesis unfolding d' using first_due_in [OF j] assms(1)
      by (intro within_lease) (auto simp: lease_row_def)
  qed
qed

lemma droplet_shape_touch [simp]: "droplet_shape (touchDropletLiveness now w n b d) = droplet_shape d"
  by (simp add: droplet_shape_def touchDropletLiveness_def map_update_where)

lemma within_touch: "within caps shape now (touchDropletLiveness t w n b d) = within caps shape now d"
proof -
  have "jobs (touchDropletLiveness t w n b d) = jobs d" "serial (touchDropletLiveness t w n b d) = serial d"
    by (simp_all add: touchDropletLiveness_def)
  then show ?thesis by (simp add: within_def live_count_def)
qed

lemma droplet_shape_more [simp]:
  "droplet_shape (d\<lparr>jobs := js\<rparr>) = droplet_shape d" "droplet_shape (d\<lparr>recordings := rs\<rparr>) = droplet_shape d"
  "droplet_shape (d\<lparr>node_failures := fs\<rparr>) = droplet_shape d"
  by (simp_all add: droplet_shape_def)

lemma within_unrelated:
  "within caps shape now (d\<lparr>recordings := rs\<rparr>) = within caps shape now d" "within caps shape now (d\<lparr>node_failures := fs\<rparr>) = within caps shape now d"
  by (simp_all add: within_def live_count_def)

lemma within_heartbeat:
  assumes "within caps shape now d" "handleRecordingJobHeartbeat now po i tok d = (r, d')"
  shows "within caps shape now d'"
proof -
  have "within caps shape now (snd (heartbeatRecordingJob now p i w token d))" for p w token
  proof -
    define q where "q = heartbeat_match now p i w token d"
    have "within caps shape now (d\<lparr>jobs := update_where q (\<lambda>j. j\<lparr>lease_expires_at := Some (heartbeat_expiry now j)\<rparr>) (jobs d)\<rparr>)"
      by (rule within_update [OF assms(1), where p = q and f = "\<lambda>j. j\<lparr>lease_expires_at := Some (heartbeat_expiry now j)\<rparr>"])
        (auto simp: q_def heartbeat_match_def may_heartbeat_def holds_lease_def live_lease_def)
    then show ?thesis using assms(1) unfolding heartbeatRecordingJob_def Let_def q_def [symmetric]
      by (simp split: option.splits)
  qed
  then show ?thesis using assms
    by (auto simp: handleRecordingJobHeartbeat_def Let_def within_touch split: option.splits prod.splits) (metis snd_conv)+
qed

lemma not_live [simp]: "job_status j \<noteq> Leased \<Longrightarrow> \<not> live_lease now w j"
  by (simp add: live_lease_def)

lemma within_bump: "within caps shape now (bump_failures t i x d) = within caps shape now d"
  by (simp add: bump_failures_def within_unrelated)

lemma within_complete:
  assumes "within caps shape now' (others d)" "within caps shape now' d" "handleRecordingJobComplete sanitize now others now' po i tok d = (r, d')"
  shows "within caps shape now' d'"
proof -
  have "within caps shape now' (snd (mark_done now' p i token (others d)))" for p token
    by (rule within_update [OF assms(1), where p = "leased_here now' p i token (others d)"
          and f = "\<lambda>j. j\<lparr>job_status := Done, job_completed_at := Some now', lease_expires_at := None\<rparr>"])
      (auto simp: mark_done_def Let_def)
  moreover have "within caps shape now' (mark_empty_failed now' p i token x (others d))" for p token x
    by (rule within_update [OF assms(1), where p = "leased_here now' p i token (others d)"
          and f = "\<lambda>j. j\<lparr>job_status := JobError, job_completed_at := Some now', lease_expires_at := None, job_error := x\<rparr>"])
      (auto simp: mark_empty_failed_def)
  ultimately show ?thesis using assms
    by (auto simp: handleRecordingJobComplete_def Let_def within_bump split: option.splits prod.splits if_splits) (metis snd_conv)+
qed

lemma within_fail:
  assumes "within caps shape now d" "handleRecordingJobFail now po i tok x d = (r, d')"
  shows "within caps shape now d'"
proof -
  have "within caps shape now (d\<lparr>jobs := update_where q (fail_row now t) (jobs d)\<rparr>)" for q t
    by (rule within_update [OF assms(1), where p = q and f = "fail_row now t"]) (auto simp: fail_row_def Let_def)
  then show ?thesis using assms
    by (auto simp: handleRecordingJobFail_def Let_def within_bump split: option.splits)
qed

lemma within_surrender:
  assumes "within caps shape now d" "handleRecordingJobSurrender sanitize now clock po i tok why x d = (r, d')"
  shows "within caps shape now d'"
proof -
  have up: "within caps shape now (d\<lparr>jobs := update_where q (\<lambda>j. surrendered_row now (t j) w y (g j)) (jobs d)\<rparr>)"
    if "\<And>j. job_id (g j) = job_id j" for q t w y g
    by (rule within_update [OF assms(1), where p = q and f = "\<lambda>j. surrendered_row now (t j) w y (g j)"])
      (auto simp: surrendered_row_def that)
  have "within caps shape now (snd (cloud_surrender now p i y token d))" for p y token
    using up [of "\<lambda>j. j"] assms(1) by (auto simp: cloud_surrender_def Let_def split: option.splits)
  moreover have "within caps shape now (snd (relay_surrender now p i y token f d))" for p y token f
    using up [of "\<lambda>j. j\<lparr>fairness_started_at := None\<rparr>" _ "\<lambda>_. 0"] assms(1)
    by (auto simp: relay_surrender_def Let_def count_failure_def within_unrelated split: option.splits)
  ultimately show ?thesis using assms
    by (auto simp: handleRecordingJobSurrender_def Let_def split: option.splits prod.splits if_splits) (metis snd_conv)+
qed

subsection \<open>Ticks\<close>

lemma within_update_rows:
  assumes "within caps shape now d" "droplets d' = droplets d" "jobs d' = update_where p f (jobs d)" "serial d' = serial d"
    and "\<And>j. job_id (f j) = job_id j" "\<And>j w. p j \<Longrightarrow> live_lease now w (f j) \<Longrightarrow> live_lease now w j"
  shows "within caps shape now d'"
proof -
  have "droplet_shape d' = droplet_shape d" using assms(2) by (simp add: droplet_shape_def)
  then show ?thesis using within_update [OF assms(1) _ assms(3-6)] by simp
qed

lemma within_unrelated_rows:
  "within caps shape now d \<Longrightarrow> jobs d' = jobs d \<Longrightarrow> droplets d' = droplets d \<Longrightarrow> serial d' = serial d \<Longrightarrow> within caps shape now d'"
  by (simp add: within_def live_count_def droplet_shape_def)

lemma within_insert:
  assumes "within caps shape now d" "job_status j = Pending"
  shows "within caps shape now (snd (insert_job j d))"
proof -
  let ?j = "j\<lparr>job_id := serial d\<rparr>"
  note d = assms(1)
  have "within caps shape now (d\<lparr>jobs := jobs d @ [?j], serial := serial d + 1\<rparr>)"
  proof (rule within_step [OF d])
    show "no_new_lease now (jobs d) (jobs (d\<lparr>jobs := jobs d @ [?j], serial := serial d + 1\<rparr>))"
      by (simp add: no_new_lease_append assms(2))
    have "serial d \<notin> job_id ` set (jobs d)" using d by (force simp: within_def)
    then show "distinct (map job_id (jobs (d\<lparr>jobs := jobs d @ [?j], serial := serial d + 1\<rparr>)))"
      using d by (simp add: within_def)
    show "\<forall>k \<in> set (jobs (d\<lparr>jobs := jobs d @ [?j], serial := serial d + 1\<rparr>)). job_id k < serial (d\<lparr>jobs := jobs d @ [?j], serial := serial d + 1\<rparr>)"
      using d by (force simp: within_def)
  qed (simp add: droplet_shape_def)
  then show ?thesis using assms(1) by (simp add: insert_job_def)
qed

interpretation capacity: sweep_invariant "within caps shape now" "\<lambda>_. True" cfg now
proof unfold_locales
  fix d assume d: "within caps shape now d"
  show "within caps shape now (snd (reclaim_expired now d))"
    by (rule within_update_rows [OF d, where p = "reclaimable now" and f = reclaim_row])
      (simp_all add: reclaim_expired_def reclaim_row_def)
  show "within caps shape now (snd (mark_stale now d))"
    by (rule within_update_rows [OF d, where p = "stale now" and f = "stale_row d now"])
      (simp_all add: mark_stale_def stale_row_def Let_def)
  show "within caps shape now (snd (insert_job (new_job i f at dur (key_of kind i f) kind close) d))" for i f at dur kind close
    using d by (rule within_insert) (simp add: new_job_def)
  show "within caps shape now (snd (revive_window now i dur stop key d))" for i dur stop key
    by (rule within_update_rows [OF d, where p = "revivable d now i key stop" and f = "revive_row now dur stop"])
      (simp_all add: revive_window_def revive_row_def Let_def)
qed (auto simp: bump_missed_def advance_cursor_def split: prod.splits intro: within_unrelated_rows)

lemma within_tick: "within caps shape now d \<Longrightarrow> within caps shape now (snd (tick lib cfg now clock os d))"
proof (rule tick_invariant)
  have "keeps (session_inv (within caps shape now)) (autoStopExpiredRecordings lib now)"
  proof (rule keeps_autostop)
    fix d assume d: "within caps shape now d"
    show "within caps shape now (snd (complete_row i c e d))" for i c e
      using d by (rule within_unrelated_rows) (simp_all add: complete_row_def)
    show "within caps shape now (snd (cancel_completed_jobs d))"
      by (rule within_update_rows [OF d, where f = "\<lambda>j. j\<lparr>job_status := JobCanceled\<rparr>"
            and p = "\<lambda>j. job_status j \<in> {Pending, Leased} \<and> job_recording j \<in> rec_id ` {r \<in> set (recordings d). rec_status r = RecCompleted}"])
        (simp_all add: cancel_completed_jobs_def)
  qed
  then show "keeps (session_inv (within caps shape now)) (tick_body lib cfg now clock)"
    unfolding tick_body_def by (intro valid_intro capacity.keeps_sweep)
qed

section \<open>Runs of the recorder system\<close>

text \<open>Scheduler ticks and API calls in any order and by any callers, with time passing between them. Completing a job reads
  first and writes later: other operations run in between.\<close>

inductive recorder_run :: "gotime \<times> db \<Rightarrow> gotime \<times> db \<Rightarrow> bool" where
  start: "recorder_run s s"
| wait: "recorder_run s (now, d) \<Longrightarrow> now \<le> now' \<Longrightarrow> recorder_run s (now', d)"
| schedule: "recorder_run s (now, d) \<Longrightarrow> recorder_run s (now, snd (tick (lib :: timelib) cfg now clock os d))"
| lease: "recorder_run s (now, d) \<Longrightarrow> handleCloudJobsLease now bd locked uuid ts po d = (r, d') \<Longrightarrow> recorder_run s (now, d')"
| heartbeat: "recorder_run s (now, d) \<Longrightarrow> handleRecordingJobHeartbeat now po i tok d = (r', d') \<Longrightarrow> recorder_run s (now, d')"
| liveness: "recorder_run s (now, d) \<Longrightarrow> handleRecordingDropletHeartbeat now po sha d = (r'', d') \<Longrightarrow> recorder_run s (now, d')"
| complete: "recorder_run s (now, d) \<Longrightarrow> recorder_run (now, d) (now', d1) \<Longrightarrow>
    handleRecordingJobComplete sanitize now (\<lambda>_. d1) now' po i tok d = (r'', d') \<Longrightarrow> recorder_run s (now', d')"
| surrender: "recorder_run s (now, d) \<Longrightarrow> handleRecordingJobSurrender sanitize now clock po i tok why x d = (r''', d') \<Longrightarrow> recorder_run s (now, d')"
| fail: "recorder_run s (now, d) \<Longrightarrow> handleRecordingJobFail now po i tok x d = (r'', d') \<Longrightarrow> recorder_run s (now, d')"

lemma recorder_run_time: "recorder_run s s' \<Longrightarrow> fst s \<le> fst s'"
  by (induction rule: recorder_run.induct) auto

lemma recorder_run_within: "recorder_run s s' \<Longrightarrow> fits caps shape \<Longrightarrow> within caps shape (fst s) (snd s) \<Longrightarrow> within caps shape (fst s') (snd s')"
proof (induction rule: recorder_run.induct)
  case (schedule s now d lib cfg clock os)
  then show ?case using within_tick [of caps shape now d lib cfg clock os] by simp
next
  case (complete s now d now' d1 sanitize po i tok r'' d')
  then have "within caps shape now' d" using recorder_run_time [OF complete(2)] within_later [of caps shape now d now'] by simp
  then show ?case using complete within_complete [of caps shape now' "\<lambda>_. d1" d sanitize now po i tok] by simp
next
  case (liveness s now d po sha r'' d')
  then show ?case by (auto simp: handleRecordingDropletHeartbeat_def Let_def within_touch split: option.splits if_splits)
qed (auto intro: within_later within_cloud within_heartbeat within_surrender within_fail)

section \<open>Properties\<close>

subsection \<open>A leased job\<close>

text \<open>A worker with one slot, and a continuous window due since 00:00 that ends at 12:00.\<close>

definition worker_row :: droplet_row where
  "worker_row = \<lparr>dr_id = 1, dr_name = ''w1'', dr_node = Some 5, dr_do_id = Some 77, dr_region = [], dr_size = [], dr_capacity = 1,
     dr_state = Active, dr_role = Shared, dr_ip = [], dr_build = [], dr_last_seen = None, dr_first_seen = None,
     dr_activated = None, dr_error = [], dr_idle_since = None, dr_drain_started = None, dr_created = 0, dr_destroyed = None\<rparr>"

definition worker :: nodePrincipal where
  "worker = \<lparr>NodeID = 5, AccountID = 1, NodeType = nodeTypeLocalRecorder, DisplayName = ''w1''\<rparr>"

definition window_job :: job where
  "window_job = (new_job 8 0 0 60 (window_key 8 0) ContinuousJob (Some (12 * hour)))\<lparr>job_id := 3\<rparr>"

definition window_db :: db where
  "window_db = example_db\<lparr>recordings := [all_day], jobs := [window_job], droplets := [worker_row], serial := 4\<rparr>"

definition leased_job :: job where
  "leased_job = lease_row minute ''w1'' (Some 42) window_job"

lemma worker_id: "recorderWorkerID worker = ''w1''"
  by (simp add: recorderWorkerID_def worker_def nodeTypeRelay_def nodeTypeLocalRecorder_def TrimSpace_def is_space_def)

lemma worker_fields [simp]: "NodeID worker = 5" "NodeType worker = nodeTypeLocalRecorder" "nodeTypeLocalRecorder \<noteq> nodeTypeRelay"
  by (simp_all add: worker_def nodeTypeLocalRecorder_def nodeTypeRelay_def)

lemma window_leased:
  "handleCloudJobsLease minute True {} 42 True (Some worker) window_db = (OkResponse (Some leased_job), window_db\<lparr>jobs := [leased_job]\<rparr>)"
proof -
  have "first_due {} (cloud_leasable minute True ''w1'' 1 Shared window_db) [window_job] = Some window_job"
    by (simp add: first_due_def cloud_leasable_def live_count_def window_db_def window_job_def new_job_def live_lease_def
        capturable_def later_than_def recording_open_def all_day_def example_recording_def role_admits_def
        reserved_for_canary_def example_db_def handoff_allows_def)
  moreover have "cloud_recorder ''w1'' (NodeID worker) window_db = Some worker_row"
    by (simp add: cloud_recorder_def window_db_def worker_row_def)
  moreover have "jobs window_db = [window_job]" "dr_capacity worker_row = 1" "dr_role worker_row = Shared"
    by (simp_all add: window_db_def worker_row_def)
  ultimately show ?thesis
    by (simp add: handleCloudJobsLease_def worker_id cloud_lease_def Let_def set_job_def update_where_def leased_job_def)
qed

text \<open>C7: no interleaving of scheduler ticks and workers' calls, with any callers, failures and delays, ever gives a
  managed worker more live leases than its capacity.\<close>

theorem capacity_never_exceeded:
  assumes "recorder_run (now0, d0) (now, d)" "leases_ok now0 d0" "r \<in> set (droplets d)"
  shows "int (live_count now (dr_name r) d) \<le> dr_capacity r"
proof -
  let ?shape = "droplet_shape d0"
  have "fits (capacities ?shape) ?shape"
    using assms(2) by (intro fits_capacities) (simp add: leases_ok_def droplet_shape_def comp_def)
  then have "within (capacities ?shape) ?shape now d"
    using recorder_run_within [OF assms(1)] leases_ok_within [OF assms(2)] by simp
  moreover have "(dr_name r, dr_capacity r) \<in> set (capacities ?shape)"
    using in_droplet_shape [OF assms(3)] calculation by (force simp: within_def capacities_def)
  ultimately show ?thesis by (auto simp: within_def)
qed

theorem capacity_never_exceeded_witness:
  "int (live_count minute ''w1'' (window_db\<lparr>jobs := [leased_job]\<rparr>)) \<le> 1"
proof -
  have "recorder_run (minute, window_db) (minute, window_db\<lparr>jobs := [leased_job]\<rparr>)"
    by (rule recorder_run.lease [OF recorder_run.start window_leased])
  moreover have "leases_ok minute window_db"
    by (simp add: leases_ok_def window_db_def window_job_def new_job_def worker_row_def live_count_def live_lease_def)
  ultimately show ?thesis
    using capacity_never_exceeded [of minute window_db minute "window_db\<lparr>jobs := [leased_job]\<rparr>" worker_row]
    by (simp add: window_db_def worker_row_def)
qed

text \<open>The scheduler gives up exactly the pending jobs the lease query refuses as too late: no job is both leasable
  and missed, and none is neither.\<close>

theorem stale_iff_not_capturable:
  assumes "job_status j = Pending" "job_kind j = ContinuousJob \<Longrightarrow> window_end_at j \<noteq> None"
  shows "stale now j \<longleftrightarrow> \<not> capturable now j"
  using assms by (cases "job_kind j")
    (auto simp: stale_def capturable_def later_than_def freshnessGraceSec_def recordingFreshnessGraceSec_def)

theorem stale_iff_not_capturable_witness:
  "stale (12 * hour) window_job \<and> \<not> capturable (12 * hour) window_job \<and> capturable hour window_job"
  using stale_iff_not_capturable [of window_job "12 * hour"] stale_iff_not_capturable [of window_job hour]
  by (simp add: window_job_def new_job_def stale_def)

text \<open>C8: only the holder of the current lease can act on a job. If the presented worker and token are not those of the
  job's lease, then heartbeating, completing, surrendering and failing it are all refused and change nothing.\<close>

theorem stale_lease_refused:
  assumes "\<forall>j \<in> set (jobs d). \<not> holds_lease i (recorderWorkerID p) token j" "NodeType p \<in> {nodeTypeRelay, nodeTypeLocalRecorder}"
  shows "handleRecordingJobHeartbeat now (Some p) i (Some token) d = (Conflict, d) \<and>
    handleRecordingJobComplete sanitize now others now' (Some p) i (Some token) d = (Conflict, d) \<and>
    handleRecordingJobFail now (Some p) i (Some token) x d = (Conflict, d) \<and>
    (NodeType p = nodeTypeRelay \<or> why = NoProgress \<longrightarrow>
       handleRecordingJobSurrender sanitize now clock (Some p) i (Some token) (Some why) x d = (Conflict, d))"
proof -
  have none: "List.find q (jobs d) = None" if "\<And>j. q j \<Longrightarrow> holds_lease i (recorderWorkerID p) token j" for q
    using assms(1) that by (auto simp: find_None_iff)
  have leased: "List.find (leased_here t p i token d) (jobs d) = None" for t by (rule none) (simp add: leased_here_def)
  have "List.find (heartbeat_match now p i (recorderWorkerID p) token d) (jobs d) = None"
    by (rule none) (simp add: heartbeat_match_def may_heartbeat_def)
  then have "handleRecordingJobHeartbeat now (Some p) i (Some token) d = (Conflict, d)"
    unfolding handleRecordingJobHeartbeat_def heartbeatRecordingJob_def Let_def by simp
  moreover have "handleRecordingJobComplete sanitize now others now' (Some p) i (Some token) d = (Conflict, d)"
    by (simp add: handleRecordingJobComplete_def load_leased_def leased)
  moreover have "handleRecordingJobFail now (Some p) i (Some token) x d = (Conflict, d)"
    by (simp add: handleRecordingJobFail_def Let_def leased)
  moreover have "handleRecordingJobSurrender sanitize now clock (Some p) i (Some token) (Some why) x d = (Conflict, d)"
    if "NodeType p = nodeTypeRelay \<or> why = NoProgress"
  proof -
    have "List.find (surrenderable now i (recorderWorkerID p) token) (jobs d) = None"
      "List.find (cloud_surrender_match now p i (recorderWorkerID p) token d) (jobs d) = None"
      by (auto intro!: none simp: cloud_surrender_match_def surrenderable_def)
    then show ?thesis using assms(2) that
      by (auto simp: handleRecordingJobSurrender_def cloud_surrender_def relay_surrender_def Let_def
          nodeTypeRelay_def nodeTypeLocalRecorder_def)
  qed
  ultimately show ?thesis by blast
qed

theorem stale_lease_refused_witness:
  "handleRecordingJobFail hour (Some worker) 3 (Some (Some 41)) [] (window_db\<lparr>jobs := [leased_job]\<rparr>) = (Conflict, window_db\<lparr>jobs := [leased_job]\<rparr>)"
  using stale_lease_refused [of "window_db\<lparr>jobs := [leased_job]\<rparr>" 3 worker "Some 41" hour _ _ _ "[]"]
  by (simp add: holds_lease_def leased_job_def lease_row_def worker_def)

text \<open>A heartbeat extends only a lease that is still live, and never without bound: the new expiry is after now, at most
  the clip duration plus 150 seconds away, and for a continuous window at most 46 minutes after the window's
  end. An expired lease is never revived.\<close>

theorem heartbeat_bounded:
  assumes "handleRecordingJobHeartbeat now (Some p) i (Some token) d = (OkResponse expires, d')"
  shows "\<exists>j \<in> set (jobs d). holds_lease i (recorderWorkerID p) token j \<and> later_than (lease_expires_at j) now \<and>
    expires \<le> now + secs (job_clip_duration j + 150) \<and> (0 \<le> job_clip_duration j \<longrightarrow> now < expires) \<and>
    (job_kind j = ContinuousJob \<longrightarrow> (\<exists>e. window_end_at j = Some e \<and> expires \<le> e + 46 * minute)) \<and>
    j\<lparr>lease_expires_at := Some expires\<rparr> \<in> set (jobs d')"
proof -
  let ?w = "recorderWorkerID p"
  let ?q = "heartbeat_match now p i ?w token d"
  let ?f = "\<lambda>j. j\<lparr>lease_expires_at := Some (heartbeat_expiry now j)\<rparr>"
  obtain j where j: "List.find ?q (jobs d) = Some j" and e: "expires = heartbeat_expiry now j"
    and d': "d' = touchDropletLiveness now ?w (NodeID p) [] (d\<lparr>jobs := update_where ?q ?f (jobs d)\<rparr>)"
    using assms by (auto simp: handleRecordingJobHeartbeat_def heartbeatRecordingJob_def Let_def split: option.splits prod.splits)
  have mem: "j \<in> set (jobs d)" "?q j" using j by (auto simp: find_Some_iff)
  have "?f j \<in> set (jobs d')" using mem by (auto simp: d' touchDropletLiveness_def in_update_where intro!: bexI [of _ j])
  moreover have hb: "may_heartbeat now i ?w token j" using mem(2) by (simp add: heartbeat_match_def)
  moreover have "expires \<le> now + secs (job_clip_duration j + 150)"
    by (simp add: e heartbeat_expiry_def Let_def lease_margin_def recordingCaptureTimeoutMarginSec_def recordingUploadMarginSec_def split: option.splits)
  moreover have "now < expires" if "0 \<le> job_clip_duration j"
    using hb that by (auto simp: e heartbeat_expiry_def may_heartbeat_def Let_def lease_margin_def recordingCaptureTimeoutMarginSec_def
        recordingUploadMarginSec_def secs_def split: option.splits)
  moreover have "\<exists>w. window_end_at j = Some w \<and> expires \<le> w + 46 * minute" if "job_kind j = ContinuousJob"
    using hb that by (auto simp: e heartbeat_expiry_def may_heartbeat_def Let_def recordingContinuousPostWindowLeaseSec_def
        secs_def split: option.splits)
  ultimately show ?thesis using mem(1) by (auto simp: may_heartbeat_def e)
qed

lemma heartbeat_example:
  "handleRecordingJobHeartbeat (2 * minute) (Some worker) 3 (Some (Some 42)) (window_db\<lparr>jobs := [leased_job]\<rparr>) =
     (OkResponse (2 * minute + 210 * second), touchDropletLiveness (2 * minute) ''w1'' 5 []
        (window_db\<lparr>jobs := [leased_job\<lparr>lease_expires_at := Some (2 * minute + 210 * second)\<rparr>]\<rparr>))"
  by (simp add: handleRecordingJobHeartbeat_def heartbeatRecordingJob_def worker_id Let_def heartbeat_match_def may_heartbeat_def holds_lease_def
      leased_job_def lease_row_def window_job_def new_job_def later_than_def canary_fence_def window_db_def worker_row_def
      heartbeat_expiry_def update_where_def secs_def lease_margin_def recordingCaptureTimeoutMarginSec_def
      recordingUploadMarginSec_def recordingContinuousPostWindowLeaseSec_def)

theorem heartbeat_bounded_witness:
  "\<exists>j \<in> set (jobs (window_db\<lparr>jobs := [leased_job]\<rparr>)). \<exists>e. window_end_at j = Some e \<and> 2 * minute + 210 * second \<le> e + 46 * minute"
proof -
  have "job_kind leased_job = ContinuousJob" by (simp add: leased_job_def lease_row_def window_job_def new_job_def)
  then show ?thesis using heartbeat_bounded [OF heartbeat_example] by auto
qed

text \<open>A failure is retried a bounded number of times. Reporting it changes exactly the job held: with attempts left it is
  pending again and due in a minute, otherwise it ends in error; either way the lease is gone. The recording's
  failure count goes up by one.\<close>

theorem fail_outcome:
  assumes "handleRecordingJobFail now (Some p) i (Some token) x d = (OkResponse (), d')" "distinct (map job_id (jobs d))"
  shows "\<exists>j j'. j \<in> set (jobs d) \<and> holds_lease i (recorderWorkerID p) token j \<and>
    set (jobs d') = insert j' (set (jobs d) - {j}) \<and> job_id j' = i \<and> lease_owner j' = None \<and> lease_token j' = None \<and>
    (if attempt_count j < max_attempts j then job_status j' = Pending \<and> scheduled_for j' = now + minute \<and> job_completed_at j' = None
     else job_status j' = JobError \<and> job_completed_at j' = Some now) \<and>
    map rec_failures (recordings d') = map (\<lambda>r. rec_failures r + (if rec_id r = job_recording j then 1 else 0)) (recordings d)"
proof -
  let ?q = "leased_here now p i token d"
  obtain j msg where j: "List.find ?q (jobs d) = Some j"
    and d': "d' = bump_failures now (job_recording j) msg (d\<lparr>jobs := update_where ?q (fail_row now msg) (jobs d)\<rparr>)"
    using assms(1) by (auto simp: handleRecordingJobFail_def Let_def split: option.splits)
  have mem: "j \<in> set (jobs d)" "?q j" using j by (auto simp: find_Some_iff)
  then have hold: "holds_lease i (recorderWorkerID p) token j" by (simp add: leased_here_def)
  have "inj_on job_id (set (jobs d))" using assms(2) by (simp add: distinct_map)
  then have only: "k = j" if "k \<in> set (jobs d)" "?q k" for k
    using that mem hold by (auto simp: leased_here_def holds_lease_def dest: inj_onD)
  have "set (update_where ?q (fail_row now msg) (jobs d)) = insert (fail_row now msg j) (set (jobs d) - {j})"
  proof (rule set_update_one)
    show "j \<in> set (jobs d)" "?q j" by (fact mem)+
    show "k = j" if "k \<in> set (jobs d)" "?q k" for k using that by (rule only)
  qed
  then have "set (jobs d') = insert (fail_row now msg j) (set (jobs d) - {j})" by (simp add: d' bump_failures_def)
  moreover have "map rec_failures (recordings d') = map (\<lambda>r. rec_failures r + (if rec_id r = job_recording j then 1 else 0)) (recordings d)"
    by (simp add: d' bump_failures_def update_where_def)
  ultimately show ?thesis using mem hold
    by (intro exI [of _ j] exI [of _ "fail_row now msg j"]) (simp add: fail_row_def Let_def holds_lease_def)
qed

lemma fail_example:
  "handleRecordingJobFail (2 * minute) (Some worker) 3 (Some (Some 42)) ''x'' (window_db\<lparr>jobs := [leased_job]\<rparr>) =
     (OkResponse (), bump_failures (2 * minute) 8 ''x'' (window_db\<lparr>jobs := [fail_row (2 * minute) ''x'' leased_job]\<rparr>))"
  by (simp add: handleRecordingJobFail_def Let_def leased_here_def holds_lease_def worker_id fenced_def canary_fence_def
      leased_job_def lease_row_def window_job_def new_job_def window_db_def worker_row_def update_where_def TrimSpace_def is_space_def)

theorem fail_outcome_witness:
  "\<exists>j'. set (jobs (bump_failures (2 * minute) 8 ''x'' (window_db\<lparr>jobs := [fail_row (2 * minute) ''x'' leased_job]\<rparr>))) = {j'} \<and> job_status j' = Pending"
proof -
  have "distinct (map job_id (jobs (window_db\<lparr>jobs := [leased_job]\<rparr>)))" by simp
  moreover have "attempt_count leased_job < max_attempts leased_job"
    by (simp add: leased_job_def lease_row_def window_job_def new_job_def)
  ultimately show ?thesis using fail_outcome [OF fail_example] by auto
qed

text \<open>A cloud worker that surrenders hands the window off. The job is pending again within five minutes, at once when this
  lease landed a clip, and for five minutes every worker but this one may lease it.\<close>

theorem surrender_hands_off:
  assumes "handleRecordingJobSurrender sanitize now clock (Some p) i (Some token) (Some NoProgress) x d = (OkResponse (u, retry, h), d')"
    and "NodeType p = nodeTypeLocalRecorder"
  shows "\<exists>j \<in> set (jobs d'). job_id j = i \<and> job_status j = Pending \<and> scheduled_for j = retry \<and> now \<le> retry \<and> retry \<le> now + 5 * minute \<and>
    (h \<longrightarrow> retry = now) \<and> u = now + 5 * minute \<and>
    (\<forall>t. handoff_allows t (recorderWorkerID p) j = (u \<le> t)) \<and> (\<forall>t w. w \<noteq> recorderWorkerID p \<longrightarrow> handoff_allows t w j)"
proof -
  let ?w = "recorderWorkerID p" and ?text = "sanitize x (reason_text NoProgress)"
  let ?q = "cloud_surrender_match now p i ?w token d" and ?f = "\<lambda>j. surrendered_row now (surrender_delay now d j) ?w ?text j"
  have "cloud_surrender now p i ?text token d = (Some (u, retry, h), d')"
    using assms by (auto simp: handleRecordingJobSurrender_def Let_def split: option.splits prod.splits)
  then obtain j where j: "List.find ?q (jobs d) = Some j" and res: "u = now + 5 * minute" "retry = now + surrender_delay now d j" "h = had_clips d j"
    and d': "d' = d\<lparr>jobs := update_where ?q ?f (jobs d)\<rparr>"
    by (auto simp: cloud_surrender_def Let_def split: option.splits)
  have mem: "j \<in> set (jobs d)" "?q j" using j by (auto simp: find_Some_iff)
  then have "?f j \<in> set (jobs d')" by (auto simp: d' in_update_where intro!: bexI [of _ j])
  moreover have "job_id j = i" using mem by (simp add: cloud_surrender_match_def surrenderable_def holds_lease_def)
  ultimately show ?thesis
    by (intro bexI [of _ "?f j"]) (auto simp: surrendered_row_def res surrender_delay_def handoff_allows_def)
qed

lemma surrender_example:
  "handleRecordingJobSurrender (\<lambda>a b. b) (2 * minute) 0 (Some worker) 3 (Some (Some 42)) (Some NoProgress) [] (window_db\<lparr>jobs := [leased_job]\<rparr>) =
     (OkResponse (7 * minute, 3 * minute, False), window_db\<lparr>jobs := [surrendered_row (2 * minute) minute ''w1'' ''no_progress'' leased_job]\<rparr>)"
proof -
  have "cloud_recorder ''w1'' 5 (window_db\<lparr>jobs := [leased_job]\<rparr>) = Some worker_row"
    by (simp add: cloud_recorder_def window_db_def worker_row_def)
  then have "cloud_surrender_match (2 * minute) worker 3 ''w1'' (Some 42) (window_db\<lparr>jobs := [leased_job]\<rparr>) leased_job"
    by (simp add: cloud_surrender_match_def surrenderable_def holds_lease_def later_than_def canary_fence_def leased_job_def
        lease_row_def window_job_def new_job_def secs_def lease_margin_def recordingCaptureTimeoutMarginSec_def
        recordingUploadMarginSec_def) (simp add: window_db_def worker_row_def)
  moreover have "surrender_delay (2 * minute) (window_db\<lparr>jobs := [leased_job]\<rparr>) leased_job = minute" "\<not> had_clips (window_db\<lparr>jobs := [leased_job]\<rparr>) leased_job"
    by (simp_all add: surrender_delay_def had_clips_def recently_healthy_def window_db_def example_db_def leased_job_def lease_row_def
        window_job_def new_job_def)
  ultimately show ?thesis
    by (simp add: handleRecordingJobSurrender_def cloud_surrender_def worker_id Let_def update_where_def reason_text_def)
qed

theorem surrender_hands_off_witness:
  "\<exists>j \<in> set (jobs (window_db\<lparr>jobs := [surrendered_row (2 * minute) minute ''w1'' ''no_progress'' leased_job]\<rparr>)).
     job_status j = Pending \<and> scheduled_for j = 3 * minute"
  using surrender_hands_off [OF surrender_example] by auto

text \<open>An example of an empty window whose completion counts a failure although the job is no longer the caller's. The lease expires and the
  scheduler takes the job back between the handler's read and its writes: the update of the job matches
  nothing, but the recording's failure count still goes up.\<close>

theorem complete_counts_failure_unowned:
  "let d = window_db\<lparr>jobs := [leased_job]\<rparr>;
       d1 = snd (reclaim_expired hour d);
       d' = snd (handleRecordingJobComplete (\<lambda>a b. b) (2 * minute) (\<lambda>_. d1) hour (Some worker) 3 (Some (Some 42)) d)
   in jobs d1 = [reclaim_row leased_job] \<and> jobs d' = jobs d1 \<and> map rec_failures (recordings d1) = [0] \<and> map rec_failures (recordings d') = [1]"
  by (simp add: Let_def handleRecordingJobComplete_def load_leased_def worker_id leased_here_def holds_lease_def fenced_def
      canary_fence_def leased_job_def lease_row_def window_job_def new_job_def window_db_def worker_row_def job_clips_def
      example_db_def all_day_def example_recording_def reclaim_expired_def reclaimable_def reclaim_row_def update_where_def
      mark_empty_failed_def bump_failures_def secs_def lease_margin_def recordingCaptureTimeoutMarginSec_def
      recordingUploadMarginSec_def)

end
