(* ===== verification/PoolStore.thy ===== *)
theory PoolStore
  imports Leases
begin

text \<open>
  The droplet pool's data access: \<open>dropletpool/store.go\<close>. Every method is one transaction: a single statement or,
  for \<open>beginDestroy\<close>, \<open>MarkDrainingIfIdle\<close> and \<open>MintNodeToken\<close>, several. The world of a method holds the database,
  the database's clock and a tape that says what the outside does at each transaction to come: how much time has
  passed, what other transactions have committed, which statements fail, and whether a commit that took effect
  is reported (a lost connection is an error to the caller although the work is done). The end of the tape is
  a quiet outside: no time passes, nobody else writes, everything succeeds. The transactions that read a worker's leases
  and then retire it lock its row, the row a cloud lease locks, so no lease of that worker commits
  between their statements; the model runs them without interference inside.
\<close>

section \<open>The world of the store\<close>

record pool_step =
  elapsed :: nat
  others :: "db \<Rightarrow> db"
  replies :: "bool list"
  reported :: bool

definition quiet :: pool_step where
  "quiet = \<lparr>elapsed = 0, others = (\<lambda>d. d), replies = [], reported = True\<rparr>"

record pool_world =
  pdb :: db
  dbclock :: gotime
  tape :: "pool_step list"

definition next_step :: "'a pool_world_scheme \<Rightarrow> pool_step" where
  "next_step w = (case tape w of [] \<Rightarrow> quiet | s # _ \<Rightarrow> s)"

text \<open>The world when the next transaction begins.\<close>

definition arrive :: "'a pool_world_scheme \<Rightarrow> 'a pool_world_scheme" where
  "arrive w = w\<lparr>pdb := others (next_step w) (pdb w), dbclock := dbclock w + int (elapsed (next_step w)), tape := tl (tape w)\<rparr>"

text \<open>The body returns whether it commits, and its value; a body that does not is rolled back.\<close>

definition transaction :: "(gotime \<Rightarrow> (db session, db_failure + bool \<times> 'b) state) \<Rightarrow> ('a pool_world_scheme, db_failure + 'b) state" where
  "transaction body = State (\<lambda>w.
     let w1 = arrive w in
     case run_state (body (dbclock w1)) (begin_tx (pdb w1) (replies (next_step w))) of
       (Inl e, t) \<Rightarrow> (Inl e, w1)
     | (Inr (False, a), t) \<Rightarrow> (Inr a, w1)
     | (Inr (True, a), t) \<Rightarrow>
        (case commit_tx (pdb w1) t of
           (Inl e, d) \<Rightarrow> (Inl e, w1)
         | (Inr _, d) \<Rightarrow> (if reported (next_step w) then Inr a else Inl StatementFailed, w1\<lparr>pdb := d\<rparr>)))"

definition command :: "(gotime \<Rightarrow> db \<Rightarrow> 'b \<times> db) \<Rightarrow> ('a pool_world_scheme, db_failure + 'b) state" where
  "command f = transaction (\<lambda>now. orfail (exec (f now)) (\<lambda>a. ret (Inr (True, a))))"

definition fetch :: "(gotime \<Rightarrow> db \<Rightarrow> 'b) \<Rightarrow> ('a pool_world_scheme, db_failure + 'b) state" where
  "fetch f = command (\<lambda>now d. (f now d, d))"

text \<open>A statement that also fails on some databases: a violated unique index.\<close>

definition checked :: "(db \<Rightarrow> bool) \<Rightarrow> (db \<Rightarrow> 'b \<times> db) \<Rightarrow> (db session, db_failure + 'b) state" where
  "checked ok f = orfail (exec (\<lambda>d. if ok d then (Some (fst (f d)), snd (f d)) else (None, d)))
     (\<lambda>r. case r of None \<Rightarrow> ret (Inl StatementFailed) | Some a \<Rightarrow> ret (Inr a))"

section \<open>Reading droplets\<close>

definition droplet_at :: "int \<Rightarrow> db \<Rightarrow> droplet_row option" where
  "droplet_at i d = List.find (\<lambda>r. dr_id r = i) (droplets d)"

definition set_droplet :: "int \<Rightarrow> (droplet_row \<Rightarrow> droplet_row) \<Rightarrow> db \<Rightarrow> db" where
  "set_droplet i f d = d\<lparr>droplets := update_where (\<lambda>r. dr_id r = i) f (droplets d)\<rparr>"

text \<open>\<open>LEFT JOIN nodes\<close>: the bound node's last heartbeat.\<close>

definition node_beat :: "db \<Rightarrow> droplet_row \<Rightarrow> gotime option" where
  "node_beat d r = (case dr_node r of None \<Rightarrow> None | Some n \<Rightarrow>
     (case List.find (\<lambda>x. node_id x = n) (nodes d) of None \<Rightarrow> None | Some x \<Rightarrow> node_heartbeat x))"

definition scan_droplet :: "db \<Rightarrow> droplet_row \<Rightarrow> Droplet" where
  "scan_droplet d r = \<lparr>d_ID = dr_id r, d_Name = dr_name r, d_NodeID = dr_node r, d_NodeTokenID = None, d_DODropletID = dr_do_id r,
     d_Region = dr_region r, d_Size = dr_size r, d_Capacity = dr_capacity r, d_State = dr_state r, d_PoolRole = dr_role r,
     d_IPAddress = dr_ip r, d_BuildSHA = dr_build r, d_LastSeenAt = dr_last_seen r, d_NodeHeartbeatAt = node_beat d r,
     d_IdleSince = dr_idle_since r, d_DrainStartedAt = dr_drain_started r, d_CreatedAt = dr_created r\<rparr>"

definition listDroplets :: "(droplet_row \<Rightarrow> bool) \<Rightarrow> droplet_state list \<Rightarrow> db \<Rightarrow> Droplet list" where
  "listDroplets p states d = map (scan_droplet d) (sort_key dr_id (filter (\<lambda>r. p r \<and> dr_state r \<in> set states) (droplets d)))"

definition ListByStates :: "droplet_state list \<Rightarrow> ('a pool_world_scheme, db_failure + Droplet list) state" where
  "ListByStates states = fetch (\<lambda>now. listDroplets (\<lambda>_. True) states)"

definition ListSharedByStates :: "droplet_state list \<Rightarrow> ('a pool_world_scheme, db_failure + Droplet list) state" where
  "ListSharedByStates states = fetch (\<lambda>now. listDroplets (\<lambda>r. dr_role r = Shared) states)"

definition FindByDODropletID :: "int \<Rightarrow> ('a pool_world_scheme, db_failure + Droplet option) state" where
  "FindByDODropletID i = fetch (\<lambda>now d. map_option (scan_droplet d) (List.find (\<lambda>r. dr_do_id r = Some i) (droplets d)))"

definition billable :: "droplet_row \<Rightarrow> bool" where
  "billable r \<longleftrightarrow> dr_state r \<in> {Provisioning, Active, Draining, Destroying}"

definition live_rows :: "pool_role \<Rightarrow> db \<Rightarrow> int" where
  "live_rows role d = int (length (filter (\<lambda>r. dr_role r = role \<and> billable r) (droplets d)))"

definition CountLive :: "('a pool_world_scheme, db_failure + int) state" where
  "CountLive = fetch (\<lambda>now. live_rows Shared)"

definition CountLiveByRole :: "pool_role \<Rightarrow> ('a pool_world_scheme, db_failure + int) state" where
  "CountLiveByRole role = fetch (\<lambda>now. live_rows role)"

text \<open>\<open>ValidateLiveBindings\<close>: the first live recorder that could not authenticate.\<close>

definition bad_binding :: "db \<Rightarrow> droplet_row \<Rightarrow> bool" where
  "bad_binding d r \<longleftrightarrow> dr_state r \<in> {Provisioning, Active, Draining} \<and>
     (case dr_node r of None \<Rightarrow> True | Some i \<Rightarrow>
      (case List.find (\<lambda>n. node_id n = i) (nodes d) of None \<Rightarrow> True
       | Some n \<Rightarrow> node_type n \<noteq> nodeTypeLocalRecorder \<or> node_status n \<noteq> ''active'' \<or> btrim (node_name n) \<noteq> dr_name r \<or>
           \<not> (\<exists>t \<in> set (tokens d). token_node t = i \<and> token_revoked t = None)))"

datatype binding_error = InvalidBinding string | BindingQueryFailed

definition ValidateLiveBindings :: "('a pool_world_scheme, binding_error + unit) state" where
  "ValidateLiveBindings = State_Monad.bind
     (fetch (\<lambda>now d. map_option dr_name (List.find (bad_binding d) (sort_key dr_id (droplets d)))))
     (\<lambda>r. ret (case r of Inl _ \<Rightarrow> Inl BindingQueryFailed | Inr None \<Rightarrow> Inr () | Inr (Some name) \<Rightarrow> Inl (InvalidBinding name)))"

text \<open>\<open>ResolveOperatorAccount\<close>, over the rows of the accounts table; \<open>failed\<close> is a database error.\<close>

record account_row =
  acc_id :: int
  acc_email :: string
  acc_role :: string
  acc_status :: string

datatype account_error = EmptyEmail | AccountNotFound | AccountQueryFailed | AccountNotActive | AccountNotAdmin

definition ResolveOperatorAccount :: "account_row list \<Rightarrow> bool \<Rightarrow> string \<Rightarrow> account_error + int" where
  "ResolveOperatorAccount rows failed email =
     (let em = to_lower (TrimSpace email) in
      if em = [] then Inl EmptyEmail
      else if failed then Inl AccountQueryFailed
      else (case List.find (\<lambda>a. to_lower (acc_email a) = to_lower em) rows of
          None \<Rightarrow> Inl AccountNotFound
        | Some a \<Rightarrow>
            if acc_status a \<noteq> ''active'' then Inl AccountNotActive
            else if acc_role a \<noteq> ''admin'' then Inl AccountNotAdmin
            else Inr (acc_id a)))"

section \<open>Node tokens\<close>

text \<open>\<open>MintNodeToken\<close>: \<open>secret\<close> is what \<open>generateNodeSecret\<close> returns, \<open>hash\<close> is \<open>hashNodeSecret\<close>. The node and its token are
  inserted in one transaction; the result is the plain token, the node and the token.\<close>

definition insert_node :: "int \<Rightarrow> string \<Rightarrow> gotime \<Rightarrow> db \<Rightarrow> int \<times> db" where
  "insert_node account name now d =
     (serial d, d\<lparr>nodes := nodes d @ [\<lparr>node_id = serial d, node_account = account, node_type = nodeTypeLocalRecorder, node_name = name,
        node_status = ''active'', node_heartbeat = Some now, node_max_streams = 0, node_group = None, node_youtube_ready = False\<rparr>],
        serial := serial d + 1\<rparr>)"

definition insert_token :: "int \<Rightarrow> string \<Rightarrow> db \<Rightarrow> int \<times> db" where
  "insert_token node h d =
     (serial d, d\<lparr>tokens := tokens d @ [\<lparr>token_id = serial d, token_node = node, token_hash = h, token_revoked = None\<rparr>], serial := serial d + 1\<rparr>)"

definition has_prefix :: "string \<Rightarrow> string \<Rightarrow> bool" where
  "has_prefix s p \<longleftrightarrow> take (length p) s = p"

definition MintNodeToken ::
    "(string \<Rightarrow> string) \<Rightarrow> string option \<Rightarrow> int \<Rightarrow> string \<Rightarrow> ('a pool_world_scheme, db_failure + string \<times> int \<times> int) state" where
  "MintNodeToken hash secret account name =
     (if has_prefix (TrimSpace name) ''node:'' then ret (Inl StatementFailed)
      else (case secret of None \<Rightarrow> ret (Inl StatementFailed)
      | Some raw \<Rightarrow>
        (let plain = ''sin_'' @ raw in
         transaction (\<lambda>now.
           orfail (exec (insert_node account name now)) (\<lambda>node.
           orfail (exec (insert_token node (hash plain))) (\<lambda>token.
           ret (Inr (True, plain, node, token))))))))"

text \<open>\<open>RevokeNodeToken\<close>: two separate statements; the second runs only if the first succeeds.\<close>

definition revoke_token :: "gotime \<Rightarrow> int \<Rightarrow> db \<Rightarrow> db" where
  "revoke_token now t d = d\<lparr>tokens := update_where (\<lambda>r. token_id r = t)
     (\<lambda>r. r\<lparr>token_revoked := (case token_revoked r of None \<Rightarrow> Some now | Some u \<Rightarrow> Some u)\<rparr>) (tokens d)\<rparr>"

definition disable_node :: "int \<Rightarrow> db \<Rightarrow> db" where
  "disable_node n d = d\<lparr>nodes := update_where (\<lambda>r. node_id r = n) (\<lambda>r. r\<lparr>node_status := ''disabled''\<rparr>) (nodes d)\<rparr>"

definition RevokeNodeToken :: "int option \<Rightarrow> int option \<Rightarrow> ('a pool_world_scheme, db_failure + unit) state" where
  "RevokeNodeToken nodeTokenID nodeID =
     orfail (case nodeTokenID of None \<Rightarrow> ret (Inr ()) | Some t \<Rightarrow> command (\<lambda>now d. ((), revoke_token now t d)))
       (\<lambda>_. case nodeID of None \<Rightarrow> ret (Inr ()) | Some n \<Rightarrow> command (\<lambda>now d. ((), disable_node n d)))"

text \<open>\<open>NodeBinding\<close>: the node bound to a droplet and its newest token that is not revoked. It returns the node even
  with an error, which is how its callers use it: they ignore the error.\<close>

definition newest_token :: "int \<Rightarrow> db \<Rightarrow> int option" where
  "newest_token n d = (case rev (sort_key token_id (filter (\<lambda>t. token_node t = n \<and> token_revoked t = None) (tokens d))) of
     [] \<Rightarrow> None | t # _ \<Rightarrow> Some (token_id t))"

definition NodeBinding :: "int \<Rightarrow> ('a pool_world_scheme, (int option \<times> int option) \<times> bool) state" where
  "NodeBinding i = State_Monad.bind (fetch (\<lambda>now. droplet_at i)) (\<lambda>r.
     case r of
       Inl _ \<Rightarrow> ret ((None, None), False)
     | Inr None \<Rightarrow> ret ((None, None), False)
     | Inr (Some row) \<Rightarrow>
        (case dr_node row of
           None \<Rightarrow> ret ((None, None), True)
         | Some n \<Rightarrow> State_Monad.bind (fetch (\<lambda>now. newest_token n)) (\<lambda>t.
             case t of Inl _ \<Rightarrow> ret ((Some n, None), False) | Inr tok \<Rightarrow> ret ((Some n, tok), True))))"

section \<open>The life of a droplet row\<close>

definition new_droplet :: "int \<Rightarrow> string \<Rightarrow> string \<Rightarrow> string \<Rightarrow> int \<Rightarrow> int \<Rightarrow> string \<Rightarrow> pool_role \<Rightarrow> gotime \<Rightarrow> droplet_row" where
  "new_droplet i name region sz cap node build role now = \<lparr>dr_id = i, dr_name = name, dr_node = Some node, dr_do_id = None,
     dr_region = region, dr_size = sz, dr_capacity = cap, dr_state = Provisioning, dr_role = role, dr_ip = [],
     dr_build = to_lower (TrimSpace build), dr_last_seen = None, dr_first_seen = None, dr_activated = None, dr_error = [],
     dr_idle_since = None, dr_drain_started = None, dr_created = now, dr_destroyed = None\<rparr>"

text \<open>Names are unique and capacities positive in the table. The role is a value of \<open>pool_role\<close>, so the check of its text cannot fail.\<close>

definition InsertProvisioningWithRole ::
    "string \<Rightarrow> string \<Rightarrow> string \<Rightarrow> int \<Rightarrow> int \<Rightarrow> string \<Rightarrow> pool_role \<Rightarrow> ('a pool_world_scheme, db_failure + int) state" where
  "InsertProvisioningWithRole name region sz cap node build role = transaction (\<lambda>now.
     orfail (checked (\<lambda>d. name \<notin> dr_name ` set (droplets d) \<and> 0 < cap)
       (\<lambda>d. (serial d, d\<lparr>droplets := droplets d @ [new_droplet (serial d) name region sz cap node build role now], serial := serial d + 1\<rparr>)))
     (\<lambda>i. ret (Inr (True, i))))"

definition InsertProvisioning ::
    "string \<Rightarrow> string \<Rightarrow> string \<Rightarrow> int \<Rightarrow> int \<Rightarrow> string \<Rightarrow> ('a pool_world_scheme, db_failure + int) state" where
  "InsertProvisioning name region sz cap node build = InsertProvisioningWithRole name region sz cap node build Shared"

text \<open>Provider ids are unique in the table.\<close>

definition SetDropletID :: "int \<Rightarrow> int \<Rightarrow> string \<Rightarrow> ('a pool_world_scheme, db_failure + unit) state" where
  "SetDropletID i do_id ip = transaction (\<lambda>now.
     orfail (checked (\<lambda>d. \<forall>r \<in> set (droplets d). dr_do_id r = Some do_id \<longrightarrow> dr_id r = i)
       (\<lambda>d. ((), set_droplet i (\<lambda>r. r\<lparr>dr_do_id := Some do_id, dr_ip := TrimSpace ip\<rparr>) d)))
     (\<lambda>_. ret (Inr (True, ()))))"

definition activate :: "int \<Rightarrow> db \<Rightarrow> bool \<times> db" where
  "activate i d =
     (let q = (\<lambda>r. dr_id r = i \<and> dr_state r = Provisioning) in
      (length (filter q (droplets d)) = 1,
       d\<lparr>droplets := update_where q (\<lambda>r. r\<lparr>dr_state := Active, dr_idle_since := None\<rparr>) (droplets d)\<rparr>))"

definition MarkActive :: "int \<Rightarrow> ('a pool_world_scheme, db_failure + bool) state" where
  "MarkActive i = command (\<lambda>now. activate i)"

definition worker_busy :: "gotime \<Rightarrow> string \<Rightarrow> db \<Rightarrow> bool" where
  "worker_busy now name d \<longleftrightarrow> (\<exists>j \<in> set (jobs d). live_lease now name j)"

text \<open>\<open>GREATEST\<close> of the creation, the last sign of the worker and the last of its node, ignoring NULLs.\<close>

definition last_sign :: "db \<Rightarrow> droplet_row \<Rightarrow> gotime" where
  "last_sign d r = foldl (\<lambda>m t. case t of None \<Rightarrow> m | Some u \<Rightarrow> max m u) (dr_created r) [dr_last_seen r, node_beat d r]"

definition silent_since :: "int \<Rightarrow> gotime \<Rightarrow> db \<Rightarrow> bool" where
  "silent_since i t d = (case droplet_at i d of None \<Rightarrow> False | Some r \<Rightarrow> last_sign d r < t)"

definition silence_check :: "int \<Rightarrow> gotime option \<Rightarrow> (db session, db_failure + bool) state" where
  "silence_check i silentBefore = (case silentBefore of None \<Rightarrow> ret (Inr True) | Some t \<Rightarrow> exec (\<lambda>d. (silent_since i t d, d)))"

definition destroy_body :: "int \<Rightarrow> gotime option \<Rightarrow> gotime \<Rightarrow> (db session, db_failure + bool \<times> bool) state" where
  "destroy_body i silentBefore now =
     orfail (exec (\<lambda>d. (droplet_at i d, d))) (\<lambda>ro. case ro of None \<Rightarrow> ret (Inl StatementFailed) | Some r \<Rightarrow>
     if dr_state r = Destroying then ret (Inr (True, True))
     else if dr_state r \<notin> {Provisioning, Active, Draining} then ret (Inr (False, False))
     else orfail (exec (\<lambda>d. (worker_busy now (dr_name r) d, d))) (\<lambda>busy.
     if busy then ret (Inr (False, False))
     else orfail (silence_check i silentBefore) (\<lambda>silent.
     if \<not> silent then ret (Inr (False, False))
     else orfail (exec (\<lambda>d. ((), set_droplet i (\<lambda>r. r\<lparr>dr_state := Destroying\<rparr>) d))) (\<lambda>_. ret (Inr (True, True))))))"

definition beginDestroy :: "int \<Rightarrow> gotime option \<Rightarrow> ('a pool_world_scheme, db_failure + bool) state" where
  "beginDestroy i silentBefore = transaction (destroy_body i silentBefore)"

definition BeginDestroyIfIdle :: "int \<Rightarrow> ('a pool_world_scheme, db_failure + bool) state" where
  "BeginDestroyIfIdle i = beginDestroy i None"

definition BeginDestroyIfIdleAndSilent :: "int \<Rightarrow> gotime \<Rightarrow> ('a pool_world_scheme, db_failure + bool) state" where
  "BeginDestroyIfIdleAndSilent i t = beginDestroy i (Some t)"

definition setState :: "int \<Rightarrow> droplet_state \<Rightarrow> (gotime \<Rightarrow> droplet_row \<Rightarrow> droplet_row) \<Rightarrow> ('a pool_world_scheme, db_failure + unit) state" where
  "setState i st extra = command (\<lambda>now d. ((), set_droplet i (\<lambda>r. extra now (r\<lparr>dr_state := st\<rparr>)) d))"

definition MarkDraining :: "int \<Rightarrow> ('a pool_world_scheme, db_failure + unit) state" where
  "MarkDraining i = setState i Draining (\<lambda>now r. r\<lparr>dr_drain_started := Some now\<rparr>)"

definition MarkDestroying :: "int \<Rightarrow> ('a pool_world_scheme, db_failure + unit) state" where
  "MarkDestroying i = setState i Destroying (\<lambda>now r. r)"

definition MarkDestroyed :: "int \<Rightarrow> ('a pool_world_scheme, db_failure + unit) state" where
  "MarkDestroyed i = setState i Destroyed (\<lambda>now r. r\<lparr>dr_destroyed := Some now\<rparr>)"

definition MarkFailed :: "int \<Rightarrow> string \<Rightarrow> ('a pool_world_scheme, db_failure + unit) state" where
  "MarkFailed i reason = command (\<lambda>now d. ((), set_droplet i (\<lambda>r. r\<lparr>dr_state := Failed, dr_error := TrimSpace reason\<rparr>) d))"

definition drain_body :: "int \<Rightarrow> gotime \<Rightarrow> (db session, db_failure + bool \<times> bool) state" where
  "drain_body i now =
     orfail (exec (\<lambda>d. (droplet_at i d, d))) (\<lambda>ro. case ro of None \<Rightarrow> ret (Inl StatementFailed) | Some r \<Rightarrow>
     if dr_state r \<noteq> Active then ret (Inr (False, False))
     else orfail (exec (\<lambda>d. (worker_busy now (dr_name r) d, d))) (\<lambda>busy.
     if busy then ret (Inr (False, False))
     else orfail (exec (\<lambda>d. ((), set_droplet i (\<lambda>r. r\<lparr>dr_state := Draining, dr_drain_started := Some now\<rparr>) d)))
       (\<lambda>_. ret (Inr (True, True)))))"

definition MarkDrainingIfIdle :: "int \<Rightarrow> ('a pool_world_scheme, db_failure + bool) state" where
  "MarkDrainingIfIdle i = transaction (drain_body i)"

definition idle_stamp :: "gotime \<Rightarrow> bool \<Rightarrow> droplet_row \<Rightarrow> droplet_row" where
  "idle_stamp now idle r = r\<lparr>dr_idle_since := (if idle then (case dr_idle_since r of None \<Rightarrow> Some now | Some t \<Rightarrow> Some t) else None)\<rparr>"

definition SetIdleSince :: "int \<Rightarrow> bool \<Rightarrow> ('a pool_world_scheme, db_failure + unit) state" where
  "SetIdleSince i idle = command (\<lambda>now d. ((), d\<lparr>droplets := update_where (\<lambda>r. dr_id r = i \<and> dr_state r = Active \<and>
     (idle \<or> dr_idle_since r \<noteq> None)) (idle_stamp now idle) (droplets d)\<rparr>))"

definition HasInflightJob :: "string \<Rightarrow> ('a pool_world_scheme, db_failure + bool) state" where
  "HasInflightJob name = fetch (\<lambda>now. worker_busy now name)"

definition ReclaimExpiredLeases :: "('a pool_world_scheme, db_failure + unit) state" where
  "ReclaimExpiredLeases = command reclaim_expired"

section \<open>The cooldown ledger and alerts\<close>

definition LoadPoolState :: "('a pool_world_scheme, db_failure + PoolState) state" where
  "LoadPoolState = fetch (\<lambda>now d. case pool_state d of None \<Rightarrow> \<lparr>LastScaleUpAt = None, LastScaleDownAt = None\<rparr> | Some ps \<Rightarrow> ps)"

definition stamp :: "(PoolState \<Rightarrow> PoolState) \<Rightarrow> db \<Rightarrow> db" where
  "stamp f d = d\<lparr>pool_state := Some (f (case pool_state d of None \<Rightarrow> \<lparr>LastScaleUpAt = None, LastScaleDownAt = None\<rparr> | Some ps \<Rightarrow> ps))\<rparr>"

definition StampScaleUp :: "gotime \<Rightarrow> ('a pool_world_scheme, db_failure + unit) state" where
  "StampScaleUp at = command (\<lambda>now d. ((), stamp (\<lambda>ps. ps\<lparr>LastScaleUpAt := Some at\<rparr>) d))"

definition StampScaleDown :: "gotime \<Rightarrow> ('a pool_world_scheme, db_failure + unit) state" where
  "StampScaleDown at = command (\<lambda>now d. ((), stamp (\<lambda>ps. ps\<lparr>LastScaleDownAt := Some at\<rparr>) d))"

text \<open>\<open>NoteOpsAlert\<close>: a resolved episode is opened anew, an open one is only refreshed.\<close>

definition refresh_alert :: "gotime \<Rightarrow> alert_row \<Rightarrow> alert_row" where
  "refresh_alert now a =
     (case alert_resolved a of
        None \<Rightarrow> a\<lparr>alert_last := now\<rparr>
      | Some _ \<Rightarrow> a\<lparr>alert_first := now, alert_alerted := None, alert_last := now, alert_resolved := None\<rparr>)"

definition note_alert :: "string \<Rightarrow> string \<Rightarrow> gotime \<Rightarrow> db \<Rightarrow> db" where
  "note_alert key signal now d =
     (if key \<in> alert_key ` set (alerts d)
      then d\<lparr>alerts := update_where (\<lambda>a. alert_key a = key) (refresh_alert now) (alerts d)\<rparr>
      else d\<lparr>alerts := alerts d @ [\<lparr>alert_key = key, alert_signal = signal, alert_first = now, alert_last = now,
        alert_alerted = None, alert_resolved = None\<rparr>]\<rparr>)"

definition NoteOpsAlert :: "string \<Rightarrow> string \<Rightarrow> gotime \<Rightarrow> ('a pool_world_scheme, db_failure + unit) state" where
  "NoteOpsAlert key signal at = command (\<lambda>now d. ((), note_alert key signal at d))"

section \<open>Runs of transactions\<close>

lemma arrive_simps [simp]:
  "pdb (arrive w) = others (next_step w) (pdb w)" "dbclock (arrive w) = dbclock w + int (elapsed (next_step w))"
  "tape (arrive w) = tl (tape w)"
  by (simp_all add: arrive_def)

lemma transaction_Inr:
  assumes "run_state (transaction body) w = (Inr a, w')"
  obtains c t where "run_state (body (dbclock (arrive w))) (begin_tx (pdb (arrive w)) (replies (next_step w))) = (Inr (c, a), t)"
    "w' = (arrive w)\<lparr>pdb := (if c then work t else pdb (arrive w))\<rparr>"
proof -
  let ?r = "run_state (body (dbclock (arrive w))) (begin_tx (pdb (arrive w)) (replies (next_step w)))"
  obtain x t where r: "?r = (x, t)" by fastforce
  have "\<exists>c. x = Inr (c, a) \<and> w' = (arrive w)\<lparr>pdb := (if c then work t else pdb (arrive w))\<rparr>"
    using assms by (auto simp: transaction_def Let_def r commit_tx_def simp del: arrive_simps split: if_splits sum.splits prod.splits bool.splits)
  with r that show ?thesis by blast
qed

text \<open>A transaction that returns an error has changed nothing, or committed without the caller being told.\<close>

lemma transaction_Inl:
  assumes "run_state (transaction body) w = (Inl e, w')"
  shows "w' = arrive w \<or> (\<exists>a t. run_state (body (dbclock (arrive w))) (begin_tx (pdb (arrive w)) (replies (next_step w))) = (Inr (True, a), t) \<and>
    \<not> reported (next_step w) \<and> w' = (arrive w)\<lparr>pdb := work t\<rparr>)"
proof -
  obtain x t where r: "run_state (body (dbclock (arrive w))) (begin_tx (pdb (arrive w)) (replies (next_step w))) = (x, t)" by fastforce
  show ?thesis using assms
    by (auto simp: transaction_def Let_def r commit_tx_def split: sum.splits prod.splits bool.splits if_splits)
qed

lemma begin_tx_simps [simp]: "work (begin_tx d os) = d" "aborted (begin_tx d os) = False" "saves (begin_tx d os) = []"
  by (simp_all add: begin_tx_def)

lemma command_Inr:
  assumes "run_state (command f) w = (Inr a, w')"
  shows "a = fst (f (dbclock (arrive w)) (pdb (arrive w))) \<and> w' = (arrive w)\<lparr>pdb := snd (f (dbclock (arrive w)) (pdb (arrive w)))\<rparr>"
  using assms unfolding command_def
  by (elim transaction_Inr) (auto simp: run_orfail split: sum.splits prod.splits dest!: exec_Inr)

lemma command_world:
  "snd (run_state (command f) w) \<in> {arrive w, (arrive w)\<lparr>pdb := snd (f (dbclock (arrive w)) (pdb (arrive w)))\<rparr>}"
proof (cases "run_state (command f) w")
  case (Pair x w')
  show ?thesis
  proof (cases x)
    case (Inl e)
    then have "run_state (command f) w = (Inl e, w')" using Pair by simp
    then have "run_state (transaction (\<lambda>now. orfail (exec (f now)) (\<lambda>a. ret (Inr (True, a))))) w = (Inl e, w')"
      by (simp add: command_def)
    from transaction_Inl [OF this] Pair show ?thesis
      by (auto simp: run_orfail split: sum.splits prod.splits dest!: exec_Inr)
  next
    case (Inr a)
    then show ?thesis using command_Inr [of f w a w'] Pair by simp
  qed
qed

lemma update_same_pdb: "(w :: 'a pool_world_scheme)\<lparr>pdb := pdb w\<rparr> = w"
  by simp

lemma fetch_world: "snd (run_state (fetch f) w) = arrive w"
  using command_world [of "\<lambda>now d. (f now d, d)" w] by (auto simp: fetch_def)

lemma fetch_Inr: "run_state (fetch f) w = (Inr a, w') \<Longrightarrow> a = f (dbclock (arrive w)) (pdb (arrive w)) \<and> w' = arrive w"
  using command_Inr [of "\<lambda>now d. (f now d, d)" w a w'] by (auto simp: fetch_def)

lemma orfail_exec_Inr:
  assumes "run_state (orfail (exec f) k) s = (Inr x, t)"
  obtains s1 where "work s1 = snd (f (work s))" "run_state (k (fst (f (work s)))) s1 = (Inr x, t)"
  using assms by (auto simp: run_orfail split: sum.splits prod.splits dest!: exec_Inr)

section \<open>Retiring a worker\<close>

lemma orfail_Inr:
  assumes "run_state (orfail m k) s = (Inr x, t)"
  obtains a s1 where "run_state m s = (Inr a, s1)" "run_state (k a) s1 = (Inr x, t)"
  using assms by (auto simp: run_orfail split: sum.splits prod.splits)

lemma silence_check_Inr:
  "run_state (silence_check i sb) s = (Inr ok, s1) \<Longrightarrow> work s1 = work s \<and> (ok \<longrightarrow> (\<forall>u. sb = Some u \<longrightarrow> silent_since i u (work s)))"
  by (cases sb) (auto simp: silence_check_def dest!: exec_Inr)

lemma destroy_body_result:
  assumes "run_state (destroy_body i sb now) (begin_tx d os) = (Inr (c, b), t)"
  obtains r where "droplet_at i d = Some r"
    "dr_state r = Destroying \<and> c \<and> b \<and> work t = d \<or> \<not> c \<and> \<not> b \<and> work t = d \<or>
     c \<and> b \<and> dr_state r \<in> {Provisioning, Active, Draining} \<and> \<not> worker_busy now (dr_name r) d \<and>
       (\<forall>u. sb = Some u \<longrightarrow> last_sign d r < u) \<and> work t = set_droplet i (\<lambda>r. r\<lparr>dr_state := Destroying\<rparr>) d"
proof -
  let ?retire = "\<lambda>d. ((), set_droplet i (\<lambda>r. r\<lparr>dr_state := Destroying\<rparr>) d)"
  let ?rest = "\<lambda>silent. if \<not> silent then ret (Inr (False, False)) else orfail (exec ?retire) (\<lambda>_. ret (Inr (True, True)))"
  let ?check = "\<lambda>busy. if busy then ret (Inr (False, False)) else orfail (silence_check i sb) ?rest"
  from assms obtain s1 r where r: "droplet_at i d = Some r" and s1: "work s1 = d"
    and run: "run_state (if dr_state r = Destroying then ret (Inr (True, True))
      else if dr_state r \<notin> {Provisioning, Active, Draining} then ret (Inr (False, False))
      else orfail (exec (\<lambda>d. (worker_busy now (dr_name r) d, d))) ?check) s1 = (Inr (c, b), t)"
    unfolding destroy_body_def by (elim orfail_exec_Inr) (auto split: option.splits)
  show ?thesis
  proof (cases "dr_state r \<in> {Provisioning, Active, Draining} \<and> \<not> worker_busy now (dr_name r) d")
    case False
    then have "dr_state r = Destroying \<and> c \<and> b \<and> work t = d \<or> \<not> c \<and> \<not> b \<and> work t = d" using run s1
      by (auto split: if_splits elim!: orfail_exec_Inr)
    then show ?thesis by (intro that [OF r]) blast
  next
    case True
    with run have "run_state (orfail (exec (\<lambda>d. (worker_busy now (dr_name r) d, d))) ?check) s1 = (Inr (c, b), t)"
      by (auto split: if_splits)
    then obtain s2 where "work s2 = d" and "run_state (orfail (silence_check i sb) ?rest) s2 = (Inr (c, b), t)"
      using True s1 by (elim orfail_exec_Inr) simp
    then obtain s3 ok where s3: "work s3 = d" "ok \<longrightarrow> (\<forall>u. sb = Some u \<longrightarrow> silent_since i u d)"
      and "run_state (?rest ok) s3 = (Inr (c, b), t)"
      by (elim orfail_Inr) (auto dest!: silence_check_Inr)
    then have "\<not> c \<and> \<not> b \<and> work t = d \<or> c \<and> b \<and> ok \<and> work t = set_droplet i (\<lambda>r. r\<lparr>dr_state := Destroying\<rparr>) d"
      by (cases ok) (auto elim!: orfail_exec_Inr)
    then show ?thesis using True s3(2) r by (intro that [OF r]) (auto simp: silent_since_def)
  qed
qed

section \<open>Properties\<close>

lemma not_busy: "\<not> worker_busy now name d \<longleftrightarrow> live_count now name d = 0"
  by (auto simp: worker_busy_def live_count_def filter_empty_conv)

text \<open>Retirement happens only to an idle worker. If \<open>BeginDestroyIfIdle\<close> changes the database at all, the row was
  provisioning, active or draining, its worker had no live lease (and had been silent since the given time) when the
  transaction ran, and the only change is its state. Saying yes without a change means it was being destroyed already.
  This holds whatever time passes, others write and statements fail.\<close>

theorem retire_only_idle:
  assumes "run_state (beginDestroy i silentBefore) w = (result, w')"
  shows "pdb w' = pdb (arrive w) \<and> (result = Inr True \<longrightarrow> (\<exists>r. droplet_at i (pdb w') = Some r \<and> dr_state r = Destroying)) \<or>
    (\<exists>r. droplet_at i (pdb (arrive w)) = Some r \<and> dr_state r \<in> {Provisioning, Active, Draining} \<and>
       live_count (dbclock (arrive w)) (dr_name r) (pdb (arrive w)) = 0 \<and>
       (\<forall>t. silentBefore = Some t \<longrightarrow> last_sign (pdb (arrive w)) r < t) \<and>
       pdb w' = set_droplet i (\<lambda>r. r\<lparr>dr_state := Destroying\<rparr>) (pdb (arrive w)) \<and> result \<in> {Inr True, Inl StatementFailed})"
proof -
  let ?d = "pdb (arrive w)" and ?now = "dbclock (arrive w)" and ?os = "replies (next_step w)"
  have run: "run_state (transaction (destroy_body i silentBefore)) w = (result, w')"
    using assms by (simp add: beginDestroy_def)
  have body: "(work t = ?d \<and> (b \<longrightarrow> (\<exists>r. droplet_at i ?d = Some r \<and> dr_state r = Destroying))) \<or>
      (c \<and> b \<and> (\<exists>r. droplet_at i ?d = Some r \<and> dr_state r \<in> {Provisioning, Active, Draining} \<and> live_count ?now (dr_name r) ?d = 0 \<and>
         (\<forall>t. silentBefore = Some t \<longrightarrow> last_sign ?d r < t) \<and> work t = set_droplet i (\<lambda>r. r\<lparr>dr_state := Destroying\<rparr>) ?d))"
    if "run_state (destroy_body i silentBefore ?now) (begin_tx ?d ?os) = (Inr (c, b), t)" for c b t
    by (rule destroy_body_result [OF that]) (auto simp: not_busy simp del: arrive_simps)
  show ?thesis
  proof (cases result)
    case (Inl e)
    with run show ?thesis using body by (cases e) (fastforce dest!: transaction_Inl simp del: arrive_simps)
  next
    case (Inr b)
    from transaction_Inr [OF run [unfolded Inr]] obtain c t
      where t: "run_state (destroy_body i silentBefore ?now) (begin_tx ?d ?os) = (Inr (c, b), t)"
        and w': "w' = (arrive w)\<lparr>pdb := (if c then work t else ?d)\<rparr>" .
    show ?thesis using body [OF t] by (cases c) (auto simp: w' Inr simp del: arrive_simps)
  qed
qed

text \<open>An empty job table next to one worker, which is provisioning.\<close>

definition idle_world :: pool_world where
  "idle_world = \<lparr>pdb = example_db\<lparr>droplets := [worker_row]\<rparr>, dbclock = hour, tape = []\<rparr>"

lemma quiet_arrive [simp]: "tape w = [] \<Longrightarrow> arrive w = w"
  by (simp add: arrive_def next_step_def quiet_def)

lemma idle_retired:
  "run_state (BeginDestroyIfIdle 1) idle_world =
     (Inr True, idle_world\<lparr>pdb := set_droplet 1 (\<lambda>r. r\<lparr>dr_state := Destroying\<rparr>) (pdb idle_world)\<rparr>)"
  by (simp add: BeginDestroyIfIdle_def beginDestroy_def transaction_def Let_def destroy_body_def run_orfail exec_def begin_tx_def next_ok_def
      idle_world_def next_step_def quiet_def droplet_at_def worker_row_def worker_busy_def example_db_def silence_check_def commit_tx_def)

theorem retire_only_idle_witness:
  "pdb (snd (run_state (BeginDestroyIfIdle 1) idle_world)) \<noteq> pdb idle_world \<and> live_count hour ''w1'' (pdb idle_world) = 0"
proof -
  have "pdb (arrive idle_world) = pdb idle_world" "dbclock idle_world = hour" by (simp_all add: idle_world_def)
  moreover have "droplet_at 1 (pdb idle_world) = Some worker_row" "dr_name worker_row = ''w1''"
    by (simp_all add: droplet_at_def idle_world_def worker_row_def)
  moreover have "pdb (snd (run_state (BeginDestroyIfIdle 1) idle_world)) \<noteq> pdb idle_world"
    unfolding idle_retired by (simp add: set_droplet_def idle_world_def worker_row_def update_where_def example_db_def)
  moreover have "arrive idle_world = idle_world" by (simp add: idle_world_def)
  ultimately show ?thesis
    using retire_only_idle [OF idle_retired [unfolded BeginDestroyIfIdle_def]] unfolding idle_retired by auto
qed

text \<open>C3: the pool store and the lease API together. Once \<open>BeginDestroyIfIdle\<close> has retired a worker, no interleaving of
  scheduler ticks and workers' calls gives it a live lease again, so deleting its droplet interrupts no work.\<close>

theorem retired_worker_stays_idle:
  assumes "run_state (BeginDestroyIfIdle i) w = (Inr True, w')"
    and "droplet_at i (pdb (arrive w)) = Some r" "dr_state r \<noteq> Destroying"
    and "distinct (map dr_name (droplets (pdb (arrive w))))" "distinct (map job_id (jobs (pdb (arrive w))))"
    and "\<forall>j \<in> set (jobs (pdb (arrive w))). job_id j < serial (pdb (arrive w))"
    and "recorder_run (dbclock w', pdb w') (t, d)"
  shows "live_count t (dr_name r) d = 0"
proof -
  let ?d = "pdb (arrive w)" and ?f = "\<lambda>r. r\<lparr>dr_state := Destroying\<rparr>"
  have "run_state (transaction (destroy_body i None)) w = (Inr True, w')"
    using assms(1) by (simp add: BeginDestroyIfIdle_def beginDestroy_def)
  then obtain c s where s: "run_state (destroy_body i None (dbclock (arrive w))) (begin_tx ?d (replies (next_step w))) = (Inr (c, True), s)"
    and w': "w' = (arrive w)\<lparr>pdb := (if c then work s else ?d)\<rparr>" by (rule transaction_Inr)
  have idle: "live_count (dbclock w') (dr_name r) ?d = 0" and d': "pdb w' = set_droplet i ?f ?d"
    using destroy_body_result [OF s] assms(2,3) w' by (auto simp: not_busy simp del: arrive_simps)
  have r: "r \<in> set (droplets ?d)" "dr_id r = i" using assms(2) by (auto simp: droplet_at_def find_Some_iff)
  have shape: "st = Destroying" if "(dr_name r, k, st) \<in> set (droplet_shape (pdb w'))" for k st
  proof -
    from that obtain x where x: "x \<in> set (droplets ?d)" "dr_name r = dr_name (if dr_id x = i then ?f x else x)"
      "st = dr_state (if dr_id x = i then ?f x else x)"
      by (auto simp: d' set_droplet_def droplet_shape_def in_update_where simp del: arrive_simps)
    then have "dr_name x = dr_name r" by (auto split: if_splits)
    then have "x = r" using x(1) r(1) assms(4) by (metis distinct_map inj_onD)
    then show ?thesis using x r by simp
  qed
  have names: "map fst (droplet_shape (pdb w')) = map dr_name (droplets ?d)"
    by (simp add: d' set_droplet_def droplet_shape_def comp_def map_update_where del: arrive_simps)
  have "fits [(dr_name r, 0)] (droplet_shape (pdb w'))"
    unfolding fits_def names using assms(4) shape by fastforce
  moreover have "within [(dr_name r, 0)] (droplet_shape (pdb w')) (dbclock w') (pdb w')"
    using idle assms(5,6) by (simp add: within_def d' set_droplet_def live_count_def del: arrive_simps)
  ultimately have "within [(dr_name r, 0)] (droplet_shape (pdb w')) t d"
    using recorder_run_within [OF assms(7)] by simp
  then show ?thesis by (simp add: within_def)
qed

theorem retired_worker_stays_idle_witness:
  "live_count (2 * hour) ''w1'' (set_droplet 1 (\<lambda>r. r\<lparr>dr_state := Destroying\<rparr>) (pdb idle_world)) = 0"
proof -
  have "arrive idle_world = idle_world" "dbclock idle_world = hour" by (simp_all add: idle_world_def)
  moreover have "droplet_at 1 (pdb idle_world) = Some worker_row" "dr_name worker_row = ''w1''" "dr_state worker_row = Active"
    "jobs (pdb idle_world) = []" "distinct (map dr_name (droplets (pdb idle_world)))"
    by (simp_all add: droplet_at_def idle_world_def worker_row_def example_db_def)
  moreover have "recorder_run (hour, d) (2 * hour, d)" for d
    by (rule recorder_run.wait [OF recorder_run.start]) simp
  ultimately show ?thesis using retired_worker_stays_idle [OF idle_retired] by simp
qed

end
