(* ===== verification/Demand.thy ===== *)
theory Demand
  imports PoolStore
begin

text \<open>
  Loading the recordings the demand forecast runs on, and the forecasts over the database: the query part of
  \<open>dropletpool/forecast.go\<close>. The query has no order; the model reads the table in its own order, and the forecast does
  not depend on it.
\<close>

text \<open>\<open>COALESCE(..., '')\<close> and the conversion of a missing end to the zero time.\<close>

definition scan_forecast :: "recording \<Rightarrow> forecastRecording" where
  "scan_forecast r = \<lparr>fr_mode = rec_mode r, fr_cronExpr = (case rec_cron_expr r of None \<Rightarrow> [] | Some e \<Rightarrow> e),
     fr_cronTimezone = rec_cron_timezone r, fr_clipDurationSec = rec_clip_duration r,
     fr_dailyWindowStart = (case rec_daily_start r of None \<Rightarrow> [] | Some s \<Rightarrow> s),
     fr_dailyWindowEnd = (case rec_daily_end r of None \<Rightarrow> [] | Some s \<Rightarrow> s),
     fr_envStart = rec_start_at r, fr_envEnd = (case rec_end_at r of None \<Rightarrow> zero_time | Some e \<Rightarrow> e),
     fr_activeWeekdays = rec_weekdays r\<rparr>"

text \<open>\<open>exclude\<close> is the list of excluded ids; \<open>nil\<close> and the empty list both exclude nothing.\<close>

definition capturing :: "gotime \<Rightarrow> bool \<Rightarrow> int list \<Rightarrow> db \<Rightarrow> recording \<Rightarrow> bool" where
  "capturing now billingEnabled exclude d r \<longleftrightarrow> rec_status r = RecActive \<and> rec_start_at r \<le> now \<and>
     (case rec_end_at r of None \<Rightarrow> True | Some e \<Rightarrow> now < e) \<and> rec_capture_via r = ''cloud'' \<and> rec_id r \<notin> set exclude \<and>
     (\<not> billingEnabled \<or> rec_account r \<in> set (payers d))"

definition capturing_recordings :: "gotime \<Rightarrow> bool \<Rightarrow> int list \<Rightarrow> db \<Rightarrow> forecastRecording list" where
  "capturing_recordings now billingEnabled exclude d = map scan_forecast (filter (capturing now billingEnabled exclude d) (recordings d))"

definition loadCapturingRecordings :: "bool \<Rightarrow> int list \<Rightarrow> ('a pool_world_scheme, db_failure + forecastRecording list) state" where
  "loadCapturingRecordings billingEnabled exclude = fetch (\<lambda>now. capturing_recordings now billingEnabled exclude)"

definition ForecastDemand :: "timelib \<Rightarrow> bool \<Rightarrow> gotime \<Rightarrow> duration \<Rightarrow> ('a pool_world_scheme, db_failure + Forecast) state" where
  "ForecastDemand lib billingEnabled now lookahead =
     orfail (loadCapturingRecordings billingEnabled []) (\<lambda>recs. ret (Inr (forecastFromRecordings lib recs now lookahead)))"

section \<open>The preflight of new recordings\<close>

record ForecastCandidate =
  fc_CronExpr :: string
  fc_CronTimezone :: string
  fc_ClipDurationSec :: int
  fc_Mode :: string
  fc_DailyWindowStart :: string
  fc_DailyWindowEnd :: string
  fc_EnvStart :: gotime
  fc_EnvEnd :: gotime
  fc_ActiveWeekdays :: WeekdaySet

definition candidate_recording :: "ForecastCandidate \<Rightarrow> forecastRecording" where
  "candidate_recording c = \<lparr>fr_mode = (if fc_Mode c = [] then ''sampled'' else fc_Mode c), fr_cronExpr = fc_CronExpr c,
     fr_cronTimezone = fc_CronTimezone c, fr_clipDurationSec = fc_ClipDurationSec c,
     fr_dailyWindowStart = fc_DailyWindowStart c, fr_dailyWindowEnd = fc_DailyWindowEnd c,
     fr_envStart = fc_EnvStart c, fr_envEnd = fc_EnvEnd c, fr_activeWeekdays = fc_ActiveWeekdays c\<rparr>"

definition ForecastPeakWithCandidatesExcluding ::
    "timelib \<Rightarrow> bool \<Rightarrow> ForecastCandidate list \<Rightarrow> int list \<Rightarrow> gotime \<Rightarrow> duration \<Rightarrow> ('a pool_world_scheme, db_failure + int) state" where
  "ForecastPeakWithCandidatesExcluding lib billingEnabled candidates exclude now lookahead =
     orfail (loadCapturingRecordings billingEnabled exclude)
       (\<lambda>recs. ret (Inr (PeakConcurrent (forecastFromRecordings lib (recs @ map candidate_recording candidates) now lookahead))))"

definition ForecastPeakWithCandidates ::
    "timelib \<Rightarrow> bool \<Rightarrow> ForecastCandidate list \<Rightarrow> gotime \<Rightarrow> duration \<Rightarrow> ('a pool_world_scheme, db_failure + int) state" where
  "ForecastPeakWithCandidates lib billingEnabled candidates now lookahead =
     ForecastPeakWithCandidatesExcluding lib billingEnabled candidates [] now lookahead"

definition ForecastPeakWithCandidate ::
    "timelib \<Rightarrow> bool \<Rightarrow> string \<Rightarrow> string \<Rightarrow> int \<Rightarrow> gotime \<Rightarrow> duration \<Rightarrow> ('a pool_world_scheme, db_failure + int) state" where
  "ForecastPeakWithCandidate lib billingEnabled cron tz clip now lookahead =
     ForecastPeakWithCandidates lib billingEnabled [\<lparr>fc_CronExpr = cron, fc_CronTimezone = tz, fc_ClipDurationSec = clip,
       fc_Mode = [], fc_DailyWindowStart = [], fc_DailyWindowEnd = [], fc_EnvStart = zero_time, fc_EnvEnd = zero_time,
       fc_ActiveWeekdays = 0\<rparr>] now lookahead"

section \<open>The forecast and the lease query\<close>

text \<open>The forecast loads exactly the recordings whose jobs the cloud lease query admits.\<close>

lemma capturing_iff_leasable:
  "capturing now billingEnabled [] d r \<longleftrightarrow> recording_open now (\<not> billingEnabled) d r \<and> rec_capture_via r = ''cloud''"
  by (auto simp: capturing_def recording_open_def)

lemma forecast_peak:
  assumes "0 < lookahead"
  shows "PeakConcurrent (forecastFromRecordings lib recs now lookahead) =
    peakConcurrency (concat (map (\<lambda>r. fst (expandRecording lib r now (now + lookahead))) recs))"
  using assms forecast_loop_intervals [of lib recs now "now + lookahead" "[]" zero_time]
  by (simp add: forecastFromRecordings_def split_beta)

lemma peak_append:
  assumes "proper xs" "proper ys"
  shows "peakConcurrency xs \<le> peakConcurrency (xs @ ys)" "peakConcurrency ys \<le> peakConcurrency (xs @ ys)"
    "peakConcurrency (xs @ ys) \<le> peakConcurrency xs + peakConcurrency ys"
proof -
  have p: "\<forall>iv \<in> set xs. Start iv < End iv" "\<forall>iv \<in> set ys. Start iv < End iv" "\<forall>iv \<in> set (xs @ ys). Start iv < End iv"
    using assms by (auto simp: proper_def)
  have ge: "overlap xs t + overlap ys t \<le> peakConcurrency (xs @ ys)" for t
    using peak_ge_overlap [OF p(3), of t] by (simp add: overlap_append)
  have "0 \<le> peakConcurrency zs" if "\<forall>iv \<in> set zs. Start iv < End iv" for zs
    using peak_ge_overlap [OF that] overlap_nonneg order_trans by blast
  then have pos: "0 \<le> peakConcurrency xs" "0 \<le> peakConcurrency ys" "0 \<le> peakConcurrency (xs @ ys)" using p by blast+
  show "peakConcurrency xs \<le> peakConcurrency (xs @ ys)"
    using peak_attained [OF p(1)] ge overlap_nonneg [of ys] pos by (metis add_increasing2 order_trans order_refl)
  show "peakConcurrency ys \<le> peakConcurrency (xs @ ys)"
    using peak_attained [OF p(2)] ge overlap_nonneg [of xs] pos by (metis add_increasing order_trans order_refl)
  show "peakConcurrency (xs @ ys) \<le> peakConcurrency xs + peakConcurrency ys"
    using peak_attained [OF p(3)] peak_ge_overlap [OF p(1)] peak_ge_overlap [OF p(2)] pos
    by (metis overlap_append add_mono add_nonneg_nonneg)
qed

section \<open>Properties\<close>

text \<open>The preflight of new recordings is never below what is already committed, nor below the new recordings alone, and
  never above their sum: adding a bundle can only be refused for the capacity it really takes.\<close>

theorem preflight_bundle:
  assumes "run_state (ForecastPeakWithCandidatesExcluding lib billingEnabled cs exclude now lookahead) w = (Inr peak, w')" "0 < lookahead"
  shows "w' = arrive w \<and>
    (let kept = PeakConcurrent (forecastFromRecordings lib
            (capturing_recordings (dbclock w') billingEnabled exclude (pdb w')) now lookahead);
         added = PeakConcurrent (forecastFromRecordings lib (map candidate_recording cs) now lookahead)
     in kept \<le> peak \<and> added \<le> peak \<and> peak \<le> kept + added)"
proof -
  let ?recs = "capturing_recordings (dbclock (arrive w)) billingEnabled exclude (pdb (arrive w))"
  let ?ivs = "\<lambda>recs. concat (map (\<lambda>r. fst (expandRecording lib r now (now + lookahead))) recs)"
  obtain w1 where "run_state (loadCapturingRecordings billingEnabled exclude) w = (Inr ?recs, w1)" "w1 = arrive w"
    and "w' = w1" "peak = PeakConcurrent (forecastFromRecordings lib (?recs @ map candidate_recording cs) now lookahead)"
    using assms(1) unfolding ForecastPeakWithCandidatesExcluding_def loadCapturingRecordings_def
    by (elim orfail_Inr) (auto dest!: fetch_Inr simp del: arrive_simps)
  moreover have "proper (?ivs recs)" for recs by (rule proper_concat) (auto simp: expandRecording_proper)
  then have "peakConcurrency (?ivs ?recs) \<le> peakConcurrency (?ivs ?recs @ ?ivs (map candidate_recording cs))"
    "peakConcurrency (?ivs (map candidate_recording cs)) \<le> peakConcurrency (?ivs ?recs @ ?ivs (map candidate_recording cs))"
    "peakConcurrency (?ivs ?recs @ ?ivs (map candidate_recording cs)) \<le> peakConcurrency (?ivs ?recs) + peakConcurrency (?ivs (map candidate_recording cs))"
    by (rule peak_append; assumption)+
  ultimately show ?thesis
    by (simp add: forecast_peak [OF assms(2)] Let_def del: arrive_simps)
qed

text \<open>Two candidates whose window is always open, next to a recording whose window is always open too.\<close>

definition always_open :: ForecastCandidate where
  "always_open = \<lparr>fc_CronExpr = [], fc_CronTimezone = [], fc_ClipDurationSec = 60, fc_Mode = ''continuous'',
     fc_DailyWindowStart = ''00:00:00'', fc_DailyWindowEnd = ''00:00:00'', fc_EnvStart = 0, fc_EnvEnd = zero_time,
     fc_ActiveWeekdays = AllWeekdays\<rparr>"

definition busy_world :: pool_world where
  "busy_world = \<lparr>pdb = example_db\<lparr>recordings := [all_day]\<rparr>, dbclock = 7 * hour, tape = []\<rparr>"

lemma preflight_example:
  "fst (run_state (ForecastPeakWithCandidatesExcluding example_lib False [always_open, always_open] [] (7 * hour) hour) busy_world) = Inr 3"
  by code_simp

theorem preflight_bundle_witness:
  "PeakConcurrent (forecastFromRecordings example_lib [scan_forecast all_day] (7 * hour) hour) \<le> 3 \<and>
   3 \<le> PeakConcurrent (forecastFromRecordings example_lib [scan_forecast all_day] (7 * hour) hour) +
     PeakConcurrent (forecastFromRecordings example_lib [candidate_recording always_open, candidate_recording always_open] (7 * hour) hour)"
proof -
  obtain w' where "run_state (ForecastPeakWithCandidatesExcluding example_lib False [always_open, always_open] [] (7 * hour) hour) busy_world = (Inr 3, w')"
    using preflight_example by (metis prod.collapse)
  moreover have "capturing_recordings (7 * hour) False [] (pdb busy_world) = [scan_forecast all_day]"
    by (simp add: capturing_recordings_def capturing_def busy_world_def all_day_def example_recording_def)
  moreover have "arrive busy_world = busy_world" "dbclock busy_world = 7 * hour" by (simp_all add: busy_world_def)
  ultimately show ?thesis using preflight_bundle [of example_lib False "[always_open, always_open]" "[]" "7 * hour" hour busy_world 3 w']
    by (auto simp: Let_def)
qed

end
