(* ===== verification/Controller.thy ===== *)
theory Controller
  imports Demand Complex_Main
begin

text \<open>
  The droplet-pool autoscaler: \<open>dropletpool/controller.go\<close>. A tick reads the provider's fleet, reconciles the rows with
  it, retires silent workers, forecasts the demand, and scales or drains. It runs over the store of theory PoolStore, so
  other transactions run, time passes and statements fail between any two of its calls. The provider is a
  parameter: what its calls return is given by the world, and every call that changes something is recorded together
  with the database at that moment. The spend guard's quote and the random secrets are given the same way.
  Logging and cancellation are not modelled; \<open>now\<close> is the instant a tick reads from the process clock.
\<close>

section \<open>Configuration and state\<close>

record PoolConfig =
  pc_OperatorAccountID :: int
  pc_BillingEnabled :: bool
  pc_TickInterval :: duration
  pc_Lookahead :: duration
  pc_Capacity :: int
  pc_ProvisionLead :: duration
  pc_ProvisionTimeout :: duration
  pc_IdleGrace :: duration
  pc_DrainTimeout :: duration
  pc_ScaleUpCooldown :: duration
  pc_ScaleDownCooldown :: duration
  pc_StaleHeartbeatTimeout :: duration
  pc_Min :: int
  pc_Max :: int
  pc_MaxScaleUpBatch :: int
  pc_Region :: string
  pc_Size :: string
  pc_BackendAPIURL :: string
  pc_BuildSHA :: string
  pc_HeartbeatSec :: int
  pc_ReclaimLeases :: bool
  pc_SpendCritical :: "real option"

text \<open>\<open>pc_SpendCritical\<close> is the guard's ceiling, \<open>None\<close> without a guard. Dollars are real numbers.\<close>

definition NewController :: "PoolConfig \<Rightarrow> PoolConfig" where
  "NewController cfg = cfg\<lparr>pc_TickInterval := (if pc_TickInterval cfg \<le> 0 then 30 * second else pc_TickInterval cfg),
     pc_Capacity := (if pc_Capacity cfg \<le> 0 then 1 else pc_Capacity cfg),
     pc_MaxScaleUpBatch := (if pc_MaxScaleUpBatch cfg \<le> 0 then 1 else pc_MaxScaleUpBatch cfg)\<rparr>"

record spendQuote =
  sq_burn :: real
  sq_size :: real
  sq_unavailable :: bool

record fleet_health =
  failureSince :: gotime
  lastFailure :: gotime
  successSince :: gotime
  readFailures :: int
  alerted :: bool

datatype provider_call = CreateCall string db | DeleteCall int db

record pool = pool_world +
  fleet_reply :: "DODroplet list option"
  delete_replies :: "bool list"
  create_replies :: "DODroplet option list"
  quote_reply :: "(real \<times> real) option"
  secrets :: "string option list"
  calls :: "provider_call list"
  spend :: "spendQuote option"
  health :: fleet_health

datatype pool_error = StoreFailed | ProviderFailed | FleetReadFailed | SpendBlocked | NoReplacementSlot | BadUserData

section \<open>Control flow\<close>

text \<open>A store call whose error is returned, one whose error is logged and ends the step, and one whose error is ignored.\<close>

definition store :: "('w, db_failure + 'b) state \<Rightarrow> ('w, pool_error + 'b) state" where
  "store m = State_Monad.bind m (\<lambda>r. ret (case r of Inl _ \<Rightarrow> Inl StoreFailed | Inr a \<Rightarrow> Inr a))"

definition on_ok :: "('w, 'e + 'b) state \<Rightarrow> ('b \<Rightarrow> ('w, unit) state) \<Rightarrow> ('w, unit) state" where
  "on_ok m f = State_Monad.bind m (\<lambda>r. case r of Inl _ \<Rightarrow> ret () | Inr a \<Rightarrow> f a)"

definition logged :: "('w, 'b) state \<Rightarrow> ('w, unit) state" where
  "logged m = State_Monad.bind m (\<lambda>_. ret ())"

definition also_do :: "('w, unit) state \<Rightarrow> ('w, 'b) state \<Rightarrow> ('w, 'b) state" where
  "also_do m k = State_Monad.bind m (\<lambda>_. k)"

section \<open>The provider\<close>

definition DeleteDroplet :: "int \<Rightarrow> (pool, pool_error + unit) state" where
  "DeleteDroplet i = State (\<lambda>w. (if delete_replies w = [] \<or> hd (delete_replies w) then Inr () else Inl ProviderFailed,
     w\<lparr>delete_replies := tl (delete_replies w), calls := calls w @ [DeleteCall i (pdb w)]\<rparr>))"

definition CreateDroplet :: "string \<Rightarrow> (pool, pool_error + DODroplet) state" where
  "CreateDroplet name = State (\<lambda>w. (case create_replies w of Some d # _ \<Rightarrow> Inr d | _ \<Rightarrow> Inl ProviderFailed,
     w\<lparr>create_replies := tl (create_replies w), calls := calls w @ [CreateCall name (pdb w)]\<rparr>))"

definition ListDropletsByName :: "(pool, pool_error + DODroplet list) state" where
  "ListDropletsByName = gets (\<lambda>w. case fleet_reply w of None \<Rightarrow> Inl FleetReadFailed | Some fleet \<Rightarrow> Inr fleet)"

definition generateNodeSecret :: "(pool, string option) state" where
  "generateNodeSecret = State (\<lambda>w. (case secrets w of s # _ \<Rightarrow> s | [] \<Rightarrow> None, w\<lparr>secrets := tl (secrets w)\<rparr>))"

section \<open>Fleet-read incidents\<close>

definition fleetReadSustainedFailureThreshold :: duration where "fleetReadSustainedFailureThreshold = 5 * minute"
definition fleetReadRecoveryDwell :: duration where "fleetReadRecoveryDwell = 5 * minute"

definition noteFleetReadFailure :: "gotime \<Rightarrow> fleet_health \<Rightarrow> bool \<times> fleet_health" where
  "noteFleetReadFailure now h =
     (let h1 = h\<lparr>failureSince := (if is_zero (failureSince h) then now else failureSince h), lastFailure := now,
                 successSince := zero_time, readFailures := readFailures h + 1\<rparr> in
      if alerted h1 \<or> time_sub now (failureSince h1) < fleetReadSustainedFailureThreshold then (False, h1)
      else (True, h1\<lparr>alerted := True\<rparr>))"

definition no_incident :: fleet_health where
  "no_incident = \<lparr>failureSince = zero_time, lastFailure = zero_time, successSince = zero_time, readFailures = 0, alerted = False\<rparr>"

definition noteFleetReadSuccess :: "gotime \<Rightarrow> fleet_health \<Rightarrow> (bool \<times> duration \<times> int \<times> bool) \<times> fleet_health" where
  "noteFleetReadSuccess now h =
     (if is_zero (failureSince h) then ((False, 0, 0, False), h)
      else (let outage = time_sub now (failureSince h); failures = readFailures h;
                h1 = h\<lparr>successSince := (if is_zero (successSince h) then now else successSince h)\<rparr>;
                alert = (\<not> alerted h1 \<and> fleetReadSustainedFailureThreshold \<le> outage \<and> 2 \<le> failures);
                h2 = h1\<lparr>alerted := (alerted h1 \<or> alert)\<rparr> in
            if fleetReadRecoveryDwell \<le> time_sub now (successSince h2) then ((alert, outage, failures, True), no_incident)
            else ((alert, outage, failures, False), h2)))"

section \<open>Tearing down workers\<close>

text \<open>\<open>NodeBinding\<close>'s error is ignored: whatever it found is revoked.\<close>

definition revoke_binding :: "int \<Rightarrow> (pool, unit) state" where
  "revoke_binding i = State_Monad.bind (NodeBinding i) (\<lambda>b. logged (RevokeNodeToken (snd (fst b)) (fst (fst b))))"

definition revokeAndDestroyRow :: "int \<Rightarrow> (pool, unit) state" where
  "revokeAndDestroyRow i = also_do (revoke_binding i) (logged (MarkDestroyed i))"

definition delete_if_bound :: "int option \<Rightarrow> (pool, pool_error + unit) state" where
  "delete_if_bound bound = (case bound of None \<Rightarrow> ret (Inr ()) | Some i \<Rightarrow> DeleteDroplet i)"

definition destroyWorker :: "Droplet \<Rightarrow> (pool, unit) state" where
  "destroyWorker r = on_ok (MarkDestroying (d_ID r)) (\<lambda>_.
     on_ok (delete_if_bound (d_DODropletID r)) (\<lambda>_. revokeAndDestroyRow (d_ID r)))"

definition progressDrains :: "PoolConfig \<Rightarrow> gotime \<Rightarrow> (pool, unit) state" where
  "progressDrains cfg now = on_ok (ListByStates [Draining]) (\<lambda>draining.
     if draining = [] then ret ()
     else also_do (logged ReclaimExpiredLeases) (for_each draining (\<lambda>r.
       on_ok (HasInflightJob (d_Name r)) (\<lambda>busy.
         let forced = (case d_DrainStartedAt r of None \<Rightarrow> False | Some t \<Rightarrow> pc_DrainTimeout cfg \<le> time_sub now t) in
         if busy \<and> \<not> forced then ret () else destroyWorker r))))"

definition reapUnresponsive :: "PoolConfig \<Rightarrow> gotime \<Rightarrow> (pool, unit) state" where
  "reapUnresponsive cfg now =
     (if pc_StaleHeartbeatTimeout cfg \<le> 0 then ret ()
      else on_ok (ListSharedByStates [Active]) (\<lambda>active.
        for_each (UnresponsiveDroplets active now (pc_StaleHeartbeatTimeout cfg)) (\<lambda>r.
          on_ok (BeginDestroyIfIdleAndSilent (d_ID r) (now - pc_StaleHeartbeatTimeout cfg)) (\<lambda>retired.
            if retired then destroyWorker r else ret ()))))"

text \<open>The loop of \<open>beginDrains\<close>: the number of droplets flipped.\<close>

fun drain_loop :: "Droplet list \<Rightarrow> int \<Rightarrow> int \<Rightarrow> (pool, int) state" where
  "drain_loop [] n drained = ret drained"
| "drain_loop (r # rs) n drained =
     (if n \<le> drained then ret drained
      else State_Monad.bind (MarkDraining (d_ID r)) (\<lambda>x. case x of
          Inl _ \<Rightarrow> drain_loop rs n drained | Inr _ \<Rightarrow> drain_loop rs n (drained + 1)))"

definition beginDrains :: "gotime \<Rightarrow> Droplet list \<Rightarrow> int \<Rightarrow> (pool, unit) state" where
  "beginDrains now idleEligible n = State_Monad.bind (drain_loop idleEligible n 0) (\<lambda>drained.
     if 0 < drained then logged (StampScaleDown now) else ret ())"

section \<open>Promotion\<close>

definition workerReadyWindow :: "PoolConfig \<Rightarrow> duration" where
  "workerReadyWindow cfg = (let w = pc_HeartbeatSec cfg * second * 3 in if w < 45 * second then 45 * second else w)"

definition workerBuildReady :: "string \<Rightarrow> string \<Rightarrow> bool" where
  "workerBuildReady desired rep =
     (let want = to_lower (TrimSpace desired) in want = [] \<or> to_lower (TrimSpace rep) = want)"

text \<open>The provider's record of a bound row; with equal ids the last one, as the map built by the loop keeps it.\<close>

definition provider_record :: "DODroplet list \<Rightarrow> Droplet \<Rightarrow> DODroplet option" where
  "provider_record fleet r = (case d_DODropletID r of None \<Rightarrow> None | Some i \<Rightarrow> List.find (\<lambda>x. do_ID x = i) (rev fleet))"

definition fresh_worker :: "PoolConfig \<Rightarrow> gotime \<Rightarrow> Droplet \<Rightarrow> bool" where
  "fresh_worker cfg now r \<longleftrightarrow> (case d_LastSeenAt r of None \<Rightarrow> False | Some t \<Rightarrow> time_sub now t \<le> workerReadyWindow cfg)"

definition worker_ready :: "PoolConfig \<Rightarrow> gotime \<Rightarrow> DODroplet list \<Rightarrow> Droplet \<Rightarrow> bool" where
  "worker_ready cfg now fleet r \<longleftrightarrow> provider_record fleet r \<noteq> None \<and> fresh_worker cfg now r \<and>
     workerBuildReady (pc_BuildSHA cfg) (d_BuildSHA r)"

definition refresh_ip :: "Droplet \<Rightarrow> DODroplet \<Rightarrow> (pool, unit) state" where
  "refresh_ip r x = (case d_DODropletID r of None \<Rightarrow> ret () | Some i \<Rightarrow>
     if do_IP x \<noteq> [] \<and> do_IP x \<noteq> d_IPAddress r then logged (SetDropletID (d_ID r) i (do_IP x)) else ret ())"

definition promoteActive :: "PoolConfig \<Rightarrow> gotime \<Rightarrow> DODroplet list \<Rightarrow> (pool, unit) state" where
  "promoteActive cfg now fleet = on_ok (ListByStates [Provisioning]) (\<lambda>provisioning.
     for_each provisioning (\<lambda>r.
       if \<not> worker_ready cfg now fleet r then ret ()
       else also_do (case provider_record fleet r of None \<Rightarrow> ret () | Some x \<Rightarrow> refresh_ip r x)
              (logged (MarkActive (d_ID r)))))"

section \<open>Reconciling with the fleet\<close>

definition live_states :: "droplet_state list" where "live_states = [Provisioning, Active, Draining, Destroying]"

definition findRowByName :: "string \<Rightarrow> (pool, db_failure + Droplet option) state" where
  "findRowByName name = orfail (ListByStates live_states) (\<lambda>rows. ret (Inr (List.find (\<lambda>r. d_Name r = name) rows)))"

definition adopt :: "DODroplet \<Rightarrow> (pool, unit) state" where
  "adopt x = on_ok (findRowByName (do_Name x)) (\<lambda>row. case row of None \<Rightarrow> ret ()
     | Some r \<Rightarrow> if d_DODropletID r = None then logged (SetDropletID (d_ID r) (do_ID x) (do_IP x)) else ret ())"

definition retire_missing :: "Droplet \<Rightarrow> (pool, unit) state" where
  "retire_missing r = on_ok (BeginDestroyIfIdle (d_ID r)) (\<lambda>retired. if retired then revokeAndDestroyRow (d_ID r) else ret ())"

definition resume_destroying :: "DODroplet list \<Rightarrow> Droplet \<Rightarrow> (pool, unit) state" where
  "resume_destroying fleet r = (case d_DODropletID r of None \<Rightarrow> ret () | Some i \<Rightarrow>
     if d_State r \<noteq> Destroying \<or> i \<notin> do_ID ` set fleet then ret ()
     else on_ok (DeleteDroplet i) (\<lambda>_. revokeAndDestroyRow (d_ID r)))"

definition reap_idle :: "Droplet \<Rightarrow> (pool, unit) state" where
  "reap_idle r = on_ok (BeginDestroyIfIdle (d_ID r)) (\<lambda>retired.
     if \<not> retired then ret ()
     else on_ok (delete_if_bound (d_DODropletID r)) (\<lambda>_.
       also_do (logged (MarkFailed (d_ID r) ''provision timed out'')) (revoke_binding (d_ID r))))"

definition reap_stuck :: "PoolConfig \<Rightarrow> gotime \<Rightarrow> DODroplet list \<Rightarrow> Droplet \<Rightarrow> (pool, unit) state" where
  "reap_stuck cfg now fleet r =
     (if d_State r \<noteq> Provisioning \<or> time_sub now (d_CreatedAt r) < pc_ProvisionTimeout cfg then ret ()
      else on_ok (HasInflightJob (d_Name r)) (\<lambda>busy.
        if busy then (if provider_record fleet r \<noteq> None \<and> fresh_worker cfg now r then logged (MarkActive (d_ID r)) else ret ())
        else reap_idle r))"

definition reconcile :: "PoolConfig \<Rightarrow> gotime \<Rightarrow> (pool, pool_error + unit) state" where
  "reconcile cfg now =
     orfail ListDropletsByName (\<lambda>fleet.
     orfail (store (ListByStates live_states)) (\<lambda>liveRows.
     let plan = ReconcileOrphans fleet liveRows now (pc_ProvisionTimeout cfg) in
     also_do (for_each (AdoptByName plan) adopt)
     (also_do (for_each (DestroyOrphan plan) (\<lambda>x. logged (DeleteDroplet (do_ID x))))
     (also_do (for_each (MissingFromDO plan) retire_missing)
     (also_do (for_each liveRows (resume_destroying fleet))
     (also_do (for_each liveRows (reap_stuck cfg now fleet))
     (also_do (promoteActive cfg now fleet) (ret (Inr ())))))))))"

section \<open>Scaling up\<close>

definition NamePrefix :: string where "NamePrefix = ''stoarama-rec-''"

definition dropletName :: "gotime \<Rightarrow> nat \<Rightarrow> string" where
  "dropletName now batchIndex = NamePrefix @ Itoa now @ ''-'' @ Itoa (int batchIndex)"

text \<open>\<open>BuildUserData\<close>'s checks; rendering the template with checked fields does not fail.\<close>

definition user_data_ok :: "PoolConfig \<Rightarrow> string \<Rightarrow> string \<Rightarrow> bool" where
  "user_data_ok cfg name token \<longleftrightarrow> TrimSpace name \<noteq> [] \<and> TrimSpace token \<noteq> [] \<and> TrimSpace (pc_BackendAPIURL cfg) \<noteq> []"

text \<open>One quote per tick; a failed quote lets every scale-up of the tick pass.\<close>

definition load_quote :: "(pool, spendQuote) state" where
  "load_quote = State (\<lambda>w. let q = (case spend w of Some q \<Rightarrow> q
       | None \<Rightarrow> (case quote_reply w of None \<Rightarrow> \<lparr>sq_burn = 0, sq_size = 0, sq_unavailable = True\<rparr>
           | Some (burn, sz) \<Rightarrow> \<lparr>sq_burn = burn, sq_size = sz, sq_unavailable = False\<rparr>))
     in (q, w\<lparr>spend := Some q\<rparr>))"

definition SpendBlockedSignal :: string where "SpendBlockedSignal = ''do_spend_scaleup_blocked''"

definition checkSpendBudget :: "PoolConfig \<Rightarrow> gotime \<Rightarrow> (pool, pool_error + unit) state" where
  "checkSpendBudget cfg now =
     (case pc_SpendCritical cfg of None \<Rightarrow> ret (Inr ())
      | Some critical \<Rightarrow> State_Monad.bind load_quote (\<lambda>q.
          if sq_unavailable q \<or> sq_burn q + sq_size q \<le> critical then ret (Inr ())
          else also_do (logged (NoteOpsAlert SpendBlockedSignal SpendBlockedSignal now)) (ret (Inl SpendBlocked))))"

definition count_spend :: "(pool, unit) state" where
  "count_spend = modify (\<lambda>w. w\<lparr>spend := map_option (\<lambda>q. q\<lparr>sq_burn := sq_burn q + sq_size q\<rparr>) (spend w)\<rparr>)"

definition failProvision :: "int \<Rightarrow> int \<Rightarrow> int \<Rightarrow> string \<Rightarrow> (pool, unit) state" where
  "failProvision row node token reason =
     also_do (logged (MarkFailed row reason)) (logged (RevokeNodeToken (Some token) (Some node)))"

text \<open>From the written row on.\<close>

definition provision :: "PoolConfig \<Rightarrow> gotime \<Rightarrow> string \<Rightarrow> string \<Rightarrow> int \<Rightarrow> int \<Rightarrow> int \<Rightarrow> (pool, pool_error + unit) state" where
  "provision cfg now name token node nodeToken row =
     (if \<not> user_data_ok cfg name token
      then also_do (failProvision row node nodeToken ''build user data'') (ret (Inl BadUserData))
      else State_Monad.bind (CreateDroplet name) (\<lambda>r. case r of
          Inl e \<Rightarrow> also_do (failProvision row node nodeToken ''create droplet'') (ret (Inl e))
        | Inr x \<Rightarrow> orfail (store (SetDropletID row (do_ID x) (do_IP x))) (\<lambda>_.
            also_do (logged (StampScaleUp now)) (also_do count_spend (ret (Inr ()))))))"

definition scaleUp :: "(string \<Rightarrow> string) \<Rightarrow> PoolConfig \<Rightarrow> gotime \<Rightarrow> nat \<Rightarrow> (pool, pool_error + unit) state" where
  "scaleUp hash cfg now batchIndex =
     orfail (checkSpendBudget cfg now) (\<lambda>_.
     let name = dropletName now batchIndex in
     State_Monad.bind generateNodeSecret (\<lambda>secret.
     orfail (store (MintNodeToken hash secret (pc_OperatorAccountID cfg) name)) (\<lambda>(token, node, nodeToken).
     State_Monad.bind (InsertProvisioning name (pc_Region cfg) (pc_Size cfg) (pc_Capacity cfg) node (pc_BuildSHA cfg)) (\<lambda>r.
     case r of
       Inl _ \<Rightarrow> also_do (logged (RevokeNodeToken (Some nodeToken) (Some node))) (ret (Inl StoreFailed))
     | Inr row \<Rightarrow> provision cfg now name token node nodeToken row))))"

text \<open>\<open>n\<close> scale-ups from batch index \<open>i\<close> on; the first error ends the loop.\<close>

fun scale_up_loop :: "(string \<Rightarrow> string) \<Rightarrow> PoolConfig \<Rightarrow> gotime \<Rightarrow> nat \<Rightarrow> nat \<Rightarrow> (pool, unit) state" where
  "scale_up_loop hash cfg now i 0 = ret ()"
| "scale_up_loop hash cfg now i (Suc n) = on_ok (scaleUp hash cfg now i) (\<lambda>_. scale_up_loop hash cfg now (Suc i) n)"

section \<open>Rolling out a build\<close>

definition canDrainStale :: "int \<Rightarrow> int \<Rightarrow> int \<Rightarrow> nat \<Rightarrow> bool" where
  "canDrainStale activeCapacity candidateCapacity requiredCapacity drainingCount \<longleftrightarrow>
     drainingCount = 0 \<and> 0 < candidateCapacity \<and> requiredCapacity \<le> activeCapacity - candidateCapacity"

fun stale_drain_loop :: "PoolConfig \<Rightarrow> int \<Rightarrow> int \<Rightarrow> nat \<Rightarrow> Droplet list \<Rightarrow> (pool, pool_error + unit) state" where
  "stale_drain_loop cfg activeCapacity required drainingCount [] = ret (Inr ())"
| "stale_drain_loop cfg activeCapacity required drainingCount (r # rs) =
     (if workerBuildReady (pc_BuildSHA cfg) (d_BuildSHA r) \<or> \<not> canDrainStale activeCapacity (d_Capacity r) required drainingCount
      then stale_drain_loop cfg activeCapacity required drainingCount rs
      else orfail (store (MarkDrainingIfIdle (d_ID r))) (\<lambda>drained.
        if drained then ret (Inr ()) else stale_drain_loop cfg activeCapacity required drainingCount rs))"

text \<open>Whether a rollout is in progress, with an error beside it as the code returns both.\<close>

definition rolling :: "(pool, pool_error + unit) state \<Rightarrow> (pool, bool \<times> bool) state" where
  "rolling m = State_Monad.bind m (\<lambda>r. ret (True, case r of Inl _ \<Rightarrow> False | Inr _ \<Rightarrow> True))"

definition rolloutBuild :: "(string \<Rightarrow> string) \<Rightarrow> PoolConfig \<Rightarrow> gotime \<Rightarrow> int \<Rightarrow> nat \<Rightarrow> int \<Rightarrow> (pool, bool \<times> bool) state" where
  "rolloutBuild hash cfg now liveCount nextBatchIndex requiredCapacity =
     (if TrimSpace (pc_BuildSHA cfg) = [] then ret (False, True)
      else State_Monad.bind (ListSharedByStates [Active, Provisioning]) (\<lambda>r. case r of Inl _ \<Rightarrow> ret (False, False) | Inr workers \<Rightarrow>
      let current = (\<lambda>x. workerBuildReady (pc_BuildSHA cfg) (d_BuildSHA x));
          hasStale = (\<exists>x \<in> set workers. d_State x \<noteq> Provisioning \<and> \<not> current x);
          hasCurrentActive = (\<exists>x \<in> set workers. d_State x \<noteq> Provisioning \<and> current x);
          hasCurrentPending = (\<exists>x \<in> set workers. d_State x = Provisioning \<or> current x) in
      if \<not> hasStale then ret (False, True)
      else if \<not> hasCurrentPending then
        (if pc_Max cfg \<le> liveCount then ret (True, False) else rolling (scaleUp hash cfg now nextBatchIndex))
      else if \<not> hasCurrentActive then ret (True, True)
      else rolling (
        orfail (store (ListSharedByStates [Draining])) (\<lambda>draining.
        orfail (store (ListSharedByStates [Active])) (\<lambda>active.
        stale_drain_loop cfg (sum_list (map d_Capacity active)) requiredCapacity (length draining) active)))))"

section \<open>The tick\<close>

definition refreshIdle :: "(pool, unit) state" where
  "refreshIdle = on_ok (ListSharedByStates [Active]) (\<lambda>active. for_each active (\<lambda>r.
     on_ok (HasInflightJob (d_Name r)) (\<lambda>busy. logged (SetIdleSince (d_ID r) (\<not> busy)))))"

text \<open>What the decision is made on: the forecast, the live count, the idle droplets and the cooldown ledger.\<close>

definition decision_params :: "PoolConfig \<Rightarrow> gotime \<Rightarrow> Forecast \<Rightarrow> int \<Rightarrow> nat \<Rightarrow> PoolState \<Rightarrow> DecisionParams" where
  "decision_params cfg now forecast liveCount idle ps = \<lparr>p_Now = now, p_Forecast = forecast, p_Live = liveCount, p_IdleEligible = int idle,
     p_PoolState = ps, p_Capacity = pc_Capacity cfg, p_Min = pc_Min cfg, p_Max = pc_Max cfg,
     p_MaxScaleUpBatch = pc_MaxScaleUpBatch cfg, p_ProvisionLead = pc_ProvisionLead cfg, p_IdleGrace = pc_IdleGrace cfg,
     p_ScaleUpCooldown = pc_ScaleUpCooldown cfg, p_ScaleDownCooldown = pc_ScaleDownCooldown cfg\<rparr>"

text \<open>The part of a tick that acts on a decision.\<close>

definition act :: "(string \<Rightarrow> string) \<Rightarrow> PoolConfig \<Rightarrow> gotime \<Rightarrow> Forecast \<Rightarrow> int \<Rightarrow> Droplet list \<Rightarrow> Decision \<Rightarrow> (pool, unit) state" where
  "act hash cfg now forecast liveCount idleEligible decision =
     also_do (scale_up_loop hash cfg now 0 (nat (ScaleUpCount decision)))
     (let requiredCapacity = max (PeakConcurrent forecast) (pc_Min cfg * pc_Capacity cfg) in
      State_Monad.bind (rolloutBuild hash cfg now (liveCount + ScaleUpCount decision) (nat (ScaleUpCount decision)) requiredCapacity)
        (\<lambda>(rollingBuild, ok).
      also_do (if \<not> rollingBuild \<and> 0 < DrainCount decision then beginDrains now idleEligible (DrainCount decision) else ret ())
        (progressDrains cfg now)))"

text \<open>After a successful reconcile.\<close>

definition scale_phase :: "(string \<Rightarrow> string) \<Rightarrow> timelib \<Rightarrow> PoolConfig \<Rightarrow> gotime \<Rightarrow> (pool, pool_error + unit) state" where
  "scale_phase hash lib cfg now =
     also_do (reapUnresponsive cfg now) (also_do refreshIdle (
     orfail (store (ForecastDemand lib (pc_BillingEnabled cfg) now (pc_Lookahead cfg))) (\<lambda>forecast.
     orfail (store CountLive) (\<lambda>liveCount.
     orfail (store (CountLiveByRole DedicatedCanary)) (\<lambda>_.
     orfail (store (ListSharedByStates [Active])) (\<lambda>active.
     let idleEligible = IdleEligibleDroplets active now (pc_IdleGrace cfg) in
     orfail (store LoadPoolState) (\<lambda>ps.
     also_do (act hash cfg now forecast liveCount idleEligible (Decide (decision_params cfg now forecast liveCount (length idleEligible) ps)))
       (ret (Inr ())))))))))"

definition note_health :: "(fleet_health \<Rightarrow> 'b \<times> fleet_health) \<Rightarrow> (pool, 'b) state" where
  "note_health f = State (\<lambda>w. (fst (f (health w)), w\<lparr>health := snd (f (health w))\<rparr>))"

definition pool_tick :: "(string \<Rightarrow> string) \<Rightarrow> timelib \<Rightarrow> PoolConfig \<Rightarrow> gotime \<Rightarrow> (pool, pool_error + unit) state" where
  "pool_tick hash lib cfg now =
     also_do (modify (\<lambda>w. w\<lparr>spend := None\<rparr>))
     (also_do (if pc_ReclaimLeases cfg then logged ReclaimExpiredLeases else ret ())
     (State_Monad.bind (reconcile cfg now) (\<lambda>r. case r of
        Inl FleetReadFailed \<Rightarrow> also_do (logged (note_health (noteFleetReadFailure now))) (ret (Inr ()))
      | Inl e \<Rightarrow> ret (Inl e)
      | Inr _ \<Rightarrow> also_do (logged (note_health (noteFleetReadSuccess now))) (scale_phase hash lib cfg now))))"

end
