(* ===== verification/ControllerCalls.thy ===== *)
theory ControllerCalls
  imports Controller
begin

text \<open>
  What the controller's steps leave alone, as \<open>keeps\<close> rules for every method of the store and every step of a tick, and
  the provider calls a scale-up makes: how many droplets it asks for, at what spend, and after which rows.
\<close>

section \<open>What store calls leave alone\<close>

text \<open>A condition on the part of the world that the store does not touch.\<close>

definition external :: "(pool \<Rightarrow> bool) \<Rightarrow> bool" where
  "external I \<longleftrightarrow> (\<forall>w d c t. I w \<longrightarrow> I (w\<lparr>pdb := d, dbclock := c, tape := t\<rparr>))"

lemma transaction_frame:
  "\<exists>d c t. snd (run_state (transaction body) w) = w\<lparr>pdb := d, dbclock := c, tape := t\<rparr>"
proof -
  obtain r w' where run: "run_state (transaction body) w = (r, w')" by fastforce
  have "\<exists>d. w' = (arrive w)\<lparr>pdb := d\<rparr>"
  proof (cases r)
    case (Inl e)
    show ?thesis using transaction_Inl [OF run [unfolded Inl]] by (metis update_same_pdb)
  next
    case (Inr a)
    from transaction_Inr [OF run [unfolded Inr]] show ?thesis by blast
  qed
  moreover have "(arrive w)\<lparr>pdb := d\<rparr> = w\<lparr>pdb := d, dbclock := dbclock (arrive w), tape := tape (arrive w)\<rparr>" for d
    by (simp add: arrive_def)
  ultimately show ?thesis using run by (metis snd_conv)
qed

lemma keeps_transaction: "external I \<Longrightarrow> keeps I (transaction body)"
proof (rule keepsI)
  fix w assume I: "external I" "I w"
  obtain d c t where "snd (run_state (transaction body) w) = w\<lparr>pdb := d, dbclock := c, tape := t\<rparr>"
    using transaction_frame [of body w] by blast
  then show "I (snd (run_state (transaction body) w))" using I by (simp add: external_def)
qed

lemma keeps_command: "external I \<Longrightarrow> keeps I (command f)"
  unfolding command_def by (rule keeps_transaction)

lemma keeps_fetch: "external I \<Longrightarrow> keeps I (fetch f)"
  unfolding fetch_def by (rule keeps_command)

lemma keeps_store [valid_intro]: "keeps I m \<Longrightarrow> keeps I (store m)"
  unfolding store_def by (intro valid_intro)

lemma keeps_on_ok [valid_intro]: "keeps I m \<Longrightarrow> (\<And>x. keeps I (f x)) \<Longrightarrow> keeps I (on_ok m f)"
  unfolding on_ok_def by (intro valid_intro)

lemma keeps_logged [valid_intro]: "keeps I m \<Longrightarrow> keeps I (logged m)"
  unfolding logged_def by (intro valid_intro)

lemma keeps_also_do [valid_intro]: "keeps I m \<Longrightarrow> keeps I k \<Longrightarrow> keeps I (also_do m k)"
  unfolding also_do_def by (intro valid_intro)

text \<open>Every method of the store.\<close>

lemma keeps_store_ops:
  assumes "external I"
  shows "keeps I (ListByStates ss)" "keeps I (ListSharedByStates ss)" "keeps I CountLive" "keeps I (CountLiveByRole role)"
    "keeps I (MintNodeToken hash secret account name)" "keeps I (RevokeNodeToken t n)" "keeps I (NodeBinding i)"
    "keeps I (InsertProvisioning name region sz cap node build)" "keeps I (SetDropletID i x ip)" "keeps I (MarkActive i)"
    "keeps I (BeginDestroyIfIdle i)" "keeps I (BeginDestroyIfIdleAndSilent i u)" "keeps I (MarkDraining i)" "keeps I (MarkDestroying i)"
    "keeps I (MarkDestroyed i)" "keeps I (MarkFailed i reason)" "keeps I (MarkDrainingIfIdle i)" "keeps I (SetIdleSince i b)"
    "keeps I (HasInflightJob name)" "keeps I ReclaimExpiredLeases" "keeps I LoadPoolState" "keeps I (StampScaleUp u)"
    "keeps I (StampScaleDown u)" "keeps I (NoteOpsAlert key signal u)" "keeps I (ForecastDemand lib b now lookahead)"
  unfolding ListByStates_def ListSharedByStates_def CountLive_def CountLiveByRole_def MintNodeToken_def RevokeNodeToken_def NodeBinding_def
    InsertProvisioning_def InsertProvisioningWithRole_def SetDropletID_def MarkActive_def BeginDestroyIfIdle_def
    BeginDestroyIfIdleAndSilent_def beginDestroy_def MarkDraining_def MarkDestroying_def MarkDestroyed_def MarkFailed_def setState_def
    MarkDrainingIfIdle_def SetIdleSince_def HasInflightJob_def ReclaimExpiredLeases_def LoadPoolState_def StampScaleUp_def
    StampScaleDown_def NoteOpsAlert_def ForecastDemand_def loadCapturingRecordings_def Let_def
  by (intro valid_intro keeps_transaction keeps_command keeps_fetch assms)+

text \<open>Conditions that provider deletions do not touch either are kept by everything but scaling up.\<close>

definition delete_blind :: "(pool \<Rightarrow> bool) \<Rightarrow> bool" where
  "delete_blind I \<longleftrightarrow> external I \<and> (\<forall>w i rs. I w \<longrightarrow> I (w\<lparr>delete_replies := rs, calls := calls w @ [DeleteCall i (pdb w)]\<rparr>))"

lemma keeps_DeleteDroplet: "delete_blind I \<Longrightarrow> keeps I (DeleteDroplet i)"
  by (intro keepsI) (simp add: DeleteDroplet_def delete_blind_def)

lemma keeps_delete_if_bound: "delete_blind I \<Longrightarrow> keeps I (delete_if_bound b)"
  by (cases b) (auto simp: delete_if_bound_def intro: valid_intro keeps_DeleteDroplet)

lemma keeps_List: "keeps I ListDropletsByName"
  unfolding ListDropletsByName_def by (intro valid_intro)

lemma keeps_teardown:
  assumes "external I"
  shows "keeps I (revoke_binding i)" "keeps I (revokeAndDestroyRow i)" "keeps I (adopt x)" "keeps I (retire_missing r)"
    "keeps I (promoteActive cfg now fleet)" "keeps I refreshIdle" "keeps I (beginDrains now rs n)"
proof -
  note ops = keeps_store_ops [OF assms]
  show b: "keeps I (revoke_binding i)" for i
    unfolding revoke_binding_def by (intro valid_intro ops)
  show r: "keeps I (revokeAndDestroyRow i)" for i
    unfolding revokeAndDestroyRow_def by (intro valid_intro ops b)
  show "keeps I (adopt x)"
    unfolding adopt_def findRowByName_def by (intro valid_intro ops)
  show "keeps I (retire_missing r)"
    unfolding retire_missing_def by (intro valid_intro ops r)
  show "keeps I (promoteActive cfg now fleet)"
    unfolding promoteActive_def refresh_ip_def by (intro valid_intro ops)
  show "keeps I refreshIdle" unfolding refreshIdle_def by (intro valid_intro ops)
  have "keeps I (drain_loop rs n k)" for k
    by (induction rs n k rule: drain_loop.induct) (auto intro!: valid_intro ops)
  then show "keeps I (beginDrains now rs n)" unfolding beginDrains_def by (intro valid_intro ops)
qed

lemma keeps_no_scale:
  assumes "delete_blind I"
  shows "keeps I (reconcile cfg now)" "keeps I (destroyWorker r)" "keeps I (progressDrains cfg now)" "keeps I (reapUnresponsive cfg now)"
proof -
  have e: "external I" using assms by (simp add: delete_blind_def)
  note ops = keeps_store_ops [OF e] keeps_teardown [OF e] keeps_DeleteDroplet [OF assms] keeps_delete_if_bound [OF assms] keeps_List
  show d: "keeps I (destroyWorker r)" for r
    unfolding destroyWorker_def by (intro valid_intro ops)
  show "keeps I (progressDrains cfg now)"
    unfolding progressDrains_def Let_def by (intro valid_intro ops d)
  show "keeps I (reapUnresponsive cfg now)"
    unfolding reapUnresponsive_def by (intro valid_intro ops d)
  show "keeps I (reconcile cfg now)"
    unfolding reconcile_def resume_destroying_def reap_stuck_def reap_idle_def Let_def by (intro valid_intro ops)
qed

lemma valid_keeps: "keeps I m \<Longrightarrow> valid I m (\<lambda>_. I)"
  by (simp add: keeps_def)

lemma valid_orfail:
  "valid P m (\<lambda>r w. case r of Inl e \<Rightarrow> Q (Inl e) w | Inr x \<Rightarrow> R x w) \<Longrightarrow> (\<And>x. valid (R x) (f x) Q) \<Longrightarrow> valid P (orfail m f) Q"
proof -
  assume m: "valid P m (\<lambda>r w. case r of Inl e \<Rightarrow> Q (Inl e) w | Inr x \<Rightarrow> R x w)" and f: "\<And>x. valid (R x) (f x) Q"
  have "valid (case r of Inl e \<Rightarrow> Q (Inl e) | Inr x \<Rightarrow> R x) (case r of Inl e \<Rightarrow> ret (Inl e) | Inr x \<Rightarrow> f x) Q" for r
    using f by (cases r) (auto intro: valid_ret)
  moreover have "valid P m (\<lambda>r. case r of Inl e \<Rightarrow> Q (Inl e) | Inr x \<Rightarrow> R x)"
    by (rule valid_weaken [OF m]) (auto split: sum.splits)
  ultimately show ?thesis unfolding orfail_def by (intro valid_bind) assumption
qed

lemma valid_also_do: "valid P m (\<lambda>_. R) \<Longrightarrow> valid R k Q \<Longrightarrow> valid P (also_do m k) Q"
  unfolding also_do_def by (rule valid_bind)

lemma valid_on_ok:
  assumes "valid P m (\<lambda>r w. case r of Inl e \<Rightarrow> Q () w | Inr x \<Rightarrow> R x w)" "\<And>x. valid (R x) (f x) Q"
  shows "valid P (on_ok m f) Q"
proof -
  have "valid (case r of Inl e \<Rightarrow> Q () | Inr x \<Rightarrow> R x) (case r of Inl e \<Rightarrow> ret () | Inr x \<Rightarrow> f x) Q" for r
    using assms(2) by (cases r) (auto intro: valid_ret)
  moreover have "valid P m (\<lambda>r. case r of Inl e \<Rightarrow> Q () | Inr x \<Rightarrow> R x)"
    by (rule valid_weaken [OF assms(1)]) (auto split: sum.splits)
  ultimately show ?thesis unfolding on_ok_def by (intro valid_bind) assumption
qed

lemma valid_store: "valid P m (\<lambda>r w. case r of Inl e \<Rightarrow> Q (Inl StoreFailed) w | Inr x \<Rightarrow> Q (Inr x) w) \<Longrightarrow> valid P (store m) Q"
  unfolding store_def by (rule valid_bind) (auto simp: valid_def split: sum.splits)

text \<open>The common case: the call keeps the condition, whatever it returns.\<close>

lemma valid_orfail_keeps:
  "keeps P m \<Longrightarrow> (\<And>e w. P w \<Longrightarrow> Q (Inl e) w) \<Longrightarrow> (\<And>x. valid P (f x) Q) \<Longrightarrow> valid P (orfail m f) Q"
  by (rule valid_orfail [where R = "\<lambda>_. P"]) (auto simp: keeps_def valid_def split_beta split: sum.splits)

lemma valid_bind_keeps: "keeps P m \<Longrightarrow> (\<And>x. valid P (f x) Q) \<Longrightarrow> valid P (State_Monad.bind m f) Q"
  unfolding keeps_def by (rule valid_bind)

lemma valid_also_keeps: "keeps P m \<Longrightarrow> valid P k Q \<Longrightarrow> valid P (also_do m k) Q"
  unfolding keeps_def by (rule valid_also_do)

section \<open>Scaling up: the calls it makes\<close>

definition is_create :: "provider_call \<Rightarrow> bool" where
  "is_create c = (case c of CreateCall _ _ \<Rightarrow> True | DeleteCall _ _ \<Rightarrow> False)"

definition creates :: "pool \<Rightarrow> nat" where
  "creates w = length (filter is_create (calls w))"

lemma creates_simps [simp]:
  "creates (w\<lparr>pdb := d\<rparr>) = creates w" "creates (w\<lparr>dbclock := t\<rparr>) = creates w" "creates (w\<lparr>tape := ts\<rparr>) = creates w"
  "creates (w\<lparr>delete_replies := rs\<rparr>) = creates w" "creates (w\<lparr>create_replies := cs\<rparr>) = creates w" "creates (w\<lparr>secrets := ss\<rparr>) = creates w"
  "creates (w\<lparr>spend := q\<rparr>) = creates w" "creates (w\<lparr>health := h\<rparr>) = creates w"
  "creates (w\<lparr>calls := xs @ [CreateCall name d]\<rparr>) = Suc (creates (w\<lparr>calls := xs\<rparr>))"
  "creates (w\<lparr>calls := xs @ [DeleteCall i d]\<rparr>) = creates (w\<lparr>calls := xs\<rparr>)" "creates (w\<lparr>calls := calls w\<rparr>) = creates w"
  by (simp_all add: creates_def is_create_def)

subsection \<open>The spend ceiling\<close>

text \<open>After \<open>k\<close> droplets of this tick: the quote has grown with them, and what was created is within the ceiling.\<close>

definition spending :: "real \<Rightarrow> real \<Rightarrow> real \<Rightarrow> nat \<Rightarrow> nat \<Rightarrow> pool \<Rightarrow> bool" where
  "spending crit b s c k w \<longleftrightarrow> creates w = c + k \<and> (k = 0 \<or> b + real k * s \<le> crit) \<and>
     ((spend w = None \<and> k = 0 \<and> quote_reply w = Some (b, s)) \<or> spend w = Some \<lparr>sq_burn = b + real k * s, sq_size = s, sq_unavailable = False\<rparr>)"

definition approved :: "real \<Rightarrow> real \<Rightarrow> real \<Rightarrow> nat \<Rightarrow> nat \<Rightarrow> pool \<Rightarrow> bool" where
  "approved crit b s c k w \<longleftrightarrow> creates w = c + k \<and> (k = 0 \<or> b + real k * s \<le> crit) \<and> b + real (Suc k) * s \<le> crit \<and>
     spend w = Some \<lparr>sq_burn = b + real k * s, sq_size = s, sq_unavailable = False\<rparr>"

definition bought :: "real \<Rightarrow> real \<Rightarrow> real \<Rightarrow> nat \<Rightarrow> nat \<Rightarrow> pool \<Rightarrow> bool" where
  "bought crit b s c k w \<longleftrightarrow> creates w = c + Suc k \<and> b + real (Suc k) * s \<le> crit \<and>
     spend w = Some \<lparr>sq_burn = b + real k * s, sq_size = s, sq_unavailable = False\<rparr>"

definition under_ceiling :: "real \<Rightarrow> real \<Rightarrow> real \<Rightarrow> nat \<Rightarrow> pool \<Rightarrow> bool" where
  "under_ceiling crit b s c w \<longleftrightarrow> (\<exists>m. creates w = c + m \<and> (m = 0 \<or> b + real m * s \<le> crit))"

lemma spending_external: "external (spending crit b s c k)" "external (approved crit b s c k)" "external (bought crit b s c k)"
    "external (under_ceiling crit b s c)"
  by (simp_all add: external_def spending_def approved_def bought_def under_ceiling_def)

lemma spending_under:
  "spending crit b s c k w \<Longrightarrow> under_ceiling crit b s c w" "approved crit b s c k w \<Longrightarrow> under_ceiling crit b s c w"
  "bought crit b s c k w \<Longrightarrow> under_ceiling crit b s c w"
  unfolding spending_def approved_def bought_def under_ceiling_def by blast+

lemma check_approves:
  assumes "pc_SpendCritical cfg = Some crit"
  shows "valid (spending crit b s c k) (checkSpendBudget cfg now)
    (\<lambda>r w. case r of Inl e \<Rightarrow> under_ceiling crit b s c w | Inr _ \<Rightarrow> approved crit b s c k w)"
proof -
  have "valid (spending crit b s c k) load_quote (\<lambda>q w. spending crit b s c k w \<and> spend w = Some q \<and> q = \<lparr>sq_burn = b + real k * s, sq_size = s, sq_unavailable = False\<rparr>)"
    by (auto simp: load_quote_def valid_def Let_def spending_def)
  then show ?thesis unfolding checkSpendBudget_def assms option.case
  proof (rule valid_bind)
    fix q
    have ops: "keeps (under_ceiling crit b s c) (logged (NoteOpsAlert SpendBlockedSignal SpendBlockedSignal now))"
      by (intro valid_intro keeps_store_ops spending_external)
    show "valid (\<lambda>w. spending crit b s c k w \<and> spend w = Some q \<and> q = \<lparr>sq_burn = b + real k * s, sq_size = s, sq_unavailable = False\<rparr>)
        (if sq_unavailable q \<or> sq_burn q + sq_size q \<le> crit then ret (Inr ())
         else also_do (logged (NoteOpsAlert SpendBlockedSignal SpendBlockedSignal now)) (ret (Inl SpendBlocked)))
        (\<lambda>r w. case r of Inl e \<Rightarrow> under_ceiling crit b s c w | Inr _ \<Rightarrow> approved crit b s c k w)"
    proof (cases "sq_unavailable q \<or> sq_burn q + sq_size q \<le> crit")
      case True
      then show ?thesis by (auto intro!: valid_ret simp: spending_def approved_def algebra_simps)
    next
      case False
      have "valid (under_ceiling crit b s c) (also_do (logged (NoteOpsAlert SpendBlockedSignal SpendBlockedSignal now)) (ret (Inl SpendBlocked)))
        (\<lambda>r w. case r of Inl e \<Rightarrow> under_ceiling crit b s c w | Inr _ \<Rightarrow> approved crit b s c k w)"
        by (rule valid_also_keeps [OF ops]) (simp add: valid_ret)
      then have "valid (\<lambda>w. spending crit b s c k w \<and> spend w = Some q \<and> q = \<lparr>sq_burn = b + real k * s, sq_size = s, sq_unavailable = False\<rparr>)
        (also_do (logged (NoteOpsAlert SpendBlockedSignal SpendBlockedSignal now)) (ret (Inl SpendBlocked)))
        (\<lambda>r w. case r of Inl e \<Rightarrow> under_ceiling crit b s c w | Inr _ \<Rightarrow> approved crit b s c k w)"
        by (rule valid_weaken) (auto dest: spending_under)
      then show ?thesis using False by simp
    qed
  qed
qed

definition spend_step :: "real \<Rightarrow> real \<Rightarrow> real \<Rightarrow> nat \<Rightarrow> nat \<Rightarrow> pool_error + unit \<Rightarrow> pool \<Rightarrow> bool" where
  "spend_step crit b s c k r w = (case r of Inl e \<Rightarrow> under_ceiling crit b s c w | Inr _ \<Rightarrow> spending crit b s c (Suc k) w)"

lemma keeps_failProvision: "external I \<Longrightarrow> keeps I (failProvision row node token reason)"
  unfolding failProvision_def by (intro valid_intro keeps_store_ops)

lemma fails_under:
  assumes "keeps I m" "\<And>w. I w \<Longrightarrow> under_ceiling crit b s c w"
  shows "valid I (also_do m (ret (Inl e))) (spend_step crit b s c k)"
  by (rule valid_also_keeps [OF assms(1)]) (auto intro: valid_ret simp: spend_step_def assms(2))

lemma provision_spends: "valid (approved crit b s c k) (provision cfg now name token node nodeToken row) (spend_step crit b s c k)"
proof (cases "user_data_ok cfg name token")
  case False
  have "keeps (approved crit b s c k) (failProvision row node nodeToken ''build user data'')"
    by (intro keeps_failProvision spending_external)
  then show ?thesis unfolding provision_def using False spending_under(2) by (simp add: fails_under)
next
  case True
  have create: "valid (approved crit b s c k) (CreateDroplet name) (\<lambda>_. bought crit b s c k)"
    by (auto simp: valid_def CreateDroplet_def approved_def bought_def)
  have bought: "keeps (bought crit b s c k) (SetDropletID row i ip)" "keeps (bought crit b s c k) (logged (StampScaleUp now))"
    "keeps (bought crit b s c k) (failProvision row node nodeToken x)" for i ip x
    by (intro valid_intro keeps_store_ops keeps_failProvision spending_external)+
  have "valid (bought crit b s c k) (also_do count_spend (ret (Inr ()))) (spend_step crit b s c k)"
    by (rule valid_also_do [where R = "spending crit b s c (Suc k)"])
      (auto intro!: valid_ret simp: count_spend_def spend_step_def valid_def bought_def spending_def algebra_simps)
  then have paid: "valid (bought crit b s c k) (orfail (store (SetDropletID row (do_ID x) (do_IP x)))
      (\<lambda>_. also_do (logged (StampScaleUp now)) (also_do count_spend (ret (Inr ()))))) (spend_step crit b s c k)" for x
    by (intro valid_orfail_keeps keeps_store bought(1) valid_also_keeps [OF bought(2)])
      (auto simp: spend_step_def intro: spending_under)
  show ?thesis unfolding provision_def using True
    by (simp, intro valid_bind [OF create]) (auto split: sum.split intro!: paid fails_under bought spending_under(3))
qed

lemma scaleUp_spends:
  assumes "pc_SpendCritical cfg = Some crit"
  shows "valid (spending crit b s c k) (scaleUp hash cfg now i) (spend_step crit b s c k)"
proof -
  have secret: "keeps (approved crit b s c k) generateNodeSecret"
    by (intro keepsI) (simp add: generateNodeSecret_def approved_def)
  have keep: "keeps (approved crit b s c k) (store (MintNodeToken hash secret account name))"
    "keeps (approved crit b s c k) (InsertProvisioning name region sz cap node build)"
    "keeps (approved crit b s c k) (logged (RevokeNodeToken t n))" for secret account name region sz cap node build t n
    by (intro valid_intro keeps_store_ops spending_external)+
  have inserted: "valid (approved crit b s c k) (case r of
       Inl _ \<Rightarrow> also_do (logged (RevokeNodeToken (Some nodeToken) (Some node))) (ret (Inl StoreFailed))
     | Inr row \<Rightarrow> provision cfg now name token node nodeToken row) (spend_step crit b s c k)" for r name token node nodeToken
    by (cases r) (auto intro!: fails_under keep provision_spends spending_under(2))
  have rest: "valid (approved crit b s c k) (State_Monad.bind generateNodeSecret (\<lambda>secret.
     orfail (store (MintNodeToken hash secret (pc_OperatorAccountID cfg) name)) (\<lambda>(token, node, nodeToken).
     State_Monad.bind (InsertProvisioning name (pc_Region cfg) (pc_Size cfg) (pc_Capacity cfg) node (pc_BuildSHA cfg)) (\<lambda>r.
     case r of
       Inl _ \<Rightarrow> also_do (logged (RevokeNodeToken (Some nodeToken) (Some node))) (ret (Inl StoreFailed))
     | Inr row \<Rightarrow> provision cfg now name token node nodeToken row)))) (spend_step crit b s c k)" for name
    by (intro valid_bind_keeps [OF secret] valid_orfail_keeps [OF keep(1)])
      (auto intro!: valid_bind_keeps [OF keep(2)] inserted simp: spend_step_def intro: spending_under split: prod.split)
  show ?thesis unfolding scaleUp_def Let_def
    by (rule valid_orfail [where R = "\<lambda>_. approved crit b s c k"])
      (auto intro: valid_weaken [OF check_approves [OF assms]] rest simp: spend_step_def split: sum.splits)
qed

lemma loop_spends:
  assumes "pc_SpendCritical cfg = Some crit"
  shows "valid (spending crit b s c k) (scale_up_loop hash cfg now i n) (\<lambda>_. under_ceiling crit b s c)"
proof (induction n arbitrary: i k)
  case 0
  then show ?case by (auto intro: valid_ret spending_under)
next
  case (Suc n)
  show ?case unfolding scale_up_loop.simps
    by (rule valid_on_ok [where R = "\<lambda>_. spending crit b s c (Suc k)"])
      (auto intro: Suc.IH valid_weaken [OF scaleUp_spends [OF assms]] simp: spend_step_def split: sum.splits)
qed

subsection \<open>The number of creations\<close>

definition at_most :: "nat \<Rightarrow> pool \<Rightarrow> bool" where
  "at_most c w \<longleftrightarrow> creates w \<le> c"

lemma at_most_blind: "delete_blind (at_most c)"
  by (simp add: delete_blind_def external_def at_most_def)

lemma at_most_external: "external (at_most c)"
  using at_most_blind by (simp add: delete_blind_def)

lemma at_most_mono: "valid P m (\<lambda>_. at_most c) \<Longrightarrow> c \<le> c' \<Longrightarrow> valid P m (\<lambda>_. at_most c')"
  by (erule valid_weaken) (auto simp: at_most_def)

lemma valid_if: "(b \<Longrightarrow> valid P m Q) \<Longrightarrow> (\<not> b \<Longrightarrow> valid P n Q) \<Longrightarrow> valid P (if b then m else n) Q"
  by simp

lemma valid_case_sum:
  "(\<And>e. valid P (f e) Q) \<Longrightarrow> (\<And>x. valid P (g x) Q) \<Longrightarrow> valid P (case r of Inl e \<Rightarrow> f e | Inr x \<Rightarrow> g x) Q"
  by (cases r) simp_all

lemma at_most_ret [intro!]: "c \<le> c' \<Longrightarrow> valid (at_most c) (ret x) (\<lambda>_. at_most c')"
  by (rule valid_ret) (simp add: at_most_def)

lemma provision_creates: "valid (at_most c) (provision cfg now name token node nodeToken row) (\<lambda>_. at_most (Suc c))"
proof -
  have create: "valid (at_most c) (CreateDroplet name) (\<lambda>_. at_most (Suc c))"
    by (auto simp: valid_def CreateDroplet_def at_most_def)
  have fp: "keeps (at_most k) (failProvision row node nodeToken x)" for k x
    by (rule keeps_failProvision [OF at_most_external])
  have "keeps (at_most k) count_spend" for k by (intro keepsI) (simp add: count_spend_def at_most_def)
  then have after: "keeps (at_most (Suc c)) (case r of Inl e \<Rightarrow> also_do (failProvision row node nodeToken ''create droplet'') (ret (Inl e))
        | Inr x \<Rightarrow> orfail (store (SetDropletID row (do_ID x) (do_IP x))) (\<lambda>_.
            also_do (logged (StampScaleUp now)) (also_do count_spend (ret (Inr ())))))" for r
    by (intro valid_intro keeps_store_ops at_most_external fp)
  show ?thesis unfolding provision_def
    by (intro valid_if valid_also_keeps [OF fp] valid_bind [OF create]) (auto intro: valid_keeps [OF after])
qed

lemma scaleUp_creates: "valid (at_most c) (scaleUp hash cfg now i) (\<lambda>_. at_most (Suc c))"
proof -
  have q: "keeps (at_most c) load_quote" "keeps (at_most c) generateNodeSecret"
    by (intro keepsI; simp add: load_quote_def generateNodeSecret_def Let_def at_most_def)+
  have check: "keeps (at_most c) (checkSpendBudget cfg now)"
    unfolding checkSpendBudget_def by (intro valid_intro keeps_store_ops at_most_external q)
  have mint: "keeps (at_most c) (store (MintNodeToken hash secret account name))" "keeps (at_most c) (InsertProvisioning name region sz cap node build)"
    for secret account name region sz cap node build
    by (intro valid_intro keeps_store_ops at_most_external)+
  have revoke: "valid (at_most c) (also_do (logged (RevokeNodeToken t n)) (ret x)) (\<lambda>_. at_most (Suc c))" for t n and x :: "pool_error + unit"
    by (rule valid_also_keeps [of "at_most c"]) (intro valid_intro keeps_store_ops at_most_external, auto)
  have ins: "valid (at_most c) (case r of
       Inl _ \<Rightarrow> also_do (logged (RevokeNodeToken (Some nodeToken) (Some node))) (ret (Inl StoreFailed))
     | Inr row \<Rightarrow> provision cfg now name token node nodeToken row) (\<lambda>_. at_most (Suc c))" for r name token node nodeToken
    by (cases r) (auto intro!: revoke provision_creates)
  show ?thesis unfolding scaleUp_def Let_def
    by (intro valid_orfail_keeps [OF check] valid_bind_keeps [OF q(2)] valid_orfail_keeps [OF mint(1)])
      (auto simp: at_most_def intro!: valid_bind_keeps [OF mint(2)] ins split: prod.split)
qed

lemma loop_creates: "valid (at_most c) (scale_up_loop hash cfg now i n) (\<lambda>_. at_most (c + n))"
proof (induction n arbitrary: i c)
  case (Suc n)
  show ?case unfolding scale_up_loop.simps
    by (rule valid_on_ok [where R = "\<lambda>_. at_most (Suc c)"])
      (auto intro!: valid_weaken [OF scaleUp_creates] valid_weaken [OF Suc.IH [of "Suc c"]] simp: at_most_def split: sum.splits)
qed auto

lemma keeps_stale_drain: "external I \<Longrightarrow> keeps I (stale_drain_loop cfg a r k rs)"
  by (induction rs) (auto intro!: valid_intro keeps_store_ops)

lemma rollout_creates:
  "valid (at_most c) (rolloutBuild hash cfg now liveCount i required) (\<lambda>_. at_most (if liveCount < pc_Max cfg then Suc c else c))"
    (is "valid _ _ (\<lambda>_. ?Q)")
proof -
  have weaken: "valid P m (\<lambda>_. at_most c) \<Longrightarrow> valid P m (\<lambda>_. ?Q)" for P m
    by (rule at_most_mono) auto
  have drains: "valid (at_most c) (rolling (
        orfail (store (ListSharedByStates [Draining])) (\<lambda>draining.
        orfail (store (ListSharedByStates [Active])) (\<lambda>active.
        stale_drain_loop cfg (sum_list (map d_Capacity active)) required (length draining) active)))) (\<lambda>_. ?Q)"
    by (rule weaken, rule valid_keeps) (unfold rolling_def, intro valid_intro keeps_store_ops keeps_stale_drain at_most_external)
  have up: "valid (at_most c) (rolling (scaleUp hash cfg now i)) (\<lambda>_. ?Q)" if "liveCount < pc_Max cfg"
    unfolding rolling_def using that by (intro valid_bind [OF scaleUp_creates]) auto
  have "keeps (at_most c) (ListSharedByStates [Active, Provisioning] :: (pool, _) state)" by (intro keeps_store_ops at_most_external)
  then show ?thesis unfolding rolloutBuild_def Let_def
    by (intro valid_if valid_bind_keeps valid_case_sum up drains) auto
qed

subsection \<open>The row is written before the droplet is created\<close>

definition row_written :: "string \<Rightarrow> db \<Rightarrow> bool" where
  "row_written name d \<longleftrightarrow> (\<exists>r \<in> set (droplets d). dr_name r = name \<and> dr_state r = Provisioning \<and> dr_do_id r = None)"

definition written_ahead :: "pool \<Rightarrow> bool" where
  "written_ahead w \<longleftrightarrow> (\<forall>name d. CreateCall name d \<in> set (calls w) \<longrightarrow> row_written name d)"

lemma written_blind: "delete_blind written_ahead"
  by (auto simp: delete_blind_def external_def written_ahead_def)

lemma written_external: "external written_ahead"
  using written_blind by (simp add: delete_blind_def)

lemma insert_writes:
  assumes "run_state (InsertProvisioning name region sz cap node build) w = (Inr row, w')"
  shows "row_written name (pdb w')"
  using assms unfolding InsertProvisioning_def InsertProvisioningWithRole_def
  by (elim transaction_Inr) (auto simp: checked_def row_written_def new_droplet_def elim!: orfail_Inr dest!: exec_Inr split: option.splits if_splits)

lemma provision_written: "valid (\<lambda>w. written_ahead w \<and> row_written name (pdb w)) (provision cfg now name token node nodeToken row) (\<lambda>_. written_ahead)"
proof -
  have create: "valid (\<lambda>w. written_ahead w \<and> row_written name (pdb w)) (CreateDroplet name) (\<lambda>_. written_ahead)"
    by (auto simp: valid_def CreateDroplet_def written_ahead_def)
  have fp: "keeps written_ahead (failProvision row node nodeToken x)" for x
    by (rule keeps_failProvision [OF written_external])
  have "keeps written_ahead count_spend" by (intro keepsI) (simp add: count_spend_def written_ahead_def)
  then have after: "keeps written_ahead (case r of Inl e \<Rightarrow> also_do (failProvision row node nodeToken ''create droplet'') (ret (Inl e))
        | Inr x \<Rightarrow> orfail (store (SetDropletID row (do_ID x) (do_IP x))) (\<lambda>_.
            also_do (logged (StampScaleUp now)) (also_do count_spend (ret (Inr ())))))" for r
    by (intro valid_intro keeps_store_ops written_external fp)
  have "valid written_ahead (also_do (failProvision row node nodeToken x) (ret y)) (\<lambda>_. written_ahead)" for x and y :: "pool_error + unit"
    by (rule valid_keeps) (intro valid_intro fp)
  then show ?thesis unfolding provision_def
    by (intro valid_if valid_bind [OF create] valid_keeps [OF after]) (blast intro: valid_weaken)
qed

lemma scaleUp_written: "keeps written_ahead (scaleUp hash cfg now i)"
proof -
  have q: "keeps written_ahead load_quote" "keeps written_ahead generateNodeSecret"
    by (intro keepsI; simp add: load_quote_def generateNodeSecret_def Let_def written_ahead_def)+
  have check: "keeps written_ahead (checkSpendBudget cfg now)"
    unfolding checkSpendBudget_def by (intro valid_intro keeps_store_ops written_external q)
  have insert: "valid written_ahead (InsertProvisioning name region sz cap node build)
      (\<lambda>r w. written_ahead w \<and> (\<forall>i. r = Inr i \<longrightarrow> row_written name (pdb w)))" for name region sz cap node build
    using keeps_store_ops(8) [OF written_external, of name region sz cap node build] insert_writes
    by (fastforce simp: keeps_def valid_def split: prod.splits)
  have tail: "keeps written_ahead (State_Monad.bind (InsertProvisioning name region sz cap node build) (\<lambda>r.
     case r of
       Inl _ \<Rightarrow> also_do (logged (RevokeNodeToken (Some nodeToken) (Some node))) (ret (Inl StoreFailed))
     | Inr row \<Rightarrow> provision cfg now name token node nodeToken row))" for name region sz cap node build token nodeToken
    unfolding keeps_def
  proof (rule valid_bind [OF insert])
    fix r
    have "valid written_ahead (also_do (logged (RevokeNodeToken (Some nodeToken) (Some node))) (ret (Inl StoreFailed))) (\<lambda>_. written_ahead)"
      by (rule valid_keeps) (intro valid_intro keeps_store_ops written_external)
    then show "valid (\<lambda>w. written_ahead w \<and> (\<forall>i. r = Inr i \<longrightarrow> row_written name (pdb w)))
       (case r of Inl _ \<Rightarrow> also_do (logged (RevokeNodeToken (Some nodeToken) (Some node))) (ret (Inl StoreFailed))
        | Inr row \<Rightarrow> provision cfg now name token node nodeToken row) (\<lambda>_. written_ahead)"
      by (cases r) (auto intro: valid_weaken valid_weaken [OF provision_written])
  qed
  show ?thesis unfolding scaleUp_def Let_def
    by (intro valid_intro check q keeps_store_ops(5) [OF written_external] tail)
qed

lemma keeps_tick:
  assumes "delete_blind I" "\<And>i. keeps I (scaleUp hash cfg now i)" "\<And>w q h. I w \<Longrightarrow> I (w\<lparr>spend := q\<rparr>) \<and> I (w\<lparr>health := h\<rparr>)"
  shows "keeps I (pool_tick hash lib cfg now)"
proof -
  have e: "external I" using assms(1) by (simp add: delete_blind_def)
  have loop: "keeps I (scale_up_loop hash cfg now i n)" for i n
    by (induction n arbitrary: i) (auto intro!: valid_intro assms(2))
  have rollout: "keeps I (rolloutBuild hash cfg now liveCount i required)" for liveCount i required
    unfolding rolloutBuild_def rolling_def Let_def by (intro valid_intro keeps_store_ops [OF e] keeps_stale_drain [OF e] assms(2))
  have act: "keeps I (act hash cfg now f l idle d)" for f l idle d
    unfolding act_def Let_def by (intro valid_intro loop rollout keeps_teardown [OF e] keeps_no_scale [OF assms(1)])
  have phase: "keeps I (scale_phase hash lib cfg now)"
    unfolding scale_phase_def Let_def by (intro valid_intro keeps_store_ops [OF e] keeps_teardown [OF e] keeps_no_scale [OF assms(1)] act)
  have health: "keeps I (note_health f)" for f :: "fleet_health \<Rightarrow> 'b \<times> fleet_health"
    using assms(3) by (intro keepsI) (simp add: note_health_def)
  have reset: "keeps I (modify (\<lambda>w. w\<lparr>spend := None\<rparr>))" using assms(3) by (intro keepsI) simp
  have branch: "keeps I (case r of Inl FleetReadFailed \<Rightarrow> also_do (logged (note_health (noteFleetReadFailure now))) (ret (Inr ()))
      | Inl e \<Rightarrow> ret (Inl e) | Inr _ \<Rightarrow> also_do (logged (note_health (noteFleetReadSuccess now))) (scale_phase hash lib cfg now))"
    for r :: "pool_error + unit"
    by (cases r) (auto intro!: valid_intro health phase split: pool_error.split)
  show ?thesis unfolding pool_tick_def
    by (intro keeps_also_do reset keeps_bind branch keeps_if keeps_ret keeps_logged keeps_store_ops [OF e] keeps_no_scale [OF assms(1)])
qed

end
