(* ===== verification/ControllerSafety.thy ===== *)
theory ControllerSafety
  imports ControllerCalls
begin

text \<open>
  Which workers' droplets a tick deletes, followed through every step by an invariant on the ids and states of the pool's
  rows, and the properties of the controller.
\<close>

section \<open>Deleting only retired workers\<close>

definition dead :: "droplet_state set" where "dead = {Destroying, Destroyed, Failed}"

text \<open>No row bound to the provider droplet is in a state in which its worker may work.\<close>

definition gone :: "int \<Rightarrow> db \<Rightarrow> bool" where
  "gone i d \<longleftrightarrow> (\<forall>r \<in> set (droplets d). dr_do_id r = Some i \<longrightarrow> dr_state r \<in> dead)"

definition safe_deletes :: "pool \<Rightarrow> bool" where
  "safe_deletes w \<longleftrightarrow> (\<forall>i d. DeleteCall i d \<in> set (calls w) \<longrightarrow> gone i d)"

text \<open>Ids, provider ids and states of the rows. Everybody but the controller leaves them alone and uses fresh serial ids.\<close>

definition row_ledger :: "db \<Rightarrow> (int \<times> int option \<times> droplet_state) list" where
  "row_ledger d = map (\<lambda>r. (dr_id r, dr_do_id r, dr_state r)) (droplets d)"

definition tame :: "'a pool_world_scheme \<Rightarrow> bool" where
  "tame w \<longleftrightarrow> (\<forall>s \<in> set (tape w). \<forall>d. row_ledger (others s d) = row_ledger d \<and> serial d \<le> serial (others s d))"

text \<open>Row ids and provider ids are unique; each provider id of \<open>B\<close> is bound to no other row than the one given with it, and
  those of \<open>G\<close> are gone.\<close>

definition ledger_ok :: "(int \<times> int) set \<Rightarrow> int set \<Rightarrow> db \<Rightarrow> bool" where
  "ledger_ok B G d \<longleftrightarrow> distinct (map dr_id (droplets d)) \<and> (\<forall>r \<in> set (droplets d). dr_id r < serial d) \<and>
     (\<forall>r \<in> set (droplets d). \<forall>r' \<in> set (droplets d). dr_do_id r \<noteq> None \<longrightarrow> dr_do_id r = dr_do_id r' \<longrightarrow> dr_id r = dr_id r') \<and>
     (\<forall>r \<in> set (droplets d). \<forall>i k. (i, k) \<in> B \<longrightarrow> dr_do_id r = Some i \<longrightarrow> dr_id r = k) \<and>
     (\<forall>r \<in> set (droplets d). \<forall>i \<in> G. dr_do_id r = Some i \<longrightarrow> dr_state r \<in> dead)"

definition ledger :: "(int \<times> int) set \<Rightarrow> int set \<Rightarrow> pool \<Rightarrow> bool" where
  "ledger B G w \<longleftrightarrow> tame w \<and> ledger_ok B G (pdb w) \<and> safe_deletes w"

lemma ledger_ok_rows:
  "ledger_ok B G d \<longleftrightarrow> distinct (map fst (row_ledger d)) \<and> (\<forall>(k, x, s) \<in> set (row_ledger d). k < serial d) \<and>
     (\<forall>(k, x, s) \<in> set (row_ledger d). \<forall>(k', x', s') \<in> set (row_ledger d). x \<noteq> None \<longrightarrow> x = x' \<longrightarrow> k = k') \<and>
     (\<forall>(k', x, s) \<in> set (row_ledger d). \<forall>i k. (i, k) \<in> B \<longrightarrow> x = Some i \<longrightarrow> k' = k) \<and>
     (\<forall>(k, x, s) \<in> set (row_ledger d). \<forall>i \<in> G. x = Some i \<longrightarrow> s \<in> dead)"
  unfolding ledger_ok_def row_ledger_def by (simp add: comp_def)

lemma ledger_okD:
  assumes "ledger_ok B G d"
  shows "distinct (map dr_id (droplets d))" "\<And>r. r \<in> set (droplets d) \<Longrightarrow> dr_id r < serial d"
    "\<And>r q. r \<in> set (droplets d) \<Longrightarrow> q \<in> set (droplets d) \<Longrightarrow> dr_do_id r \<noteq> None \<Longrightarrow> dr_do_id r = dr_do_id q \<Longrightarrow> dr_id r = dr_id q"
    "\<And>r i k. r \<in> set (droplets d) \<Longrightarrow> (i, k) \<in> B \<Longrightarrow> dr_do_id r = Some i \<Longrightarrow> dr_id r = k"
    "\<And>r i. r \<in> set (droplets d) \<Longrightarrow> i \<in> G \<Longrightarrow> dr_do_id r = Some i \<Longrightarrow> dr_state r \<in> dead"
  using assms unfolding ledger_ok_def by blast+

lemma ledger_ok_cong:
  "row_ledger d' = row_ledger d \<Longrightarrow> serial d \<le> serial d' \<Longrightarrow> ledger_ok B G d \<Longrightarrow> ledger_ok B G d'"
proof -
  assume eq: "row_ledger d' = row_ledger d" and le: "serial d \<le> serial d'" and ok: "ledger_ok B G d"
  have "\<forall>e \<in> set (row_ledger d). fst e < serial d'"
    using ok le unfolding ledger_ok_rows by (fastforce simp: split_beta)
  then show ?thesis using ok unfolding ledger_ok_rows eq split_beta by blast
qed

lemma ledger_ok_mono: "ledger_ok B G d \<Longrightarrow> B' \<subseteq> B \<Longrightarrow> G' \<subseteq> G \<Longrightarrow> ledger_ok B' G' d"
  unfolding ledger_ok_def by blast

text \<open>A table whose rows come from rows with the same ids, none of them revived.\<close>

lemma ledger_ok_image:
  assumes "ledger_ok B G d" "map dr_id (droplets d') = map dr_id (droplets d)" "serial d \<le> serial d'"
    and origin: "\<And>r'. r' \<in> set (droplets d') \<Longrightarrow> \<exists>r \<in> set (droplets d). dr_id r' = dr_id r \<and> dr_do_id r' = dr_do_id r \<and>
      (G = {} \<or> dr_state r \<in> dead \<longrightarrow> G = {} \<or> dr_state r' \<in> dead)"
  shows "ledger_ok B G d'"
  unfolding ledger_ok_def
proof (intro conjI ballI allI impI)
  note old = ledger_okD [OF assms(1)]
  show "distinct (map dr_id (droplets d'))" using old(1) assms(2) by simp
  fix r' assume r': "r' \<in> set (droplets d')"
  from origin [OF r'] obtain r where r: "r \<in> set (droplets d)" "dr_id r' = dr_id r" "dr_do_id r' = dr_do_id r"
    and state: "G = {} \<or> dr_state r \<in> dead \<longrightarrow> G = {} \<or> dr_state r' \<in> dead" by blast
  show "dr_id r' < serial d'" using old(2) [OF r(1)] r(2) assms(3) by linarith
  show "dr_id r' = k" if "(i, k) \<in> B" "dr_do_id r' = Some i" for i k using old(4) [OF r(1) that(1)] r(2,3) that(2) by simp
  show "dr_state r' \<in> dead" if "i \<in> G" "dr_do_id r' = Some i" for i using old(5) [OF r(1) that(1)] r(3) state that by auto
  fix q' assume "q' \<in> set (droplets d')"
  from origin [OF this] obtain q where q: "q \<in> set (droplets d)" "dr_id q' = dr_id q" "dr_do_id q' = dr_do_id q" by blast
  show "dr_id r' = dr_id q'" if "dr_do_id r' \<noteq> None" "dr_do_id r' = dr_do_id q'"
  proof -
    have "dr_do_id r \<noteq> None" "dr_do_id r = dr_do_id q" using that unfolding r(3) q(3) .
    then show ?thesis unfolding r(2) q(2) by (rule old(3) [OF r(1) q(1)])
  qed
qed

lemma ledger_ok_update:
  assumes "ledger_ok B G d" "\<And>r. dr_id (f r) = dr_id r" "\<And>r. dr_do_id (f r) = dr_do_id r"
    and "G = {} \<or> (\<forall>r. p r \<longrightarrow> dr_state r \<in> dead \<longrightarrow> dr_state (f r) \<in> dead)"
  shows "ledger_ok B G (d\<lparr>droplets := update_where p f (droplets d)\<rparr>)"
proof (rule ledger_ok_image [OF assms(1)])
  show "map dr_id (droplets (d\<lparr>droplets := update_where p f (droplets d)\<rparr>)) = map dr_id (droplets d)"
    using assms(2) by (simp add: map_update_where)
  fix r' assume "r' \<in> set (droplets (d\<lparr>droplets := update_where p f (droplets d)\<rparr>))"
  then have "r' \<in> set (update_where p f (droplets d))" by simp
  then show "\<exists>r \<in> set (droplets d). dr_id r' = dr_id r \<and> dr_do_id r' = dr_do_id r \<and> (G = {} \<or> dr_state r \<in> dead \<longrightarrow> G = {} \<or> dr_state r' \<in> dead)"
    by (rule update_whereE) (use assms(2-4) in blast)+
qed simp

lemma ledger_ok_frame:
  "droplets d' = droplets d \<Longrightarrow> serial d \<le> serial d' \<Longrightarrow> ledger_ok B G d \<Longrightarrow> ledger_ok B G d'"
  by (rule ledger_ok_cong) (simp_all add: row_ledger_def)

lemma tame_arrive:
  assumes "tame w"
  shows "tame (arrive w)" "row_ledger (pdb (arrive w)) = row_ledger (pdb w)" "serial (pdb w) \<le> serial (pdb (arrive w))"
  using assms by (cases "tape w"; simp add: tame_def next_step_def quiet_def)+

lemma ledger_arrive: "ledger B G w \<Longrightarrow> ledger B G (arrive w)"
  using tame_arrive [of w] ledger_ok_cong [of "pdb (arrive w)" "pdb w" B G]
  by (auto simp: ledger_def safe_deletes_def arrive_def)

lemma ledger_transaction:
  assumes "\<And>now. keeps (session_inv (ledger_ok B G)) (body now)"
  shows "keeps (ledger B G) (transaction body)"
proof (rule keepsI)
  fix w assume "ledger B G w"
  then have a: "ledger B G (arrive w)" by (rule ledger_arrive)
  have ok: "ledger_ok B G (work t)" if "run_state (body (dbclock (arrive w))) (begin_tx (pdb (arrive w)) os) = (r, t)" for os r t
    using keepsD [OF assms, of "begin_tx (pdb (arrive w)) os" "dbclock (arrive w)"] a that
    by (simp add: session_inv_def ledger_def del: arrive_simps)
  have upd: "ledger B G ((arrive w)\<lparr>pdb := d\<rparr>)" if "ledger_ok B G d" for d
    using a that by (simp add: ledger_def tame_def safe_deletes_def del: arrive_simps)
  obtain r w' where run: "run_state (transaction body) w = (r, w')" by fastforce
  have "ledger B G w'"
  proof (cases r)
    case (Inl e)
    show ?thesis using transaction_Inl [OF run [unfolded Inl]] a ok upd by blast
  next
    case (Inr b)
    show ?thesis using transaction_Inr [OF run [unfolded Inr]] a ok upd
      by (metis update_same_pdb)
  qed
  then show "ledger B G (snd (run_state (transaction body) w))" using run by simp
qed

lemma ledger_command: "(\<And>now d. ledger_ok B G d \<Longrightarrow> ledger_ok B G (snd (f now d))) \<Longrightarrow> keeps (ledger B G) (command f)"
  unfolding command_def by (intro ledger_transaction valid_intro keeps_exec)

lemma ledger_fetch: "keeps (ledger B G) (fetch f)"
  unfolding fetch_def by (intro ledger_command) simp

lemma ledger_ok_set_droplet:
  assumes "ledger_ok B G d" "\<And>r. dr_id (f r) = dr_id r" "\<And>r. dr_do_id (f r) = dr_do_id r"
    and "G = {} \<or> (\<forall>r. dr_state r \<in> dead \<longrightarrow> dr_state (f r) \<in> dead)"
  shows "ledger_ok B G (set_droplet i f d)"
  unfolding set_droplet_def using assms by (intro ledger_ok_update) auto

lemma ledger_ok_insert:
  assumes "ledger_ok B G d" "dr_do_id r = None" "dr_id r = serial d"
  shows "ledger_ok B G (d\<lparr>droplets := droplets d @ [r], serial := serial d + 1\<rparr>)"
  unfolding ledger_ok_def
proof (intro conjI ballI allI impI)
  note old = ledger_okD [OF assms(1)]
  have mem: "x \<in> set (droplets d)" if "x \<in> set (droplets (d\<lparr>droplets := droplets d @ [r], serial := serial d + 1\<rparr>))" "x \<noteq> r" for x
    using that by simp
  have "serial d \<notin> dr_id ` set (droplets d)" using old(2) by fastforce
  then show "distinct (map dr_id (droplets (d\<lparr>droplets := droplets d @ [r], serial := serial d + 1\<rparr>)))"
    using old(1) assms(3) by simp
  fix x assume x: "x \<in> set (droplets (d\<lparr>droplets := droplets d @ [r], serial := serial d + 1\<rparr>))"
  show "dr_id x < serial (d\<lparr>droplets := droplets d @ [r], serial := serial d + 1\<rparr>)"
    using old(2) [OF mem [OF x]] assms(3) by (cases "x = r") simp_all
  have bound: "x \<noteq> r" if "dr_do_id x \<noteq> None" for x using assms(2) that by blast
  show "dr_id x = k" if "(i, k) \<in> B" "dr_do_id x = Some i" for i k
    using old(4) [OF mem [OF x bound] that] that by simp
  show "dr_state x \<in> dead" if "i \<in> G" "dr_do_id x = Some i" for i
    using old(5) [OF mem [OF x bound] that] that by simp
  fix y assume y: "y \<in> set (droplets (d\<lparr>droplets := droplets d @ [r], serial := serial d + 1\<rparr>))"
  show "dr_id x = dr_id y" if "dr_do_id x \<noteq> None" "dr_do_id x = dr_do_id y"
  proof -
    have "dr_do_id y \<noteq> None" using that by simp
    then show ?thesis using old(3) [OF mem [OF x bound] mem [OF y bound] that] that by simp
  qed
qed

lemma session_checked [valid_intro]:
  assumes "\<And>d. I d \<Longrightarrow> ok d \<Longrightarrow> I (snd (f d))"
  shows "keeps (session_inv I) (checked ok f)"
  unfolding checked_def using assms by (intro valid_intro keeps_exec) auto

lemma ledger_frames:
  "ledger_ok B G d \<Longrightarrow> ledger_ok B G (snd (insert_node a n now d))"
  "ledger_ok B G d \<Longrightarrow> ledger_ok B G (snd (insert_token k h d))"
  "ledger_ok B G d \<Longrightarrow> ledger_ok B G (revoke_token now t d)"
  "ledger_ok B G d \<Longrightarrow> ledger_ok B G (disable_node t d)"
  "ledger_ok B G d \<Longrightarrow> ledger_ok B G (snd (reclaim_expired now d))"
  "ledger_ok B G d \<Longrightarrow> ledger_ok B G (stamp g d)"
  "ledger_ok B G d \<Longrightarrow> ledger_ok B G (note_alert key sig now d)"
  by (rule ledger_ok_frame; simp add: insert_node_def insert_token_def revoke_token_def disable_node_def reclaim_expired_def stamp_def note_alert_def)+

lemma ledger_ok_activate: "ledger_ok B G d \<Longrightarrow> ledger_ok B G (snd (activate i d))"
  unfolding activate_def Let_def snd_conv by (rule ledger_ok_update) (auto simp: dead_def)

lemma ledger_destroy_body: "keeps (session_inv (ledger_ok B G)) (destroy_body i sb now)"
  unfolding destroy_body_def silence_check_def
  by (intro valid_intro keeps_exec) (auto intro!: ledger_ok_set_droplet simp: dead_def)

lemma ledger_drain_body: "keeps (session_inv (ledger_ok B {})) (drain_body i now)"
  unfolding drain_body_def by (intro valid_intro keeps_exec) (auto intro!: ledger_ok_set_droplet)

lemma ledger_reads:
  "keeps (ledger B G) (ListByStates ss)" "keeps (ledger B G) (ListSharedByStates ss)" "keeps (ledger B G) CountLive"
  "keeps (ledger B G) (CountLiveByRole role)" "keeps (ledger B G) (HasInflightJob name)" "keeps (ledger B G) LoadPoolState"
  "keeps (ledger B G) (ForecastDemand lib b now la)" "keeps (ledger B G) (NodeBinding i)" "keeps (ledger B G) (findRowByName name)"
  unfolding ListByStates_def ListSharedByStates_def CountLive_def CountLiveByRole_def HasInflightJob_def LoadPoolState_def
    ForecastDemand_def loadCapturingRecordings_def NodeBinding_def findRowByName_def
  by (intro valid_intro ledger_fetch)+

lemma ledger_writes:
  "keeps (ledger B G) (RevokeNodeToken t n)" "keeps (ledger B G) (MintNodeToken hash secret account name)"
  "keeps (ledger B G) (InsertProvisioning name region sz cap node build)" "keeps (ledger B G) (MarkActive i)"
  "keeps (ledger B G) (BeginDestroyIfIdle i)" "keeps (ledger B G) (BeginDestroyIfIdleAndSilent i u)"
  "keeps (ledger B G) (MarkDestroying i)" "keeps (ledger B G) (MarkDestroyed i)" "keeps (ledger B G) (MarkFailed i reason)"
  "keeps (ledger B G) (SetIdleSince i idle)" "keeps (ledger B G) ReclaimExpiredLeases" "keeps (ledger B G) (StampScaleUp u)"
  "keeps (ledger B G) (StampScaleDown u)" "keeps (ledger B G) (NoteOpsAlert key sig u)"
  unfolding RevokeNodeToken_def MintNodeToken_def InsertProvisioning_def InsertProvisioningWithRole_def MarkActive_def BeginDestroyIfIdle_def
    BeginDestroyIfIdleAndSilent_def beginDestroy_def MarkDestroying_def MarkDestroyed_def MarkFailed_def setState_def SetIdleSince_def
    ReclaimExpiredLeases_def StampScaleUp_def StampScaleDown_def NoteOpsAlert_def Let_def
  by (intro valid_intro ledger_command ledger_transaction ledger_destroy_body keeps_exec;
      auto intro!: ledger_frames ledger_ok_set_droplet ledger_ok_activate ledger_ok_update ledger_ok_insert simp: dead_def idle_stamp_def new_droplet_def)+

lemma ledger_ok_bind:
  assumes "ledger_ok B G d" "\<forall>r \<in> set (droplets d). dr_do_id r = Some x \<longrightarrow> dr_id r = k"
    and "x \<notin> G" "\<And>k'. (x, k') \<in> B \<Longrightarrow> k' = k"
  shows "ledger_ok B G (set_droplet k (\<lambda>r. r\<lparr>dr_do_id := Some x, dr_ip := ip\<rparr>) d)"
  unfolding ledger_ok_def
proof (intro conjI ballI allI impI)
  let ?f = "\<lambda>r. r\<lparr>dr_do_id := Some x, dr_ip := ip\<rparr>"
  let ?d = "set_droplet k ?f d"
  note old = ledger_okD [OF assms(1)]
  have ids: "map dr_id (droplets ?d) = map dr_id (droplets d)" by (simp add: set_droplet_def map_update_where)
  show "distinct (map dr_id (droplets ?d))" using old(1) ids by simp
  have origin: "(dr_id r' = k \<and> dr_do_id r' = Some x) \<or> (r' \<in> set (droplets d) \<and> dr_id r' \<noteq> k)" if "r' \<in> set (droplets ?d)" for r'
  proof -
    have "r' \<in> set (update_where (\<lambda>r. dr_id r = k) ?f (droplets d))" using that by (simp add: set_droplet_def)
    then show ?thesis by (rule update_whereE) simp_all
  qed
  fix r assume r: "r \<in> set (droplets ?d)"
  then have "dr_id r \<in> dr_id ` set (droplets d)" using ids by (metis image_eqI list.set_map)
  then show "dr_id r < serial ?d" using old(2) by (auto simp: set_droplet_def)
  show "dr_id r = k'" if "(i, k') \<in> B" "dr_do_id r = Some i" for i k'
    using origin [OF r] old(4) [OF _ that] assms(4) that by auto
  show "dr_state r \<in> dead" if "i \<in> G" "dr_do_id r = Some i" for i
    using origin [OF r] old(5) [OF _ that] assms(3) that by auto
  fix q assume q: "q \<in> set (droplets ?d)"
  show "dr_id r = dr_id q" if "dr_do_id r \<noteq> None" "dr_do_id r = dr_do_id q"
    using origin [OF r] origin [OF q] old(3) [of r q] assms(2) that by auto
qed

lemma ledger_SetDropletID:
  assumes "x \<notin> G" "\<And>k'. (x, k') \<in> B \<Longrightarrow> k' = k"
  shows "keeps (ledger B G) (SetDropletID k x ip)"
  unfolding SetDropletID_def
  by (intro ledger_transaction valid_intro) (simp add: ledger_ok_bind assms)

lemma ledger_DeleteDroplet: "i \<in> G \<Longrightarrow> keeps (ledger B G) (DeleteDroplet i)"
  by (intro keepsI) (auto simp: ledger_def DeleteDroplet_def safe_deletes_def tame_def gone_def dest: ledger_okD(5))

lemma ledger_delete_bound: "(\<And>i. b = Some i \<Longrightarrow> i \<in> G) \<Longrightarrow> keeps (ledger B G) (delete_if_bound b)"
  by (cases b) (auto simp: delete_if_bound_def intro: valid_intro ledger_DeleteDroplet)

lemma ledger_mono: "ledger B G w \<Longrightarrow> B' \<subseteq> B \<Longrightarrow> G' \<subseteq> G \<Longrightarrow> ledger B' G' w"
  using ledger_ok_mono unfolding ledger_def by blast

text \<open>Once a row is being destroyed, the provider id bound to it is gone.\<close>

definition retired_ids :: "(int \<times> int) set \<Rightarrow> int \<Rightarrow> int set \<Rightarrow> int set" where
  "retired_ids B k G = G \<union> {i. (i, k) \<in> B}"

lemma ledger_retired:
  assumes "ledger B G w" "\<And>r. droplet_at k (pdb w) = Some r \<Longrightarrow> dr_state r \<in> dead"
  shows "ledger B (retired_ids B k G) w"
proof -
  have ok: "ledger_ok B G (pdb w)" using assms(1) by (simp add: ledger_def)
  note old = ledger_okD [OF ok]
  have inj: "inj_on dr_id (set (droplets (pdb w)))" using old(1) by (simp add: distinct_map)
  have "dr_state x \<in> dead" if x: "x \<in> set (droplets (pdb w))" "dr_do_id x = Some i" "(i, k) \<in> B" for x i
  proof -
    have k: "dr_id x = k" by (rule old(4) [OF x(1) x(3) x(2)])
    then obtain r where r: "droplet_at k (pdb w) = Some r"
      using x(1) by (cases "droplet_at k (pdb w)") (auto simp: droplet_at_def find_None_iff)
    then have "r \<in> set (droplets (pdb w))" "dr_id r = k" by (auto simp: droplet_at_def find_Some_iff)
    then have "x = r" using inj x(1) k by (auto dest: inj_onD)
    then show ?thesis using assms(2) [OF r] by simp
  qed
  then have "\<forall>x \<in> set (droplets (pdb w)). \<forall>i \<in> retired_ids B k G. dr_do_id x = Some i \<longrightarrow> dr_state x \<in> dead"
    using old(5) unfolding retired_ids_def by blast
  then have "ledger_ok B (retired_ids B k G) (pdb w)" using ok unfolding ledger_ok_def by blast
  then show ?thesis using assms(1) by (simp add: ledger_def)
qed

lemma droplet_at_set:
  assumes "\<And>r. dr_id (f r) = dr_id r"
  shows "droplet_at k (set_droplet k f d) = map_option f (droplet_at k d)"
proof -
  have "List.find (\<lambda>r. dr_id r = k) (update_where (\<lambda>r. dr_id r = k) f rows) = map_option f (List.find (\<lambda>r. dr_id r = k) rows)" for rows
    by (induction rows) (auto simp: update_where_def assms)
  then show ?thesis by (simp add: droplet_at_def set_droplet_def)
qed

lemma destroyed_row:
  assumes "run_state (beginDestroy k sb) w = (Inr True, w')"
  shows "\<exists>r. droplet_at k (pdb w') = Some r \<and> dr_state r = Destroying"
proof -
  let ?d = "pdb (arrive w)"
  from assms obtain c t where t: "run_state (destroy_body k sb (dbclock (arrive w))) (begin_tx ?d (replies (next_step w))) = (Inr (c, True), t)"
    and w': "w' = (arrive w)\<lparr>pdb := (if c then work t else ?d)\<rparr>"
    unfolding beginDestroy_def by (rule transaction_Inr)
  from destroy_body_result [OF t] obtain r where r: "droplet_at k ?d = Some r"
    and "c" "dr_state r = Destroying \<and> work t = ?d \<or> work t = set_droplet k (\<lambda>r. r\<lparr>dr_state := Destroying\<rparr>) ?d" by blast
  then show ?thesis by (auto simp: w' droplet_at_set simp del: arrive_simps)
qed

lemma ledger_beginDestroy:
  "valid (ledger B G) (beginDestroy k sb) (\<lambda>r w. case r of Inl e \<Rightarrow> ledger B G w
     | Inr b \<Rightarrow> if b then ledger B (retired_ids B k G) w else ledger B G w)"
proof (rule validI)
  fix w r w' assume w: "ledger B G w" and run: "run_state (beginDestroy k sb) w = (r, w')"
  have "keeps (ledger B G) (beginDestroy k sb)" unfolding beginDestroy_def by (intro ledger_transaction ledger_destroy_body)
  from keepsD [OF this w] run have w': "ledger B G w'" by simp
  show "case r of Inl e \<Rightarrow> ledger B G w' | Inr b \<Rightarrow> if b then ledger B (retired_ids B k G) w' else ledger B G w'"
  proof (cases "r = Inr True")
    case True
    from destroyed_row [OF run [unfolded True]] have "ledger B (retired_ids B k G) w'"
      by (intro ledger_retired [OF w']) (auto simp: dead_def)
    then show ?thesis using True by simp
  next
    case False
    then show ?thesis using w' by (cases r) simp_all
  qed
qed

lemma ledger_MarkDestroying:
  "valid (ledger B G) (MarkDestroying k) (\<lambda>r w. case r of Inl e \<Rightarrow> ledger B G w | Inr _ \<Rightarrow> ledger B (retired_ids B k G) w)"
proof (rule validI)
  fix w r w' assume w: "ledger B G w" and run: "run_state (MarkDestroying k) w = (r, w')"
  have w': "ledger B G w'" using keepsD [OF ledger_writes(7) w, of k] run by simp
  have "ledger B (retired_ids B k G) w'" if "r = Inr ()"
  proof (rule ledger_retired [OF w'])
    have "pdb w' = set_droplet k (\<lambda>r. r\<lparr>dr_state := Destroying\<rparr>) (pdb (arrive w))"
      using command_Inr [OF run [unfolded MarkDestroying_def setState_def that]] by simp
    then show "dr_state x \<in> dead" if "droplet_at k (pdb w') = Some x" for x
      using that by (auto simp: droplet_at_set dead_def simp del: arrive_simps)
  qed
  then show "case r of Inl e \<Rightarrow> ledger B G w' | Inr _ \<Rightarrow> ledger B (retired_ids B k G) w'"
    using w' by (cases r) simp_all
qed

subsection \<open>The steps of a tick\<close>

lemma keeps_for_each_in: "(\<And>x. x \<in> set xs \<Longrightarrow> keeps I (f x)) \<Longrightarrow> keeps I (for_each xs f)"
  by (induction xs) (auto intro!: valid_intro)

lemma ledger_teardown:
  "keeps (ledger B G) (revoke_binding i)" "keeps (ledger B G) (revokeAndDestroyRow i)" "keeps (ledger B G) (retire_missing r)"
proof -
  show b: "keeps (ledger B G) (revoke_binding i)" for i
    unfolding revoke_binding_def by (intro valid_intro ledger_reads ledger_writes)
  show r: "keeps (ledger B G) (revokeAndDestroyRow i)" for i
    unfolding revokeAndDestroyRow_def by (intro valid_intro b ledger_writes)
  show "keeps (ledger B G) (retire_missing r)"
    unfolding retire_missing_def by (intro valid_intro ledger_writes r)
qed

lemma ledger_adopt:
  assumes "do_ID x \<notin> G" "\<And>k. (do_ID x, k) \<notin> B"
  shows "keeps (ledger B G) (adopt x)"
  unfolding adopt_def using assms by (intro valid_intro ledger_reads ledger_SetDropletID) blast+

lemma ledger_resume:
  assumes "\<And>i. d_DODropletID r = Some i \<Longrightarrow> d_State r = Destroying \<Longrightarrow> i \<in> G"
  shows "keeps (ledger B G) (resume_destroying fleet r)"
  unfolding resume_destroying_def
  using assms by (cases "d_DODropletID r") (auto intro!: valid_intro ledger_DeleteDroplet ledger_teardown)

text \<open>Deleting the provider droplet of a row that has just been retired.\<close>

lemma ledger_delete_retired:
  assumes "\<And>i. b = Some i \<Longrightarrow> (i, k) \<in> B" "keeps (ledger B G) m"
  shows "valid (ledger B (retired_ids B k G)) (on_ok (delete_if_bound b) (\<lambda>_. m)) (\<lambda>_. ledger B G)"
proof (rule valid_on_ok [where R = "\<lambda>_. ledger B G"])
  have sub: "ledger B (retired_ids B k G) w \<Longrightarrow> ledger B G w" for w
    by (erule ledger_mono) (auto simp: retired_ids_def)
  have "keeps (ledger B (retired_ids B k G)) (delete_if_bound b)"
    using assms(1) by (intro ledger_delete_bound) (simp add: retired_ids_def)
  then show "valid (ledger B (retired_ids B k G)) (delete_if_bound b) (\<lambda>r w. case r of Inl e \<Rightarrow> ledger B G w | Inr _ \<Rightarrow> ledger B G w)"
    unfolding keeps_def by (rule valid_weaken) (auto intro: sub split: sum.split)
  show "valid (ledger B G) m (\<lambda>_. ledger B G)" using assms(2) by (simp add: keeps_def)
qed

lemma ledger_reap_idle:
  assumes "\<And>i. d_DODropletID r = Some i \<Longrightarrow> (i, d_ID r) \<in> B"
  shows "keeps (ledger B G) (reap_idle r)"
  unfolding keeps_def reap_idle_def BeginDestroyIfIdle_def
proof (rule valid_on_ok [where R = "\<lambda>b. if b then ledger B (retired_ids B (d_ID r) G) else ledger B G"])
  show "valid (ledger B G) (beginDestroy (d_ID r) None) (\<lambda>x w. case x of Inl e \<Rightarrow> ledger B G w
      | Inr b \<Rightarrow> (if b then ledger B (retired_ids B (d_ID r) G) else ledger B G) w)"
    by (rule valid_weaken [OF ledger_beginDestroy]) (auto split: sum.split)
  have "keeps (ledger B G) (also_do (logged (MarkFailed (d_ID r) ''provision timed out'')) (revoke_binding (d_ID r)))"
    by (intro valid_intro ledger_writes ledger_teardown)
  then show "valid (if b then ledger B (retired_ids B (d_ID r) G) else ledger B G) (if \<not> b then ret () else on_ok (delete_if_bound (d_DODropletID r))
      (\<lambda>_. also_do (logged (MarkFailed (d_ID r) ''provision timed out'')) (revoke_binding (d_ID r)))) (\<lambda>_. ledger B G)" for b
    using ledger_delete_retired [OF assms] by (cases b) (simp_all add: valid_ret)
qed

lemma ledger_destroyWorker:
  assumes "\<And>i. d_DODropletID r = Some i \<Longrightarrow> (i, d_ID r) \<in> B"
  shows "keeps (ledger B G) (destroyWorker r)"
  unfolding keeps_def destroyWorker_def
  by (rule valid_on_ok [OF ledger_MarkDestroying ledger_delete_retired [OF assms ledger_teardown(2)]])

subsection \<open>Listings\<close>

definition row_bounds :: "Droplet list \<Rightarrow> (int \<times> int) set" where
  "row_bounds rows = {(i, k). \<exists>r \<in> set rows. d_DODropletID r = Some i \<and> d_ID r = k}"

definition free_ids :: "Droplet list \<Rightarrow> int set \<Rightarrow> int set" where
  "free_ids rows taken = {i. i \<notin> taken \<and> ((\<forall>r \<in> set rows. d_DODropletID r \<noteq> Some i) \<or>
     (\<exists>r \<in> set rows. d_DODropletID r = Some i \<and> d_State r = Destroying))}"

lemma in_listing:
  "r \<in> set (listDroplets p ss d) \<longleftrightarrow> (\<exists>x \<in> set (droplets d). p x \<and> dr_state x \<in> set ss \<and> r = scan_droplet d x)"
  by (auto simp: listDroplets_def)

lemma scan_simps [simp]:
  "d_ID (scan_droplet d x) = dr_id x" "d_DODropletID (scan_droplet d x) = dr_do_id x" "d_State (scan_droplet d x) = dr_state x"
  by (simp_all add: scan_droplet_def)

lemma listed_ok:
  assumes "ledger_ok {} {} d"
  shows "ledger_ok (row_bounds (listDroplets p ss d)) {} d"
proof -
  have "dr_id y = k" if y: "y \<in> set (droplets d)" "dr_do_id y = Some i" "(i, k) \<in> row_bounds (listDroplets p ss d)" for y i k
  proof -
    obtain x where "x \<in> set (droplets d)" "dr_do_id x = Some i" "dr_id x = k" using y(3) by (auto simp: row_bounds_def in_listing)
    then show ?thesis using ledger_okD(3) [OF assms y(1), of x] y(2) by simp
  qed
  then show ?thesis using assms unfolding ledger_ok_def by blast
qed

lemma listed_live_ok:
  assumes "ledger_ok {} {} d"
  shows "ledger_ok (row_bounds (listDroplets (\<lambda>_. True) live_states d)) (free_ids (listDroplets (\<lambda>_. True) live_states d) taken) d"
proof -
  let ?rows = "listDroplets (\<lambda>_. True) live_states d"
  have "dr_state y \<in> dead" if y: "y \<in> set (droplets d)" "dr_do_id y = Some i" "i \<in> free_ids ?rows taken" for y i
  proof (rule ccontr)
    assume "dr_state y \<notin> dead"
    then have "scan_droplet d y \<in> set ?rows" using y(1) by (cases "dr_state y") (auto simp: in_listing live_states_def dead_def)
    moreover have "d_DODropletID (scan_droplet d y) = Some i" using y(2) by simp
    ultimately have "\<exists>z \<in> set ?rows. d_DODropletID z = Some i \<and> d_State z = Destroying"
      using y(3) unfolding free_ids_def by blast
    then obtain x where x: "x \<in> set (droplets d)" "dr_do_id x = Some i" "dr_state x = Destroying"
      by (auto simp: in_listing)
    have "dr_id y = dr_id x" using ledger_okD(3) [OF assms y(1) x(1)] x(2) y(2) by simp
    moreover have "inj_on dr_id (set (droplets d))" using ledger_okD(1) [OF assms] by (simp add: distinct_map)
    ultimately have "y = x" using x(1) y(1) by (auto dest: inj_onD)
    then show False using \<open>dr_state y \<notin> dead\<close> x(3) by (simp add: dead_def)
  qed
  then show ?thesis using listed_ok [OF assms, of "\<lambda>_. True" live_states] unfolding ledger_ok_def by blast
qed

lemma ledger_list:
  assumes "\<And>d. ledger_ok {} {} d \<Longrightarrow> ledger_ok (B (listDroplets p ss d)) (G (listDroplets p ss d)) d"
  shows "valid (ledger {} {}) (fetch (\<lambda>now. listDroplets p ss)) (\<lambda>r w. case r of Inl e \<Rightarrow> ledger {} {} w | Inr rows \<Rightarrow> ledger (B rows) (G rows) w)"
proof (rule validI)
  fix w r w' assume w: "ledger {} {} w" and run: "run_state (fetch (\<lambda>now. listDroplets p ss)) w = (r, w')"
  have w': "w' = arrive w" using fetch_world [of "\<lambda>now. listDroplets p ss" w] run by simp
  have a: "ledger {} {} (arrive w)" by (rule ledger_arrive [OF w])
  show "case r of Inl e \<Rightarrow> ledger {} {} w' | Inr rows \<Rightarrow> ledger (B rows) (G rows) w'"
  proof (cases r)
    case (Inr rows)
    have "rows = listDroplets p ss (pdb w')" using fetch_Inr [OF run [unfolded Inr]] by simp
    then show ?thesis using assms [of "pdb w'"] a w' Inr by (simp add: ledger_def)
  qed (simp add: w' a)
qed

subsection \<open>A whole tick\<close>

lemma ledger_nothing: "ledger B G w \<Longrightarrow> ledger {} {} w"
  by (erule ledger_mono) auto

lemma row_boundsI: "r \<in> set rows \<Longrightarrow> d_DODropletID r = Some i \<Longrightarrow> (i, d_ID r) \<in> row_bounds rows"
  by (auto simp: row_bounds_def)

lemma ledger_progressDrains: "keeps (ledger {} {}) (progressDrains cfg now)"
  unfolding keeps_def progressDrains_def ListByStates_def
proof (rule valid_on_ok [where R = "\<lambda>rows. ledger (row_bounds rows) {}"])
  show "valid (ledger {} {}) (fetch (\<lambda>now. listDroplets (\<lambda>_. True) [Draining])) (\<lambda>r w. case r of Inl e \<Rightarrow> ledger {} {} w | Inr rows \<Rightarrow> ledger (row_bounds rows) {} w)"
    by (rule ledger_list [where G = "\<lambda>_. {}"]) (rule listed_ok)
  fix rows
  have "keeps (ledger (row_bounds rows) {}) (if rows = [] then ret () else also_do (logged ReclaimExpiredLeases) (for_each rows (\<lambda>r.
       on_ok (HasInflightJob (d_Name r)) (\<lambda>busy. let forced = (case d_DrainStartedAt r of None \<Rightarrow> False | Some t \<Rightarrow> pc_DrainTimeout cfg \<le> time_sub now t) in
         if busy \<and> \<not> forced then ret () else destroyWorker r))))"
    unfolding Let_def
    by (intro keeps_if keeps_ret keeps_also_do keeps_logged keeps_for_each_in keeps_on_ok ledger_reads ledger_writes ledger_destroyWorker row_boundsI)
  then show "valid (ledger (row_bounds rows) {}) (if rows = [] then ret () else also_do (logged ReclaimExpiredLeases) (for_each rows (\<lambda>r.
       on_ok (HasInflightJob (d_Name r)) (\<lambda>busy. let forced = (case d_DrainStartedAt r of None \<Rightarrow> False | Some t \<Rightarrow> pc_DrainTimeout cfg \<le> time_sub now t) in
         if busy \<and> \<not> forced then ret () else destroyWorker r)))) (\<lambda>_. ledger {} {})"
    unfolding keeps_def by (rule valid_weaken) (auto intro: ledger_nothing)
qed

lemma ledger_reap: "keeps (ledger {} {}) (reapUnresponsive cfg now)"
  unfolding keeps_def reapUnresponsive_def ListSharedByStates_def
proof (rule valid_if)
  show "valid (ledger {} {}) (ret ()) (\<lambda>_. ledger {} {})" by (simp add: valid_ret)
  have "keeps (ledger (row_bounds rows) {}) (for_each (UnresponsiveDroplets rows now (pc_StaleHeartbeatTimeout cfg)) (\<lambda>r.
      on_ok (BeginDestroyIfIdleAndSilent (d_ID r) (now - pc_StaleHeartbeatTimeout cfg)) (\<lambda>retired. if retired then destroyWorker r else ret ())))" for rows
    by (intro keeps_for_each_in keeps_on_ok ledger_writes keeps_if keeps_ret ledger_destroyWorker row_boundsI)
      (auto simp: UnresponsiveDroplets_def split: if_splits)
  then have each: "valid (ledger (row_bounds rows) {}) (for_each (UnresponsiveDroplets rows now (pc_StaleHeartbeatTimeout cfg)) (\<lambda>r.
      on_ok (BeginDestroyIfIdleAndSilent (d_ID r) (now - pc_StaleHeartbeatTimeout cfg)) (\<lambda>retired. if retired then destroyWorker r else ret ())))
      (\<lambda>_. ledger {} {})" for rows
    unfolding keeps_def by (rule valid_weaken) (auto intro: ledger_nothing)
  show "valid (ledger {} {}) (on_ok (fetch (\<lambda>now. listDroplets (\<lambda>r. dr_role r = Shared) [Active])) (\<lambda>active.
      for_each (UnresponsiveDroplets active now (pc_StaleHeartbeatTimeout cfg)) (\<lambda>r.
        on_ok (BeginDestroyIfIdleAndSilent (d_ID r) (now - pc_StaleHeartbeatTimeout cfg)) (\<lambda>retired. if retired then destroyWorker r else ret ()))))
      (\<lambda>_. ledger {} {})"
    by (rule valid_on_ok [OF ledger_list [where G = "\<lambda>_. {}", OF listed_ok] each])
qed

lemma ledger_promote: "keeps (ledger {} {}) (promoteActive cfg now fleet)"
  unfolding promoteActive_def refresh_ip_def by (intro valid_intro ledger_reads ledger_writes ledger_SetDropletID) simp_all

lemma ledger_MarkDraining: "keeps (ledger B {}) (MarkDraining i)" "keeps (ledger B {}) (MarkDrainingIfIdle i)"
  unfolding MarkDraining_def setState_def MarkDrainingIfIdle_def
  by (intro ledger_command ledger_transaction ledger_drain_body; auto intro!: ledger_ok_set_droplet)+

lemma ledger_idle: "keeps (ledger {} {}) refreshIdle" "keeps (ledger {} {}) (beginDrains now rs n)" "keeps (ledger {} {}) (stale_drain_loop cfg a q k rs)"
proof -
  show "keeps (ledger {} {}) refreshIdle" unfolding refreshIdle_def by (intro valid_intro ledger_reads ledger_writes)
  have "keeps (ledger {} {}) (drain_loop rs n k)" for k
    by (induction rs n k rule: drain_loop.induct) (auto intro!: valid_intro ledger_MarkDraining)
  then show "keeps (ledger {} {}) (beginDrains now rs n)" unfolding beginDrains_def by (intro valid_intro ledger_writes)
  show "keeps (ledger {} {}) (stale_drain_loop cfg a q k rs)" by (induction rs) (auto intro!: valid_intro ledger_MarkDraining)
qed

lemma ledger_scaleUp: "keeps (ledger {} {}) (scaleUp hash cfg now i)"
proof -
  have world: "keeps (ledger {} {}) load_quote" "keeps (ledger {} {}) generateNodeSecret" "keeps (ledger {} {}) count_spend"
    "keeps (ledger {} {}) (CreateDroplet name)" for name
    by (intro keepsI; simp add: load_quote_def generateNodeSecret_def count_spend_def CreateDroplet_def Let_def ledger_def tame_def safe_deletes_def)+
  show ?thesis unfolding scaleUp_def checkSpendBudget_def provision_def failProvision_def Let_def
    by (intro valid_intro world ledger_reads ledger_writes ledger_SetDropletID) simp_all
qed

lemma ledger_act: "keeps (ledger {} {}) (act hash cfg now f l idle d)"
proof -
  have loop: "keeps (ledger {} {}) (scale_up_loop hash cfg now i n)" for i n
    by (induction n arbitrary: i) (auto intro!: valid_intro ledger_scaleUp)
  have rollout: "keeps (ledger {} {}) (rolloutBuild hash cfg now l i q)" for l i q
    unfolding rolloutBuild_def rolling_def Let_def by (intro valid_intro ledger_reads ledger_scaleUp ledger_idle)
  show ?thesis unfolding act_def Let_def by (intro valid_intro loop rollout ledger_idle ledger_progressDrains)
qed

lemma ledger_scale_phase: "keeps (ledger {} {}) (scale_phase hash lib cfg now)"
  unfolding scale_phase_def Let_def by (intro valid_intro ledger_reads ledger_idle ledger_reap ledger_act)

text \<open>The provider lists no droplet twice.\<close>

definition fleet_distinct :: "pool \<Rightarrow> bool" where
  "fleet_distinct w \<longleftrightarrow> (\<forall>fleet. fleet_reply w = Some fleet \<longrightarrow> distinct (map do_ID fleet))"

lemma plan_members:
  "x \<in> set (AdoptByName (ReconcileOrphans fleet rows now timeout)) \<Longrightarrow> x \<in> set fleet \<and> Some (do_ID x) \<notin> d_DODropletID ` set rows"
  "x \<in> set (DestroyOrphan (ReconcileOrphans fleet rows now timeout)) \<Longrightarrow> x \<in> set fleet \<and> Some (do_ID x) \<notin> d_DODropletID ` set rows \<and>
     x \<notin> set (AdoptByName (ReconcileOrphans fleet rows now timeout))"
  by (auto simp: ReconcileOrphans_def orphan_loop_filter Let_def map_filter_Some)

lemma ledger_reconcile_rows:
  fixes cfg now fleet rows
  defines "plan \<equiv> ReconcileOrphans fleet rows now (pc_ProvisionTimeout cfg)"
  defines "taken \<equiv> do_ID ` set (AdoptByName plan)"
  assumes "distinct (map do_ID fleet)"
  shows "valid (ledger (row_bounds rows) (free_ids rows taken)) (also_do (for_each (AdoptByName plan) adopt)
     (also_do (for_each (DestroyOrphan plan) (\<lambda>x. logged (DeleteDroplet (do_ID x))))
     (also_do (for_each (MissingFromDO plan) retire_missing)
     (also_do (for_each rows (resume_destroying fleet))
     (also_do (for_each rows (reap_stuck cfg now fleet))
     (also_do (promoteActive cfg now fleet) (ret (Inr ())))))))) (\<lambda>_. ledger {} {})"
proof -
  let ?L = "ledger (row_bounds rows) (free_ids rows taken)"
  have adopt: "keeps ?L (for_each (AdoptByName plan) adopt)"
  proof (rule keeps_for_each_in, rule ledger_adopt)
    fix x assume x: "x \<in> set (AdoptByName plan)"
    then show "do_ID x \<notin> free_ids rows taken" by (simp add: free_ids_def taken_def)
    show "(do_ID x, k) \<notin> row_bounds rows" for k
      using plan_members(1) [OF x [unfolded plan_def]] by (force simp: row_bounds_def)
  qed
  have inj: "inj_on do_ID (set fleet)" using assms(3) by (simp add: distinct_map)
  have orphans: "keeps ?L (for_each (DestroyOrphan plan) (\<lambda>x. logged (DeleteDroplet (do_ID x))))"
  proof (intro keeps_for_each_in keeps_logged ledger_DeleteDroplet)
    fix x assume "x \<in> set (DestroyOrphan plan)"
    note x = plan_members(2) [OF this [unfolded plan_def], folded plan_def]
    have "do_ID x \<notin> taken"
    proof
      assume "do_ID x \<in> taken"
      then obtain y where y: "y \<in> set (AdoptByName plan)" "do_ID x = do_ID y" by (auto simp: taken_def)
      then have "x = y" using inj x plan_members(1) [OF y(1) [unfolded plan_def]] by (auto dest: inj_onD)
      then show False using x y by simp
    qed
    then show "do_ID x \<in> free_ids rows taken" using x by (force simp: free_ids_def)
  qed
  have resume: "keeps ?L (for_each rows (resume_destroying fleet))"
  proof (rule keeps_for_each_in, rule ledger_resume)
    fix r i assume r: "r \<in> set rows" "d_DODropletID r = Some i" "d_State r = Destroying"
    then have "i \<notin> taken" using plan_members(1) by (force simp: taken_def plan_def)
    then show "i \<in> free_ids rows taken" using r by (auto simp: free_ids_def)
  qed
  have stuck: "keeps ?L (for_each rows (reap_stuck cfg now fleet))"
    unfolding reap_stuck_def
    by (intro keeps_for_each_in keeps_if keeps_ret keeps_on_ok keeps_logged ledger_reads ledger_writes ledger_reap_idle row_boundsI)
  have "valid ?L (also_do (promoteActive cfg now fleet) (ret (Inr ()))) (\<lambda>_. ledger {} {})"
    by (rule valid_weaken [OF valid_keeps [OF keeps_also_do [OF ledger_promote keeps_ret]]]) (auto intro: ledger_nothing)
  then show ?thesis
    by (intro valid_also_keeps [OF adopt] valid_also_keeps [OF orphans] valid_also_keeps [OF resume] valid_also_keeps [OF stuck]
        valid_also_keeps [of ?L "for_each (MissingFromDO plan) retire_missing"] keeps_for_each ledger_teardown)
qed

lemma ledger_reconcile: "valid (\<lambda>w. ledger {} {} w \<and> fleet_distinct w) (reconcile cfg now) (\<lambda>_. ledger {} {})"
  unfolding reconcile_def Let_def
proof (rule valid_orfail [where R = "\<lambda>fleet w. ledger {} {} w \<and> distinct (map do_ID fleet)"])
  show "valid (\<lambda>w. ledger {} {} w \<and> fleet_distinct w) ListDropletsByName
      (\<lambda>r w. case r of Inl e \<Rightarrow> ledger {} {} w | Inr fleet \<Rightarrow> ledger {} {} w \<and> distinct (map do_ID fleet))"
    unfolding ListDropletsByName_def by (rule valid_gets) (auto simp: fleet_distinct_def split: option.split)
  fix fleet :: "DODroplet list"
  let ?taken = "\<lambda>rows. do_ID ` set (AdoptByName (ReconcileOrphans fleet rows now (pc_ProvisionTimeout cfg)))"
  have list: "valid (ledger {} {}) (store (ListByStates live_states))
      (\<lambda>r w. case r of Inl e \<Rightarrow> ledger {} {} w | Inr rows \<Rightarrow> ledger (row_bounds rows) (free_ids rows (?taken rows)) w)"
    unfolding ListByStates_def
    by (rule valid_store) (rule valid_weaken [OF ledger_list [where B = row_bounds and G = "\<lambda>rows. free_ids rows (?taken rows)", OF listed_live_ok]],
        auto split: sum.split)
  show "valid (\<lambda>w. ledger {} {} w \<and> distinct (map do_ID fleet)) (orfail (store (ListByStates live_states)) (\<lambda>rows.
     also_do (for_each (AdoptByName (ReconcileOrphans fleet rows now (pc_ProvisionTimeout cfg))) adopt)
     (also_do (for_each (DestroyOrphan (ReconcileOrphans fleet rows now (pc_ProvisionTimeout cfg))) (\<lambda>x. logged (DeleteDroplet (do_ID x))))
     (also_do (for_each (MissingFromDO (ReconcileOrphans fleet rows now (pc_ProvisionTimeout cfg))) retire_missing)
     (also_do (for_each rows (resume_destroying fleet))
     (also_do (for_each rows (reap_stuck cfg now fleet))
     (also_do (promoteActive cfg now fleet) (ret (Inr ()))))))))) (\<lambda>_. ledger {} {})"
  proof (cases "distinct (map do_ID fleet)")
    case True
    then show ?thesis
      by (intro valid_weaken [OF valid_orfail [OF list ledger_reconcile_rows [OF True]]]) auto
  qed (simp add: valid_def)
qed

lemma ledger_tick: "valid (\<lambda>w. ledger {} {} w \<and> fleet_distinct w) (pool_tick hash lib cfg now) (\<lambda>_. ledger {} {})"
proof -
  let ?I = "\<lambda>w. ledger {} {} w \<and> fleet_distinct w"
  have reclaim: "keeps ?I (if pc_ReclaimLeases cfg then logged ReclaimExpiredLeases else ret ())"
  proof -
    have "external fleet_distinct" by (simp add: external_def fleet_distinct_def)
    then have "keeps fleet_distinct (ReclaimExpiredLeases :: (pool, _) state)" by (rule keeps_store_ops)
    then have "keeps ?I (ReclaimExpiredLeases :: (pool, _) state)"
      using ledger_writes(11) [of "{}" "{}"] by (fastforce simp: keeps_def valid_def split: prod.splits)
    then show ?thesis by (intro valid_intro)
  qed
  have reset: "keeps ?I (modify (\<lambda>w. w\<lparr>spend := None\<rparr>))"
    by (intro keepsI) (simp add: ledger_def tame_def safe_deletes_def fleet_distinct_def)
  have health: "keeps (ledger {} {}) (note_health f)" for f :: "fleet_health \<Rightarrow> 'b \<times> fleet_health"
    by (intro keepsI) (simp add: note_health_def ledger_def tame_def safe_deletes_def)
  have branch: "keeps (ledger {} {}) (case r of Inl FleetReadFailed \<Rightarrow> also_do (logged (note_health (noteFleetReadFailure now))) (ret (Inr ()))
      | Inl e \<Rightarrow> ret (Inl e) | Inr _ \<Rightarrow> also_do (logged (note_health (noteFleetReadSuccess now))) (scale_phase hash lib cfg now))"
    for r :: "pool_error + unit"
    by (cases r) (auto intro!: valid_intro health ledger_scale_phase split: pool_error.split)
  show ?thesis unfolding pool_tick_def
    by (intro valid_also_keeps [OF reset] valid_also_keeps [OF reclaim] valid_bind [OF ledger_reconcile] valid_keeps [OF branch])
qed

section \<open>Properties\<close>

subsection \<open>Example worlds\<close>

definition cfg0 :: PoolConfig where
  "cfg0 = NewController \<lparr>pc_OperatorAccountID = 1, pc_BillingEnabled = False, pc_TickInterval = 0, pc_Lookahead = 10 * minute, pc_Capacity = 1,
     pc_ProvisionLead = 10 * minute, pc_ProvisionTimeout = 15 * minute, pc_IdleGrace = 10 * minute, pc_DrainTimeout = hour,
     pc_ScaleUpCooldown = minute, pc_ScaleDownCooldown = minute, pc_StaleHeartbeatTimeout = 0, pc_Min = 0, pc_Max = 3,
     pc_MaxScaleUpBatch = 1, pc_Region = ''nyc3'', pc_Size = ''s-2'', pc_BackendAPIURL = ''https://api'', pc_BuildSHA = [],
     pc_HeartbeatSec = 15, pc_ReclaimLeases = False, pc_SpendCritical = None\<rparr>"

text \<open>One worker that was never heard of and is past its provision timeout; its droplet exists.\<close>

definition overdue_row :: droplet_row where
  "overdue_row = worker_row\<lparr>dr_state := Provisioning\<rparr>"

definition overdue_world :: pool where
  "overdue_world = \<lparr>pdb = example_db\<lparr>recordings := [], droplets := [overdue_row], serial := 2\<rparr>, dbclock = hour, tape = [],
     fleet_reply = Some [\<lparr>do_ID = 77, do_Name = ''w1'', do_IP = [], do_CreatedAt = 0\<rparr>], delete_replies = [], create_replies = [],
     quote_reply = None, secrets = [], calls = [], spend = None, health = no_incident\<rparr>"

lemma overdue_tick:
  "calls (snd (run_state (pool_tick (\<lambda>s. s) example_lib cfg0 hour) overdue_world)) =
     [DeleteCall 77 (set_droplet 1 (\<lambda>r. r\<lparr>dr_state := Destroying\<rparr>) (pdb overdue_world))]"
  by code_simp

text \<open>No worker, and a minimum of one: the tick scales up.\<close>

definition cfg1 :: PoolConfig where "cfg1 = cfg0\<lparr>pc_Min := 1\<rparr>"

definition demand_world :: pool where
  "demand_world = \<lparr>pdb = example_db\<lparr>recordings := []\<rparr>, dbclock = 5, tape = [], fleet_reply = Some [],
     delete_replies = [], create_replies = [Some \<lparr>do_ID = 78, do_Name = ''d'', do_IP = ''10.0.0.1'', do_CreatedAt = 0\<rparr>],
     quote_reply = Some (10, 2), secrets = [Some ''secret''], calls = [], spend = None, health = no_incident\<rparr>"

definition is_write_ahead :: "provider_call \<Rightarrow> bool" where
  "is_write_ahead c = (case c of CreateCall name d \<Rightarrow> map (\<lambda>r. (dr_name r, dr_state r, dr_do_id r)) (droplets d) = [(name, Provisioning, None)]
     | DeleteCall _ _ \<Rightarrow> False)"

lemma demand_tick:
  "map is_write_ahead (calls (snd (run_state (pool_tick (\<lambda>s. s) example_lib cfg1 5) demand_world))) = [True]"
  by code_simp

subsection \<open>What a tick calls\<close>

text \<open>C1: the controller never deletes a working worker's droplet. Whatever time passes, statements fail and other
  transactions do, as long as those leave the ids and states of the pool's rows alone, at the moment of every provider
  deletion every row bound to that droplet is already being destroyed, destroyed or failed, so that its worker can lease
  nothing.\<close>

theorem deletes_only_retired:
  assumes "run_state (pool_tick hash lib cfg now) w = (result, w')" "calls w = []" "tame w"
    and "ledger_ok {} {} (pdb w)" "fleet_distinct w" "DeleteCall i d \<in> set (calls w')" "r \<in> set (droplets d)" "dr_do_id r = Some i"
  shows "dr_state r \<in> {Destroying, Destroyed, Failed}"
proof -
  have "ledger {} {} w" using assms(2-4) by (simp add: ledger_def safe_deletes_def)
  then have "ledger {} {} w'" using validD [OF ledger_tick _ assms(1)] assms(5) by simp
  then show ?thesis using assms(6-8) by (auto simp: ledger_def safe_deletes_def gone_def dead_def)
qed

theorem deletes_only_retired_witness:
  "dr_state (overdue_row\<lparr>dr_state := Destroying\<rparr>) \<in> {Destroying, Destroyed, Failed} \<and>
   DeleteCall 77 (set_droplet 1 (\<lambda>r. r\<lparr>dr_state := Destroying\<rparr>) (pdb overdue_world)) \<in>
     set (calls (snd (run_state (pool_tick (\<lambda>s. s) example_lib cfg0 hour) overdue_world)))"
proof -
  obtain r w' where run: "run_state (pool_tick (\<lambda>s. s) example_lib cfg0 hour) overdue_world = (r, w')" by fastforce
  then have call: "DeleteCall 77 (set_droplet 1 (\<lambda>r. r\<lparr>dr_state := Destroying\<rparr>) (pdb overdue_world)) \<in> set (calls w')"
    using overdue_tick by simp
  have "calls overdue_world = []" "tame overdue_world" "ledger_ok {} {} (pdb overdue_world)" "fleet_distinct overdue_world"
    by (simp_all add: overdue_world_def tame_def ledger_ok_def fleet_distinct_def overdue_row_def worker_row_def)
  moreover have "overdue_row\<lparr>dr_state := Destroying\<rparr> \<in> set (droplets (set_droplet 1 (\<lambda>r. r\<lparr>dr_state := Destroying\<rparr>) (pdb overdue_world)))"
    "dr_do_id (overdue_row\<lparr>dr_state := Destroying\<rparr>) = Some 77"
    by (simp_all add: set_droplet_def overdue_world_def update_where_def overdue_row_def worker_row_def)
  ultimately show ?thesis using deletes_only_retired [OF run _ _ _ _ call] call run by simp
qed

text \<open>C2: the write-ahead rule. Whenever a tick asks the provider for a droplet, the row that counts it is already in the
  database, provisioning and without a provider id; this holds under any failures and any other transactions.\<close>

theorem row_before_droplet:
  assumes "run_state (pool_tick hash lib cfg now) w = (result, w')" "calls w = []" "CreateCall name d \<in> set (calls w')"
  shows "\<exists>r \<in> set (droplets d). dr_name r = name \<and> dr_state r = Provisioning \<and> dr_do_id r = None"
proof -
  have "keeps written_ahead (pool_tick hash lib cfg now)"
    by (rule keeps_tick [OF written_blind scaleUp_written]) (simp add: written_ahead_def)
  from keepsD [OF this, of w] assms(1,2) have "written_ahead w'" by (simp add: written_ahead_def)
  then show ?thesis using assms(3) by (simp add: written_ahead_def row_written_def)
qed

theorem row_before_droplet_witness:
  "\<exists>name d r. CreateCall name d \<in> set (calls (snd (run_state (pool_tick (\<lambda>s. s) example_lib cfg1 5) demand_world))) \<and>
     r \<in> set (droplets d) \<and> dr_name r = name \<and> dr_state r = Provisioning"
proof -
  obtain r w' where run: "run_state (pool_tick (\<lambda>s. s) example_lib cfg1 5) demand_world = (r, w')" by fastforce
  then have "map is_write_ahead (calls w') = [True]" using demand_tick by simp
  then obtain c where "calls w' = [c]" "is_write_ahead c" by (cases "calls w'") auto
  then obtain name d where "CreateCall name d \<in> set (calls w')" by (cases c) (simp_all add: is_write_ahead_def)
  moreover have "calls demand_world = []" by (simp add: demand_world_def)
  ultimately show ?thesis using row_before_droplet [OF run] run by fastforce
qed

text \<open>C12: no decision on stale fleet truth. When the provider's fleet cannot be read, the tick succeeds without a single
  provider call, and no droplet row, node or token changes: at most expired leases are reclaimed.\<close>

theorem stale_fleet_freezes:
  assumes "run_state (pool_tick hash lib cfg now) w = (result, w')" "fleet_reply w = None"
  shows "result = Inr () \<and> calls w' = calls w \<and>
    (let d = pdb (if pc_ReclaimLeases cfg then arrive w else w) in
      droplets (pdb w') = droplets d \<and> nodes (pdb w') = nodes d \<and> tokens (pdb w') = tokens d)"
proof -
  let ?w0 = "w\<lparr>spend := None\<rparr>"
  define w1 where "w1 = snd (run_state (if pc_ReclaimLeases cfg then logged ReclaimExpiredLeases else ret ()) ?w0)"
  have world: "w1 \<in> (if pc_ReclaimLeases cfg then {arrive ?w0, (arrive ?w0)\<lparr>pdb := snd (reclaim_expired (dbclock (arrive ?w0)) (pdb (arrive ?w0)))\<rparr>} else {?w0})"
    using command_world [of reclaim_expired ?w0]
    by (simp add: w1_def logged_def run_bind split_beta ReclaimExpiredLeases_def del: arrive_simps)
  have arr: "arrive ?w0 = (arrive w)\<lparr>spend := None\<rparr>" by (simp add: arrive_def next_step_def)
  have fleet: "fleet_reply w1 = None" "calls w1 = calls w"
    using world assms(2) by (auto simp: arr arrive_def split: if_splits)
  have "run_state (pool_tick hash lib cfg now) w = (Inr (), w1\<lparr>health := snd (noteFleetReadFailure now (health w1))\<rparr>)"
    using fleet(1) w1_def
    by (simp add: pool_tick_def also_do_def run_bind split_beta reconcile_def ListDropletsByName_def run_orfail logged_def note_health_def)
  moreover have "next_step ?w0 = next_step w" by (simp add: next_step_def)
  ultimately show ?thesis using assms(1) fleet world by (auto simp: Let_def arr arrive_def reclaim_expired_def split: if_splits)
qed

theorem stale_fleet_freezes_witness:
  "calls (snd (run_state (pool_tick (\<lambda>s. s) example_lib cfg0 hour) (overdue_world\<lparr>fleet_reply := None\<rparr>))) = []"
proof -
  let ?w = "overdue_world\<lparr>fleet_reply := None\<rparr>"
  obtain r w' where run: "run_state (pool_tick (\<lambda>s. s) example_lib cfg0 hour) ?w = (r, w')" by fastforce
  have "fleet_reply ?w = None" "calls ?w = []" by (simp_all add: overdue_world_def)
  then show ?thesis using stale_fleet_freezes [OF run] run by simp
qed

text \<open>C13: the hard cap. Acting on a decision, with the build rollout included, a tick never asks for more droplets than the
  cap leaves above the live count it decided on, whatever fails.\<close>

theorem hard_cap:
  assumes "run_state (act hash cfg now forecast liveCount idle (Decide p)) w = (u, w')"
    and "p_Live p = liveCount" "p_Max p = pc_Max cfg" "creates w < creates w'"
  shows "liveCount + int (creates w' - creates w) \<le> pc_Max cfg"
proof -
  let ?n = "nat (ScaleUpCount (Decide p))" and ?c = "creates w"
  let ?m = "if liveCount + ScaleUpCount (Decide p) < pc_Max cfg then Suc (?c + ?n) else ?c + ?n"
  have drains: "keeps (at_most m) (also_do (if b then beginDrains now idle k else ret ()) (progressDrains cfg now))" for m b k
    by (intro valid_intro keeps_teardown at_most_external keeps_no_scale at_most_blind)
  have "valid (at_most ?c) (act hash cfg now forecast liveCount idle (Decide p)) (\<lambda>_. at_most ?m)"
    unfolding act_def Let_def
    by (rule valid_also_do [OF loop_creates], rule valid_bind [OF rollout_creates], split prod.split,
        intro allI impI valid_keeps drains)
  from validD [OF this _ assms(1)] have "at_most ?m w'" by (simp add: at_most_def)
  then have "creates w' \<le> ?m" by (simp only: at_most_def)
  moreover have "0 \<le> ScaleUpCount (Decide p)" by (simp add: Decide_up max.coboundedI1)
  moreover have "liveCount + ScaleUpCount (Decide p) \<le> pc_Max cfg" if "0 < ScaleUpCount (Decide p)"
    using that assms(2,3) by (auto simp: Decide_up required_droplets_def split: if_splits)
  ultimately show ?thesis using assms(4) by (cases "0 < ScaleUpCount (Decide p)") (auto split: if_splits)
qed

definition cold_start :: DecisionParams where
  "cold_start = decision_params cfg1 5 \<lparr>PeakConcurrent = 0, NextFireAt = zero_time\<rparr> 0 0 \<lparr>LastScaleUpAt = None, LastScaleDownAt = None\<rparr>"

lemma cold_start_creates:
  "creates (snd (run_state (act (\<lambda>s. s) cfg1 5 \<lparr>PeakConcurrent = 0, NextFireAt = zero_time\<rparr> 0 [] (Decide cold_start)) demand_world)) = 1"
  by code_simp

theorem hard_cap_witness:
  "0 + int (creates (snd (run_state (act (\<lambda>s. s) cfg1 5 \<lparr>PeakConcurrent = 0, NextFireAt = zero_time\<rparr> 0 [] (Decide cold_start)) demand_world))) \<le> 3"
proof -
  obtain u w' where run: "run_state (act (\<lambda>s. s) cfg1 5 \<lparr>PeakConcurrent = 0, NextFireAt = zero_time\<rparr> 0 [] (Decide cold_start)) demand_world = (u, w')"
    by (rule prod.exhaust)
  have "creates demand_world = 0" "creates w' = 1" using cold_start_creates run by (simp_all add: demand_world_def creates_def)
  moreover have "p_Live cold_start = 0" "p_Max cold_start = pc_Max cfg1" "pc_Max cfg1 = 3"
    by (simp_all add: cold_start_def decision_params_def cfg1_def cfg0_def NewController_def)
  ultimately show ?thesis using hard_cap [OF run] run by simp
qed

text \<open>The spend ceiling. With a quote of \<open>b\<close> dollars a day and \<open>s\<close> for one more droplet, the batch of a tick never asks for
  a droplet that would bring the day's burn above the ceiling, counting the ones it has asked for before.\<close>

theorem spend_ceiling:
  assumes "run_state (scale_up_loop hash cfg now i n) w = (u, w')" "pc_SpendCritical cfg = Some crit"
    and "quote_reply w = Some (b, s)" "spend w = None"
  shows "creates w' = creates w \<or> b + real (creates w' - creates w) * s \<le> crit"
proof -
  have "spending crit b s (creates w) 0 w" using assms(3,4) by (simp add: spending_def)
  from validD [OF loop_spends [OF assms(2)] this assms(1)]
  obtain m where "creates w' = creates w + m" "m = 0 \<or> b + real m * s \<le> crit" by (auto simp: under_ceiling_def)
  then show ?thesis by auto
qed

theorem spend_ceiling_witness:
  "creates (snd (run_state (scale_up_loop (\<lambda>s. s) (cfg1\<lparr>pc_SpendCritical := Some 11\<rparr>) 5 0 2) demand_world)) = 0"
proof -
  obtain u w' where run: "run_state (scale_up_loop (\<lambda>s. s) (cfg1\<lparr>pc_SpendCritical := Some 11\<rparr>) 5 0 2) demand_world = (u, w')" by (rule prod.exhaust)
  have "pc_SpendCritical (cfg1\<lparr>pc_SpendCritical := Some 11\<rparr>) = Some 11" "quote_reply demand_world = Some (10, 2)"
    "spend demand_world = None" "creates demand_world = 0"
    by (simp_all add: demand_world_def creates_def)
  then have "creates w' = 0 \<or> 10 + real (creates w') * 2 \<le> 11" using spend_ceiling [OF run] by simp
  then have "creates w' = 0" by (cases "creates w'") simp_all
  then show ?thesis using run by simp
qed

subsection \<open>Fleet-read incidents\<close>

text \<open>The specification: an incident is open since its first failure, with its number of failures, whether operators have been
  alerted, and since when reads have been healthy again.\<close>

datatype incident = Calm | Incident (since: gotime) (failed: int) (paged: bool) (healthy: "gotime option")

definition sustained :: "gotime \<Rightarrow> gotime \<Rightarrow> bool" where
  "sustained t now \<longleftrightarrow> 5 * minute \<le> time_sub now t"

definition read_failed :: "gotime \<Rightarrow> incident \<Rightarrow> bool \<times> incident" where
  "read_failed now inc =
     (case inc of
        Calm \<Rightarrow> (sustained now now, Incident now 1 (sustained now now) None)
      | Incident t n p _ \<Rightarrow> (\<not> p \<and> sustained t now, Incident t (n + 1) (p \<or> sustained t now) None))"

definition read_succeeded :: "gotime \<Rightarrow> incident \<Rightarrow> (bool \<times> bool) \<times> incident" where
  "read_succeeded now inc =
     (case inc of
        Calm \<Rightarrow> ((False, False), Calm)
      | Incident t n p h \<Rightarrow>
         (let good = (case h of None \<Rightarrow> now | Some u \<Rightarrow> u); alert = (\<not> p \<and> sustained t now \<and> 2 \<le> n) in
          if sustained good now then ((alert, True), Calm) else ((alert, False), Incident t n (p \<or> alert) (Some good))))"

definition stamped :: "gotime \<Rightarrow> gotime option" where
  "stamped t = (if is_zero t then None else Some t)"

definition incident_of :: "fleet_health \<Rightarrow> incident" where
  "incident_of h = (case stamped (failureSince h) of None \<Rightarrow> Calm
     | Some t \<Rightarrow> Incident t (readFailures h) (alerted h) (stamped (successSince h)))"

text \<open>Without an incident every field has its zero value.\<close>

definition health_ok :: "fleet_health \<Rightarrow> bool" where
  "health_ok h \<longleftrightarrow> (is_zero (failureSince h) \<longrightarrow> h = no_incident)"

text \<open>C14: the controller's latch implements the specification. The five fields, with the zero time for "not set", stay
  consistent, and on them both operations do what the specification does and report the same alert and recovery, at
  every instant but the zero time itself.\<close>

theorem fleet_health_refines:
  assumes "health_ok h" "now \<noteq> zero_time"
  shows "health_ok (snd (noteFleetReadFailure now h)) \<and> health_ok (snd (noteFleetReadSuccess now h)) \<and>
    (fst (noteFleetReadFailure now h), incident_of (snd (noteFleetReadFailure now h))) = read_failed now (incident_of h) \<and>
    (case noteFleetReadSuccess now h of ((alert, _, _, recovered), h') \<Rightarrow> ((alert, recovered), incident_of h')) =
      read_succeeded now (incident_of h)"
proof -
  have now: "\<not> is_zero now" using assms(2) by (simp add: is_zero_def)
  show ?thesis
  proof (cases "is_zero (failureSince h)")
    case True
    then have h: "h = no_incident" using assms(1) by (simp add: health_ok_def)
    then show ?thesis using now
      by (simp add: noteFleetReadFailure_def noteFleetReadSuccess_def no_incident_def health_ok_def incident_of_def stamped_def
          read_failed_def read_succeeded_def sustained_def fleetReadSustainedFailureThreshold_def Let_def is_zero_def not_le)
  next
    case False
    then show ?thesis using now
      by (auto simp: noteFleetReadFailure_def noteFleetReadSuccess_def no_incident_def health_ok_def incident_of_def stamped_def
          read_failed_def read_succeeded_def sustained_def fleetReadSustainedFailureThreshold_def fleetReadRecoveryDwell_def Let_def is_zero_def)
  qed
qed

theorem fleet_health_refines_witness:
  "read_failed (7 * minute) (Incident minute 1 False None) = (True, Incident minute 2 True None)"
proof -
  let ?h = "\<lparr>failureSince = minute, lastFailure = minute, successSince = zero_time, readFailures = 1, alerted = False\<rparr>"
  have "health_ok ?h" "(7 * minute :: gotime) \<noteq> zero_time" by (simp_all add: health_ok_def is_zero_def zero_time_def)
  moreover have "noteFleetReadFailure (7 * minute) ?h = (True, \<lparr>failureSince = minute, lastFailure = 7 * minute, successSince = zero_time,
      readFailures = 2, alerted = True\<rparr>)" by code_simp
  moreover have "incident_of ?h = Incident minute 1 False None"
    by (simp add: incident_of_def stamped_def is_zero_def zero_time_def)
  ultimately show ?thesis using fleet_health_refines [of ?h "7 * minute"]
    by (simp add: incident_of_def stamped_def is_zero_def zero_time_def)
qed

datatype page = Alert | Recovered

text \<open>What a run of ticks reports, each tick with its instant and whether the fleet was read.\<close>

fun reports :: "fleet_health \<Rightarrow> (gotime \<times> bool) list \<Rightarrow> page list" where
  "reports h [] = []"
| "reports h ((now, ok) # ticks) =
     (if ok then (case noteFleetReadSuccess now h of ((alert, _, _, recovered), h') \<Rightarrow>
        (if alert then [Alert] else []) @ (if recovered then [Recovered] else []) @ reports h' ticks)
      else (case noteFleetReadFailure now h of (alert, h') \<Rightarrow> (if alert then [Alert] else []) @ reports h' ticks))"

fun paged_once :: "bool \<Rightarrow> page list \<Rightarrow> bool" where
  "paged_once p [] = True"
| "paged_once p (Alert # es) = (\<not> p \<and> paged_once True es)"
| "paged_once p (Recovered # es) = paged_once False es"

lemma paged_once_weaken: "paged_once True es \<Longrightarrow> paged_once p es"
  by (induction es) (auto elim: paged_once.elims)

lemma reports_paged_once: "paged_once (alerted h) (reports h ticks)"
proof (induction ticks arbitrary: h)
  case (Cons e ticks)
  obtain now ok where e: "e = (now, ok)" by fastforce
  have IH: "\<And>h. alerted h \<Longrightarrow> paged_once True (reports h ticks)" "\<And>h. \<not> alerted h \<Longrightarrow> paged_once False (reports h ticks)"
    using Cons.IH by (metis (full_types))+
  show ?case
    by (cases "alerted h"; cases ok)
      (auto simp: e noteFleetReadFailure_def noteFleetReadSuccess_def no_incident_def Let_def intro: IH paged_once_weaken)
qed simp

lemma paged_once_tail: "paged_once p (xs @ Alert # es) \<Longrightarrow> paged_once True es"
proof (induction xs arbitrary: p)
  case (Cons x xs)
  then show ?case by (cases x) auto
qed simp

lemma paged_once_next: "paged_once True es \<Longrightarrow> Recovered \<notin> set es \<Longrightarrow> Alert \<notin> set es"
proof (induction es)
  case (Cons e es)
  then show ?case by (cases e) auto
qed simp

text \<open>Operators are alerted once per incident: between two alerts of any run of ticks there is a recovery.\<close>

theorem one_alert_per_incident:
  assumes "reports no_incident ticks = xs @ Alert # ys @ Alert # zs"
  shows "Recovered \<in> set ys"
proof (rule ccontr)
  assume "Recovered \<notin> set ys"
  have "paged_once False (xs @ Alert # (ys @ Alert # zs))"
    using reports_paged_once [of no_incident ticks] assms by (simp add: no_incident_def)
  then have tail: "paged_once True (ys @ Alert # zs)" by (rule paged_once_tail)
  have "paged_once True (ys @ es) \<Longrightarrow> Alert \<notin> set ys \<Longrightarrow> paged_once True es" if "Recovered \<notin> set ys" for es
    using that by (induction ys) (auto elim: paged_once.elims)
  moreover have "Alert \<notin> set ys"
    using tail \<open>Recovered \<notin> set ys\<close>
  proof (induction ys)
    case (Cons y ys)
    then show ?case by (cases y) auto
  qed simp
  ultimately have "paged_once True (Alert # zs)" using tail \<open>Recovered \<notin> set ys\<close> by blast
  then show False by simp
qed

definition flaky_ticks :: "(gotime \<times> bool) list" where
  "flaky_ticks = [(minute, False), (7 * minute, False), (8 * minute, True), (13 * minute, True), (14 * minute, False), (20 * minute, False)]"

lemma flaky_reports: "reports no_incident flaky_ticks = [] @ Alert # [Recovered] @ Alert # []"
  by code_simp

theorem one_alert_per_incident_witness: "reports no_incident flaky_ticks = [Alert, Recovered, Alert] \<and> Recovered \<in> set [Recovered]"
  using one_alert_per_incident [OF flaky_reports] flaky_reports by simp

subsection \<open>Where a worker is left behind\<close>

text \<open>A worker that never got a droplet, past its provision timeout.\<close>

definition undelivered_world :: pool where
  "undelivered_world = overdue_world\<lparr>fleet_reply := Some [],
     pdb := example_db\<lparr>recordings := [], droplets := [overdue_row\<lparr>dr_do_id := None\<rparr>], serial := 2\<rparr>\<rparr>"

text \<open>The statement that would mark it failed is the fourth of the tick; it fails.\<close>

definition marking_fails :: "pool_step list" where
  "marking_fails = [quiet, quiet, quiet, quiet\<lparr>replies := [False]\<rparr>]"

text \<open>An example of a worker without a provider id that is stranded. Its row is moved to destroying, the next statement fails, and from then
  on no tick does anything about it: a second tick in which everything succeeds leaves the row as it is, and it is counted
  against the cap.\<close>

theorem destroying_row_stranded:
  "let w1 = snd (run_state (pool_tick (\<lambda>s. s) example_lib cfg0 hour) (undelivered_world\<lparr>tape := marking_fails\<rparr>));
       w2 = snd (run_state (pool_tick (\<lambda>s. s) example_lib cfg0 (2 * hour)) (w1\<lparr>tape := []\<rparr>))
   in map dr_state (droplets (pdb w1)) = [Destroying] \<and> map dr_state (droplets (pdb w2)) = [Destroying] \<and> live_rows Shared (pdb w2) = 1"
  by code_simp

text \<open>A worker whose droplet vanished, with a node and its token.\<close>

definition vanished_world :: pool where
  "vanished_world = overdue_world\<lparr>fleet_reply := Some [],
     pdb := example_db\<lparr>recordings := [], droplets := [worker_row],
       nodes := [\<lparr>node_id = 5, node_account = 1, node_type = nodeTypeLocalRecorder, node_name = ''w1'', node_status = ''active'',
         node_heartbeat = None, node_max_streams = 0, node_group = None, node_youtube_ready = False\<rparr>],
       tokens := [\<lparr>token_id = 6, token_node = 5, token_hash = [], token_revoked = None\<rparr>], serial := 7\<rparr>\<rparr>"

text \<open>The read of the node binding is the third statement.\<close>

definition reading_fails :: "pool_step list" where
  "reading_fails = [quiet, quiet, quiet\<lparr>replies := [False]\<rparr>]"

text \<open>An example of a destroyed worker whose credential stays valid. When the read of its node binding fails, the error is ignored, nothing is
  revoked, and the row is destroyed all the same; later ticks look only at live rows, so the token stays valid and its node
  active.\<close>

theorem credential_outlives_worker:
  "let w1 = snd (run_state (pool_tick (\<lambda>s. s) example_lib cfg0 hour) (vanished_world\<lparr>tape := reading_fails\<rparr>));
       w2 = snd (run_state (pool_tick (\<lambda>s. s) example_lib cfg0 (2 * hour)) (w1\<lparr>tape := []\<rparr>))
   in map dr_state (droplets (pdb w2)) = [Destroyed] \<and> map token_revoked (tokens (pdb w2)) = [None] \<and> map node_status (nodes (pdb w2)) = [''active'']"
  by code_simp

end
