(* ===== verification/Calendar.thy ===== *)
theory Calendar
  imports GoTime GoStrings
begin

text \<open>
  The part of Go's \<open>time\<close> package that looks inside a date: the year, month and day of a day number, the layouts
  \<open>2006-01-02\<close> and RFC 3339 in which the joined recordings write dates and instants, and the parser of the former.
\<close>

section \<open>The Gregorian calendar\<close>

definition leap :: "int \<Rightarrow> bool" where
  "leap y \<longleftrightarrow> y mod 4 = 0 \<and> (y mod 100 \<noteq> 0 \<or> y mod 400 = 0)"

definition year_days :: "int \<Rightarrow> int" where
  "year_days y = (if leap y then 366 else 365)"

text \<open>Days from January 1 of year 1 to January 1 of a year, and the day number of the former.\<close>

definition days_before_year :: "int \<Rightarrow> int" where
  "days_before_year y = 365 * (y - 1) + (y - 1) div 4 - (y - 1) div 100 + (y - 1) div 400"

definition epoch_days :: int where "epoch_days = 719162"

definition month_lengths :: "int \<Rightarrow> int list" where
  "month_lengths y = [31, if leap y then 29 else 28, 31, 30, 31, 30, 31, 31, 30, 31, 30, 31]"

fun month_day :: "int list \<Rightarrow> int \<Rightarrow> int \<Rightarrow> int \<times> int" where
  "month_day [] m k = (m, k + 1)"
| "month_day (l # ls) m k = (if k < l then (m, k + 1) else month_day ls (m + 1) (k - l))"

text \<open>The year of a day counted from January 1 of year 1, and the day of that year.\<close>

definition year_day :: "int \<Rightarrow> int \<times> int" where
  "year_day n =
     (let a = n div 146097; r = n mod 146097;
          b = min 3 (r div 36524); r = r - 36524 * b;
          c = r div 1461; r = r - 1461 * c;
          e = min 3 (r div 365)
      in (400 * a + 100 * b + 4 * c + e + 1, r - 365 * e))"

definition civil :: "int \<Rightarrow> int \<times> int \<times> int" where
  "civil d = (case year_day (d + epoch_days) of (y, k) \<Rightarrow> (y, month_day (month_lengths y) 1 k))"

definition day_number :: "int \<Rightarrow> int \<Rightarrow> int \<Rightarrow> int" where
  "day_number y m k = days_before_year y + sum_list (take (nat (m - 1)) (month_lengths y)) + k - 1 - epoch_days"

definition valid_date :: "int \<Rightarrow> int \<Rightarrow> int \<Rightarrow> bool" where
  "valid_date y m k \<longleftrightarrow> 1 \<le> m \<and> m \<le> 12 \<and> 1 \<le> k \<and> k \<le> month_lengths y ! nat (m - 1)"

lemma days_before_cycle:
  assumes "0 \<le> b" "b \<le> 3" "0 \<le> c" "c \<le> 24" "0 \<le> e" "e \<le> 3"
  shows "days_before_year (400 * a + 100 * b + 4 * c + e + 1) = 146097 * a + 36524 * b + 1461 * c + 365 * e"
proof -
  let ?y = "400 * a + 100 * b + 4 * c + e"
  have "?y div 4 = 100 * a + 25 * b + c" by (rule int_div_pos_eq [where r = e]) (use assms in auto)
  moreover have "?y div 100 = 4 * a + b" by (rule int_div_pos_eq [where r = "4 * c + e"]) (use assms in auto)
  moreover have "?y div 400 = a" by (rule int_div_pos_eq [where r = "100 * b + 4 * c + e"]) (use assms in auto)
  ultimately show ?thesis by (simp add: days_before_year_def)
qed

lemma days_before_next: "days_before_year (y + 1) = days_before_year y + year_days y"
proof -
  have step: "y div m = (y - 1) div m + (if y mod m = 0 then 1 else 0)" if "1 < m" for m :: int
  proof (cases "y mod m = 0")
    case True
    have "(y - 1) div m = y div m - 1"
      by (rule int_div_pos_eq [where r = "m - 1"]) (use that True div_mult_mod_eq [of y m] in \<open>auto simp: algebra_simps\<close>)
    then show ?thesis using True by simp
  next
    case False
    have "0 \<le> y mod m" "y mod m < m" using that by simp_all
    with False have "(y - 1) div m = y div m"
      by (intro int_div_pos_eq [where r = "y mod m - 1"]) (use div_mult_mod_eq [of y m] in \<open>auto simp: algebra_simps\<close>)
    then show ?thesis using False by simp
  qed
  have "(4::int) dvd 100" "(100::int) dvd 400" by simp_all
  then have sub: "y mod 100 = 0 \<longrightarrow> y mod 4 = 0" "y mod 400 = 0 \<longrightarrow> y mod 100 = 0"
    by (meson dvd_trans mod_eq_0_iff_dvd)+
  define i j k :: int where ijk: "i = (if y mod 4 = 0 then 1 else 0)" "j = (if y mod 100 = 0 then 1 else 0)" "k = (if y mod 400 = 0 then 1 else 0)"
  have days: "year_days y = 365 + i - j + k"
    using sub unfolding ijk year_days_def leap_def
    by (cases "y mod 4 = 0"; cases "y mod 100 = 0"; cases "y mod 400 = 0"; simp)
  have "y div 4 = (y - 1) div 4 + i" "y div 100 = (y - 1) div 100 + j" "y div 400 = (y - 1) div 400 + k"
    unfolding ijk by (rule step; simp)+
  moreover have "365 * y + (p + i) - (q + j) + (r + k) = 365 * (y - 1) + p - q + r + (365 + i - j + k)" for p q r :: int
    by simp
  ultimately show ?thesis unfolding days_before_year_def days by (simp only: add_diff_cancel_right')
qed

lemma year_days_pos: "0 < year_days y"
  by (simp add: year_days_def)

lemma days_before_mono: "y \<le> z \<Longrightarrow> days_before_year y \<le> days_before_year z"
proof (induction z rule: int_ge_induct [where k = y])
  case (step i)
  then show ?case using days_before_next [of i] year_days_pos [of i] by linarith
qed (simp_all)

lemma year_unique:
  assumes "days_before_year y \<le> n" "n < days_before_year (y + 1)" "days_before_year z \<le> n" "n < days_before_year (z + 1)"
  shows "y = z"
proof (rule ccontr)
  assume "y \<noteq> z"
  then consider "y + 1 \<le> z" | "z + 1 \<le> y" by linarith
  then show False using assms days_before_mono [of "y + 1" z] days_before_mono [of "z + 1" y] by cases linarith+
qed

text \<open>A quotient cut at 3: the fourth part of a cycle may be one longer than the others.\<close>

lemma capped_div:
  fixes m r :: int
  assumes "0 < m" "0 \<le> r" "r \<le> 4 * m"
  shows "0 \<le> min 3 (r div m) \<and> min 3 (r div m) \<le> 3 \<and> 0 \<le> r - m * min 3 (r div m) \<and> r - m * min 3 (r div m) \<le> m \<and>
    (min 3 (r div m) < 3 \<longrightarrow> r - m * min 3 (r div m) < m)"
proof -
  obtain q s where qs: "r div m = q" "r = q * m + s" "0 \<le> s" "s < m"
    using assms(1) by (metis div_mult_mod_eq pos_mod_bound pos_mod_sign)
  have "0 \<le> q" using qs(1) assms(1,2) by (auto simp: pos_imp_zdiv_nonneg_iff)
  moreover have "q \<le> 3 \<or> q = 4 \<and> s = 0"
  proof (rule ccontr)
    assume "\<not> ?thesis"
    then consider "q = 4" "0 < s" | "5 \<le> q" using qs(3) by linarith
    then show False
    proof cases
      case 1
      then show False using qs(2) assms(3) by simp
    next
      case 2
      then have "5 * m \<le> q * m" using assms(1) by (intro mult_right_mono) auto
      then show False using qs(2,3) assms(1,3) by linarith
    qed
  qed
  ultimately show ?thesis using qs unfolding qs(1) by (auto simp: min_def algebra_simps)
qed

lemma year_day_correct:
  assumes "year_day n = (y, k)"
  shows "days_before_year y + k = n \<and> 0 \<le> k \<and> k < year_days y"
proof -
  define a r where "a = n div 146097" and "r = n mod 146097"
  define b where "b = min 3 (r div 36524)"
  define s where "s = r - 36524 * b"
  define c where "c = s div 1461"
  define t where "t = s - 1461 * c"
  define e where "e = min 3 (t div 365)"
  have yk: "y = 400 * a + 100 * b + 4 * c + e + 1" "k = t - 365 * e"
    using assms unfolding year_day_def Let_def a_def r_def b_def s_def c_def t_def e_def
    by (simp_all only: prod.inject)
  have n: "n = 146097 * a + r" "0 \<le> r" "r < 146097" by (simp_all add: a_def r_def)
  have b: "0 \<le> b" "b \<le> 3" "0 \<le> s" "s \<le> 36524" "b < 3 \<Longrightarrow> s < 36524"
    using capped_div [of 36524 r] n(2,3) unfolding b_def s_def by simp_all
  have c: "0 \<le> c" "c \<le> 24" "0 \<le> t" "t < 1461" "s = 1461 * c + t"
    using b(3,4) unfolding c_def t_def by (simp_all add: minus_mult_div_eq_mod int_div_less_iff pos_imp_zdiv_nonneg_iff flip: less_iff_succ_less_eq)
  have e: "0 \<le> e" "e \<le> 3" "0 \<le> k" "k \<le> 365" "e < 3 \<Longrightarrow> k < 365"
    using capped_div [of 365 t] c(3,4) unfolding e_def yk(2) by simp_all
  have eq: "days_before_year y + k = n"
    using days_before_cycle [OF b(1,2) c(1,2) e(1,2), of a] n(1) c(5) unfolding yk s_def by simp
  have "k < year_days y"
  proof (cases "k < 365")
    case True
    then show ?thesis by (simp add: year_days_def)
  next
    case False
    then have last: "k = 365" "e = 3" using e by linarith+
    then have t: "t = 1460" using yk(2) by simp
    have bc: "b = 3 \<or> c < 24"
    proof (rule ccontr)
      assume "\<not> ?thesis"
      then have "b < 3" "c = 24" using b(2) c(2) by auto
      with b(5) c(5) t show False by simp
    qed
    have y: "y = 400 * a + 100 * b + 4 * (c + 1)" using yk(1) last(2) by simp
    have "leap y"
    proof (cases "c < 24")
      case True
      have "y mod 4 = 0" by (rule int_mod_pos_eq [where q = "100 * a + 25 * b + c + 1"]) (use y in auto)
      moreover have "y mod 100 = 4 * (c + 1)" by (rule int_mod_pos_eq [where q = "4 * a + b"]) (use y True c(1) in auto)
      ultimately have "y mod 4 = 0" "y mod 100 \<noteq> 0" using c(1) by simp_all
      then show ?thesis by (simp add: leap_def)
    next
      case False
      then have "y = 400 * (a + 1)" using y bc c(2) by simp
      moreover have "y mod 4 = 0" by (rule int_mod_pos_eq [where q = "100 * (a + 1)"]) (use calculation in auto)
      moreover have "y mod 400 = 0" by (rule int_mod_pos_eq [where q = "a + 1"]) (use calculation in auto)
      ultimately show ?thesis by (simp add: leap_def)
    qed
    then show ?thesis using last(1) by (simp add: year_days_def)
  qed
  with eq e(3) show ?thesis by blast
qed

lemma year_dayI:
  assumes "0 \<le> k" "k < year_days y"
  shows "year_day (days_before_year y + k) = (y, k)"
proof -
  obtain z l where zl: "year_day (days_before_year y + k) = (z, l)" by force
  note ok = year_day_correct [OF this]
  have "z = y"
    by (rule year_unique [where n = "days_before_year y + k"])
      (use ok assms days_before_next [of y] days_before_next [of z] in linarith)+
  with ok zl show ?thesis by simp
qed

lemma sum_month_lengths: "sum_list (month_lengths y) = year_days y"
  by (simp add: month_lengths_def year_days_def)

lemma month_day_correct:
  assumes "month_day ls m k = (m', k')" "0 \<le> k" "k < sum_list ls" "\<forall>l \<in> set ls. 0 < l"
  shows "m \<le> m' \<and> m' < m + int (length ls) \<and> 1 \<le> k' \<and> k' \<le> ls ! nat (m' - m) \<and>
    k = sum_list (take (nat (m' - m)) ls) + k' - 1"
  using assms
proof (induction ls m k rule: month_day.induct)
  case (2 l ls m k)
  show ?case
  proof (cases "k < l")
    case True
    then show ?thesis using 2 by auto
  next
    case False
    then have "m + 1 \<le> m' \<and> m' < m + 1 + int (length ls) \<and> 1 \<le> k' \<and> k' \<le> ls ! nat (m' - (m + 1)) \<and>
        k - l = sum_list (take (nat (m' - (m + 1))) ls) + k' - 1"
      using 2 by simp
    moreover from this have "nat (m' - m) = Suc (nat (m' - (m + 1)))" by linarith
    ultimately show ?thesis by simp
  qed
qed simp

lemma month_dayI:
  assumes "1 \<le> k" "i < length ls" "k \<le> ls ! i" "\<forall>l \<in> set ls. 0 < l"
  shows "month_day ls m (sum_list (take i ls) + k - 1) = (m + int i, k)"
  using assms
proof (induction ls arbitrary: i m)
  case (Cons l ls)
  show ?case
  proof (cases i)
    case (Suc j)
    have "0 \<le> sum_list (take j ls)" using Cons.prems(4) by (intro sum_list_nonneg) (auto dest!: in_set_takeD)
    moreover have "l + sum_list (take j ls) + k - 1 - l = sum_list (take j ls) + k - 1" by simp
    ultimately show ?thesis using Cons.IH [of j "m + 1"] Cons.prems Suc by (simp add: algebra_simps)
  qed (use Cons in simp)
qed simp

lemma month_lengths_pos: "\<forall>l \<in> set (month_lengths y). 0 < l"
  by (simp add: month_lengths_def)

lemma length_month_lengths: "length (month_lengths y) = 12"
  by (simp add: month_lengths_def)

theorem day_number_civil:
  assumes "civil d = (y, m, k)"
  shows "day_number y m k = d \<and> valid_date y m k"
proof -
  obtain j where j: "year_day (d + epoch_days) = (y, j)" "month_day (month_lengths y) 1 j = (m, k)"
    using assms by (auto simp: civil_def split: prod.splits)
  note year = year_day_correct [OF j(1)]
  note month = month_day_correct [OF j(2) _ _ month_lengths_pos]
  show ?thesis
    using year month unfolding sum_month_lengths length_month_lengths
    by (simp add: day_number_def valid_date_def)
qed

theorem civil_day_number:
  assumes "valid_date y m k"
  shows "civil (day_number y m k) = (y, m, k)"
proof -
  let ?i = "nat (m - 1)" and ?ls = "month_lengths y"
  let ?j = "sum_list (take ?i ?ls) + k - 1"
  have i: "?i < length ?ls" "1 \<le> k" "k \<le> ?ls ! ?i"
    using assms unfolding valid_date_def length_month_lengths by auto
  have "0 \<le> sum_list (take ?i ?ls)" "0 \<le> sum_list (drop (Suc ?i) ?ls)"
    using month_lengths_pos [of y] by (intro sum_list_nonneg; auto dest!: in_set_takeD in_set_dropD)+
  moreover have "sum_list ?ls = sum_list (take ?i ?ls) + ?ls ! ?i + sum_list (drop (Suc ?i) ?ls)"
    by (subst id_take_nth_drop [OF i(1)]) (simp only: sum_list_append sum_list.Cons)
  ultimately have "0 \<le> ?j" "?j < year_days y" using i unfolding sum_month_lengths by linarith+
  then have "year_day (days_before_year y + ?j) = (y, ?j)" by (rule year_dayI)
  moreover have "month_day ?ls 1 ?j = (1 + int ?i, k)" by (rule month_dayI [OF i(2,1,3) month_lengths_pos])
  ultimately show ?thesis using assms by (simp add: civil_def day_number_def valid_date_def algebra_simps)
qed

section \<open>Dates as text\<close>

text \<open>Digits padded with zeros to a width; \<open>time\<close> pads the absolute value of a year.\<close>

definition zero_pad :: "nat \<Rightarrow> string \<Rightarrow> string" where
  "zero_pad w s = replicate (w - length s) CHR ''0'' @ s"

definition append_int :: "int \<Rightarrow> nat \<Rightarrow> string" where
  "append_int x w = (if x < 0 then CHR ''-'' # zero_pad w (decimal (nat (- x))) else zero_pad w (decimal (nat x)))"

text \<open>\<open>t.Format("2006-01-02")\<close> of an instant of the day.\<close>

definition date_string :: "int \<Rightarrow> string" where
  "date_string d = (case civil d of (y, m, k) \<Rightarrow> append_int y 4 @ ''-'' @ append_int m 2 @ ''-'' @ append_int k 2)"

definition local_date :: "location \<Rightarrow> gotime \<Rightarrow> string" where
  "local_date loc t = date_string (local_day loc t)"

text \<open>\<open>time.Parse("2006-01-02", s)\<close>: the day, \<open>None\<close> for an error.\<close>

definition parse_date :: "string \<Rightarrow> int option" where
  "parse_date s =
     (let y = take 4 s; m = take 2 (drop 5 s); k = drop 8 s in
      if length s = 10 \<and> list_all is_digit (y @ m @ k) \<and> s ! 4 = CHR ''-'' \<and> s ! 7 = CHR ''-'' \<and>
         valid_date (read_digits y) (read_digits m) (read_digits k)
      then Some (day_number (read_digits y) (read_digits m) (read_digits k)) else None)"

text \<open>\<open>time.ParseInLocation\<close>: the midnight of the day, or what \<open>time.Date\<close> makes of it.\<close>

definition ParseInLocation :: "string \<Rightarrow> location \<Rightarrow> gotime option" where
  "ParseInLocation s loc = map_option (\<lambda>d. go_date loc d 0 0) (parse_date s)"

lemma read_digits_zeros: "read_digits (replicate n CHR ''0'' @ s) = read_digits s"
  by (induction n) (simp_all add: read_digits_def digit_value_def)

lemma read_zero_pad [simp]: "read_digits (zero_pad w (decimal n)) = int n"
  by (simp add: zero_pad_def read_digits_zeros read_decimal)

lemma zero_pad_digits: "c \<in> set (zero_pad w (decimal n)) \<Longrightarrow> is_digit c"
  using decimal_digits [of n] by (auto simp: zero_pad_def is_digit_def split: if_splits)

lemma append_int_inj: "append_int x w = append_int y w \<Longrightarrow> x = y"
proof -
  assume eq: "append_int x w = append_int y w"
  have sign: "\<not> is_digit (CHR ''-'')" by (simp add: is_digit_def)
  have "CHR ''-'' # s \<noteq> zero_pad w (decimal n)" for s n
    using zero_pad_digits [of "CHR ''-''" w n] sign by (metis list.set_intros(1))
  moreover have "zero_pad w (decimal m) = zero_pad w (decimal n) \<longleftrightarrow> m = n" for m n
    by (metis read_zero_pad of_nat_eq_iff)
  ultimately have "x < 0 \<and> y < 0 \<and> nat (- x) = nat (- y) \<or> \<not> x < 0 \<and> \<not> y < 0 \<and> nat x = nat y"
    using eq unfolding append_int_def by (cases "x < 0"; cases "y < 0"; simp; metis)
  then show ?thesis by auto
qed

lemma read_digits_snoc: "read_digits (ds @ [c]) = read_digits ds * 10 + digit_value c"
  by (simp add: read_digits_def)

lemma digit_value_bounds: "is_digit c \<Longrightarrow> 0 \<le> digit_value c \<and> digit_value c < 10"
  by (auto simp: is_digit_def digit_value_def)

lemma digit_char_value: "is_digit c \<Longrightarrow> digit_char (nat (digit_value c)) = c"
  by (simp add: is_digit_def digit_value_def digit_char_def nat_diff_distrib)

lemma read_digits_nonneg: "list_all is_digit ds \<Longrightarrow> 0 \<le> read_digits ds"
  by (induction ds rule: rev_induct) (use digit_value_bounds in \<open>auto simp: read_digits_snoc read_digits_def\<close>)

lemma zero_pad_read:
  "list_all is_digit ds \<Longrightarrow> ds \<noteq> [] \<Longrightarrow> zero_pad (length ds) (decimal (nat (read_digits ds))) = ds"
proof (induction ds rule: rev_induct)
  case (snoc c cs)
  define v where "v = nat (digit_value c)"
  have v: "v < 10" "digit_char v = c" "digit_value c = int v"
    using snoc.prems digit_value_bounds [of c] digit_char_value [of c] by (auto simp: v_def)
  define r where "r = nat (read_digits cs)"
  have r: "read_digits cs = int r" using read_digits_nonneg [of cs] snoc.prems by (simp add: r_def)
  have n: "nat (read_digits (cs @ [c])) = 10 * r + v" by (simp add: read_digits_snoc r v(3) nat_add_distrib nat_mult_distrib)
  show ?case
  proof (cases "r = 0")
    case True
    have zero: "digit_char 0 = CHR ''0''" by code_simp
    have "cs = replicate (length cs) CHR ''0''"
    proof (cases "cs = []")
      case False
      then have "zero_pad (length cs) (decimal 0) = cs" using snoc True r by simp
      moreover have "decimal 0 = ''0''" by (subst decimal.simps) (simp add: zero)
      ultimately have "cs = replicate (length cs - 1) CHR ''0'' @ ''0''" by (simp add: zero_pad_def)
      then show ?thesis by (metis False Suc_diff_1 length_greater_0_conv replicate_Suc replicate_append_same)
    qed simp
    moreover have "decimal v = [c]" using v by (subst decimal.simps) simp
    ultimately show ?thesis unfolding n by (simp add: True zero_pad_def)
  next
    case False
    then have "cs \<noteq> []" using r by (auto simp: read_digits_def)
    then have "zero_pad (length cs) (decimal r) = cs" using snoc r by simp
    moreover have "decimal (10 * r + v) = decimal r @ [c]" using False v by (subst decimal.simps) simp
    ultimately show ?thesis unfolding n by (simp add: zero_pad_def)
  qed
qed simp

lemma append_int_read: "list_all is_digit ds \<Longrightarrow> ds \<noteq> [] \<Longrightarrow> append_int (read_digits ds) (length ds) = ds"
  using read_digits_nonneg [of ds] by (simp add: append_int_def zero_pad_read)

lemma length_append_int_2: "0 \<le> x \<Longrightarrow> x < 100 \<Longrightarrow> length (append_int x 2) = 2"
proof -
  assume x: "0 \<le> x" "x < 100"
  define n where "n = nat x"
  have "length (decimal n) \<le> 2"
    by (subst decimal.simps, simp, subst decimal.simps) (use x in \<open>auto simp: n_def\<close>)
  then show ?thesis using x by (simp add: append_int_def zero_pad_def n_def)
qed

lemma month_length_le: "1 \<le> m \<Longrightarrow> m \<le> 12 \<Longrightarrow> month_lengths y ! nat (m - 1) \<le> 31"
proof -
  assume "1 \<le> m" "m \<le> 12"
  then have "month_lengths y ! nat (m - 1) \<in> set (month_lengths y)" by (intro nth_mem) (simp add: length_month_lengths)
  then show ?thesis by (auto simp: month_lengths_def split: if_splits)
qed

text \<open>A date is written in one way, and different days are written differently.\<close>

theorem date_string_inj:
  assumes "date_string d = date_string e"
  shows "d = e"
proof -
  obtain y m k y' m' k' where c: "civil d = (y, m, k)" "civil e = (y', m', k')" by (cases "civil d"; cases "civil e")
  note d = day_number_civil [OF c(1)] and e = day_number_civil [OF c(2)]
  have "length (append_int x 2) = 2" if "x \<in> {m, k, m', k'}" for x
    using that d e month_length_le [of m y] month_length_le [of m' y']
    by (intro length_append_int_2) (auto simp: valid_date_def)
  moreover have "append_int y 4 @ ''-'' @ append_int m 2 @ ''-'' @ append_int k 2 =
      append_int y' 4 @ ''-'' @ append_int m' 2 @ ''-'' @ append_int k' 2"
    using assms c by (simp add: date_string_def)
  ultimately have "append_int y 4 = append_int y' 4" "append_int m 2 = append_int m' 2" "append_int k 2 = append_int k' 2"
    by (simp_all add: append_eq_append_conv)
  then have "y = y'" "m = m'" "k = k'" using append_int_inj by blast+
  with d e show ?thesis by simp
qed

theorem parse_date_canonical:
  assumes "parse_date s = Some d"
  shows "date_string d = s"
proof -
  let ?y = "take 4 s" and ?m = "take 2 (drop 5 s)" and ?k = "drop 8 s"
  have s: "length s = 10" "list_all is_digit ?y" "list_all is_digit ?m" "list_all is_digit ?k" "s ! 4 = CHR ''-''" "s ! 7 = CHR ''-''"
    and v: "valid_date (read_digits ?y) (read_digits ?m) (read_digits ?k)"
    and d: "d = day_number (read_digits ?y) (read_digits ?m) (read_digits ?k)"
    using assms by (auto simp: parse_date_def Let_def split: if_splits)
  have lens: "length ?y = 4" "length ?m = 2" "length ?k = 2" using s(1) by auto
  have "append_int (read_digits ?y) 4 = ?y" "append_int (read_digits ?m) 2 = ?m" "append_int (read_digits ?k) 2 = ?k"
    using append_int_read [OF s(2)] append_int_read [OF s(3)] append_int_read [OF s(4)] lens by fastforce+
  then have "date_string d = ?y @ [s ! 4] @ ?m @ [s ! 7] @ ?k"
    unfolding date_string_def d civil_day_number [OF v] s(5,6) by simp
  also have "\<dots> = s"
  proof -
    have "s = take 4 s @ [s ! 4] @ take 2 (drop 5 s) @ [s ! 7] @ drop 8 s"
      using s(1) by (auto simp: length_Suc_conv numeral_eq_Suc)
    then show ?thesis by simp
  qed
  finally show ?thesis .
qed

lemma parse_local_date: "parse_date (local_date loc t) = Some d \<Longrightarrow> d = local_day loc t"
  using parse_date_canonical date_string_inj unfolding local_date_def by metis

end
