(* ===== verification/Digests.thy ===== *)
theory Digests
  imports Calendar
begin

text \<open>
  How the joined recordings are sealed: the JSON text of a value and its SHA-256 (\<open>CanonicalSHA\<close> of stitchcert/model.go),
  and the syntactic checks of digests, batch names, reason codes, storage keys and endpoints that go with it.

  A value is first written as a JSON tree, in the order of its struct's fields. The instants in it are UTC values. Bytes
  above ASCII are copied; the modelled strings are valid UTF-8 without the two line separators. SHA-256 is a parameter
  \<open>hash\<close>, from a text to the 64 hexadecimal digits of its sum.
\<close>

section \<open>JSON\<close>

datatype json = JNull | JBool bool | JInt int | JString string | JTime gotime | JArray "json list" | JObject "(string \<times> json) list"

definition hex_digit :: "nat \<Rightarrow> char" where
  "hex_digit n = (if n < 10 then char_of (48 + n) else char_of (87 + n))"

definition unicode_escape :: "char \<Rightarrow> string" where
  "unicode_escape c = (let n = of_char c :: nat in CHR 0x5C # ''u00'' @ [hex_digit (n div 16), hex_digit (n mod 16)])"

text \<open>\<open>html\<close>: whether the characters special in HTML are escaped, as \<open>json.Marshal\<close> does.\<close>

definition escape_char :: "bool \<Rightarrow> char \<Rightarrow> string" where
  "escape_char html c =
     (if c = CHR 0x22 \<or> c = CHR 0x5C then [CHR 0x5C, c]
      else if c = CHR 0x08 then [CHR 0x5C, CHR ''b''] else if c = CHR 0x0C then [CHR 0x5C, CHR ''f''] else if c = CHR 0x0A then [CHR 0x5C, CHR ''n'']
      else if c = CHR 0x0D then [CHR 0x5C, CHR ''r''] else if c = CHR 0x09 then [CHR 0x5C, CHR ''t'']
      else if (of_char c :: nat) < 32 \<or> html \<and> c \<in> {CHR ''<'', CHR ''>'', CHR ''&''} then unicode_escape c
      else [c])"

definition quote_string :: "bool \<Rightarrow> string \<Rightarrow> string" where
  "quote_string html s = [CHR 0x22] @ concat (map (escape_char html) s) @ [CHR 0x22]"

text \<open>RFC 3339 with the fraction of the second without trailing zeros; an error outside the years 0 to 9999.\<close>

definition drop_zeros :: "string \<Rightarrow> string" where
  "drop_zeros s = rev (dropWhile (\<lambda>c. c = CHR ''0'') (rev s))"

definition fraction :: "int \<Rightarrow> string" where
  "fraction ns = (if ns = 0 then [] else CHR ''.'' # drop_zeros (append_int ns 9))"

definition time_json :: "gotime \<Rightarrow> string option" where
  "time_json t =
     (let d = local_day utc t; s = local_clock utc t in case civil d of (y, _) \<Rightarrow>
      if y < 0 \<or> 9999 < y then None
      else Some ([CHR 0x22] @ date_string d @ ''T'' @ append_int (s div 3600) 2 @ '':'' @ append_int (s div 60 mod 60) 2 @
        '':'' @ append_int (s mod 60) 2 @ fraction (nsec t) @ ''Z'' @ [CHR 0x22]))"

fun commas :: "string list \<Rightarrow> string" where
  "commas [] = []"
| "commas [s] = s"
| "commas (s # t # ss) = s @ '','' @ commas (t # ss)"

fun encode :: "bool \<Rightarrow> json \<Rightarrow> string option" and encode_list :: "bool \<Rightarrow> json list \<Rightarrow> string list option"
  and encode_fields :: "bool \<Rightarrow> (string \<times> json) list \<Rightarrow> string list option" where
  "encode html JNull = Some ''null''"
| "encode html (JBool b) = Some (if b then ''true'' else ''false'')"
| "encode html (JInt i) = Some (Itoa i)"
| "encode html (JString s) = Some (quote_string html s)"
| "encode html (JTime t) = time_json t"
| "encode html (JArray xs) = map_option (\<lambda>ss. ''['' @ commas ss @ '']'') (encode_list html xs)"
| "encode html (JObject fs) = map_option (\<lambda>ss. ''{'' @ commas ss @ ''}'') (encode_fields html fs)"
| "encode_list html [] = Some []"
| "encode_list html (x # xs) = (case encode html x of None \<Rightarrow> None | Some s \<Rightarrow> map_option (Cons s) (encode_list html xs))"
| "encode_fields html [] = Some []"
| "encode_fields html ((k, x) # fs) = (case encode html x of None \<Rightarrow> None
     | Some s \<Rightarrow> map_option (Cons (quote_string html k @ '':'' @ s)) (encode_fields html fs))"

text \<open>The digest and the bytes; \<open>None\<close> for an error of the encoder.\<close>

definition CanonicalSHA :: "(string \<Rightarrow> string) \<Rightarrow> json \<Rightarrow> (string \<times> string) option" where
  "CanonicalSHA hash j = map_option (\<lambda>b. (hash b, b)) (encode False j)"

text \<open>The digest where the code drops the error: the empty string then.\<close>

definition digest_of :: "(string \<Rightarrow> string) \<Rightarrow> json \<Rightarrow> string" where
  "digest_of hash j = (case CanonicalSHA hash j of None \<Rightarrow> [] | Some (d, _) \<Rightarrow> d)"

definition bytes_of :: "(string \<Rightarrow> string) \<Rightarrow> json \<Rightarrow> string" where
  "bytes_of hash j = (case CanonicalSHA hash j of None \<Rightarrow> [] | Some (_, b) \<Rightarrow> b)"

definition opt_json :: "('a \<Rightarrow> json) \<Rightarrow> 'a option \<Rightarrow> json" where
  "opt_json f x = (case x of None \<Rightarrow> JNull | Some y \<Rightarrow> f y)"

text \<open>A field with \<open>omitempty\<close>, left out when \<open>empty\<close>.\<close>

definition omitempty :: "bool \<Rightarrow> string \<times> json \<Rightarrow> (string \<times> json) list" where
  "omitempty skip f = (if skip then [] else [f])"

section \<open>Syntactic checks\<close>

definition lower_alnum :: "char \<Rightarrow> bool" where
  "lower_alnum c \<longleftrightarrow> is_digit c \<or> 97 \<le> (of_char c :: nat) \<and> (of_char c :: nat) \<le> 122"

definition lower_hex :: "char \<Rightarrow> bool" where
  "lower_hex c \<longleftrightarrow> is_digit c \<or> 97 \<le> (of_char c :: nat) \<and> (of_char c :: nat) \<le> 102"

text \<open>64 bytes, equal to their lower-case form, and hexadecimal.\<close>

definition lowerHex64 :: "string \<Rightarrow> bool" where
  "lowerHex64 s \<longleftrightarrow> length s = 64 \<and> list_all lower_hex s"

text \<open>\<open>^[a-z0-9][a-z0-9-]{0,62}$\<close>, for batch names and buckets.\<close>

definition safe_name :: "string \<Rightarrow> bool" where
  "safe_name s \<longleftrightarrow> s \<noteq> [] \<and> length s \<le> 63 \<and> lower_alnum (hd s) \<and> list_all (\<lambda>c. lower_alnum c \<or> c = CHR ''-'') s"

definition ValidBatchID :: "string \<Rightarrow> bool" where
  "ValidBatchID s = safe_name s"

text \<open>\<open>^[a-z][a-z0-9_]{0,79}$\<close>.\<close>

definition reasonCode :: "string \<Rightarrow> bool" where
  "reasonCode s \<longleftrightarrow> s \<noteq> [] \<and> length s \<le> 80 \<and> lower_alnum (hd s) \<and> \<not> is_digit (hd s) \<and>
     list_all (\<lambda>c. lower_alnum c \<or> c = CHR ''_'') s"

text \<open>\<open>^https://[0-9a-f]{32}\.r2\.cloudflarestorage\.com$\<close>.\<close>

definition sourceEndpointV1 :: "string \<Rightarrow> bool" where
  "sourceEndpointV1 s \<longleftrightarrow> take 8 s = ''https://'' \<and> list_all lower_hex (take 32 (drop 8 s)) \<and>
     drop 40 s = ''.r2.cloudflarestorage.com''"

definition CanonicalSourceEndpointAuthority :: "string \<Rightarrow> string option" where
  "CanonicalSourceEndpointAuthority s = (if sourceEndpointV1 s then Some (drop 8 s) else None)"

definition visibleASCII :: "string \<Rightarrow> bool" where
  "visibleASCII s \<longleftrightarrow> list_all (\<lambda>c. 0x21 \<le> (of_char c :: nat) \<and> (of_char c :: nat) \<le> 0x7e) s \<and> s \<noteq> []"

definition validObjectIdentity :: "string \<Rightarrow> string \<Rightarrow> bool" where
  "validObjectIdentity etag version \<longleftrightarrow>
     \<not> (etag = [] \<or> 256 < length etag \<or> HasPrefix etag ''W/'' \<or> CHR 0x22 \<in> set etag \<or> \<not> visibleASCII etag) \<and>
     (version = [] \<or> length version \<le> 1024 \<and> visibleASCII version)"

section \<open>Paths\<close>

fun split_on :: "char \<Rightarrow> string \<Rightarrow> string list" where
  "split_on c [] = [[]]"
| "split_on c (x # s) = (if x = c then [] # split_on c s else
     (case split_on c s of [] \<Rightarrow> [[x]] | w # ws \<Rightarrow> (x # w) # ws))"

fun join_with :: "string \<Rightarrow> string list \<Rightarrow> string" where
  "join_with sep [] = []"
| "join_with sep [s] = s"
| "join_with sep (s # t # ss) = s @ sep @ join_with sep (t # ss)"

text \<open>\<open>path.Clean\<close>: empty and dot elements go, a double dot takes the element before it, if any, and stays otherwise but at
  the root.\<close>

fun clean_elems :: "bool \<Rightarrow> string list \<Rightarrow> string list \<Rightarrow> string list" where
  "clean_elems rooted acc [] = rev acc"
| "clean_elems rooted acc (e # es) =
     (if e = [] \<or> e = ''.'' then clean_elems rooted acc es
      else if e = ''..'' then
        (case acc of a # as \<Rightarrow> if a = ''..'' then clean_elems rooted (e # acc) es else clean_elems rooted as es
         | [] \<Rightarrow> clean_elems rooted (if rooted then [] else [e]) es)
      else clean_elems rooted (e # acc) es)"

definition path_clean :: "string \<Rightarrow> string" where
  "path_clean p =
     (let rooted = HasPrefix p ''/'';
          out = (if rooted then ''/'' else []) @ join_with ''/'' (clean_elems rooted [] (split_on CHR ''/'' p))
      in if out = [] then ''.'' else out)"

definition path_join :: "string list \<Rightarrow> string" where
  "path_join es = (let es = dropWhile (\<lambda>e. e = []) es in if es = [] then [] else path_clean (join_with ''/'' es))"

definition safeObjectKey :: "string \<Rightarrow> bool" where
  "safeObjectKey key \<longleftrightarrow> key \<noteq> [] \<and> key \<noteq> ''.'' \<and> key \<noteq> ''..'' \<and> \<not> HasPrefix key ''/'' \<and> path_clean key = key \<and>
     CHR 0x5C \<notin> set key \<and> CHR 0x00 \<notin> set key"

end
