(* ===== verification/Qualification.thy ===== *)
theory Qualification
  imports Digests
begin

text \<open>
  The evidence a joined recording rests on: source clips with their exact storage identities, the window of fourteen
  scheduled days a recording is qualified by, and the media tools (joinedrecording/qualification.go, and the source checks of
  plan.go, preflight.go and media.go). Each kind of evidence is sealed by the digest of its JSON. Decoding JSON is the
  library's; a clip's unexported decoder proof is not part of its JSON and not modelled.
\<close>

section \<open>Source clips\<close>

record ObjectIdentity =
  oi_Key :: string
  oi_VersionID :: string
  oi_ETag :: string
  oi_SizeBytes :: int
  oi_SHA256 :: string

record SeamEvidence =
  se_Verdict :: string
  se_Reason :: string
  se_SignedGap :: int

definition no_seam :: SeamEvidence where
  "no_seam = \<lparr>se_Verdict = [], se_Reason = [], se_SignedGap = 0\<rparr>"

record AudioSequenceContract =
  ac_CodecName :: string
  ac_SampleRate :: int
  ac_Channels :: int
  ac_ChannelLayout :: string
  ac_InitialPadding :: int
  ac_SkipSamples :: int
  ac_DiscardPadding :: int
  ac_CodecDelay :: int
  ac_TrailingPadding :: int
  ac_EditListKind :: string
  ac_EditListSHA256 :: string

record SourceClip =
  sc_ClipID :: int
  sc_RecordingID :: int
  sc_RecordingJobID :: int
  sc_StorageDestinationID :: int
  sc_Provider :: string
  sc_Endpoint :: string
  sc_Region :: string
  sc_Bucket :: string
  sc_StartUTC :: gotime
  sc_EndUTC :: gotime
  sc_ReleasedAt :: "gotime option"
  sc_Object :: ObjectIdentity
  sc_AudioContract :: "AudioSequenceContract option"
  sc_SeamToPrevious :: SeamEvidence

definition object_json :: "ObjectIdentity \<Rightarrow> json" where
  "object_json x = JObject ([(''key'', JString (oi_Key x))] @ omitempty (oi_VersionID x = []) (''version_id'', JString (oi_VersionID x)) @
     [(''etag'', JString (oi_ETag x)), (''size_bytes'', JInt (oi_SizeBytes x)), (''sha256'', JString (oi_SHA256 x))])"

definition seam_json :: "SeamEvidence \<Rightarrow> json" where
  "seam_json x = JObject [(''verdict'', JString (se_Verdict x)), (''reason'', JString (se_Reason x)), (''signed_gap_nanoseconds'', JInt (se_SignedGap x))]"

definition audio_json :: "AudioSequenceContract \<Rightarrow> json" where
  "audio_json x = JObject ([(''codec_name'', JString (ac_CodecName x)), (''sample_rate'', JInt (ac_SampleRate x)), (''channels'', JInt (ac_Channels x)),
     (''channel_layout'', JString (ac_ChannelLayout x)), (''initial_padding'', JInt (ac_InitialPadding x)), (''skip_samples'', JInt (ac_SkipSamples x)),
     (''discard_padding'', JInt (ac_DiscardPadding x)), (''codec_delay'', JInt (ac_CodecDelay x)), (''trailing_padding'', JInt (ac_TrailingPadding x))] @
     omitempty (ac_EditListKind x = []) (''edit_list_kind'', JString (ac_EditListKind x)) @
     omitempty (ac_EditListSHA256 x = []) (''edit_list_sha256'', JString (ac_EditListSHA256 x)))"

text \<open>\<open>omitempty\<close> leaves out an absent audio contract, but never a struct: the seam is always written.\<close>

definition source_json :: "SourceClip \<Rightarrow> json" where
  "source_json x = JObject ([(''clip_id'', JInt (sc_ClipID x)), (''recording_id'', JInt (sc_RecordingID x)), (''recording_job_id'', JInt (sc_RecordingJobID x)),
     (''storage_destination_id'', JInt (sc_StorageDestinationID x)), (''provider'', JString (sc_Provider x)), (''endpoint'', JString (sc_Endpoint x)),
     (''region'', JString (sc_Region x)), (''bucket'', JString (sc_Bucket x)), (''start_utc'', JTime (sc_StartUTC x)), (''end_utc'', JTime (sc_EndUTC x)),
     (''released_at'', opt_json JTime (sc_ReleasedAt x)), (''object'', object_json (sc_Object x))] @
     omitempty (sc_AudioContract x = None) (''audio_sequence_contract'', opt_json audio_json (sc_AudioContract x)) @
     [(''seam_to_previous'', seam_json (sc_SeamToPrevious x))])"

definition validFrozenSourceStorage :: "string \<Rightarrow> string \<Rightarrow> string \<Rightarrow> bool" where
  "validFrozenSourceStorage provider region bucket \<longleftrightarrow> (provider = ''r2'' \<or> provider = ''r2_managed'') \<and> region = ''auto'' \<and> safe_name bucket"

definition validatePreflightSource :: "SourceClip \<Rightarrow> int \<Rightarrow> bool" where
  "validatePreflightSource x recordingID \<longleftrightarrow>
     \<not> (sc_ClipID x \<le> 0 \<or> sc_RecordingID x \<noteq> recordingID \<or> sc_RecordingJobID x \<le> 0 \<or> sc_StorageDestinationID x \<le> 0 \<or>
        \<not> validFrozenSourceStorage (sc_Provider x) (sc_Region x) (sc_Bucket x) \<or> CanonicalSourceEndpointAuthority (sc_Endpoint x) = None \<or>
        \<not> sc_StartUTC x < sc_EndUTC x \<or> (case sc_ReleasedAt x of None \<Rightarrow> False | Some t \<Rightarrow> is_zero t) \<or> \<not> safeObjectKey (oi_Key (sc_Object x)) \<or>
        \<not> validObjectIdentity (oi_ETag (sc_Object x)) (oi_VersionID (sc_Object x)) \<or> oi_SizeBytes (sc_Object x) \<le> 0 \<or> \<not> lowerHex64 (oi_SHA256 (sc_Object x)))"

definition validateAudioContract :: "AudioSequenceContract \<Rightarrow> bool" where
  "validateAudioContract x \<longleftrightarrow>
     \<not> (TrimSpace (ac_CodecName x) = [] \<or> ac_SampleRate x \<le> 0 \<or> ac_Channels x \<le> 0 \<or> TrimSpace (ac_ChannelLayout x) = [] \<or> ac_InitialPadding x < 0 \<or>
        ac_SkipSamples x < 0 \<or> ac_DiscardPadding x < 0 \<or> ac_CodecDelay x < 0 \<or> ac_TrailingPadding x < 0 \<or>
        (ac_EditListKind x = []) \<noteq> (ac_EditListSHA256 x = []) \<or> ac_EditListSHA256 x \<noteq> [] \<and> \<not> lowerHex64 (ac_EditListSHA256 x))"

definition validateSource :: "SourceClip \<Rightarrow> int \<Rightarrow> bool" where
  "validateSource x recordingID \<longleftrightarrow>
     \<not> (sc_ClipID x \<le> 0 \<or> sc_RecordingID x \<noteq> recordingID \<or> sc_RecordingJobID x \<le> 0 \<or> sc_StorageDestinationID x \<le> 0 \<or> TrimSpace (sc_Provider x) = [] \<or>
        CanonicalSourceEndpointAuthority (sc_Endpoint x) = None \<or> TrimSpace (sc_Region x) = [] \<or> TrimSpace (sc_Bucket x) = [] \<or>
        \<not> sc_StartUTC x < sc_EndUTC x \<or> 15 * minute < time_sub (sc_EndUTC x) (sc_StartUTC x)) \<and>
     \<not> (\<not> safeObjectKey (oi_Key (sc_Object x)) \<or> \<not> validObjectIdentity (oi_ETag (sc_Object x)) (oi_VersionID (sc_Object x)) \<or>
        oi_SizeBytes (sc_Object x) \<le> 0 \<or> \<not> lowerHex64 (oi_SHA256 (sc_Object x))) \<and>
     (case sc_AudioContract x of None \<Rightarrow> True | Some a \<Rightarrow> validateAudioContract a)"

text \<open>The storage key joins the fields with zero bytes.\<close>

definition sourceStorageKey :: "SourceClip \<Rightarrow> string" where
  "sourceStorageKey x = join_with [CHR 0x00] [Itoa (sc_StorageDestinationID x), sc_Provider x, sc_Endpoint x, sc_Region x, sc_Bucket x,
     oi_Key (sc_Object x), oi_VersionID (sc_Object x), oi_ETag (sc_Object x)]"

text \<open>Without the evidence derived from the media.\<close>

definition source_only :: "SourceClip \<Rightarrow> SourceClip" where
  "source_only x = x\<lparr>sc_AudioContract := None, sc_SeamToPrevious := no_seam\<rparr>"

definition sourceOnlyClips :: "SourceClip list \<Rightarrow> SourceClip list" where
  "sourceOnlyClips xs = map source_only xs"

text \<open>No clip gives a nil slice, which is written as null.\<close>

definition claim_json :: "SourceClip list \<Rightarrow> json" where
  "claim_json xs = (if xs = [] then JNull else JArray (map source_json (sourceOnlyClips xs)))"

definition CanonicalSourceClaim :: "(string \<Rightarrow> string) \<Rightarrow> SourceClip list \<Rightarrow> (string \<times> string) option" where
  "CanonicalSourceClaim hash xs = CanonicalSHA hash (claim_json xs)"

definition ValidateSourceClaim :: "(string \<Rightarrow> string) \<Rightarrow> SourceClip list \<Rightarrow> string \<Rightarrow> bool" where
  "ValidateSourceClaim hash xs expected \<longleftrightarrow>
     (case CanonicalSourceClaim hash xs of None \<Rightarrow> False | Some (d, _) \<Rightarrow> lowerHex64 expected \<and> d = expected)"

section \<open>Qualification windows\<close>

record QualifiedDay =
  qd_LocalDate :: string
  qd_Ordinal :: int
  qd_JobID :: int
  qd_ScheduledFor :: "gotime option"
  qd_JobStatus :: string
  qd_ReasonCodes :: "string list"
  qd_WindowStart :: gotime
  qd_WindowEnd :: gotime
  qd_CompletedAt :: gotime

record QualificationWindow =
  qw_RecordingID :: int
  qw_Timezone :: string
  qw_Days :: "QualifiedDay list"
  qw_FrozenAt :: gotime
  qw_AuthorityKind :: string
  qw_EvidenceSHA :: string

definition Tier1HistoricalAuthorityKind :: string where
  "Tier1HistoricalAuthorityKind = ''historical_operator_import_v1''"

definition day_json :: "QualifiedDay \<Rightarrow> json" where
  "day_json x =
     (let times = [(''window_start'', JTime (qd_WindowStart x)), (''window_end'', JTime (qd_WindowEnd x)), (''completed_at'', JTime (qd_CompletedAt x))];
          reasons = JArray (map JString (qd_ReasonCodes x));
          date = [(''local_date'', JString (qd_LocalDate x)), (''qualification_window_ordinal'', JInt (qd_Ordinal x))] in
      if qd_ScheduledFor x \<noteq> None \<or> qd_JobStatus x \<noteq> []
      then JObject (date @ [(''job_id'', JInt (qd_JobID x)), (''scheduled_for'', opt_json JTime (qd_ScheduledFor x)),
             (''job_status'', JString (qd_JobStatus x)), (''reason_codes'', reasons)] @ times)
      else JObject (date @ omitempty (qd_JobID x = 0) (''job_id'', JInt (qd_JobID x)) @
             omitempty (qd_ReasonCodes x = []) (''reason_codes'', reasons) @ times))"

definition window_json :: "QualificationWindow \<Rightarrow> json" where
  "window_json w = JObject ([(''recording_id'', JInt (qw_RecordingID w)), (''timezone'', JString (qw_Timezone w)),
     (''days'', JArray (map day_json (qw_Days w))), (''frozen_at'', JTime (qw_FrozenAt w))] @
     omitempty (qw_AuthorityKind w = []) (''authority_kind'', JString (qw_AuthorityKind w)) @ [(''evidence_sha256'', JString (qw_EvidenceSHA w))])"

definition tier1HistoricalErrorDay :: "int \<Rightarrow> string \<Rightarrow> bool" where
  "tier1HistoricalErrorDay recordingID localDate \<longleftrightarrow>
     recordingID = 348 \<and> localDate = ''2026-07-29'' \<or> recordingID \<in> {408, 406, 409} \<and> localDate = ''2026-08-11''"

definition validQualifiedDayAuthority :: "int \<Rightarrow> string \<Rightarrow> QualifiedDay \<Rightarrow> bool" where
  "validQualifiedDayAuthority recordingID authority x =
     (if authority = [] then qd_ScheduledFor x = None \<and> qd_JobStatus x = [] \<and> qd_ReasonCodes x = [] \<and> \<not> qd_CompletedAt x < qd_WindowEnd x
      else case qd_ScheduledFor x of None \<Rightarrow> False | Some scheduled \<Rightarrow>
        if authority \<noteq> Tier1HistoricalAuthorityKind \<or> qd_JobStatus x \<noteq> ''done'' \<and> qd_JobStatus x \<noteq> ''error'' \<or> qd_CompletedAt x < qd_WindowStart x
        then False
        else let drift = (if scheduled \<noteq> qd_WindowStart x then [''scheduled_for_drift''] else []) in
          if qd_JobStatus x = ''error''
          then tier1HistoricalErrorDay recordingID (qd_LocalDate x) \<and> qd_ReasonCodes x = drift @ [''terminal_job_error'']
          else \<not> qd_CompletedAt x < qd_WindowEnd x \<and> qd_ReasonCodes x = drift)"

text \<open>A window from eight to eight, twelve hours long, on the given local date.\<close>

definition local_window :: "location \<Rightarrow> string \<Rightarrow> gotime \<Rightarrow> gotime \<Rightarrow> bool" where
  "local_window loc date start stop \<longleftrightarrow> start < stop \<and> time_sub stop start = 12 * hour \<and> local_date loc start = date \<and> local_date loc stop = date \<and>
     local_clock loc start = 8 * 3600 \<and> nsec start = 0 \<and> local_clock loc stop = 20 * 3600 \<and> nsec stop = 0"

text \<open>The loop over the days: the ordinal of the next day, the midnight of the day before it, the jobs seen.\<close>

fun check_days :: "location \<Rightarrow> QualificationWindow \<Rightarrow> int \<Rightarrow> gotime \<Rightarrow> int list \<Rightarrow> QualifiedDay list \<Rightarrow> bool" where
  "check_days loc w i previous seen [] = True"
| "check_days loc w i previous seen (x # xs) =
     (case ParseInLocation (qd_LocalDate x) loc of None \<Rightarrow> False | Some date \<Rightarrow>
      \<not> (0 < i \<and> date \<noteq> add_days loc previous 1) \<and> local_window loc (qd_LocalDate x) (qd_WindowStart x) (qd_WindowEnd x) \<and>
      \<not> (qd_Ordinal x \<noteq> i + 1 \<or> qd_JobID x \<le> 0 \<or> qd_JobID x \<in> set seen \<or> qw_FrozenAt w < qd_CompletedAt x \<or>
         \<not> validQualifiedDayAuthority (qw_RecordingID w) (qw_AuthorityKind w) x) \<and>
      check_days loc w (i + 1) date (qd_JobID x # seen) xs)"

definition SealQualificationWindow :: "(string \<Rightarrow> string) \<Rightarrow> (string \<Rightarrow> location option) \<Rightarrow> QualificationWindow \<Rightarrow> QualificationWindow option" where
  "SealQualificationWindow hash tzdb window =
     (let w = window\<lparr>qw_EvidenceSHA := []\<rparr> in case tzdb (qw_Timezone w) of None \<Rightarrow> None | Some loc \<Rightarrow>
      if qw_RecordingID w \<le> 0 \<or> length (qw_Days w) \<noteq> 14 \<or> \<not> check_days loc w 0 zero_time [] (qw_Days w) then None
      else map_option (\<lambda>(d, _). w\<lparr>qw_EvidenceSHA := d\<rparr>) (CanonicalSHA hash (window_json w)))"

definition ValidateQualificationWindow :: "(string \<Rightarrow> string) \<Rightarrow> (string \<Rightarrow> location option) \<Rightarrow> QualificationWindow \<Rightarrow> bool" where
  "ValidateQualificationWindow hash tzdb w \<longleftrightarrow> (case SealQualificationWindow hash tzdb w of None \<Rightarrow> False
     | Some sealed \<Rightarrow> qw_EvidenceSHA sealed = qw_EvidenceSHA w \<and> lowerHex64 (qw_EvidenceSHA w))"

definition permits :: "QualificationWindow \<Rightarrow> SourceClip \<Rightarrow> bool" where
  "permits w x \<longleftrightarrow> sc_RecordingID x = qw_RecordingID w \<and>
     (\<exists>y \<in> set (qw_Days w). qd_JobID y = sc_RecordingJobID x \<and> qd_WindowStart y < sc_EndUTC x \<and> sc_StartUTC x < qd_WindowEnd y)"

definition qualifiedDay :: "QualificationWindow \<Rightarrow> string \<Rightarrow> QualifiedDay option" where
  "qualifiedDay w date = List.find (\<lambda>y. qd_LocalDate y = date) (qw_Days w)"

definition qualificationContainsDate :: "QualificationWindow \<Rightarrow> string \<Rightarrow> bool" where
  "qualificationContainsDate w date \<longleftrightarrow> qualifiedDay w date \<noteq> None"

section \<open>Media tools\<close>

record MediaToolEvidence =
  mt_FFmpegVersion :: string
  mt_FFmpegSHA256 :: string
  mt_FFprobeVersion :: string
  mt_FFprobeSHA256 :: string
  mt_IdentitySHA256 :: string

definition tool_json :: "MediaToolEvidence \<Rightarrow> json" where
  "tool_json x = JObject [(''ffmpeg_version'', JString (mt_FFmpegVersion x)), (''ffmpeg_sha256'', JString (mt_FFmpegSHA256 x)),
     (''ffprobe_version'', JString (mt_FFprobeVersion x)), (''ffprobe_sha256'', JString (mt_FFprobeSHA256 x)), (''identity_sha256'', JString (mt_IdentitySHA256 x))]"

definition SealMediaToolEvidence :: "(string \<Rightarrow> string) \<Rightarrow> MediaToolEvidence \<Rightarrow> MediaToolEvidence option" where
  "SealMediaToolEvidence hash evidence =
     (let x = evidence\<lparr>mt_IdentitySHA256 := []\<rparr> in
      if TrimSpace (mt_FFmpegVersion x) = [] \<or> TrimSpace (mt_FFprobeVersion x) = [] \<or> \<not> lowerHex64 (mt_FFmpegSHA256 x) \<or> \<not> lowerHex64 (mt_FFprobeSHA256 x)
      then None
      else map_option (\<lambda>b. x\<lparr>mt_IdentitySHA256 := hash b\<rparr>) (encode True (tool_json x)))"

definition ValidateMediaToolEvidence :: "(string \<Rightarrow> string) \<Rightarrow> MediaToolEvidence \<Rightarrow> bool" where
  "ValidateMediaToolEvidence hash x \<longleftrightarrow> (case SealMediaToolEvidence hash x of None \<Rightarrow> False
     | Some sealed \<Rightarrow> mt_IdentitySHA256 sealed = mt_IdentitySHA256 x \<and> lowerHex64 (mt_IdentitySHA256 x))"

end
