(* ===== verification/Allocation.thy ===== *)
theory Allocation
  imports Qualification
begin

text \<open>
  The clips of one recording day shared out over its twelve delivery hours (joinedrecording/allocation.go, and the frozen
  projection of batch_index.go). Two loops choose the seam nearest to each hour: the one that builds an allocation
  (\<open>AllocateStreamDay\<close>) and the one that checks it (\<open>validateDraftBoundaries\<close>); both are here as they are written.
  \<open>hash\<close> is SHA-256 and \<open>tzdb\<close> the time-zone database.
\<close>

text \<open>Differences of \<open>int64\<close> values wrap around, and so does the absolute value of a difference of instants.\<close>

definition wrap64 :: "int \<Rightarrow> int" where
  "wrap64 x = (x - min_int64) mod 18446744073709551616 + min_int64"

definition distance :: "gotime \<Rightarrow> gotime \<Rightarrow> duration" where
  "distance t u = (let d = time_sub t u in if d < 0 then wrap64 (- d) else d)"

datatype plan_error = NoSources | BadTimezone | OutsideQualification | IneligibleSource | SourceIdentity | DuplicateObject | SourceOrder |
  NoSeam | NoEvidence | NeighborDiffers | BadDate | BadDraft | CrossDayDiffers | BoundaryDiffers | NotClosest | BytesOverflow | HourIdentity |
  FrozenDiffers | EncodeFailed | NotSealed | LedgerDiffers | TooLarge | BadIdentity | BadRequest | NotEvidence | BadFolder | NotAccounted |
  BadOrder | MissingArtifact | BadArtifact | BadPath | SourceTwice

section \<open>Drafts\<close>

record HourAllocation =
  ha_DeliveryHour :: int
  ha_ClockHour :: int
  ha_Sources :: "SourceClip list"

record CrossHourBoundary =
  hb_PreviousHour :: int
  hb_NextHour :: int
  hb_PreviousClipID :: "int option"
  hb_NextClipID :: "int option"
  hb_PreviousEnd :: "gotime option"
  hb_NextStart :: "gotime option"
  hb_SignedGap :: "int option"
  hb_ScheduledUTC :: gotime
  hb_ActualSeam :: "gotime option"
  hb_Skew :: "int option"
  hb_Decision :: string
  hb_Verdict :: string
  hb_Reason :: string

record CrossDayBoundary =
  db_PreviousClipID :: "int option"
  db_NextClipID :: "int option"
  db_PreviousEnd :: "gotime option"
  db_NextStart :: "gotime option"
  db_SignedGap :: "int option"
  db_ScheduledPreviousEnd :: gotime
  db_ScheduledNextStart :: gotime
  db_Skew :: "int option"
  db_Decision :: string
  db_Verdict :: string
  db_Reason :: string

record StreamDayDraft =
  sd_BatchID :: string
  sd_Generation :: int
  sd_RecordingID :: int
  sd_Timezone :: string
  sd_LocalDate :: string
  sd_QualificationDay :: QualifiedDay
  sd_QualificationSHA :: string
  sd_Hours :: "HourAllocation list"
  sd_Boundaries :: "CrossHourBoundary list"
  sd_CrossDay :: "CrossDayBoundary list"

text \<open>What an allocation is asked for: the fields of \<open>PlanRequest\<close> it reads.\<close>

record DayRequest =
  dq_BatchID :: string
  dq_Generation :: int
  dq_RecordingID :: int
  dq_Timezone :: string
  dq_LocalDate :: string
  dq_Qualification :: QualificationWindow
  dq_Sources :: "SourceClip list"
  dq_PreviousDayLast :: "SourceClip option"
  dq_NextDayFirst :: "SourceClip option"

section \<open>Seams\<close>

text \<open>A place to split the clips of a day: before the clip at a position, with the instant and the clip it is measured by.\<close>

record seamCandidate =
  cd_position :: nat
  cd_at :: gotime
  cd_clipID :: int

definition candidates_at :: "SourceClip list \<Rightarrow> nat \<Rightarrow> seamCandidate list" where
  "candidates_at xs i =
     (if 0 < i then [\<lparr>cd_position = i, cd_at = sc_EndUTC (xs ! (i - 1)), cd_clipID = sc_ClipID (xs ! (i - 1))\<rparr>] else []) @
     (if i < length xs then [\<lparr>cd_position = i, cd_at = sc_StartUTC (xs ! i), cd_clipID = sc_ClipID (xs ! i)\<rparr>] else [])"

definition candidates :: "SourceClip list \<Rightarrow> seamCandidate list" where
  "candidates xs = concat (map (candidates_at xs) [0..<Suc (length xs)])"

definition closer :: "gotime \<Rightarrow> seamCandidate \<Rightarrow> seamCandidate \<Rightarrow> bool" where
  "closer scheduled c b \<longleftrightarrow>
     distance (cd_at c) scheduled < distance (cd_at b) scheduled \<or> distance (cd_at c) scheduled = distance (cd_at b) scheduled \<and>
     (cd_at c < cd_at b \<or> cd_at c = cd_at b \<and> (cd_position c < cd_position b \<or> cd_position c = cd_position b \<and> cd_clipID c < cd_clipID b))"

text \<open>The best of the candidates from a position on.\<close>

fun pick_seam :: "gotime \<Rightarrow> nat \<Rightarrow> seamCandidate option \<Rightarrow> seamCandidate list \<Rightarrow> seamCandidate option" where
  "pick_seam scheduled minimum best [] = best"
| "pick_seam scheduled minimum best (c # cs) =
     (if cd_position c < minimum then pick_seam scheduled minimum best cs
      else pick_seam scheduled minimum (case best of None \<Rightarrow> Some c | Some b \<Rightarrow> if closer scheduled c b then Some c else Some b) cs)"

definition scheduled_seam :: "location \<Rightarrow> int \<Rightarrow> nat \<Rightarrow> gotime" where
  "scheduled_seam loc day i = go_date loc day ((9 + int i) * 3600) 0"

section \<open>Building a day\<close>

text \<open>The boundary the builder records for a chosen seam.\<close>

definition built_boundary :: "SourceClip list \<Rightarrow> gotime \<Rightarrow> nat \<Rightarrow> seamCandidate \<Rightarrow> CrossHourBoundary" where
  "built_boundary xs scheduled i best =
     (let p = cd_position best; previous = (if 0 < p then Some (xs ! (p - 1)) else None); following = (if p < length xs then Some (xs ! p) else None);
          b = \<lparr>hb_PreviousHour = int i + 1, hb_NextHour = int i + 2, hb_PreviousClipID = map_option sc_ClipID previous,
                hb_NextClipID = map_option sc_ClipID following, hb_PreviousEnd = map_option sc_EndUTC previous,
                hb_NextStart = map_option sc_StartUTC following, hb_SignedGap = None, hb_ScheduledUTC = scheduled, hb_ActualSeam = None,
                hb_Skew = None, hb_Decision = [], hb_Verdict = ''absent_source'', hb_Reason = []\<rparr> in
      case (previous, following) of
        (Some x, Some y) \<Rightarrow> b\<lparr>hb_SignedGap := Some (time_sub (sc_StartUTC y) (sc_EndUTC x)), hb_ActualSeam := Some (cd_at best),
          hb_Skew := Some (time_sub (cd_at best) scheduled), hb_Decision := ''split_before_next_source'', hb_Verdict := ''allocated'',
          hb_Reason := ''closest_source_boundary''\<rparr>
      | (None, _) \<Rightarrow> b\<lparr>hb_Decision := ''no_source_before_boundary'', hb_Reason := ''previous_source_absent''\<rparr>
      | (Some _, None) \<Rightarrow> b\<lparr>hb_Decision := ''no_source_after_boundary'', hb_Reason := ''next_source_absent''\<rparr>)"

text \<open>The eleven boundaries from the \<open>i\<close>-th on, with the split positions.\<close>

fun allocate_boundaries :: "location \<Rightarrow> int \<Rightarrow> SourceClip list \<Rightarrow> nat \<Rightarrow> nat list \<Rightarrow> plan_error + (nat \<times> CrossHourBoundary) list" where
  "allocate_boundaries loc day xs minimum [] = Inr []"
| "allocate_boundaries loc day xs minimum (i # is) =
     (case pick_seam (scheduled_seam loc day i) minimum None (candidates xs) of None \<Rightarrow> Inl NoSeam
      | Some best \<Rightarrow> map_sum id (Cons (cd_position best, built_boundary xs (scheduled_seam loc day i) i best))
          (allocate_boundaries loc day xs (cd_position best) is))"

text \<open>The clips between consecutive splits; the last hour takes the rest.\<close>

fun hour_sources :: "SourceClip list \<Rightarrow> nat \<Rightarrow> nat list \<Rightarrow> SourceClip list list" where
  "hour_sources xs start [] = [drop start xs]"
| "hour_sources xs start (p # ps) = drop start (take p xs) # hour_sources xs p ps"

definition delivery_hours :: "SourceClip list list \<Rightarrow> HourAllocation list" where
  "delivery_hours xss = map (\<lambda>(i, xs). \<lparr>ha_DeliveryHour = int i + 1, ha_ClockHour = int i + 8, ha_Sources = xs\<rparr>) (enumerate 0 xss)"

text \<open>The clips in order, each with its own identity and object; \<open>previous\<close> is the clip before.\<close>

fun ordered_sources :: "int \<Rightarrow> location \<Rightarrow> string \<Rightarrow> SourceClip option \<Rightarrow> int list \<Rightarrow> string list \<Rightarrow> SourceClip list \<Rightarrow> plan_error option" where
  "ordered_sources recordingID loc date previous clips objects [] = None"
| "ordered_sources recordingID loc date previous clips objects (x # xs) =
     (if \<not> validatePreflightSource x recordingID \<or> local_date loc (sc_StartUTC x) \<noteq> date \<or> local_date loc (sc_EndUTC x) \<noteq> date \<or>
         sc_ClipID x \<in> set clips then Some SourceIdentity
      else if sourceStorageKey x \<in> set objects then Some DuplicateObject
      else if (case previous of None \<Rightarrow> False | Some y \<Rightarrow> sc_StartUTC x < sc_StartUTC y \<or> sc_StartUTC x = sc_StartUTC y \<and> sc_ClipID x \<le> sc_ClipID y)
      then Some SourceOrder
      else ordered_sources recordingID loc date (Some x) (sc_ClipID x # clips) (sourceStorageKey x # objects) xs)"

definition validateOrderedAllocationSources :: "SourceClip list \<Rightarrow> int \<Rightarrow> location \<Rightarrow> string \<Rightarrow> plan_error option" where
  "validateOrderedAllocationSources xs recordingID loc date = ordered_sources recordingID loc date None [] [] xs"

section \<open>Between days\<close>

definition no_day_boundary :: CrossDayBoundary where
  "no_day_boundary = \<lparr>db_PreviousClipID = None, db_NextClipID = None, db_PreviousEnd = None, db_NextStart = None, db_SignedGap = None,
     db_ScheduledPreviousEnd = zero_time, db_ScheduledNextStart = zero_time, db_Skew = None, db_Decision = [], db_Verdict = [], db_Reason = []\<rparr>"

text \<open>\<open>time.Date(t.Year(), t.Month(), t.Day(), h, 0, 0, 0, loc)\<close> for an instant \<open>t\<close> in its location.\<close>

definition same_day :: "location \<Rightarrow> gotime \<Rightarrow> location \<Rightarrow> int \<Rightarrow> gotime" where
  "same_day tloc t loc h = go_date loc (local_day tloc t) (h * 3600) 0"

text \<open>The code drops the parser's error; what it goes on with is the zero time.\<close>

definition absentCrossDayBoundaries :: "location \<Rightarrow> string \<Rightarrow> CrossDayBoundary \<times> CrossDayBoundary" where
  "absentCrossDayBoundaries loc date =
     (let (day, dloc) = (case ParseInLocation date loc of None \<Rightarrow> (zero_time, utc) | Some t \<Rightarrow> (t, loc)) in
      (no_day_boundary\<lparr>db_ScheduledPreviousEnd := same_day dloc (add_days dloc day (- 1)) loc 20, db_ScheduledNextStart := same_day dloc day loc 8,
         db_Decision := ''no_previous_day_source'', db_Verdict := ''absent_source'', db_Reason := ''previous_source_absent''\<rparr>,
       no_day_boundary\<lparr>db_ScheduledPreviousEnd := same_day dloc day loc 20, db_ScheduledNextStart := same_day dloc (add_days dloc day 1) loc 8,
         db_Decision := ''no_next_day_source'', db_Verdict := ''absent_source'', db_Reason := ''next_source_absent''\<rparr>))"

definition validateNeighbor :: "SourceClip \<Rightarrow> int \<Rightarrow> location \<Rightarrow> string \<Rightarrow> int \<Rightarrow> plan_error option" where
  "validateNeighbor x recordingID loc date offset = (case ParseInLocation date loc of None \<Rightarrow> Some BadDate | Some day \<Rightarrow>
     let want = local_date loc (add_days loc day offset) in
     if \<not> validatePreflightSource x recordingID \<or> local_date loc (sc_StartUTC x) \<noteq> want \<or> local_date loc (sc_EndUTC x) \<noteq> want
     then Some NeighborDiffers else None)"

definition buildCrossDayBoundary :: "location \<Rightarrow> SourceClip \<Rightarrow> SourceClip \<Rightarrow> string \<Rightarrow> string \<Rightarrow> plan_error + CrossDayBoundary" where
  "buildCrossDayBoundary loc x y previousDate nextDate =
     (case (ParseInLocation previousDate loc, ParseInLocation nextDate loc) of
        (Some previousDay, Some nextDay) \<Rightarrow>
          (let scheduledEnd = same_day loc previousDay loc 20; scheduledStart = same_day loc nextDay loc 8;
               gap = time_sub (sc_StartUTC y) (sc_EndUTC x) in
           Inr \<lparr>db_PreviousClipID = Some (sc_ClipID x), db_NextClipID = Some (sc_ClipID y), db_PreviousEnd = Some (sc_EndUTC x),
             db_NextStart = Some (sc_StartUTC y), db_SignedGap = Some gap, db_ScheduledPreviousEnd = scheduledEnd,
             db_ScheduledNextStart = scheduledStart, db_Skew = Some (wrap64 (gap - time_sub scheduledStart scheduledEnd)),
             db_Decision = ''separate_local_days'', db_Verdict = (if gap < 0 then ''overlap'' else ''scheduled_gap''),
             db_Reason = ''scheduled_day_boundary''\<rparr>)
      | _ \<Rightarrow> Inl BadDate)"

text \<open>One side of a day with clips: with the neighbour's clip, or without.\<close>

definition previous_edge :: "DayRequest \<Rightarrow> location \<Rightarrow> SourceClip \<Rightarrow> string \<Rightarrow> gotime \<Rightarrow> plan_error + CrossDayBoundary" where
  "previous_edge req loc first date day = (case dq_PreviousDayLast req of
     None \<Rightarrow> Inr ((fst (absentCrossDayBoundaries loc date))\<lparr>db_NextClipID := Some (sc_ClipID first), db_NextStart := Some (sc_StartUTC first)\<rparr>)
   | Some x \<Rightarrow> (case validateNeighbor x (dq_RecordingID req) loc date (- 1) of Some e \<Rightarrow> Inl e
       | None \<Rightarrow> buildCrossDayBoundary loc x first (local_date loc (add_days loc day (- 1))) date))"

definition next_edge :: "DayRequest \<Rightarrow> location \<Rightarrow> SourceClip \<Rightarrow> string \<Rightarrow> gotime \<Rightarrow> plan_error + CrossDayBoundary" where
  "next_edge req loc last_clip date day = (case dq_NextDayFirst req of
     None \<Rightarrow> Inr ((snd (absentCrossDayBoundaries loc date))\<lparr>db_PreviousClipID := Some (sc_ClipID last_clip), db_PreviousEnd := Some (sc_EndUTC last_clip)\<rparr>)
   | Some y \<Rightarrow> (case validateNeighbor y (dq_RecordingID req) loc date 1 of Some e \<Rightarrow> Inl e
       | None \<Rightarrow> buildCrossDayBoundary loc last_clip y date (local_date loc (add_days loc day 1))))"

definition crossDayBoundaries :: "DayRequest \<Rightarrow> location \<Rightarrow> SourceClip \<Rightarrow> SourceClip \<Rightarrow> string \<Rightarrow> plan_error + CrossDayBoundary list" where
  "crossDayBoundaries req loc first last_clip date = (case ParseInLocation date loc of None \<Rightarrow> Inl BadDate | Some day \<Rightarrow>
     (case previous_edge req loc first date day of Inl e \<Rightarrow> Inl e | Inr a \<Rightarrow>
      map_sum id (\<lambda>b. [a, b]) (next_edge req loc last_clip date day)))"

definition emptyCrossDayBoundaries :: "DayRequest \<Rightarrow> location \<Rightarrow> string \<Rightarrow> plan_error + CrossDayBoundary list" where
  "emptyCrossDayBoundaries req loc date =
     (let (a, b) = absentCrossDayBoundaries loc date in
      case (case dq_PreviousDayLast req of None \<Rightarrow> Inr a | Some x \<Rightarrow> (case validateNeighbor x (dq_RecordingID req) loc date (- 1) of Some e \<Rightarrow> Inl e
          | None \<Rightarrow> Inr (a\<lparr>db_PreviousClipID := Some (sc_ClipID x), db_PreviousEnd := Some (sc_EndUTC x),
              db_Decision := ''empty_day_after_previous_source'', db_Reason := ''next_source_absent''\<rparr>))) of
        Inl e \<Rightarrow> Inl e
      | Inr a' \<Rightarrow> (case dq_NextDayFirst req of None \<Rightarrow> Inr [a', b] | Some y \<Rightarrow> (case validateNeighbor y (dq_RecordingID req) loc date 1 of Some e \<Rightarrow> Inl e
          | None \<Rightarrow> Inr [a', b\<lparr>db_NextClipID := Some (sc_ClipID y), db_NextStart := Some (sc_StartUTC y),
              db_Decision := ''empty_day_before_next_source'', db_Reason := ''previous_source_absent''\<rparr>])))"

section \<open>Allocation\<close>

definition draft_of :: "DayRequest \<Rightarrow> string \<Rightarrow> QualifiedDay \<Rightarrow> SourceClip list list \<Rightarrow> CrossHourBoundary list \<Rightarrow> CrossDayBoundary list \<Rightarrow> StreamDayDraft" where
  "draft_of req date day xss bs cross = \<lparr>sd_BatchID = dq_BatchID req, sd_Generation = dq_Generation req, sd_RecordingID = dq_RecordingID req,
     sd_Timezone = dq_Timezone req, sd_LocalDate = date, sd_QualificationDay = day, sd_QualificationSHA = qw_EvidenceSHA (dq_Qualification req),
     sd_Hours = delivery_hours xss, sd_Boundaries = bs, sd_CrossDay = cross\<rparr>"

text \<open>The allocation of eligible clips.\<close>

definition allocate_eligible :: "DayRequest \<Rightarrow> location \<Rightarrow> string \<Rightarrow> plan_error + StreamDayDraft" where
  "allocate_eligible req loc date =
     (let xs = dq_Sources req in
      case validateOrderedAllocationSources xs (dq_RecordingID req) loc date of Some e \<Rightarrow> Inl e | None \<Rightarrow>
      (case allocate_boundaries loc (local_day loc (sc_StartUTC (hd xs))) xs 0 [0..<11] of Inl e \<Rightarrow> Inl e | Inr bs \<Rightarrow>
      (case qualifiedDay (dq_Qualification req) date of None \<Rightarrow> Inl NoEvidence | Some day \<Rightarrow>
       map_sum id (draft_of req date day (hour_sources xs 0 (map fst bs)) (map snd bs)) (crossDayBoundaries req loc (hd xs) (last xs) date))))"

definition AllocateStreamDay :: "(string \<Rightarrow> string) \<Rightarrow> (string \<Rightarrow> location option) \<Rightarrow> DayRequest \<Rightarrow> plan_error + StreamDayDraft" where
  "AllocateStreamDay hash tzdb req =
     (let xs = dq_Sources req; w = dq_Qualification req in
      if xs = [] \<or> \<not> ValidateQualificationWindow hash tzdb w then Inl NoSources
      else case tzdb (dq_Timezone req) of None \<Rightarrow> Inl BadTimezone | Some loc \<Rightarrow>
      let date = local_date loc (sc_StartUTC (hd xs)) in
      if dq_LocalDate req \<noteq> date \<or> \<not> qualificationContainsDate w date then Inl OutsideQualification
      else if \<exists>x \<in> set xs. \<not> validatePreflightSource x (dq_RecordingID req) \<or> \<not> permits w x \<or> local_date loc (sc_StartUTC x) \<noteq> date \<or>
        local_date loc (sc_EndUTC x) \<noteq> date then Inl IneligibleSource
      else allocate_eligible req loc date)"

definition empty_boundary :: "location \<Rightarrow> int \<Rightarrow> nat \<Rightarrow> CrossHourBoundary" where
  "empty_boundary loc day i = \<lparr>hb_PreviousHour = int i + 1, hb_NextHour = int i + 2, hb_PreviousClipID = None, hb_NextClipID = None,
     hb_PreviousEnd = None, hb_NextStart = None, hb_SignedGap = None, hb_ScheduledUTC = scheduled_seam loc day i, hb_ActualSeam = None,
     hb_Skew = None, hb_Decision = ''no_sources'', hb_Verdict = ''absent_source'', hb_Reason = ''both_sources_absent''\<rparr>"

definition BuildGapOnlyStreamDay :: "(string \<Rightarrow> string) \<Rightarrow> (string \<Rightarrow> location option) \<Rightarrow> DayRequest \<Rightarrow> string \<Rightarrow> plan_error + StreamDayDraft" where
  "BuildGapOnlyStreamDay hash tzdb req date =
     (let w = dq_Qualification req in
      if dq_Sources req \<noteq> [] \<or> dq_RecordingID req \<le> 0 \<or> \<not> ValidateQualificationWindow hash tzdb w \<or> \<not> qualificationContainsDate w date then Inl NoSources
      else case tzdb (dq_Timezone req) of None \<Rightarrow> Inl BadTimezone | Some loc \<Rightarrow>
      (case ParseInLocation date loc of None \<Rightarrow> Inl BadDate | Some t \<Rightarrow>
      (case qualifiedDay w date of None \<Rightarrow> Inl NoEvidence | Some day \<Rightarrow>
       map_sum id (draft_of req date day (replicate 12 []) (map (empty_boundary loc (local_day loc t)) [0..<11])) (emptyCrossDayBoundaries req loc date))))"

end
