(* ===== verification/Ledger.thy ===== *)
theory Ledger
  imports Allocation
begin

text \<open>
  The sealed ledger of a stream day (joinedrecording/allocation.go, and the frozen projection of batch_index.go): the check of
  a draft's boundaries, which chooses every seam again, the sealing of a draft, and the checks of a sealed ledger. The slices
  of a ledger are never nil, so that they are written as arrays.
\<close>

section \<open>JSON of the evidence\<close>

definition hour_boundary_json :: "CrossHourBoundary \<Rightarrow> json" where
  "hour_boundary_json b = JObject [(''previous_delivery_hour'', JInt (hb_PreviousHour b)), (''next_delivery_hour'', JInt (hb_NextHour b)),
     (''previous_clip_id'', opt_json JInt (hb_PreviousClipID b)), (''next_clip_id'', opt_json JInt (hb_NextClipID b)),
     (''previous_presentation_end_utc'', opt_json JTime (hb_PreviousEnd b)), (''next_presentation_start_utc'', opt_json JTime (hb_NextStart b)),
     (''signed_gap_nanoseconds'', opt_json JInt (hb_SignedGap b)), (''scheduled_utc'', JTime (hb_ScheduledUTC b)),
     (''actual_seam_utc'', opt_json JTime (hb_ActualSeam b)), (''boundary_skew_nanoseconds'', opt_json JInt (hb_Skew b)),
     (''allocation_decision'', JString (hb_Decision b)), (''verdict'', JString (hb_Verdict b)), (''reason'', JString (hb_Reason b))]"

definition day_boundary_json :: "CrossDayBoundary \<Rightarrow> json" where
  "day_boundary_json b = JObject [(''previous_clip_id'', opt_json JInt (db_PreviousClipID b)), (''next_clip_id'', opt_json JInt (db_NextClipID b)),
     (''previous_presentation_end_utc'', opt_json JTime (db_PreviousEnd b)), (''next_presentation_start_utc'', opt_json JTime (db_NextStart b)),
     (''signed_gap_nanoseconds'', opt_json JInt (db_SignedGap b)), (''scheduled_previous_end_utc'', JTime (db_ScheduledPreviousEnd b)),
     (''scheduled_next_start_utc'', JTime (db_ScheduledNextStart b)), (''boundary_skew_nanoseconds'', opt_json JInt (db_Skew b)),
     (''allocation_decision'', JString (db_Decision b)), (''verdict'', JString (db_Verdict b)), (''reason'', JString (db_Reason b))]"

section \<open>Checking a draft's boundaries\<close>

text \<open>The boundary the checker expects.\<close>

definition crossHourBoundary :: "SourceClip list \<Rightarrow> nat \<Rightarrow> gotime \<Rightarrow> int \<Rightarrow> gotime \<Rightarrow> CrossHourBoundary" where
  "crossHourBoundary xs position scheduled hour_no actual =
     (let x = (if 0 < position then Some (xs ! (position - 1)) else None); y = (if position < length xs then Some (xs ! position) else None);
          b = \<lparr>hb_PreviousHour = hour_no, hb_NextHour = hour_no + 1, hb_PreviousClipID = map_option sc_ClipID x, hb_NextClipID = map_option sc_ClipID y,
                hb_PreviousEnd = map_option sc_EndUTC x, hb_NextStart = map_option sc_StartUTC y, hb_SignedGap = None, hb_ScheduledUTC = scheduled,
                hb_ActualSeam = None, hb_Skew = None, hb_Decision = ''no_source_before_boundary'', hb_Verdict = ''absent_source'',
                hb_Reason = ''previous_source_absent''\<rparr> in
      case (x, y) of
        (Some x, Some y) \<Rightarrow> b\<lparr>hb_SignedGap := Some (time_sub (sc_StartUTC y) (sc_EndUTC x)), hb_ActualSeam := Some actual,
          hb_Skew := Some (time_sub actual scheduled), hb_Decision := ''split_before_next_source'', hb_Verdict := ''allocated'',
          hb_Reason := ''closest_source_boundary''\<rparr>
      | (Some _, None) \<Rightarrow> b\<lparr>hb_Decision := ''no_source_after_boundary'', hb_Reason := ''next_source_absent''\<rparr>
      | _ \<Rightarrow> b)"

text \<open>One boundary between days, its position in the list being 0 or 1.\<close>

definition absent_day_reason :: "nat \<Rightarrow> bool \<Rightarrow> bool \<Rightarrow> string \<times> string" where
  "absent_day_reason i previousPresent nextPresent =
     (if i = 0 \<and> previousPresent then (''next_source_absent'', ''empty_day_after_previous_source'')
      else if i = 1 then (if nextPresent then (''previous_source_absent'', ''empty_day_before_next_source'') else (''next_source_absent'', ''no_next_day_source''))
      else (''previous_source_absent'', ''no_previous_day_source''))"

definition day_boundary_ok :: "nat \<Rightarrow> CrossDayBoundary \<Rightarrow> bool" where
  "day_boundary_ok i b \<longleftrightarrow>
     \<not> (is_zero (db_ScheduledPreviousEnd b) \<or> is_zero (db_ScheduledNextStart b) \<or> \<not> db_ScheduledPreviousEnd b < db_ScheduledNextStart b \<or>
        \<not> reasonCode (db_Reason b) \<or> \<not> reasonCode (db_Decision b)) \<and>
     \<not> ((db_PreviousClipID b = None) \<noteq> (db_PreviousEnd b = None) \<or> (db_NextClipID b = None) \<noteq> (db_NextStart b = None)) \<and>
     (let previousPresent = (db_PreviousClipID b \<noteq> None \<and> db_PreviousEnd b \<noteq> None); nextPresent = (db_NextClipID b \<noteq> None \<and> db_NextStart b \<noteq> None) in
      if db_Verdict b = ''absent_source''
      then \<not> (previousPresent \<and> nextPresent \<or> db_SignedGap b \<noteq> None \<or> db_Skew b \<noteq> None) \<and>
        (db_Reason b, db_Decision b) = absent_day_reason i previousPresent nextPresent
      else case (db_PreviousClipID b, db_PreviousEnd b, db_NextClipID b, db_NextStart b, db_SignedGap b, db_Skew b) of
        (Some _, Some stop, Some _, Some start, Some gap, Some skew) \<Rightarrow>
          gap = time_sub start stop \<and> skew = wrap64 (gap - time_sub (db_ScheduledNextStart b) (db_ScheduledPreviousEnd b)) \<and>
          db_Verdict b = (if gap < 0 then ''overlap'' else ''scheduled_gap'') \<and> db_Decision b = ''separate_local_days'' \<and>
          db_Reason b = ''scheduled_day_boundary''
      | _ \<Rightarrow> False)"

definition validateCrossDayBoundaries :: "CrossDayBoundary list \<Rightarrow> SourceClip list \<Rightarrow> bool" where
  "validateCrossDayBoundaries bs xs \<longleftrightarrow> (case bs of
     [a, b] \<Rightarrow> day_boundary_ok 0 a \<and> day_boundary_ok 1 b \<and>
       (xs = [] \<or> db_NextClipID a = Some (sc_ClipID (hd xs)) \<and> db_NextStart a = Some (sc_StartUTC (hd xs)) \<and>
         db_PreviousClipID b = Some (sc_ClipID (last xs)) \<and> db_PreviousEnd b = Some (sc_EndUTC (last xs)))
   | _ \<Rightarrow> False)"

definition validateCrossDaySchedule :: "CrossDayBoundary list \<Rightarrow> gotime \<Rightarrow> location \<Rightarrow> bool" where
  "validateCrossDaySchedule bs day loc \<longleftrightarrow> (case bs of
     [a, b] \<Rightarrow> db_ScheduledPreviousEnd a = same_day loc (add_days loc day (- 1)) loc 20 \<and> db_ScheduledNextStart a = same_day loc day loc 8 \<and>
       db_ScheduledPreviousEnd b = same_day loc day loc 20 \<and> db_ScheduledNextStart b = same_day loc (add_days loc day 1) loc 8 \<and>
       validateCrossDayBoundaries bs []
   | _ \<Rightarrow> False)"

definition empty_boundary_ok :: "location \<Rightarrow> int \<Rightarrow> nat \<Rightarrow> CrossHourBoundary \<Rightarrow> bool" where
  "empty_boundary_ok loc day i b \<longleftrightarrow>
     \<not> (hb_PreviousHour b \<noteq> int i + 1 \<or> hb_NextHour b \<noteq> int i + 2 \<or> hb_ScheduledUTC b \<noteq> scheduled_seam loc day i \<or> hb_PreviousClipID b \<noteq> None \<or>
        hb_NextClipID b \<noteq> None \<or> hb_PreviousEnd b \<noteq> None \<or> hb_NextStart b \<noteq> None \<or> hb_SignedGap b \<noteq> None \<or> hb_ActualSeam b \<noteq> None \<or>
        hb_Skew b \<noteq> None \<or> hb_Decision b \<noteq> ''no_sources'' \<or> hb_Verdict b \<noteq> ''absent_source'' \<or> hb_Reason b \<noteq> ''both_sources_absent'')"

text \<open>The candidates the checker considers, from a position on.\<close>

definition later_candidates :: "SourceClip list \<Rightarrow> nat \<Rightarrow> seamCandidate list" where
  "later_candidates xs minimum = concat (map (candidates_at xs) [minimum..<Suc (length xs)])"

text \<open>The check of the boundaries from the \<open>i\<close>-th on; \<open>consumed\<close> counts the clips of the hours before.\<close>

fun check_boundaries :: "location \<Rightarrow> int \<Rightarrow> SourceClip list \<Rightarrow> (string \<Rightarrow> string) \<Rightarrow> nat \<Rightarrow> nat \<Rightarrow> (nat \<times> SourceClip list \<times> CrossHourBoundary) list \<Rightarrow>
    plan_error option" where
  "check_boundaries loc day xs hash minimum consumed [] = None"
| "check_boundaries loc day xs hash minimum consumed ((i, ys, b) # rest) =
     (let consumed = consumed + length ys; scheduled = scheduled_seam loc day i in
      case pick_seam scheduled minimum None (later_candidates xs minimum) of None \<Rightarrow> Some NotClosest
      | Some best \<Rightarrow>
        if consumed \<noteq> cd_position best then Some NotClosest
        else if bytes_of hash (hour_boundary_json b) \<noteq>
          bytes_of hash (hour_boundary_json (crossHourBoundary xs (cd_position best) scheduled (int i + 1) (cd_at best))) then Some BoundaryDiffers
        else check_boundaries loc day xs hash (cd_position best) consumed rest)"

definition draft_sources :: "StreamDayDraft \<Rightarrow> SourceClip list" where
  "draft_sources d = concat (map ha_Sources (sd_Hours d))"

definition validateDraftBoundaries :: "(string \<Rightarrow> string) \<Rightarrow> (string \<Rightarrow> location option) \<Rightarrow> StreamDayDraft \<Rightarrow> plan_error option" where
  "validateDraftBoundaries hash tzdb d = (case tzdb (sd_Timezone d) of None \<Rightarrow> Some BadTimezone | Some loc \<Rightarrow>
     (case ParseInLocation (sd_LocalDate d) loc of None \<Rightarrow> Some BadDate | Some t \<Rightarrow>
      let day = local_day loc t; xs = draft_sources d in
      if length (sd_Hours d) \<noteq> 12 \<or> length (sd_Boundaries d) \<noteq> 11 then Some BadDraft
      else if \<not> validateCrossDaySchedule (sd_CrossDay d) t loc then Some CrossDayDiffers
      else case validateOrderedAllocationSources xs (sd_RecordingID d) loc (sd_LocalDate d) of Some e \<Rightarrow> Some e | None \<Rightarrow>
      (case (if xs = []
         then (if \<forall>(i, b) \<in> set (enumerate 0 (sd_Boundaries d)). empty_boundary_ok loc day i b then None else Some BoundaryDiffers)
         else check_boundaries loc day xs hash 0 0 (enumerate 0 (zip (map ha_Sources (sd_Hours d)) (sd_Boundaries d)))) of
       Some e \<Rightarrow> Some e
     | None \<Rightarrow> if validateCrossDayBoundaries (sd_CrossDay d) xs then None else Some CrossDayDiffers)))"

section \<open>The frozen projection\<close>

record FrozenSourceSnapshot =
  fs_ClipID :: int
  fs_RecordingID :: int
  fs_RecordingJobID :: int
  fs_StorageDestinationID :: int
  fs_Provider :: string
  fs_Endpoint :: string
  fs_Region :: string
  fs_Bucket :: string
  fs_ObjectKey :: string
  fs_StartUTC :: gotime
  fs_EndUTC :: gotime
  fs_SizeBytes :: int
  fs_IngestSHA256 :: string
  fs_ReleasedAt :: "gotime option"

definition snapshot_json :: "FrozenSourceSnapshot \<Rightarrow> json" where
  "snapshot_json x = JObject [(''clip_id'', JInt (fs_ClipID x)), (''recording_id'', JInt (fs_RecordingID x)), (''recording_job_id'', JInt (fs_RecordingJobID x)),
     (''storage_destination_id'', JInt (fs_StorageDestinationID x)), (''provider'', JString (fs_Provider x)), (''endpoint'', JString (fs_Endpoint x)),
     (''region'', JString (fs_Region x)), (''bucket'', JString (fs_Bucket x)), (''object_key'', JString (fs_ObjectKey x)),
     (''start_utc'', JTime (fs_StartUTC x)), (''end_utc'', JTime (fs_EndUTC x)), (''size_bytes'', JInt (fs_SizeBytes x)),
     (''ingest_sha256'', JString (fs_IngestSHA256 x)), (''released_at'', opt_json JTime (fs_ReleasedAt x))]"

definition FrozenSourceSnapshots :: "SourceClip list \<Rightarrow> FrozenSourceSnapshot list" where
  "FrozenSourceSnapshots xs = map (\<lambda>x. \<lparr>fs_ClipID = sc_ClipID x, fs_RecordingID = sc_RecordingID x, fs_RecordingJobID = sc_RecordingJobID x,
     fs_StorageDestinationID = sc_StorageDestinationID x, fs_Provider = sc_Provider x, fs_Endpoint = sc_Endpoint x, fs_Region = sc_Region x,
     fs_Bucket = sc_Bucket x, fs_ObjectKey = oi_Key (sc_Object x), fs_StartUTC = sc_StartUTC x, fs_EndUTC = sc_EndUTC x,
     fs_SizeBytes = oi_SizeBytes (sc_Object x), fs_IngestSHA256 = oi_SHA256 (sc_Object x), fs_ReleasedAt = sc_ReleasedAt x\<rparr>) xs"

record DayProjection =
  dp_RecordingID :: int
  dp_LocalDate :: string
  dp_QualificationSHA256 :: string
  dp_FrozenSourceSHA256 :: string
  dp_SourceCount :: int
  dp_SourceBytes :: int

definition validLocalDate :: "string \<Rightarrow> bool" where
  "validLocalDate s \<longleftrightarrow> (case parse_date s of None \<Rightarrow> False | Some d \<Rightarrow> date_string d = s)"

definition storage_locator :: "FrozenSourceSnapshot \<Rightarrow> int \<times> string \<times> string \<times> string \<times> string \<times> string" where
  "storage_locator x = (fs_StorageDestinationID x, fs_Provider x, fs_Endpoint x, fs_Region x, fs_Bucket x, fs_ObjectKey x)"

text \<open>The loop over the frozen clips: their total size, \<open>None\<close> for an error.\<close>

fun frozen_bytes :: "int \<Rightarrow> QualifiedDay \<Rightarrow> FrozenSourceSnapshot option \<Rightarrow> int list \<Rightarrow> (int \<times> string \<times> string \<times> string \<times> string \<times> string) list \<Rightarrow> int \<Rightarrow>
    FrozenSourceSnapshot list \<Rightarrow> int option" where
  "frozen_bytes recordingID day previous clips locators bytes [] = Some bytes"
| "frozen_bytes recordingID day previous clips locators bytes (x # xs) =
     (if fs_ClipID x \<le> 0 \<or> fs_ClipID x \<in> set clips \<or> storage_locator x \<in> set locators \<or> fs_RecordingID x \<noteq> recordingID \<or>
         fs_RecordingJobID x \<noteq> qd_JobID day \<or> fs_StorageDestinationID x \<le> 0 \<or> \<not> validFrozenSourceStorage (fs_Provider x) (fs_Region x) (fs_Bucket x) \<or>
         CanonicalSourceEndpointAuthority (fs_Endpoint x) = None \<or> \<not> safeObjectKey (fs_ObjectKey x) \<or> \<not> fs_StartUTC x < fs_EndUTC x \<or>
         15 * minute < time_sub (fs_EndUTC x) (fs_StartUTC x) \<or> \<not> qd_WindowStart day < fs_EndUTC x \<or> \<not> fs_StartUTC x < qd_WindowEnd day \<or>
         (case previous of None \<Rightarrow> False | Some y \<Rightarrow> fs_StartUTC x < fs_StartUTC y \<or> fs_StartUTC x = fs_StartUTC y \<and> fs_ClipID x \<le> fs_ClipID y) \<or>
         fs_SizeBytes x \<le> 0 \<or> \<not> lowerHex64 (fs_IngestSHA256 x) \<or> (case fs_ReleasedAt x of None \<Rightarrow> False | Some t \<Rightarrow> is_zero t) \<or>
         max_int64 - bytes < fs_SizeBytes x then None
      else frozen_bytes recordingID day (Some x) (fs_ClipID x # clips) (storage_locator x # locators) (bytes + fs_SizeBytes x) xs)"

definition day_authority :: "QualifiedDay \<Rightarrow> string" where
  "day_authority x = (if qd_JobStatus x \<noteq> [] then Tier1HistoricalAuthorityKind else [])"

definition BuildFrozenDenominatorDayProjection :: "(string \<Rightarrow> string) \<Rightarrow> int \<Rightarrow> QualifiedDay \<Rightarrow> string \<Rightarrow> FrozenSourceSnapshot list \<Rightarrow> plan_error + DayProjection" where
  "BuildFrozenDenominatorDayProjection hash recordingID day sha xs =
     (if recordingID \<le> 0 \<or> \<not> validLocalDate (qd_LocalDate day) \<or> qd_Ordinal day < 1 \<or> 14 < qd_Ordinal day \<or> qd_JobID day \<le> 0 \<or>
         \<not> qd_WindowStart day < qd_WindowEnd day \<or> time_sub (qd_WindowEnd day) (qd_WindowStart day) \<noteq> 12 * hour \<or>
         \<not> validQualifiedDayAuthority recordingID (day_authority day) day \<or> \<not> lowerHex64 sha then Inl FrozenDiffers
      else case frozen_bytes recordingID day None [] [] 0 xs of None \<Rightarrow> Inl FrozenDiffers | Some bytes \<Rightarrow>
      let canonical = map (\<lambda>x. x\<lparr>fs_ReleasedAt := None\<rparr>) xs in
      case CanonicalSHA hash (if canonical = [] then JNull else JArray (map snapshot_json canonical)) of None \<Rightarrow> Inl EncodeFailed
      | Some (digest, _) \<Rightarrow> Inr \<lparr>dp_RecordingID = recordingID, dp_LocalDate = qd_LocalDate day, dp_QualificationSHA256 = sha,
          dp_FrozenSourceSHA256 = digest, dp_SourceCount = int (length xs), dp_SourceBytes = bytes\<rparr>)"

section \<open>Sealing\<close>

record SourcePair =
  sp_PreviousClipID :: int
  sp_NextClipID :: int
  sp_PreviousEnd :: gotime
  sp_NextStart :: gotime
  sp_SignedGap :: int

record LedgerHour =
  lh_DeliveryHour :: int
  lh_ClockHour :: int
  lh_SourceClipIDs :: "int list"

record StreamDayAllocation =
  sa_SchemaVersion :: int
  sa_BatchID :: string
  sa_Generation :: int
  sa_RecordingID :: int
  sa_Timezone :: string
  sa_LocalDate :: string
  sa_QualificationDay :: QualifiedDay
  sa_QualificationSHA :: string
  sa_FrozenSourceSHA256 :: string
  sa_SourceClaimSHA256 :: string
  sa_SourceClipCount :: int
  sa_SourceBytes :: int
  sa_FirstClipID :: "int option"
  sa_LastClipID :: "int option"
  sa_ConsecutivePairs :: "SourcePair list"
  sa_Sources :: "SourceClip list"
  sa_Hours :: "LedgerHour list"
  sa_HourSourceSHA256 :: "string list"
  sa_Boundaries :: "CrossHourBoundary list"
  sa_CrossDay :: "CrossDayBoundary list"
  sa_LedgerSHA256 :: string

definition pair_json :: "SourcePair \<Rightarrow> json" where
  "pair_json x = JObject [(''previous_clip_id'', JInt (sp_PreviousClipID x)), (''next_clip_id'', JInt (sp_NextClipID x)),
     (''previous_presentation_end_utc'', JTime (sp_PreviousEnd x)), (''next_presentation_start_utc'', JTime (sp_NextStart x)),
     (''signed_gap_nanoseconds'', JInt (sp_SignedGap x))]"

definition ledger_hour_json :: "LedgerHour \<Rightarrow> json" where
  "ledger_hour_json x = JObject [(''delivery_hour'', JInt (lh_DeliveryHour x)), (''clock_hour'', JInt (lh_ClockHour x)),
     (''source_clip_ids'', JArray (map JInt (lh_SourceClipIDs x)))]"

definition ledger_json :: "StreamDayAllocation \<Rightarrow> json" where
  "ledger_json x = JObject [(''schema_version'', JInt (sa_SchemaVersion x)), (''batch_id'', JString (sa_BatchID x)), (''generation'', JInt (sa_Generation x)),
     (''recording_id'', JInt (sa_RecordingID x)), (''timezone'', JString (sa_Timezone x)), (''local_date'', JString (sa_LocalDate x)),
     (''qualification_day'', day_json (sa_QualificationDay x)), (''qualification_sha256'', JString (sa_QualificationSHA x)),
     (''frozen_source_sha256'', JString (sa_FrozenSourceSHA256 x)), (''source_claim_sha256'', JString (sa_SourceClaimSHA256 x)),
     (''source_clip_count'', JInt (sa_SourceClipCount x)), (''source_bytes'', JInt (sa_SourceBytes x)), (''first_clip_id'', opt_json JInt (sa_FirstClipID x)),
     (''last_clip_id'', opt_json JInt (sa_LastClipID x)), (''consecutive_pairs'', JArray (map pair_json (sa_ConsecutivePairs x))),
     (''sources'', JArray (map source_json (sa_Sources x))), (''hours'', JArray (map ledger_hour_json (sa_Hours x))),
     (''hour_source_claim_sha256'', JArray (map JString (sa_HourSourceSHA256 x))),
     (''cross_hour_boundaries'', JArray (map hour_boundary_json (sa_Boundaries x))),
     (''cross_day_boundaries'', JArray (map day_boundary_json (sa_CrossDay x))), (''ledger_sha256'', JString (sa_LedgerSHA256 x))]"

definition validateQualifiedLedgerDay :: "(string \<Rightarrow> location option) \<Rightarrow> QualifiedDay \<Rightarrow> int \<Rightarrow> string \<Rightarrow> string \<Rightarrow> bool" where
  "validateQualifiedLedgerDay tzdb x recordingID timezone date \<longleftrightarrow> (case tzdb timezone of None \<Rightarrow> False | Some loc \<Rightarrow>
     \<not> (recordingID \<le> 0 \<or> qd_LocalDate x \<noteq> date \<or> qd_Ordinal x < 1 \<or> 14 < qd_Ordinal x \<or> qd_JobID x \<le> 0 \<or>
        \<not> validQualifiedDayAuthority recordingID (day_authority x) x) \<and> local_window loc date (qd_WindowStart x) (qd_WindowEnd x))"

text \<open>The total size of the clips; \<open>None\<close> when it would overflow.\<close>

fun total_bytes :: "int \<Rightarrow> SourceClip list \<Rightarrow> int option" where
  "total_bytes acc [] = Some acc"
| "total_bytes acc (x # xs) = (if max_int64 - acc < oi_SizeBytes (sc_Object x) then None else total_bytes (acc + oi_SizeBytes (sc_Object x)) xs)"

definition source_pairs :: "SourceClip list \<Rightarrow> SourcePair list" where
  "source_pairs xs = map (\<lambda>(x, y). \<lparr>sp_PreviousClipID = sc_ClipID x, sp_NextClipID = sc_ClipID y, sp_PreviousEnd = sc_EndUTC x,
     sp_NextStart = sc_StartUTC y, sp_SignedGap = time_sub (sc_StartUTC y) (sc_EndUTC x)\<rparr>) (zip xs (tl xs))"

definition hour_digest :: "(string \<Rightarrow> string) \<Rightarrow> SourceClip list \<Rightarrow> string" where
  "hour_digest hash xs = (case CanonicalSourceClaim hash xs of None \<Rightarrow> [] | Some (d, _) \<Rightarrow> d)"

text \<open>The ledger before its own digest is set.\<close>

definition unsealed_ledger :: "(string \<Rightarrow> string) \<Rightarrow> StreamDayDraft \<Rightarrow> int \<Rightarrow> string \<Rightarrow> string \<Rightarrow> StreamDayAllocation" where
  "unsealed_ledger hash d bytes manifest frozen =
     (let xs = sourceOnlyClips (draft_sources d) in
      \<lparr>sa_SchemaVersion = 1, sa_BatchID = sd_BatchID d, sa_Generation = sd_Generation d, sa_RecordingID = sd_RecordingID d,
        sa_Timezone = sd_Timezone d, sa_LocalDate = sd_LocalDate d, sa_QualificationDay = sd_QualificationDay d,
        sa_QualificationSHA = sd_QualificationSHA d, sa_FrozenSourceSHA256 = frozen, sa_SourceClaimSHA256 = manifest,
        sa_SourceClipCount = int (length xs), sa_SourceBytes = bytes,
        sa_FirstClipID = (if xs = [] then None else Some (sc_ClipID (hd xs))), sa_LastClipID = (if xs = [] then None else Some (sc_ClipID (last xs))),
        sa_ConsecutivePairs = source_pairs xs, sa_Sources = xs,
        sa_Hours = map (\<lambda>h. \<lparr>lh_DeliveryHour = ha_DeliveryHour h, lh_ClockHour = ha_ClockHour h, lh_SourceClipIDs = map sc_ClipID (ha_Sources h)\<rparr>) (sd_Hours d),
        sa_HourSourceSHA256 = map (\<lambda>h. hour_digest hash (ha_Sources h)) (sd_Hours d), sa_Boundaries = sd_Boundaries d,
        sa_CrossDay = sd_CrossDay d, sa_LedgerSHA256 = []\<rparr>)"

definition hours_numbered :: "HourAllocation list \<Rightarrow> bool" where
  "hours_numbered hs \<longleftrightarrow> (\<forall>(i, h) \<in> set (enumerate 0 hs). ha_DeliveryHour h = int i + 1 \<and> ha_ClockHour h = int i + 8)"

definition SealStreamDayAllocation :: "(string \<Rightarrow> string) \<Rightarrow> (string \<Rightarrow> location option) \<Rightarrow> StreamDayDraft \<Rightarrow> plan_error + StreamDayAllocation" where
  "SealStreamDayAllocation hash tzdb d =
     (if \<not> safe_name (sd_BatchID d) \<or> sd_Generation d \<le> 0 \<or> sd_RecordingID d \<le> 0 \<or> \<not> lowerHex64 (sd_QualificationSHA d) \<or>
         \<not> validateQualifiedLedgerDay tzdb (sd_QualificationDay d) (sd_RecordingID d) (sd_Timezone d) (sd_LocalDate d) \<or>
         length (sd_Hours d) \<noteq> 12 \<or> length (sd_Boundaries d) \<noteq> 11 \<or> length (sd_CrossDay d) \<noteq> 2 then Inl BadDraft
      else case validateDraftBoundaries hash tzdb d of Some e \<Rightarrow> Inl e | None \<Rightarrow>
      (case total_bytes 0 (draft_sources d) of None \<Rightarrow> Inl BytesOverflow | Some bytes \<Rightarrow>
       let xs = sourceOnlyClips (draft_sources d) in
       if \<not> hours_numbered (sd_Hours d) then Inl HourIdentity
       else case CanonicalSourceClaim hash xs of None \<Rightarrow> Inl EncodeFailed | Some (manifest, _) \<Rightarrow>
       (case BuildFrozenDenominatorDayProjection hash (sd_RecordingID d) (sd_QualificationDay d) (sd_QualificationSHA d) (FrozenSourceSnapshots xs) of
          Inl e \<Rightarrow> Inl e
        | Inr p \<Rightarrow> (let ledger = unsealed_ledger hash d bytes manifest (dp_FrozenSourceSHA256 p) in
            case CanonicalSHA hash (ledger_json ledger) of None \<Rightarrow> Inl EncodeFailed
            | Some (digest, _) \<Rightarrow> Inr (ledger\<lparr>sa_LedgerSHA256 := digest\<rparr>)))))"

definition ledger_digest :: "(string \<Rightarrow> string) \<Rightarrow> StreamDayAllocation \<Rightarrow> string option" where
  "ledger_digest hash ledger = map_option fst (CanonicalSHA hash (ledger_json (ledger\<lparr>sa_LedgerSHA256 := []\<rparr>)))"

definition ValidateStreamDayAllocation :: "(string \<Rightarrow> string) \<Rightarrow> (string \<Rightarrow> location option) \<Rightarrow> StreamDayAllocation \<Rightarrow> StreamDayDraft \<Rightarrow> plan_error option" where
  "ValidateStreamDayAllocation hash tzdb ledger d =
     (let want = sa_LedgerSHA256 ledger in
      if ledger_digest hash ledger \<noteq> Some want \<or> \<not> lowerHex64 want then Some NotSealed
      else case SealStreamDayAllocation hash tzdb d of Inl _ \<Rightarrow> Some LedgerDiffers
        | Inr rebuilt \<Rightarrow> if sa_LedgerSHA256 rebuilt \<noteq> want then Some LedgerDiffers else None)"

section \<open>The artifact of a sealed ledger\<close>

definition MaxCanonicalJSONBytes :: nat where "MaxCanonicalJSONBytes = 16777216"

text \<open>The loop over the ledger's clips: their total size; \<open>previous\<close> is the clip before and \<open>pairs\<close> the pairs left.\<close>

fun artifact_bytes :: "int \<Rightarrow> SourceClip option \<Rightarrow> SourcePair list \<Rightarrow> int \<Rightarrow> SourceClip list \<Rightarrow> int option" where
  "artifact_bytes recordingID previous pairs acc [] = Some acc"
| "artifact_bytes recordingID previous pairs acc (x # xs) =
     (if \<not> validatePreflightSource x recordingID \<or> sc_AudioContract x \<noteq> None \<or> sc_SeamToPrevious x \<noteq> no_seam \<or>
         max_int64 - acc < oi_SizeBytes (sc_Object x) then None
      else case previous of None \<Rightarrow> artifact_bytes recordingID (Some x) pairs (acc + oi_SizeBytes (sc_Object x)) xs
        | Some y \<Rightarrow> (case pairs of [] \<Rightarrow> None | p # ps \<Rightarrow>
            if p \<noteq> \<lparr>sp_PreviousClipID = sc_ClipID y, sp_NextClipID = sc_ClipID x, sp_PreviousEnd = sc_EndUTC y, sp_NextStart = sc_StartUTC x,
              sp_SignedGap = time_sub (sc_StartUTC x) (sc_EndUTC y)\<rparr> then None
            else artifact_bytes recordingID (Some x) ps (acc + oi_SizeBytes (sc_Object x)) xs))"

text \<open>The clips of each ledger hour, taken off the ledger's clips in order.\<close>

fun take_ids :: "int list \<Rightarrow> SourceClip list \<Rightarrow> (SourceClip list \<times> SourceClip list) option" where
  "take_ids [] xs = Some ([], xs)"
| "take_ids (i # is) [] = None"
| "take_ids (i # is) (x # xs) = (if sc_ClipID x \<noteq> i then None else map_option (\<lambda>(ys, rest). (x # ys, rest)) (take_ids is xs))"

fun ledger_hours :: "nat \<Rightarrow> SourceClip list \<Rightarrow> LedgerHour list \<Rightarrow> (HourAllocation list \<times> SourceClip list) option" where
  "ledger_hours i xs [] = Some ([], xs)"
| "ledger_hours i xs (h # hs) =
     (if lh_DeliveryHour h \<noteq> int i + 1 \<or> lh_ClockHour h \<noteq> int i + 8 then None
      else case take_ids (lh_SourceClipIDs h) xs of None \<Rightarrow> None | Some (ys, rest) \<Rightarrow>
        map_option (\<lambda>(out, left). (\<lparr>ha_DeliveryHour = lh_DeliveryHour h, ha_ClockHour = lh_ClockHour h, ha_Sources = ys\<rparr> # out, left))
          (ledger_hours (Suc i) rest hs))"

definition ledger_draft :: "StreamDayAllocation \<Rightarrow> HourAllocation list \<Rightarrow> StreamDayDraft" where
  "ledger_draft l hours = \<lparr>sd_BatchID = sa_BatchID l, sd_Generation = sa_Generation l, sd_RecordingID = sa_RecordingID l,
     sd_Timezone = sa_Timezone l, sd_LocalDate = sa_LocalDate l, sd_QualificationDay = sa_QualificationDay l,
     sd_QualificationSHA = sa_QualificationSHA l, sd_Hours = hours, sd_Boundaries = sa_Boundaries l, sd_CrossDay = sa_CrossDay l\<rparr>"

definition ledger_header_ok :: "(string \<Rightarrow> string) \<Rightarrow> (string \<Rightarrow> location option) \<Rightarrow> StreamDayAllocation \<Rightarrow> bool" where
  "ledger_header_ok hash tzdb l \<longleftrightarrow> ledger_digest hash l = Some (sa_LedgerSHA256 l) \<and>
     \<not> (\<not> lowerHex64 (sa_LedgerSHA256 l) \<or> sa_SchemaVersion l \<noteq> 1 \<or> \<not> safe_name (sa_BatchID l) \<or> sa_Generation l \<le> 0 \<or> sa_RecordingID l \<le> 0 \<or>
        \<not> lowerHex64 (sa_QualificationSHA l) \<or> \<not> lowerHex64 (sa_FrozenSourceSHA256 l) \<or>
        \<not> validateQualifiedLedgerDay tzdb (sa_QualificationDay l) (sa_RecordingID l) (sa_Timezone l) (sa_LocalDate l) \<or>
        length (sa_Hours l) \<noteq> 12 \<or> length (sa_HourSourceSHA256 l) \<noteq> 12 \<or> sa_SourceClipCount l \<noteq> int (length (sa_Sources l)) \<or>
        sa_SourceBytes l < 0 \<or> length (sa_ConsecutivePairs l) \<noteq> length (sa_Sources l) - 1)"

definition ledger_ends_ok :: "StreamDayAllocation \<Rightarrow> bool" where
  "ledger_ends_ok l \<longleftrightarrow> (if sa_Sources l = [] then sa_FirstClipID l = None \<and> sa_LastClipID l = None
     else sa_FirstClipID l = Some (sc_ClipID (hd (sa_Sources l))) \<and> sa_LastClipID l = Some (sc_ClipID (last (sa_Sources l))))"

definition ledger_digests_ok :: "(string \<Rightarrow> string) \<Rightarrow> StreamDayAllocation \<Rightarrow> HourAllocation list \<Rightarrow> bool" where
  "ledger_digests_ok hash l hours \<longleftrightarrow>
     map (\<lambda>h. map_option fst (CanonicalSourceClaim hash (ha_Sources h))) hours = map Some (sa_HourSourceSHA256 l) \<and>
     map_option fst (CanonicalSourceClaim hash (sa_Sources l)) = Some (sa_SourceClaimSHA256 l) \<and>
     (case BuildFrozenDenominatorDayProjection hash (sa_RecordingID l) (sa_QualificationDay l) (sa_QualificationSHA l) (FrozenSourceSnapshots (sa_Sources l)) of
        Inl _ \<Rightarrow> False
      | Inr p \<Rightarrow> dp_FrozenSourceSHA256 p = sa_FrozenSourceSHA256 l \<and> dp_SourceCount p = sa_SourceClipCount l \<and> dp_SourceBytes p = sa_SourceBytes l)"

definition CanonicalAllocationLedgerArtifact :: "(string \<Rightarrow> string) \<Rightarrow> (string \<Rightarrow> location option) \<Rightarrow> StreamDayAllocation \<Rightarrow> plan_error + (string \<times> string)" where
  "CanonicalAllocationLedgerArtifact hash tzdb l =
     (if \<not> ledger_header_ok hash tzdb l then Inl NotSealed
      else case artifact_bytes (sa_RecordingID l) None (sa_ConsecutivePairs l) 0 (sa_Sources l) of None \<Rightarrow> Inl SourceIdentity | Some bytes \<Rightarrow>
      (case ledger_hours 0 (sa_Sources l) (sa_Hours l) of None \<Rightarrow> Inl HourIdentity | Some (hours, left) \<Rightarrow>
       if bytes \<noteq> sa_SourceBytes l \<or> left \<noteq> [] \<or> \<not> ledger_ends_ok l then Inl LedgerDiffers
       else case validateDraftBoundaries hash tzdb (ledger_draft l hours) of Some e \<Rightarrow> Inl e | None \<Rightarrow>
       if \<not> ledger_digests_ok hash l hours then Inl LedgerDiffers
       else case CanonicalSHA hash (ledger_json l) of None \<Rightarrow> Inl EncodeFailed
         | Some (digest, canonical) \<Rightarrow> if MaxCanonicalJSONBytes < length canonical then Inl TooLarge else Inr (canonical, digest)))"

definition CanonicalAllocationLedgerPaths :: "string \<Rightarrow> int \<Rightarrow> string \<Rightarrow> (string \<times> string) option" where
  "CanonicalAllocationLedgerPaths batchID recordingID date =
     (if \<not> safe_name batchID \<or> recordingID \<le> 0 \<or> parse_date date = None then None
      else let relative = path_join [''coverage'', ''ledgers'', Itoa recordingID, date @ ''.json''] in
        Some (relative, path_join [''joined'', batchID, relative]))"

definition CanonicalLedgerID :: "string \<Rightarrow> int \<Rightarrow> string \<Rightarrow> int \<Rightarrow> string option" where
  "CanonicalLedgerID batchID recordingID date generation =
     (if \<not> safe_name batchID \<or> recordingID \<le> 0 \<or> \<not> validLocalDate date \<or> generation \<le> 0 then None
      else Some (batchID @ ''__recording-'' @ Itoa recordingID @ ''__date-'' @ date @ ''__generation-'' @ Itoa generation))"

end
