(* ===== verification/Seams.thy ===== *)
theory Seams
  imports Ledger
begin

text \<open>
  The split of a day into hours: each seam is the nearest one, the loop that builds a split and the loop that checks one agree,
  and the checker accepts one split only.
\<close>

section \<open>Nearest candidates\<close>

definition seam_key :: "gotime \<Rightarrow> seamCandidate \<Rightarrow> int \<times> int \<times> nat \<times> int" where
  "seam_key scheduled c = (distance (cd_at c) scheduled, cd_at c, cd_position c, cd_clipID c)"

definition nearer :: "int \<times> int \<times> nat \<times> int \<Rightarrow> int \<times> int \<times> nat \<times> int \<Rightarrow> bool" where
  "nearer = (\<lambda>(a, b, c, d) (a', b', c', d'). a < a' \<or> a = a' \<and> (b < b' \<or> b = b' \<and> (c < c' \<or> c = c' \<and> d < d')))"

lemma closer_key: "closer scheduled c b \<longleftrightarrow> nearer (seam_key scheduled c) (seam_key scheduled b)"
  by (simp add: closer_def nearer_def seam_key_def)

lemma not_nearer_trans: "\<not> nearer x y \<Longrightarrow> \<not> nearer y z \<Longrightarrow> \<not> nearer x z"
  by (auto simp: nearer_def split: prod.splits)

lemma nearer_asym: "nearer x y \<Longrightarrow> \<not> nearer y x"
  by (auto simp: nearer_def split: prod.splits)

lemma nearer_irrefl: "\<not> nearer x x"
  by (auto simp: nearer_def split: prod.splits)

lemma pick_seam_best:
  assumes "pick_seam s m best cs = Some b" "\<And>a. best = Some a \<Longrightarrow> m \<le> cd_position a"
  shows "m \<le> cd_position b \<and> (b \<in> set cs \<or> best = Some b) \<and> (\<forall>a. best = Some a \<longrightarrow> \<not> closer s a b) \<and>
    (\<forall>c \<in> set cs. m \<le> cd_position c \<longrightarrow> \<not> closer s c b)"
  using assms
proof (induction s m best cs rule: pick_seam.induct)
  case (1 s m best)
  then show ?case by (auto simp: closer_def)
next
  case (2 s m best c cs)
  show ?case
  proof (cases "cd_position c < m")
    case True
    then show ?thesis using 2 by auto
  next
    case False
    define best' where "best' = (case best of None \<Rightarrow> c | Some a \<Rightarrow> if closer s c a then c else a)"
    have best': "(case best of None \<Rightarrow> Some c | Some a \<Rightarrow> if closer s c a then Some c else Some a) = Some best'"
      by (simp add: best'_def split: option.splits)
    have new: "\<not> closer s c best'" "\<And>a. best = Some a \<Longrightarrow> \<not> closer s a best'"
      using nearer_asym nearer_irrefl unfolding best'_def closer_key by (auto split: option.splits)
    have IH: "m \<le> cd_position b \<and> (b \<in> set cs \<or> Some best' = Some b) \<and> (\<forall>a. Some best' = Some a \<longrightarrow> \<not> closer s a b) \<and>
        (\<forall>c \<in> set cs. m \<le> cd_position c \<longrightarrow> \<not> closer s c b)"
    proof -
      have "pick_seam s m (Some best') cs = Some b" using 2(3) False by (simp add: best')
      moreover have "m \<le> cd_position a" if "Some best' = Some a" for a
        using that 2(4) False by (auto simp: best'_def split: option.splits if_splits)
      ultimately show ?thesis using 2(2) [OF False] unfolding best' by blast
    qed
    then have "\<not> closer s c b" "\<And>a. best = Some a \<Longrightarrow> \<not> closer s a b"
      using new not_nearer_trans unfolding closer_key by blast+
    then show ?thesis using IH unfolding best'_def by (auto split: option.splits if_splits)
  qed
qed

lemma pick_seam_Some: "(\<exists>c \<in> set cs. m \<le> cd_position c) \<or> best \<noteq> None \<Longrightarrow> \<exists>b. pick_seam s m best cs = Some b"
  by (induction s m best cs rule: pick_seam.induct) (auto split: option.splits)

lemma pick_seam_filter: "pick_seam s m best cs = pick_seam s m best (filter (\<lambda>c. m \<le> cd_position c) cs)"
  by (induction s m best cs rule: pick_seam.induct) auto

lemma candidates_at_position: "c \<in> set (candidates_at xs i) \<Longrightarrow> cd_position c = i"
  by (auto simp: candidates_at_def split: if_splits)

lemma in_candidates: "c \<in> set (candidates xs) \<longleftrightarrow> cd_position c \<le> length xs \<and> c \<in> set (candidates_at xs (cd_position c))"
proof
  assume "c \<in> set (candidates xs)"
  then obtain i where "i \<le> length xs" "c \<in> set (candidates_at xs i)" by (auto simp: candidates_def less_Suc_eq_le simp del: upt_Suc)
  then show "cd_position c \<le> length xs \<and> c \<in> set (candidates_at xs (cd_position c))" using candidates_at_position by blast
qed (force simp: candidates_def simp del: upt_Suc)

lemma filter_candidates_at: "filter (\<lambda>c. m \<le> cd_position c) (candidates_at xs i) = (if m \<le> i then candidates_at xs i else [])"
  by (simp add: candidates_at_def)

lemma later_candidates_filter:
  assumes "m \<le> length xs"
  shows "later_candidates xs m = filter (\<lambda>c. m \<le> cd_position c) (candidates xs)"
proof -
  have split: "[0..<Suc (length xs)] = [0..<m] @ [m..<Suc (length xs)]" using assms by (metis le_SucI upt_add_eq_append le0 le_add_diff_inverse add_0)
  let ?f = "\<lambda>i. if m \<le> i then candidates_at xs i else []"
  have "concat (map ?f is) = []" if "\<forall>i \<in> set is. i < m" for "is" using that by (induction "is") auto
  then have "concat (map ?f [0..<m]) = []" by simp
  moreover have "map ?f [m..<Suc (length xs)] = map (candidates_at xs) [m..<Suc (length xs)]"
    by (rule map_cong) (auto simp del: upt_Suc)
  moreover have "filter (\<lambda>c. m \<le> cd_position c) (concat (map (candidates_at xs) is)) = concat (map ?f is)" for "is"
    by (induction "is") (simp_all add: filter_candidates_at)
  ultimately show ?thesis
    unfolding candidates_def later_candidates_def split by (simp only: map_append concat_append filter_append append_Nil)
qed

text \<open>The two loops choose the same seam.\<close>

lemma pick_later: "m \<le> length xs \<Longrightarrow> pick_seam s m None (later_candidates xs m) = pick_seam s m None (candidates xs)"
  unfolding later_candidates_filter by (rule pick_seam_filter [symmetric])

lemma pick_position:
  assumes "pick_seam s m None (candidates xs) = Some b"
  shows "m \<le> cd_position b \<and> cd_position b \<le> length xs \<and> b \<in> set (candidates_at xs (cd_position b))"
  using pick_seam_best [OF assms] in_candidates by blast

lemma some_candidate: "xs \<noteq> [] \<Longrightarrow> m \<le> length xs \<Longrightarrow> \<exists>c \<in> set (candidates xs). m \<le> cd_position c"
proof -
  assume ne: "xs \<noteq> []" and "m \<le> length xs"
  let ?n = "length xs"
  let ?c = "\<lparr>cd_position = ?n, cd_at = sc_EndUTC (xs ! (?n - 1)), cd_clipID = sc_ClipID (xs ! (?n - 1))\<rparr>"
  have "?c \<in> set (candidates_at xs ?n)" using ne by (simp add: candidates_at_def)
  then have "?c \<in> set (candidates xs)" using in_candidates [of ?c xs] by simp
  with \<open>m \<le> length xs\<close> show ?thesis by (intro bexI [of _ ?c]) auto
qed

lemma boundaries_agree:
  assumes "pick_seam s m None (candidates xs) = Some b"
  shows "built_boundary xs s i b = crossHourBoundary xs (cd_position b) s (int i + 1) (cd_at b)"
proof -
  note pos = pick_position [OF assms]
  have "\<not> (cd_position b = 0 \<and> xs = [])" using pos by (auto simp: candidates_at_def split: if_splits)
  then show ?thesis
    by (cases "0 < cd_position b"; cases "cd_position b < length xs")
      (auto simp: built_boundary_def crossHourBoundary_def Let_def)
qed

section \<open>Splits\<close>

lemma length_hour_sources: "length (hour_sources xs m ps) = Suc (length ps)"
  by (induction xs m ps rule: hour_sources.induct) auto

lemma concat_hour_sources:
  "sorted (m # ps) \<Longrightarrow> \<forall>p \<in> set ps. p \<le> length xs \<Longrightarrow> concat (hour_sources xs m ps) = drop m xs"
proof (induction xs m ps rule: hour_sources.induct)
  case (2 xs m p ps)
  then have "concat (hour_sources xs m (p # ps)) = drop m (take p xs) @ drop p xs" by simp
  also have "\<dots> = drop m xs"
  proof -
    have "drop m xs = drop m (take p xs @ drop p xs)" by simp
    also have "\<dots> = drop m (take p xs) @ drop p xs" using 2(2,3) by (subst drop_append) (simp add: min_def)
    finally show ?thesis by simp
  qed
  finally show ?case .
qed simp

lemma allocate_Cons:
  assumes "allocate_boundaries loc day xs m (i # is) = Inr bs"
  obtains b bs' where "pick_seam (scheduled_seam loc day i) m None (candidates xs) = Some b"
    "allocate_boundaries loc day xs (cd_position b) is = Inr bs'"
    "bs = (cd_position b, built_boundary xs (scheduled_seam loc day i) i b) # bs'"
proof (cases "pick_seam (scheduled_seam loc day i) m None (candidates xs)")
  case (Some b)
  then show ?thesis using assms that by (cases "allocate_boundaries loc day xs (cd_position b) is") auto
qed (use assms in simp)

lemma allocate_positions:
  "allocate_boundaries loc day xs m is = Inr bs \<Longrightarrow> m \<le> length xs \<Longrightarrow>
    length bs = length is \<and> sorted (m # map fst bs) \<and> (\<forall>p \<in> set (map fst bs). p \<le> length xs)"
proof (induction loc day xs m "is" arbitrary: bs rule: allocate_boundaries.induct)
  case (2 loc day xs m i "is")
  obtain b bs' where b: "pick_seam (scheduled_seam loc day i) m None (candidates xs) = Some b"
    "allocate_boundaries loc day xs (cd_position b) is = Inr bs'"
    "bs = (cd_position b, built_boundary xs (scheduled_seam loc day i) i b) # bs'"
    using allocate_Cons [OF 2(2)] .
  note pos = pick_position [OF b(1)]
  note IH = 2(1) [OF b(1,2)]
  from pos IH show ?case unfolding b(3) by fastforce
qed auto

lemma allocate_total: "xs \<noteq> [] \<Longrightarrow> m \<le> length xs \<Longrightarrow> \<exists>bs. allocate_boundaries loc day xs m is = Inr bs"
proof (induction "is" arbitrary: m)
  case (Cons i "is")
  obtain b where b: "pick_seam (scheduled_seam loc day i) m None (candidates xs) = Some b"
    using pick_seam_Some some_candidate [OF Cons.prems] by blast
  then obtain bs where "allocate_boundaries loc day xs (cd_position b) is = Inr bs"
    using Cons.IH [of "cd_position b"] Cons.prems(1) pick_position [OF b] by blast
  with b show ?case by simp
qed simp

text \<open>The checker accepts what the builder built.\<close>

lemma check_allocated:
  assumes "allocate_boundaries loc day xs m [k..<k + n] = Inr bs" "m \<le> length xs"
  shows "check_boundaries loc day xs hash m m (enumerate k (zip (hour_sources xs m (map fst bs)) (map snd bs))) = None"
  using assms
proof (induction n arbitrary: k m bs)
  case (Suc n)
  have upt: "[k..<k + Suc n] = k # [Suc k..<Suc k + n]" by (simp add: upt_rec)
  obtain b bs' where b: "pick_seam (scheduled_seam loc day k) m None (candidates xs) = Some b"
    "allocate_boundaries loc day xs (cd_position b) [Suc k..<Suc k + n] = Inr bs'"
    "bs = (cd_position b, built_boundary xs (scheduled_seam loc day k) k b) # bs'"
    using allocate_Cons [OF Suc.prems(1) [unfolded upt]] .
  note pos = pick_position [OF b(1)]
  have "m + length (drop m (take (cd_position b) xs)) = cd_position b" using pos by simp
  with Suc.IH [OF b(2)] pos show ?case
    unfolding b(3) by (simp add: Let_def pick_later [OF Suc.prems(2)] b(1) boundaries_agree [OF b(1)])
qed simp

text \<open>The checker accepts nothing else.\<close>

lemma checked_allocated:
  assumes "check_boundaries loc day xs hash m m (enumerate k (zip yss bs)) = None" "length yss = Suc (length bs)"
    and "concat yss = drop m xs" "m \<le> length xs"
  shows "\<exists>as. allocate_boundaries loc day xs m [k..<k + length bs] = Inr as \<and> hour_sources xs m (map fst as) = yss"
  using assms
proof (induction bs arbitrary: k m yss)
  case Nil
  then obtain ys where "yss = [ys]" by (cases yss) auto
  with Nil.prems show ?case by simp
next
  case (Cons b bs)
  then obtain ys zss where yss: "yss = ys # zss" "length zss = Suc (length bs)" by (cases yss) auto
  let ?s = "scheduled_seam loc day k"
  obtain c where c: "pick_seam ?s m None (candidates xs) = Some c" "m + length ys = cd_position c"
    "check_boundaries loc day xs hash (cd_position c) (cd_position c) (enumerate (Suc k) (zip zss bs)) = None"
    using Cons.prems(1) unfolding yss(1) by (auto simp: Let_def pick_later [OF Cons.prems(4)] split: option.splits if_splits)
  note pos = pick_position [OF c(1)]
  have ys: "ys = drop m (take (cd_position c) xs)" and rest: "concat zss = drop (cd_position c) xs"
  proof -
    have eq: "ys @ concat zss = drop m xs" using Cons.prems(3) yss(1) by simp
    then have "ys = take (length ys) (drop m xs)" "concat zss = drop (length ys) (drop m xs)" by (metis append_eq_conv_conj)+
    then show "ys = drop m (take (cd_position c) xs)" "concat zss = drop (cd_position c) xs"
      using c(2) by (simp_all add: take_drop add.commute)
  qed
  obtain as where as: "allocate_boundaries loc day xs (cd_position c) [Suc k..<Suc k + length bs] = Inr as"
    "hour_sources xs (cd_position c) (map fst as) = zss"
    using Cons.IH [OF c(3) yss(2) rest] pos by blast
  have upt: "[k..<k + length (b # bs)] = k # [Suc k..<Suc k + length bs]" by (simp add: upt_rec)
  have "allocate_boundaries loc day xs m [k..<k + length (b # bs)] = Inr ((cd_position c, built_boundary xs ?s k c) # as)"
    using as(1) c(1) unfolding upt by simp
  then show ?case using as(2) ys yss(1) by (intro exI [of _ "(cd_position c, built_boundary xs ?s k c) # as"]) simp
qed

section \<open>The builder against the checker\<close>

lemma length_allocate: "allocate_boundaries loc day xs 0 [0..<11] = Inr bs \<Longrightarrow> length bs = 11"
  using allocate_positions [of loc day xs 0 "[0..<11]" bs] by simp

lemma delivery_hours_simps [simp]:
  "length (delivery_hours xss) = length xss" "map ha_Sources (delivery_hours xss) = xss"
proof -
  show "map ha_Sources (delivery_hours xss) = xss"
    using map_enumerate_snd [of "\<lambda>x. x" 0 xss] by (simp add: delivery_hours_def comp_def split_beta)
qed (simp add: delivery_hours_def)

lemma delivery_hours_numbers:
  "map (\<lambda>h. (ha_DeliveryHour h, ha_ClockHour h)) (delivery_hours xss) = map (\<lambda>i. (int i + 1, int i + 8)) [0..<length xss]"
  by (rule nth_equalityI) (simp_all add: delivery_hours_def nth_enumerate_eq)

text \<open>What an allocation is made of.\<close>

lemma allocate_eligible_Inr:
  assumes "allocate_eligible req loc date = Inr d"
  obtains bs day cross where "validateOrderedAllocationSources (dq_Sources req) (dq_RecordingID req) loc date = None"
    "allocate_boundaries loc (local_day loc (sc_StartUTC (hd (dq_Sources req)))) (dq_Sources req) 0 [0..<11] = Inr bs"
    "qualifiedDay (dq_Qualification req) date = Some day"
    "crossDayBoundaries req loc (hd (dq_Sources req)) (last (dq_Sources req)) date = Inr cross"
    "d = draft_of req date day (hour_sources (dq_Sources req) 0 (map fst bs)) (map snd bs) cross"
proof -
  define ordered where "ordered = validateOrderedAllocationSources (dq_Sources req) (dq_RecordingID req) loc date"
  define bounds where "bounds = allocate_boundaries loc (local_day loc (sc_StartUTC (hd (dq_Sources req)))) (dq_Sources req) 0 [0..<11]"
  have "(case ordered of Some e \<Rightarrow> Inl e | None \<Rightarrow> (case bounds of Inl e \<Rightarrow> Inl e | Inr bs \<Rightarrow>
      (case qualifiedDay (dq_Qualification req) date of None \<Rightarrow> Inl NoEvidence | Some day \<Rightarrow>
       map_sum id (draft_of req date day (hour_sources (dq_Sources req) 0 (map fst bs)) (map snd bs))
         (crossDayBoundaries req loc (hd (dq_Sources req)) (last (dq_Sources req)) date)))) = Inr d"
    using assms unfolding allocate_eligible_def Let_def ordered_def bounds_def .
  then show thesis using that unfolding ordered_def [symmetric] bounds_def [symmetric]
    by (cases "crossDayBoundaries req loc (hd (dq_Sources req)) (last (dq_Sources req)) date")
      (auto split: option.splits sum.splits)
qed

lemma AllocateStreamDay_Inr:
  assumes "AllocateStreamDay hash tzdb req = Inr d"
  obtains loc bs day cross where "tzdb (dq_Timezone req) = Some loc" "dq_Sources req \<noteq> []"
    "ValidateQualificationWindow hash tzdb (dq_Qualification req)"
    "dq_LocalDate req = local_date loc (sc_StartUTC (hd (dq_Sources req)))"
    "validateOrderedAllocationSources (dq_Sources req) (dq_RecordingID req) loc (dq_LocalDate req) = None"
    "allocate_boundaries loc (local_day loc (sc_StartUTC (hd (dq_Sources req)))) (dq_Sources req) 0 [0..<11] = Inr bs"
    "qualifiedDay (dq_Qualification req) (dq_LocalDate req) = Some day"
    "crossDayBoundaries req loc (hd (dq_Sources req)) (last (dq_Sources req)) (dq_LocalDate req) = Inr cross"
    "d = draft_of req (dq_LocalDate req) day (hour_sources (dq_Sources req) 0 (map fst bs)) (map snd bs) cross"
proof -
  have given: "dq_Sources req \<noteq> []" "ValidateQualificationWindow hash tzdb (dq_Qualification req)"
    using assms unfolding AllocateStreamDay_def Let_def by (metis Inl_Inr_False)+
  obtain loc where loc: "tzdb (dq_Timezone req) = Some loc"
    using assms given by (cases "tzdb (dq_Timezone req)") (simp_all add: AllocateStreamDay_def)
  define date where "date = local_date loc (sc_StartUTC (hd (dq_Sources req)))"
  have run: "(if dq_LocalDate req \<noteq> date \<or> \<not> qualificationContainsDate (dq_Qualification req) date then Inl OutsideQualification
      else if \<exists>x \<in> set (dq_Sources req). \<not> validatePreflightSource x (dq_RecordingID req) \<or> \<not> permits (dq_Qualification req) x \<or>
        local_date loc (sc_StartUTC x) \<noteq> date \<or> local_date loc (sc_EndUTC x) \<noteq> date then Inl IneligibleSource
      else allocate_eligible req loc date) = Inr d"
    using assms given loc unfolding AllocateStreamDay_def Let_def date_def by (simp only: simp_thms if_False option.case)
  then have date: "dq_LocalDate req = date" by (metis Inl_Inr_False)
  have eligible: "allocate_eligible req loc (dq_LocalDate req) = Inr d" using run unfolding date by (metis Inl_Inr_False)
  have same: "dq_LocalDate req = local_date loc (sc_StartUTC (hd (dq_Sources req)))" using date date_def by simp
  show thesis by (rule allocate_eligible_Inr [OF eligible]) (rule that [OF loc given same], assumption+)
qed

lemma draft_of_sources [simp]: "draft_sources (draft_of req date day xss bs cross) = concat xss"
  by (simp add: draft_sources_def draft_of_def)

text \<open>The number of clips in the hours before a boundary.\<close>

definition split_at :: "StreamDayDraft \<Rightarrow> nat \<Rightarrow> nat" where
  "split_at d i = length (concat (take i (map ha_Sources (sd_Hours d))))"

lemma split_hour_sources:
  "sorted (m # ps) \<Longrightarrow> \<forall>p \<in> set ps. p \<le> length xs \<Longrightarrow> i < length ps \<Longrightarrow>
    m + length (concat (take (Suc i) (hour_sources xs m ps))) = ps ! i"
proof (induction xs m ps arbitrary: i rule: hour_sources.induct)
  case (2 xs m p ps)
  show ?case
  proof (cases i)
    case 0
    then show ?thesis using 2 by simp
  next
    case (Suc j)
    then have "p + length (concat (take (Suc j) (hour_sources xs p ps))) = ps ! j" using 2 by simp
    then show ?thesis using 2 Suc by simp
  qed
qed simp

lemma allocate_nth:
  "allocate_boundaries loc day xs m is = Inr bs \<Longrightarrow> i < length is \<Longrightarrow>
    \<exists>b. pick_seam (scheduled_seam loc day (is ! i)) ((m # map fst bs) ! i) None (candidates xs) = Some b \<and> fst (bs ! i) = cd_position b"
proof (induction "is" arbitrary: m bs i)
  case (Cons k ks)
  obtain b bs' where b: "pick_seam (scheduled_seam loc day k) m None (candidates xs) = Some b"
    "allocate_boundaries loc day xs (cd_position b) ks = Inr bs'"
    "bs = (cd_position b, built_boundary xs (scheduled_seam loc day k) k b) # bs'"
    using allocate_Cons [OF Cons.prems(1)] .
  show ?case
  proof (cases i)
    case 0
    then show ?thesis using b by simp
  next
    case (Suc j)
    then show ?thesis using Cons.IH [OF b(2), of j] Cons.prems(2) b(3) by simp
  qed
qed simp

end
