(* ===== verification/Sealing.thy ===== *)
theory Sealing
  imports Seams
begin

text \<open>
  Sealed evidence: which values the encoder writes, which windows of days are sealed, and that what is sealed is accepted by
  the check that seals it again. A ledger made of an allocated day is accepted by its validators, and an accepted ledger is
  what the builder makes of its clips.
\<close>

section \<open>What the encoder writes\<close>

fun json_times :: "json \<Rightarrow> gotime list" where
  "json_times (JTime t) = [t]"
| "json_times (JArray xs) = concat (map json_times xs)"
| "json_times (JObject fs) = concat (map (\<lambda>(k, x). json_times x) fs)"
| "json_times _ = []"

lemma encode_total:
  "\<forall>t \<in> set (json_times j). time_json t \<noteq> None \<Longrightarrow> encode html j \<noteq> None"
  "\<forall>t \<in> set (json_times (JArray xs)). time_json t \<noteq> None \<Longrightarrow> encode_list html xs \<noteq> None"
  "\<forall>t \<in> set (json_times (JObject fs)). time_json t \<noteq> None \<Longrightarrow> encode_fields html fs \<noteq> None"
  by (induction html j and html xs and html fs rule: encode_encode_list_encode_fields.induct)
    (auto split: option.splits)

lemma days_before_le: "y < 0 \<Longrightarrow> days_before_year y \<le> 364 * y"
proof -
  assume "y < 0"
  define x where "x = y - 1"
  have "4 * (x div 4) \<le> x" "x - 99 \<le> 100 * (x div 100)" "400 * (x div 400) \<le> x"
    using mult_div_mod_eq [of 4 x] mult_div_mod_eq [of 100 x] mult_div_mod_eq [of 400 x] pos_mod_bound [of 100 x]
      pos_mod_sign [of 4 x] pos_mod_sign [of 400 x] by linarith+
  with \<open>y < 0\<close> show ?thesis unfolding days_before_year_def x_def [symmetric] by (simp add: x_def)
qed

lemma days_before_ge: "1 \<le> y \<Longrightarrow> 365 * (y - 1) \<le> days_before_year y"
proof -
  assume "1 \<le> y"
  define x where "x = y - 1"
  have "x div 100 \<le> x div 4" using \<open>1 \<le> y\<close> by (intro zdiv_mono2) (auto simp: x_def)
  moreover have "0 \<le> x div 400" using \<open>1 \<le> y\<close> by (simp add: x_def)
  ultimately show ?thesis unfolding days_before_year_def x_def [symmetric] by simp
qed

text \<open>The days of the years 1 to 9999, or at least some of them.\<close>

lemma civil_year:
  assumes "civil d = (y, m, k)" "- 700000 \<le> d" "d \<le> 2900000"
  shows "0 \<le> y \<and> y \<le> 9999"
proof -
  obtain j where j: "year_day (d + epoch_days) = (y, j)" using assms(1) by (auto simp: civil_def split: prod.splits)
  have "d + epoch_days = days_before_year y + j \<and> 0 \<le> j \<and> j < year_days y" using year_day_correct [OF j] by auto
  then have b: "days_before_year y \<le> d + epoch_days" "d + epoch_days < days_before_year y + 366"
    by (auto simp: year_days_def split: if_splits)
  have "False" if "y < 0" using days_before_le [OF that] b assms(2) that unfolding epoch_days_def by linarith
  moreover have "False" if "9999 < y"
  proof -
    have "365 * (y - 1) \<le> days_before_year y" by (rule days_before_ge) (use that in simp)
    moreover have "365 * (y - 1) \<ge> 3649635" using that by simp
    ultimately show False using b(1) assms(3) unfolding epoch_days_def by simp
  qed
  ultimately show ?thesis by (metis not_less)
qed

lemma length_zero_pad_4: "0 \<le> y \<Longrightarrow> y \<le> 9999 \<Longrightarrow> length (append_int y 4) = 4"
proof -
  assume y: "0 \<le> y" "y \<le> 9999"
  define n where "n = nat y"
  have "length (decimal n) \<le> 4"
    by (subst decimal.simps, simp, subst decimal.simps, simp, subst decimal.simps, simp, subst decimal.simps)
      (use y in \<open>auto simp: n_def\<close>)
  then show ?thesis using y by (simp add: append_int_def zero_pad_def n_def)
qed

lemma append_int_digits: "0 \<le> x \<Longrightarrow> list_all is_digit (append_int x w)"
  using zero_pad_digits by (auto simp: append_int_def list_all_iff)

lemma read_append_int: "0 \<le> x \<Longrightarrow> read_digits (append_int x w) = x"
  by (simp add: append_int_def)

text \<open>A date that is written is read back.\<close>

lemma parse_date_string:
  assumes "- 700000 \<le> d" "d \<le> 2900000"
  shows "parse_date (date_string d) = Some d"
proof -
  obtain y m k where c: "civil d = (y, m, k)" by (cases "civil d")
  note d = day_number_civil [OF c] and y = civil_year [OF c assms]
  have r: "1 \<le> m" "m \<le> 12" "1 \<le> k" "k \<le> 31" using d month_length_le [of m y] by (auto simp: valid_date_def)
  define ys ms ks where "ys = append_int y 4" and "ms = append_int m 2" and "ks = append_int k 2"
  have len: "length ys = 4" "length ms = 2" "length ks = 2"
    using length_zero_pad_4 [of y] length_append_int_2 [of m] length_append_int_2 [of k] y r by (auto simp: ys_def ms_def ks_def)
  have val: "read_digits ys = y" "read_digits ms = m" "read_digits ks = k" "list_all is_digit ys" "list_all is_digit ms" "list_all is_digit ks"
    using read_append_int append_int_digits y r by (auto simp: ys_def ms_def ks_def)
  define s where "s = ys @ ''-'' @ ms @ ''-'' @ ks"
  have parts: "take 4 s = ys" "take 2 (drop 5 s) = ms" "drop 8 s = ks" "s ! 4 = CHR ''-''" "s ! 7 = CHR ''-''" "length s = 10"
    using len by (auto simp: s_def nth_append numeral_eq_Suc)
  have "date_string d = s" by (simp add: date_string_def c s_def ys_def ms_def ks_def)
  then show ?thesis using d val by (simp add: parse_date_def Let_def parts)
qed

lemma time_json_total:
  assumes "- 700000 \<le> local_day utc t" "local_day utc t \<le> 2900000"
  shows "time_json t \<noteq> None"
proof -
  obtain y m k where c: "civil (local_day utc t) = (y, m, k)" by (cases "civil (local_day utc t)")
  then show ?thesis using civil_year [OF c assms] by (auto simp: time_json_def Let_def)
qed

section \<open>A window in UTC\<close>

text \<open>Fourteen days from a given one, each recorded from eight to eight by a job of its own.\<close>

definition utc_day :: "int \<Rightarrow> nat \<Rightarrow> QualifiedDay" where
  "utc_day d i = \<lparr>qd_LocalDate = date_string (d + int i), qd_Ordinal = int i + 1, qd_JobID = 500 + int i, qd_ScheduledFor = None,
     qd_JobStatus = [], qd_ReasonCodes = [], qd_WindowStart = go_date utc (d + int i) 28800 0, qd_WindowEnd = go_date utc (d + int i) 72000 0,
     qd_CompletedAt = go_date utc (d + int i) 72000 0\<rparr>"

lemma utc_day_simps [simp]: "qd_LocalDate (utc_day d i) = date_string (d + int i)" "qd_Ordinal (utc_day d i) = int i + 1"
    "qd_JobID (utc_day d i) = 500 + int i" "qd_ScheduledFor (utc_day d i) = None" "qd_JobStatus (utc_day d i) = []"
    "qd_ReasonCodes (utc_day d i) = []" "qd_WindowStart (utc_day d i) = go_date utc (d + int i) 28800 0"
    "qd_WindowEnd (utc_day d i) = go_date utc (d + int i) 72000 0" "qd_CompletedAt (utc_day d i) = go_date utc (d + int i) 72000 0"
  by (simp_all add: utc_day_def)

definition plain_hash :: "string \<Rightarrow> string" where "plain_hash s = replicate 64 CHR ''a''"

definition utc_window :: "int \<Rightarrow> QualificationWindow" where
  "utc_window d = \<lparr>qw_RecordingID = 7, qw_Timezone = ''UTC'', qw_Days = map (utc_day d) [0..<14], qw_FrozenAt = go_date utc (d + 20) 0 0,
     qw_AuthorityKind = [], qw_EvidenceSHA = plain_hash []\<rparr>"

definition utc_zones :: "string \<Rightarrow> location option" where "utc_zones name = (if name = ''UTC'' then Some utc else None)"

lemma unix_utc_date [simp]: "unix (go_date utc d s 0) = d * day_seconds + s"
  by (simp add: unix_go_date utc_fixed)

lemma nsec_date [simp]: "nsec (go_date loc d s 0) = 0"
  by (simp add: nsec_def go_date_def)

lemma utc_date [simp]:
  assumes "0 \<le> s" "s < day_seconds"
  shows "local_day utc (go_date utc d s 0) = d" "local_clock utc (go_date utc d s 0) = s"
  using assms by (simp_all add: local_day_def local_clock_def local_seconds_def offset_at_def lookup_def utc_def [of] unix_utc_date [unfolded utc_def] day_divI)

lemma go_date_utc: "go_date utc d s 0 = (d * day_seconds + s) * second"
  by (simp add: go_date_def utc_fixed)

lemma utc_date_order: "go_date utc d a 0 < go_date utc d b 0 \<longleftrightarrow> a < b" "go_date utc d a 0 = go_date utc d b 0 \<longleftrightarrow> a = b"
  by (simp_all add: go_date_utc)

lemma plain_hash_hex: "lowerHex64 (plain_hash s)"
  by (simp add: lowerHex64_def plain_hash_def list_all_iff lower_hex_def)

lemma utc_day_length: "go_date utc d 28800 0 < go_date utc d 72000 0 \<and> time_sub (go_date utc d 72000 0) (go_date utc d 28800 0) = 12 * hour"
  by (simp add: time_sub_def go_date_utc algebra_simps max_duration_def min_duration_def)

lemma check_utc_days:
  assumes "\<forall>j \<in> set seen. j < 500 + int i" "qw_AuthorityKind w = []" "go_date utc (d + int i + int n) 0 0 \<le> qw_FrozenAt w"
    and "- 700000 \<le> d" "d + int i + int n \<le> 2900000" "0 < i \<longrightarrow> previous = go_date utc (d + int i - 1) 0 0"
  shows "check_days utc w (int i) previous seen (map (utc_day d) [i..<i + n])"
  using assms
proof (induction n arbitrary: i previous seen)
  case (Suc n)
  have upt: "[i..<i + Suc n] = i # [Suc i..<Suc i + n]" by (simp add: upt_rec)
  have parse: "ParseInLocation (date_string (d + int i)) utc = Some (go_date utc (d + int i) 0 0)"
    using parse_date_string [of "d + int i"] Suc.prems by (simp add: ParseInLocation_def)
  have after: "add_days utc previous 1 = go_date utc (d + int i) 0 0" if "0 < i"
    using Suc.prems(6) that by (simp add: add_days_def)
  have window: "local_window utc (date_string (d + int i)) (go_date utc (d + int i) 28800 0) (go_date utc (d + int i) 72000 0)"
    using utc_day_length [of "d + int i"] by (simp add: local_window_def local_date_def)
  have frozen: "go_date utc (d + int i) 72000 0 \<le> qw_FrozenAt w"
    using Suc.prems(3) by (simp add: go_date_utc)
  have rest: "check_days utc w (int (Suc i)) (go_date utc (d + int i) 0 0) ((500 + int i) # seen) (map (utc_day d) [Suc i..<Suc i + n])"
    by (rule Suc.IH) (use Suc.prems in \<open>auto simp: algebra_simps\<close>)
  have "500 + int i \<notin> set seen" using Suc.prems(1) by auto
  moreover have "check_days utc w (int i + 1) (go_date utc (d + int i) 0 0) ((500 + int i) # seen) (map (utc_day d) [Suc i..<Suc i + n])"
    using rest by (simp add: algebra_simps del: upt_Suc)
  moreover have "i = 0 \<or> go_date utc (d + int i) 0 0 = add_days utc previous 1" using after by (cases i) auto
  ultimately show ?case unfolding upt using parse window frozen Suc.prems(2)
    by (simp add: validQualifiedDayAuthority_def del: upt_Suc of_nat_Suc)
qed simp

lemma day_json_times: "set (json_times (day_json x)) \<subseteq>
    set_option (qd_ScheduledFor x) \<union> {qd_WindowStart x, qd_WindowEnd x, qd_CompletedAt x}"
  by (auto simp: day_json_def Let_def omitempty_def opt_json_def split: option.splits)

lemma window_json_times: "set (json_times (window_json w)) \<subseteq> (\<Union>x \<in> set (qw_Days w). set (json_times (day_json x))) \<union> {qw_FrozenAt w}"
  by (auto simp: window_json_def omitempty_def)

lemma utc_window_valid:
  assumes "- 700000 \<le> d" "d \<le> 2800000"
  shows "ValidateQualificationWindow plain_hash utc_zones (utc_window d)"
proof -
  let ?w = "utc_window d\<lparr>qw_EvidenceSHA := []\<rparr>"
  have days: "check_days utc ?w 0 zero_time [] (map (utc_day d) [0..<14])"
    using check_utc_days [of "[]" 0 ?w d 14 zero_time] assms by (simp add: utc_window_def go_date_utc del: upt_Suc)
  have "time_json t \<noteq> None" if t: "t \<in> set (json_times (window_json ?w))" for t
  proof -
    have "t \<in> (\<Union>x \<in> set (map (utc_day d) [0..<14]). set (json_times (day_json x))) \<union> {go_date utc (d + 20) 0 0}"
      using t window_json_times [of ?w] by (auto simp: utc_window_def)
    then obtain e s where "t = go_date utc e s 0" "0 \<le> s" "s < day_seconds" "d \<le> e" "e \<le> d + 20"
      using day_json_times by (fastforce simp: utc_day_def)
    then show ?thesis using assms by (intro time_json_total) auto
  qed
  then obtain b where "encode False (window_json ?w) = Some b" using encode_total(1) by blast
  then show ?thesis using days plain_hash_hex
    by (simp add: ValidateQualificationWindow_def SealQualificationWindow_def Let_def utc_window_def utc_zones_def CanonicalSHA_def plain_hash_def)
qed

lemma utc_window_simps [simp]: "qw_RecordingID (utc_window d) = 7" "qw_Days (utc_window d) = map (utc_day d) [0..<14]"
    "qw_EvidenceSHA (utc_window d) = plain_hash []" "qw_Timezone (utc_window d) = ''UTC''"
  by (simp_all add: utc_window_def)

lemma utc_window_day:
  assumes "i < 14"
  shows "qualifiedDay (utc_window d) (date_string (d + int i)) = Some (utc_day d i)"
proof -
  have "List.find (\<lambda>y. qd_LocalDate y = date_string (d + int i)) (map (utc_day d) [k..<k + n]) = Some (utc_day d i)"
    if "k \<le> i" "i < k + n" for k n
    using that
  proof (induction n arbitrary: k)
    case (Suc n)
    have upt: "[k..<k + Suc n] = k # [Suc k..<Suc k + n]" by (simp add: upt_rec)
    have "date_string (d + int k) = date_string (d + int i) \<longleftrightarrow> k = i" using date_string_inj by fastforce
    then show ?case unfolding upt using Suc.IH [of "Suc k"] Suc.prems by (simp del: upt_Suc)
  qed simp
  from this [of 0 14] assms show ?thesis unfolding qualifiedDay_def by (simp del: upt_Suc)
qed

section \<open>Allocations that succeed\<close>

lemma allocate_succeeds:
  assumes "dq_Sources req \<noteq> []" "ValidateQualificationWindow hash tzdb (dq_Qualification req)" "tzdb (dq_Timezone req) = Some loc"
    and "dq_LocalDate req = local_date loc (sc_StartUTC (hd (dq_Sources req)))"
    and "qualifiedDay (dq_Qualification req) (dq_LocalDate req) = Some day"
    and "\<forall>x \<in> set (dq_Sources req). permits (dq_Qualification req) x"
    and ordered: "validateOrderedAllocationSources (dq_Sources req) (dq_RecordingID req) loc (dq_LocalDate req) = None"
    and cross: "crossDayBoundaries req loc (hd (dq_Sources req)) (last (dq_Sources req)) (dq_LocalDate req) = Inr cross"
  shows "\<exists>d. AllocateStreamDay hash tzdb req = Inr d"
proof -
  obtain bs where bs: "allocate_boundaries loc (local_day loc (sc_StartUTC (hd (dq_Sources req)))) (dq_Sources req) 0 [0..<11] = Inr bs"
    using allocate_total [OF assms(1) le0] by blast
  have each: "validatePreflightSource x rid \<and> local_date loc (sc_StartUTC x) = date \<and> local_date loc (sc_EndUTC x) = date"
    if "ordered_sources rid loc date p cs os xs = None" "x \<in> set xs" for rid date p cs os xs x
    using that by (induction rid loc date p cs os xs rule: ordered_sources.induct) (auto split: if_splits)
  have "allocate_eligible req loc (dq_LocalDate req) =
      Inr (draft_of req (dq_LocalDate req) day (hour_sources (dq_Sources req) 0 (map fst bs)) (map snd bs) cross)"
    unfolding allocate_eligible_def Let_def ordered bs cross assms(5) by simp
  moreover have "AllocateStreamDay hash tzdb req = allocate_eligible req loc (dq_LocalDate req)"
    using each [OF ordered [unfolded validateOrderedAllocationSources_def]] assms(1,2,3,5,6)
    unfolding AllocateStreamDay_def Let_def assms(4) [symmetric] by (simp add: qualificationContainsDate_def)
  ultimately show ?thesis by simp
qed

lemma crossDayBoundaries_alone:
  "dq_PreviousDayLast req = None \<Longrightarrow> dq_NextDayFirst req = None \<Longrightarrow> parse_date date \<noteq> None \<Longrightarrow>
    \<exists>cross. crossDayBoundaries req loc x y date = Inr cross"
  by (auto simp: crossDayBoundaries_def ParseInLocation_def previous_edge_def next_edge_def)

text \<open>Three clips of the first day of the window.\<close>

definition sample_clip :: "int \<Rightarrow> int \<Rightarrow> int \<Rightarrow> string \<Rightarrow> SourceClip" where
  "sample_clip i start stop key = \<lparr>sc_ClipID = i, sc_RecordingID = 7, sc_RecordingJobID = 500, sc_StorageDestinationID = 3, sc_Provider = ''r2'',
     sc_Endpoint = ''https://0123456789abcdef0123456789abcdef.r2.cloudflarestorage.com'', sc_Region = ''auto'', sc_Bucket = ''clips'',
     sc_StartUTC = go_date utc 20500 start 0, sc_EndUTC = go_date utc 20500 stop 0, sc_ReleasedAt = None,
     sc_Object = \<lparr>oi_Key = key, oi_VersionID = [], oi_ETag = ''e1'', oi_SizeBytes = 1000, oi_SHA256 = replicate 64 CHR ''0''\<rparr>,
     sc_AudioContract = None, sc_SeamToPrevious = no_seam\<rparr>"

definition sample_request :: DayRequest where
  "sample_request = \<lparr>dq_BatchID = ''b1'', dq_Generation = 1, dq_RecordingID = 7, dq_Timezone = ''UTC'', dq_LocalDate = date_string 20500,
     dq_Qualification = utc_window 20500, dq_Sources = [sample_clip 1 29400 30300 ''a'', sample_clip 2 31800 32400 ''b'', sample_clip 3 32500 33300 ''c''],
     dq_PreviousDayLast = None, dq_NextDayFirst = None\<rparr>"

lemma sample_clip_simps [simp]: "sc_ClipID (sample_clip i start stop key) = i" "sc_StartUTC (sample_clip i start stop key) = go_date utc 20500 start 0"
    "sc_EndUTC (sample_clip i start stop key) = go_date utc 20500 stop 0" "sc_RecordingID (sample_clip i start stop key) = 7"
    "sc_RecordingJobID (sample_clip i start stop key) = 500" "oi_SizeBytes (sc_Object (sample_clip i start stop key)) = 1000"
  by (simp_all add: sample_clip_def)

lemma sample_clip_valid:
  assumes "0 < i" "start < stop" "safeObjectKey key"
  shows "validatePreflightSource (sample_clip i start stop key) 7"
proof -
  have "validFrozenSourceStorage ''r2'' ''auto'' ''clips''" by code_simp
  moreover have "sourceEndpointV1 ''https://0123456789abcdef0123456789abcdef.r2.cloudflarestorage.com''" by code_simp
  moreover have "validObjectIdentity ''e1'' []" "lowerHex64 (replicate 64 CHR ''0'')" by code_simp+
  ultimately show ?thesis using assms
    by (simp add: sample_clip_def validatePreflightSource_def CanonicalSourceEndpointAuthority_def go_date_utc)
qed

lemma sample_keys: "sourceStorageKey (sample_clip i start stop ''a'') \<noteq> sourceStorageKey (sample_clip j start' stop' ''b'')"
    "sourceStorageKey (sample_clip i start stop ''a'') \<noteq> sourceStorageKey (sample_clip j start' stop' ''c'')"
    "sourceStorageKey (sample_clip i start stop ''b'') \<noteq> sourceStorageKey (sample_clip j start' stop' ''c'')"
  by (simp_all add: sourceStorageKey_def sample_clip_def)

lemma sample_ordered: "validateOrderedAllocationSources (dq_Sources sample_request) 7 utc (date_string 20500) = None"
proof -
  have "safeObjectKey ''a''" "safeObjectKey ''b''" "safeObjectKey ''c''" by code_simp+
  then show ?thesis
    by (simp add: sample_request_def validateOrderedAllocationSources_def sample_clip_valid local_date_def sample_keys
        sample_keys [THEN not_sym] utc_date_order)
qed

lemma sample_allocated: "\<exists>d. AllocateStreamDay plain_hash utc_zones sample_request = Inr d"
proof -
  have date: "dq_LocalDate sample_request = date_string 20500" "dq_RecordingID sample_request = 7"
    "dq_Qualification sample_request = utc_window 20500" "utc_zones (dq_Timezone sample_request) = Some utc"
    by (simp_all add: sample_request_def utc_zones_def)
  have hd: "sc_StartUTC (hd (dq_Sources sample_request)) = go_date utc 20500 29400 0" by (simp add: sample_request_def)
  have parse: "parse_date (date_string 20500) \<noteq> None" using parse_date_string [of 20500] by simp
  obtain cross where cross: "crossDayBoundaries sample_request utc (hd (dq_Sources sample_request)) (last (dq_Sources sample_request))
      (dq_LocalDate sample_request) = Inr cross"
    using crossDayBoundaries_alone [OF _ _ parse, of sample_request utc] date(1) by (force simp: sample_request_def)
  have "utc_day 20500 0 \<in> set (qw_Days (utc_window 20500))" by simp
  then have "permits (utc_window 20500) x" if "x \<in> set (dq_Sources sample_request)" for x
    using that by (auto simp: sample_request_def permits_def utc_date_order intro!: bexI [of _ "utc_day 20500 0"])
  moreover have "qualifiedDay (utc_window 20500) (date_string 20500) = Some (utc_day 20500 0)" using utc_window_day [of 0 20500] by simp
  ultimately show ?thesis
    by (intro allocate_succeeds [where req = sample_request and tzdb = utc_zones and loc = utc, OF _ _ date(4) _ _ _ _ cross])
      (simp_all add: date hd sample_ordered utc_window_valid local_date_def, simp add: sample_request_def)
qed

section \<open>Every clip in its hour\<close>

text \<open>C36: no clip is lost, doubled or moved, and every hour ends at the nearest seam. The twelve hours of an allocation, in
  order, hold exactly the clips of the request in their order; and at each of the eleven boundaries no start or end of a
  clip from the split before on is nearer to the scheduled hour than the seam the split is made at.\<close>

theorem allocation_nearest_seams:
  assumes "AllocateStreamDay hash tzdb req = Inr d" "tzdb (dq_Timezone req) = Some loc"
  defines "xs \<equiv> dq_Sources req"
  defines "scheduled \<equiv> scheduled_seam loc (local_day loc (sc_StartUTC (hd xs)))"
  shows "draft_sources d = xs \<and>
    map (\<lambda>h. (ha_DeliveryHour h, ha_ClockHour h)) (sd_Hours d) = map (\<lambda>i. (int i + 1, int i + 8)) [0..<12] \<and>
    (\<forall>i < 11. split_at d i \<le> split_at d (Suc i) \<and> (\<exists>b \<in> set (candidates_at xs (split_at d (Suc i))).
       \<forall>c \<in> set (candidates xs). split_at d i \<le> cd_position c \<longrightarrow> distance (cd_at b) (scheduled i) \<le> distance (cd_at c) (scheduled i)))"
proof -
  obtain bs day cross where bs: "allocate_boundaries loc (local_day loc (sc_StartUTC (hd xs))) xs 0 [0..<11] = Inr bs"
    and d: "d = draft_of req (dq_LocalDate req) day (hour_sources xs 0 (map fst bs)) (map snd bs) cross"
    using AllocateStreamDay_Inr [OF assms(1)] assms(2) unfolding xs_def by (metis option.inject)
  note pos = allocate_positions [OF bs le0]
  have len: "length bs = 11" using pos by simp
  have hours: "map ha_Sources (sd_Hours d) = hour_sources xs 0 (map fst bs)" by (simp add: d draft_of_def)
  have parts: "concat (hour_sources xs 0 (map fst bs)) = xs" using concat_hour_sources [of 0 "map fst bs" xs] pos by simp
  have split: "split_at d (Suc i) = fst (bs ! i)" if "i < 11" for i
    using split_hour_sources [of 0 "map fst bs" xs i] pos that len by (simp add: split_at_def hours)
  have split0: "split_at d i = (0 # map fst bs) ! i" if "i < 11" for i
    using split [of "i - 1"] that len by (cases i) (simp_all add: split_at_def)
  have "map (\<lambda>h. (ha_DeliveryHour h, ha_ClockHour h)) (sd_Hours d) = map (\<lambda>i. (int i + 1, int i + 8)) [0..<12]"
    using delivery_hours_numbers [of "hour_sources xs 0 (map fst bs)"] by (simp add: d draft_of_def length_hour_sources len del: upt_Suc)
  moreover have "split_at d i \<le> split_at d (Suc i) \<and> (\<exists>b \<in> set (candidates_at xs (split_at d (Suc i))).
      \<forall>c \<in> set (candidates xs). split_at d i \<le> cd_position c \<longrightarrow> distance (cd_at b) (scheduled i) \<le> distance (cd_at c) (scheduled i))"
    if i: "i < 11" for i
  proof -
    obtain b where b: "pick_seam (scheduled i) (split_at d i) None (candidates xs) = Some b" "split_at d (Suc i) = cd_position b"
      using allocate_nth [OF bs, of i] i split [OF i] split0 [OF i] by (auto simp: scheduled_def)
    have "\<not> closer (scheduled i) c b" if "c \<in> set (candidates xs)" "split_at d i \<le> cd_position c" for c
      using pick_seam_best [OF b(1)] that by simp
    then show ?thesis using pick_position [OF b(1)] b(2) unfolding closer_def by (metis not_less)
  qed
  ultimately show ?thesis using parts by (simp add: d)
qed

theorem allocation_nearest_seams_witness:
  "\<exists>d. AllocateStreamDay plain_hash utc_zones sample_request = Inr d \<and> draft_sources d = dq_Sources sample_request"
proof -
  obtain d where d: "AllocateStreamDay plain_hash utc_zones sample_request = Inr d" using sample_allocated by blast
  have "utc_zones (dq_Timezone sample_request) = Some utc" by (simp add: sample_request_def utc_zones_def)
  from allocation_nearest_seams [OF d this] d show ?thesis by blast
qed

section \<open>Sealing a draft\<close>

lemma validateDraft_None:
  assumes "validateDraftBoundaries hash tzdb d = None"
  obtains loc t where "tzdb (sd_Timezone d) = Some loc" "ParseInLocation (sd_LocalDate d) loc = Some t"
    "length (sd_Hours d) = 12" "length (sd_Boundaries d) = 11" "validateCrossDaySchedule (sd_CrossDay d) t loc"
    "validateOrderedAllocationSources (draft_sources d) (sd_RecordingID d) loc (sd_LocalDate d) = None"
    "draft_sources d \<noteq> [] \<longrightarrow> check_boundaries loc (local_day loc t) (draft_sources d) hash 0 0
       (enumerate 0 (zip (map ha_Sources (sd_Hours d)) (sd_Boundaries d))) = None"
    "draft_sources d = [] \<longrightarrow> (\<forall>(i, b) \<in> set (enumerate 0 (sd_Boundaries d)). empty_boundary_ok loc (local_day loc t) i b)"
    "validateCrossDayBoundaries (sd_CrossDay d) (draft_sources d)"
proof -
  obtain loc where loc: "tzdb (sd_Timezone d) = Some loc"
    using assms by (cases "tzdb (sd_Timezone d)") (simp_all add: validateDraftBoundaries_def)
  obtain t where t: "ParseInLocation (sd_LocalDate d) loc = Some t"
    using assms loc by (cases "ParseInLocation (sd_LocalDate d) loc") (simp_all add: validateDraftBoundaries_def)
  define ordered where "ordered = validateOrderedAllocationSources (draft_sources d) (sd_RecordingID d) loc (sd_LocalDate d)"
  define checked where "checked = check_boundaries loc (local_day loc t) (draft_sources d) hash 0 0
      (enumerate 0 (zip (map ha_Sources (sd_Hours d)) (sd_Boundaries d)))"
  define empties where "empties = (\<forall>(i, b) \<in> set (enumerate 0 (sd_Boundaries d)). empty_boundary_ok loc (local_day loc t) i b)"
  have "(if length (sd_Hours d) \<noteq> 12 \<or> length (sd_Boundaries d) \<noteq> 11 then Some BadDraft
      else if \<not> validateCrossDaySchedule (sd_CrossDay d) t loc then Some CrossDayDiffers
      else case ordered of Some e \<Rightarrow> Some e | None \<Rightarrow>
      (case (if draft_sources d = [] then (if empties then None else Some BoundaryDiffers) else checked) of
       Some e \<Rightarrow> Some e
     | None \<Rightarrow> if validateCrossDayBoundaries (sd_CrossDay d) (draft_sources d) then None else Some CrossDayDiffers)) = None"
    using assms unfolding validateDraftBoundaries_def Let_def loc option.case t ordered_def checked_def empties_def .
  then have "length (sd_Hours d) = 12" "length (sd_Boundaries d) = 11" "validateCrossDaySchedule (sd_CrossDay d) t loc"
      "ordered = None" "draft_sources d \<noteq> [] \<longrightarrow> checked = None" "draft_sources d = [] \<longrightarrow> empties"
      "validateCrossDayBoundaries (sd_CrossDay d) (draft_sources d)"
    by (simp_all split: if_split_asm option.split_asm)
  then show thesis using that [OF loc t] unfolding ordered_def checked_def empties_def by blast
qed

lemma check_boundary_bytes:
  assumes "check_boundaries loc day xs hash m m (enumerate k (zip yss bs)) = None" "length yss = Suc (length bs)"
    and "concat yss = drop m xs" "m \<le> length xs" "allocate_boundaries loc day xs m [k..<k + length bs] = Inr as"
  shows "map (\<lambda>b. bytes_of hash (hour_boundary_json b)) bs = map (\<lambda>a. bytes_of hash (hour_boundary_json (snd a))) as"
  using assms
proof (induction bs arbitrary: k m yss as)
  case (Cons b bs)
  have upt: "[k..<k + length (b # bs)] = k # [Suc k..<Suc k + length bs]" by (simp add: upt_rec)
  obtain c as' where c: "pick_seam (scheduled_seam loc day k) m None (candidates xs) = Some c"
    "allocate_boundaries loc day xs (cd_position c) [Suc k..<Suc k + length bs] = Inr as'"
    "as = (cd_position c, built_boundary xs (scheduled_seam loc day k) k c) # as'"
    using allocate_Cons [OF Cons.prems(5) [unfolded upt]] .
  note pos = pick_position [OF c(1)]
  obtain ys yss' where ys: "yss = ys # yss'" using Cons.prems(2) by (cases yss) auto
  have step: "m + length ys = cd_position c"
    "bytes_of hash (hour_boundary_json b) = bytes_of hash (hour_boundary_json (crossHourBoundary xs (cd_position c) (scheduled_seam loc day k) (int k + 1) (cd_at c)))"
    "check_boundaries loc day xs hash (cd_position c) (cd_position c) (enumerate (Suc k) (zip yss' bs)) = None"
    using Cons.prems(1) c(1) pick_later [OF Cons.prems(4), of "scheduled_seam loc day k"] unfolding ys
    by (auto simp: Let_def split: if_splits)
  have "ys @ concat yss' = drop m xs" using Cons.prems(3) ys by simp
  then have "concat yss' = drop (cd_position c) xs"
    unfolding step(1) [symmetric] by (metis add.commute append_eq_conv_conj drop_drop)
  then have "map (\<lambda>b. bytes_of hash (hour_boundary_json b)) bs = map (\<lambda>a. bytes_of hash (hour_boundary_json (snd a))) as'"
    using Cons.IH [OF step(3) _ _ _ c(2)] Cons.prems(2) ys pos by simp
  then show ?case using step(2) boundaries_agree [OF c(1)] c(3) by simp
qed simp

section \<open>What is allocated is accepted\<close>

lemma reason_codes: "reasonCode ''previous_source_absent''" "reasonCode ''next_source_absent''" "reasonCode ''no_previous_day_source''"
    "reasonCode ''no_next_day_source''" "reasonCode ''scheduled_day_boundary''" "reasonCode ''separate_local_days''"
  by code_simp+

context regular_calendar
begin

lemma date_not_zero: "local_day loc zero_time < d \<Longrightarrow> 0 \<le> s \<Longrightarrow> s < day_seconds \<Longrightarrow> \<not> is_zero (go_date loc d s 0)"
  using before_next_day [of zero_time d s] by (simp add: is_zero_def)

lemma same_day_date: "0 \<le> s \<Longrightarrow> s < day_seconds \<Longrightarrow> 0 \<le> h \<Longrightarrow> h < 24 \<Longrightarrow>
    same_day loc (add_days loc (go_date loc d s 0) n) loc h = go_date loc (d + n) (h * 3600) 0"
  by (simp add: same_day_def day_add_days day_of_date)

lemma same_day_start: "0 \<le> s \<Longrightarrow> s < day_seconds \<Longrightarrow> same_day loc (go_date loc d s 0) loc h = go_date loc d (h * 3600) 0"
  by (simp add: same_day_def day_of_date)

lemma parse_local: "ParseInLocation (local_date loc t) loc = Some u \<Longrightarrow> u = go_date loc (local_day loc t) 0 0"
  using parse_local_date by (auto simp: ParseInLocation_def)

lemma built_day_boundary:
  assumes "buildCrossDayBoundary loc x y (local_date loc u) (local_date loc v) = Inr b"
  shows "db_ScheduledPreviousEnd b = go_date loc (local_day loc u) 72000 0 \<and> db_ScheduledNextStart b = go_date loc (local_day loc v) 28800 0 \<and>
    db_PreviousClipID b = Some (sc_ClipID x) \<and> db_NextClipID b = Some (sc_ClipID y) \<and> db_PreviousEnd b = Some (sc_EndUTC x) \<and>
    db_NextStart b = Some (sc_StartUTC y) \<and> (local_day loc zero_time < local_day loc u \<longrightarrow> local_day loc u < local_day loc v \<longrightarrow> day_boundary_ok i b)"
proof -
  obtain p q where pq: "ParseInLocation (local_date loc u) loc = Some p" "ParseInLocation (local_date loc v) loc = Some q"
    using assms by (auto simp: buildCrossDayBoundary_def split: option.splits)
  have p: "p = go_date loc (local_day loc u) 0 0" "q = go_date loc (local_day loc v) 0 0" using pq parse_local by blast+
  have "go_date loc (local_day loc u) 72000 0 < go_date loc (local_day loc v) 28800 0" if "local_day loc u < local_day loc v"
    using date_strict_mono [OF that] by simp
  then show ?thesis using assms date_not_zero [of "local_day loc u" 72000] date_not_zero [of "local_day loc v" 28800]
    unfolding buildCrossDayBoundary_def pq prod.case option.case p
    by (auto simp: Let_def same_day_start day_boundary_ok_def reason_codes split: if_splits)
qed

lemma absent_day_boundaries:
  assumes "ParseInLocation (local_date loc v) loc = Some (go_date loc (local_day loc v) 0 0)"
  shows "absentCrossDayBoundaries loc (local_date loc v) =
     (no_day_boundary\<lparr>db_ScheduledPreviousEnd := go_date loc (local_day loc v - 1) 72000 0, db_ScheduledNextStart := go_date loc (local_day loc v) 28800 0,
         db_Decision := ''no_previous_day_source'', db_Verdict := ''absent_source'', db_Reason := ''previous_source_absent''\<rparr>,
       no_day_boundary\<lparr>db_ScheduledPreviousEnd := go_date loc (local_day loc v) 72000 0, db_ScheduledNextStart := go_date loc (local_day loc v + 1) 28800 0,
         db_Decision := ''no_next_day_source'', db_Verdict := ''absent_source'', db_Reason := ''next_source_absent''\<rparr>)"
  using same_day_date [of 0 20 "local_day loc v" "- 1"] same_day_date [of 0 8 "local_day loc v" 1]
  by (simp add: absentCrossDayBoundaries_def assms same_day_start)

lemma cross_day_accepted:
  assumes "crossDayBoundaries req loc x y (local_date loc v) = Inr cross" "local_day loc zero_time + 1 < local_day loc v"
    and "xs \<noteq> []" "hd xs = x" "last xs = y"
  shows "validateCrossDaySchedule cross (go_date loc (local_day loc v) 0 0) loc \<and> validateCrossDayBoundaries cross xs"
proof -
  let ?D = "local_day loc v" and ?t = "go_date loc (local_day loc v) 0 0"
  obtain t where "ParseInLocation (local_date loc v) loc = Some t" using assms(1) by (auto simp: crossDayBoundaries_def split: option.splits)
  then have t: "ParseInLocation (local_date loc v) loc = Some ?t" using parse_local by blast
  obtain a b where ab: "previous_edge req loc x (local_date loc v) ?t = Inr a" "next_edge req loc y (local_date loc v) ?t = Inr b" "cross = [a, b]"
    using assms(1) unfolding crossDayBoundaries_def t
    by (cases "previous_edge req loc x (local_date loc v) ?t"; cases "next_edge req loc y (local_date loc v) ?t") auto
  note away = date_not_zero [of "?D - 1" 72000] date_not_zero [of ?D 28800] date_not_zero [of ?D 72000] date_not_zero [of "?D + 1" 28800]
  note order = date_strict_mono [of "?D - 1" ?D 72000 28800] date_strict_mono [of ?D "?D + 1" 72000 28800]
  have days: "local_day loc (add_days loc ?t n) = ?D + n" for n by (simp add: day_add_days day_of_date)
  have A: "day_boundary_ok 0 a \<and> db_ScheduledPreviousEnd a = go_date loc (?D - 1) 72000 0 \<and> db_ScheduledNextStart a = go_date loc ?D 28800 0 \<and>
      db_NextClipID a = Some (sc_ClipID x) \<and> db_NextStart a = Some (sc_StartUTC x)"
  proof (cases "dq_PreviousDayLast req")
    case None
    then show ?thesis using ab(1) away order assms(2)
      by (auto simp: previous_edge_def absent_day_boundaries [OF t] day_boundary_ok_def absent_day_reason_def reason_codes no_day_boundary_def)
  next
    case (Some p)
    then have "buildCrossDayBoundary loc p x (local_date loc (add_days loc ?t (- 1))) (local_date loc v) = Inr a"
      using ab(1) by (auto simp: previous_edge_def split: option.splits)
    from built_day_boundary [OF this, of 0] show ?thesis using days [of "- 1"] assms(2) by simp
  qed
  have B: "day_boundary_ok 1 b \<and> db_ScheduledPreviousEnd b = go_date loc ?D 72000 0 \<and> db_ScheduledNextStart b = go_date loc (?D + 1) 28800 0 \<and>
      db_PreviousClipID b = Some (sc_ClipID y) \<and> db_PreviousEnd b = Some (sc_EndUTC y)"
  proof (cases "dq_NextDayFirst req")
    case None
    then show ?thesis using ab(2) away order assms(2)
      by (auto simp: next_edge_def absent_day_boundaries [OF t] day_boundary_ok_def absent_day_reason_def reason_codes no_day_boundary_def)
  next
    case (Some p)
    then have "buildCrossDayBoundary loc y p (local_date loc v) (local_date loc (add_days loc ?t 1)) = Inr b"
      using ab(2) by (auto simp: next_edge_def split: option.splits)
    from built_day_boundary [OF this, of 1] show ?thesis using days [of 1] assms(2) by simp
  qed
  show ?thesis using A B assms(3-5) same_day_date [of 0 20 ?D "- 1"] same_day_date [of 0 8 ?D 1]
    by (simp add: ab(3) validateCrossDaySchedule_def validateCrossDayBoundaries_def same_day_start)
qed

end

lemma draft_of_simps [simp]: "sd_Timezone (draft_of req date day xss bs cross) = dq_Timezone req" "sd_LocalDate (draft_of req date day xss bs cross) = date"
    "sd_RecordingID (draft_of req date day xss bs cross) = dq_RecordingID req" "sd_Boundaries (draft_of req date day xss bs cross) = bs"
    "sd_CrossDay (draft_of req date day xss bs cross) = cross" "sd_Hours (draft_of req date day xss bs cross) = delivery_hours xss"
    "sd_QualificationDay (draft_of req date day xss bs cross) = day" "sd_QualificationSHA (draft_of req date day xss bs cross) = qw_EvidenceSHA (dq_Qualification req)"
    "sd_BatchID (draft_of req date day xss bs cross) = dq_BatchID req" "sd_Generation (draft_of req date day xss bs cross) = dq_Generation req"
  by (simp_all add: draft_of_def)

lemma crossDay_parses: "crossDayBoundaries req loc x y date = Inr cross \<Longrightarrow> \<exists>t. ParseInLocation date loc = Some t"
  by (auto simp: crossDayBoundaries_def split: option.splits)

lemma allocated_accepted:
  assumes "AllocateStreamDay hash tzdb req = Inr d" "tzdb (dq_Timezone req) = Some loc" "regular_calendar loc"
    and "local_day loc zero_time + 1 < local_day loc (sc_StartUTC (hd (dq_Sources req)))"
  shows "validateDraftBoundaries hash' tzdb d = None"
proof -
  define xs v where "xs = dq_Sources req" and "v = sc_StartUTC (hd (dq_Sources req))"
  obtain bs day cross where ne: "xs \<noteq> []" and date: "dq_LocalDate req = local_date loc v"
    and ordered: "validateOrderedAllocationSources xs (dq_RecordingID req) loc (local_date loc v) = None"
    and bs: "allocate_boundaries loc (local_day loc v) xs 0 [0..<11] = Inr bs"
    and cross: "crossDayBoundaries req loc (hd xs) (last xs) (local_date loc v) = Inr cross"
    and d: "d = draft_of req (local_date loc v) day (hour_sources xs 0 (map fst bs)) (map snd bs) cross"
    using AllocateStreamDay_Inr [OF assms(1)] assms(2) unfolding xs_def v_def by (metis option.inject)
  have t: "ParseInLocation (local_date loc v) loc = Some (go_date loc (local_day loc v) 0 0)"
    using crossDay_parses [OF cross] regular_calendar.parse_local [OF assms(3)] by blast
  have day: "local_day loc (go_date loc (local_day loc v) 0 0) = local_day loc v"
    using regular_calendar.day_of_date [OF assms(3)] by simp
  have parts: "concat (hour_sources xs 0 (map fst bs)) = xs"
    using concat_hour_sources [of 0 "map fst bs" xs] allocate_positions [OF bs le0] by simp
  have checked: "check_boundaries loc (local_day loc v) xs hash' 0 0 (enumerate 0 (zip (hour_sources xs 0 (map fst bs)) (map snd bs))) = None"
    using check_allocated [of loc "local_day loc v" xs 0 0 11 bs hash'] bs by simp
  have accepted: "validateCrossDaySchedule cross (go_date loc (local_day loc v) 0 0) loc \<and> validateCrossDayBoundaries cross xs"
    using regular_calendar.cross_day_accepted [OF assms(3) cross] assms(4) ne unfolding v_def by simp
  show ?thesis
    using assms(2) t day parts checked accepted ordered ne length_allocate [OF bs]
    by (simp add: validateDraftBoundaries_def d length_hour_sources Let_def del: check_boundaries.simps)
qed

text \<open>C38: where clocks are regular, the check of a ledger accepts every allocation. A day that is allocated in a time zone
  whose local days are whole, and that is not the first of all days, passes the check of its boundaries, hour by hour and day
  to day, with its neighbours' clips and without.\<close>

theorem allocation_accepted:
  assumes "AllocateStreamDay hash tzdb req = Inr d" "tzdb (dq_Timezone req) = Some loc" "regular_calendar loc"
    and "local_day loc zero_time + 1 < local_day loc (sc_StartUTC (hd (dq_Sources req)))"
  shows "validateDraftBoundaries hash' tzdb d = None"
  using assms by (rule allocated_accepted)

lemma sample_regular: "utc_zones (dq_Timezone sample_request) = Some utc" "regular_calendar utc"
    "local_day utc zero_time + 1 < local_day utc (sc_StartUTC (hd (dq_Sources sample_request)))"
proof -
  have "local_day utc zero_time + 1 < 20500" by code_simp
  then show "local_day utc zero_time + 1 < local_day utc (sc_StartUTC (hd (dq_Sources sample_request)))"
    by (simp add: sample_request_def)
qed (simp_all add: sample_request_def utc_zones_def utc_cal.regular_calendar_axioms)

theorem allocation_accepted_witness:
  "\<exists>d. AllocateStreamDay plain_hash utc_zones sample_request = Inr d \<and> validateDraftBoundaries plain_hash utc_zones d = None"
  using sample_allocated allocation_accepted [where tzdb = utc_zones and req = sample_request, OF _ sample_regular] by blast

section \<open>The two loops agree\<close>

text \<open>C37: the check of a ledger chooses the same seams as the builder. The clips of the twelve hours of a draft that is
  accepted are those the builder of an allocation would put there for the same clips, and its eleven boundaries encode to the
  JSON of the builder's.\<close>

theorem accepted_seams_are_built:
  assumes "validateDraftBoundaries hash tzdb d = None" "draft_sources d \<noteq> []"
    and "tzdb (sd_Timezone d) = Some loc" "ParseInLocation (sd_LocalDate d) loc = Some t"
  shows "\<exists>bs. allocate_boundaries loc (local_day loc t) (draft_sources d) 0 [0..<11] = Inr bs \<and>
    map ha_Sources (sd_Hours d) = hour_sources (draft_sources d) 0 (map fst bs) \<and>
    map (\<lambda>b. bytes_of hash (hour_boundary_json b)) (sd_Boundaries d) = map (\<lambda>a. bytes_of hash (hour_boundary_json (snd a))) bs"
proof -
  let ?yss = "map ha_Sources (sd_Hours d)"
  have checks: "length (sd_Hours d) = 12" "length (sd_Boundaries d) = 11"
    "check_boundaries loc (local_day loc t) (draft_sources d) hash 0 0 (enumerate 0 (zip ?yss (sd_Boundaries d))) = None"
    using validateDraft_None [OF assms(1)] assms(2-4) by (metis option.inject)+
  have len: "length ?yss = Suc (length (sd_Boundaries d))" and all: "concat ?yss = drop 0 (draft_sources d)"
    using checks by (simp_all add: draft_sources_def)
  obtain bs where bs: "allocate_boundaries loc (local_day loc t) (draft_sources d) 0 [0..<0 + length (sd_Boundaries d)] = Inr bs"
    "hour_sources (draft_sources d) 0 (map fst bs) = ?yss"
    using checked_allocated [OF checks(3) len all le0] by blast
  then show ?thesis using check_boundary_bytes [OF checks(3) len all le0 bs(1)] checks(2) by (metis add_0)
qed

theorem accepted_seams_are_built_witness:
  "\<exists>d (bs :: (nat \<times> CrossHourBoundary) list). AllocateStreamDay plain_hash utc_zones sample_request = Inr d \<and>
    map ha_Sources (sd_Hours d) = hour_sources (dq_Sources sample_request) 0 (map fst bs)"
proof -
  obtain d where d: "AllocateStreamDay plain_hash utc_zones sample_request = Inr d" using sample_allocated by blast
  have ok: "validateDraftBoundaries plain_hash utc_zones d = None" by (rule allocated_accepted [OF d sample_regular])
  obtain bs day cross where made: "d = draft_of sample_request (dq_LocalDate sample_request) day (hour_sources (dq_Sources sample_request) 0 (map fst bs)) (map snd bs) cross"
    and bs: "allocate_boundaries utc (local_day utc (sc_StartUTC (hd (dq_Sources sample_request)))) (dq_Sources sample_request) 0 [0..<11] = Inr bs"
    using AllocateStreamDay_Inr [OF d] sample_regular(1) by (metis option.inject)
  have src: "draft_sources d = dq_Sources sample_request"
    using concat_hour_sources [of 0 "map fst bs" "dq_Sources sample_request"] allocate_positions [OF bs le0] by (simp add: made)
  have zone: "utc_zones (sd_Timezone d) = Some utc" "sd_LocalDate d = date_string 20500"
    using sample_regular(1) by (simp_all add: made) (simp add: sample_request_def)
  obtain t where t: "ParseInLocation (sd_LocalDate d) utc = Some t"
    using parse_date_string [of 20500] by (auto simp: zone(2) ParseInLocation_def)
  have "draft_sources d \<noteq> []" by (simp add: src) (simp add: sample_request_def)
  from accepted_seams_are_built [OF ok this zone(1) t] d src show ?thesis by auto
qed

end
