(* ===== verification/Ledgers.thy ===== *)
theory Ledgers
  imports Sealing
begin

text \<open>
  The ledger a sealed day becomes: sealing a draft gives a ledger that its validator and the publisher of its artifact accept,
  and an artifact that is published holds a day whose hours share out its clips. What the publisher rebuilds is the draft
  without the evidence derived from the media, on which no check of the boundaries depends.
\<close>

section \<open>Without the derived evidence\<close>

lemma source_only_simps [simp]: "sc_ClipID (source_only x) = sc_ClipID x" "sc_StartUTC (source_only x) = sc_StartUTC x"
    "sc_EndUTC (source_only x) = sc_EndUTC x" "sc_Object (source_only x) = sc_Object x" "sc_RecordingID (source_only x) = sc_RecordingID x"
    "sc_RecordingJobID (source_only x) = sc_RecordingJobID x" "sc_AudioContract (source_only x) = None" "sc_SeamToPrevious (source_only x) = no_seam"
    "source_only (source_only x) = source_only x"
  by (simp_all add: source_only_def)

lemma preflight_source_only [simp]: "validatePreflightSource (source_only x) rid = validatePreflightSource x rid"
  by (simp add: validatePreflightSource_def source_only_def)

lemma key_source_only [simp]: "sourceStorageKey (source_only x) = sourceStorageKey x"
  by (simp add: sourceStorageKey_def source_only_def)

lemma source_only_idem [simp]: "sourceOnlyClips (sourceOnlyClips xs) = sourceOnlyClips xs"
  by (simp add: sourceOnlyClips_def)

lemma source_only_nil [simp]: "sourceOnlyClips xs = [] \<longleftrightarrow> xs = []"
  by (simp add: sourceOnlyClips_def)

lemma length_source_only [simp]: "length (sourceOnlyClips xs) = length xs"
  by (simp add: sourceOnlyClips_def)

lemma hd_source_only: "xs \<noteq> [] \<Longrightarrow> hd (sourceOnlyClips xs) = source_only (hd xs)"
  by (simp add: sourceOnlyClips_def hd_map)

lemma last_source_only: "xs \<noteq> [] \<Longrightarrow> last (sourceOnlyClips xs) = source_only (last xs)"
  by (simp add: sourceOnlyClips_def last_map)

lemma ordered_source_only:
  "ordered_sources rid loc date (map_option source_only p) cs os (sourceOnlyClips xs) = ordered_sources rid loc date p cs os xs"
proof (induction rid loc date p cs os xs rule: ordered_sources.induct)
  case (2 rid loc date p cs os x xs)
  then show ?case by (cases p) (simp_all add: sourceOnlyClips_def)
qed (simp add: sourceOnlyClips_def)

lemma validateOrdered_source_only [simp]:
  "validateOrderedAllocationSources (sourceOnlyClips xs) rid loc date = validateOrderedAllocationSources xs rid loc date"
  using ordered_source_only [of rid loc date None] by (simp add: validateOrderedAllocationSources_def)

lemma candidates_at_source_only: "i \<le> length xs \<Longrightarrow> candidates_at (sourceOnlyClips xs) i = candidates_at xs i"
  by (simp add: candidates_at_def sourceOnlyClips_def)

lemma later_source_only: "later_candidates (sourceOnlyClips xs) m = later_candidates xs m"
proof -
  have "map (candidates_at (sourceOnlyClips xs)) [m..<Suc (length xs)] = map (candidates_at xs) [m..<Suc (length xs)]"
    by (intro map_cong) (auto simp: candidates_at_source_only less_Suc_eq_le simp del: upt_Suc)
  then show ?thesis unfolding later_candidates_def length_source_only by (rule arg_cong)
qed

lemma crossHour_source_only: "p \<le> length xs \<Longrightarrow> crossHourBoundary (sourceOnlyClips xs) p s h a = crossHourBoundary xs p s h a"
  by (simp add: crossHourBoundary_def sourceOnlyClips_def Let_def split: option.splits)

lemma check_source_only:
  "m \<le> length xs \<Longrightarrow> check_boundaries loc day (sourceOnlyClips xs) hash m n (map (\<lambda>(i, ys, b). (i, sourceOnlyClips ys, b)) rows) =
    check_boundaries loc day xs hash m n rows"
proof (induction rows arbitrary: m n)
  case (Cons row rows)
  obtain i ys b where row: "row = (i, ys, b)" by (cases row)
  show ?case
  proof (cases "pick_seam (scheduled_seam loc day i) m None (later_candidates xs m)")
    case (Some c)
    then have "pick_seam (scheduled_seam loc day i) m None (candidates xs) = Some c" using pick_later [OF Cons.prems] by simp
    then have "cd_position c \<le> length xs" using pick_position by blast
    then show ?thesis using Cons.IH [of "cd_position c"] Some
      by (simp add: row Let_def later_source_only crossHour_source_only)
  qed (simp add: row Let_def later_source_only)
qed simp

lemma crossDay_source_only: "validateCrossDayBoundaries bs (sourceOnlyClips xs) = validateCrossDayBoundaries bs xs"
  by (cases "xs = []") (simp_all add: validateCrossDayBoundaries_def hd_source_only last_source_only split: list.splits)

text \<open>The draft the publisher rebuilds from a ledger made of a draft.\<close>

definition bare_draft :: "StreamDayDraft \<Rightarrow> StreamDayDraft" where
  "bare_draft d = d\<lparr>sd_Hours := map (\<lambda>h. h\<lparr>ha_Sources := sourceOnlyClips (ha_Sources h)\<rparr>) (sd_Hours d)\<rparr>"

lemma bare_sources: "draft_sources (bare_draft d) = sourceOnlyClips (draft_sources d)"
  by (simp add: draft_sources_def bare_draft_def sourceOnlyClips_def map_concat comp_def)

lemma bare_hours: "map ha_Sources (sd_Hours (bare_draft d)) = map sourceOnlyClips (map ha_Sources (sd_Hours d))"
  by (simp add: bare_draft_def)

lemma enumerate_map: "enumerate k (map f xs) = map (\<lambda>(i, x). (i, f x)) (enumerate k xs)"
  by (induction xs arbitrary: k) simp_all

lemma bare_accepted: "validateDraftBoundaries hash tzdb (bare_draft d) = validateDraftBoundaries hash tzdb d"
proof -
  have "enumerate 0 (zip (map ha_Sources (sd_Hours (bare_draft d))) (sd_Boundaries d)) =
      map (\<lambda>(i, ys, b). (i, sourceOnlyClips ys, b)) (enumerate 0 (zip (map ha_Sources (sd_Hours d)) (sd_Boundaries d)))"
  proof -
    have "zip (map ha_Sources (sd_Hours (bare_draft d))) (sd_Boundaries d) =
        map (\<lambda>(ys, b). (sourceOnlyClips ys, b)) (zip (map ha_Sources (sd_Hours d)) (sd_Boundaries d))"
      unfolding bare_hours by (rule zip_map1)
    then show ?thesis by (simp add: enumerate_map split_beta)
  qed
  moreover have "sd_Timezone (bare_draft d) = sd_Timezone d" "sd_LocalDate (bare_draft d) = sd_LocalDate d" "sd_RecordingID (bare_draft d) = sd_RecordingID d"
    "sd_Boundaries (bare_draft d) = sd_Boundaries d" "sd_CrossDay (bare_draft d) = sd_CrossDay d" "length (sd_Hours (bare_draft d)) = length (sd_Hours d)"
    by (simp_all add: bare_draft_def)
  ultimately show ?thesis
    unfolding validateDraftBoundaries_def bare_sources Let_def by (simp only: validateOrdered_source_only source_only_nil check_source_only [OF le0] crossDay_source_only)
qed

section \<open>Sealed ledgers\<close>

lemma total_bytes_sum: "total_bytes acc xs = Some n \<Longrightarrow> n = acc + sum_list (map (\<lambda>x. oi_SizeBytes (sc_Object x)) xs)"
  by (induction acc xs rule: total_bytes.induct) (auto split: if_splits)

lemma total_bytes_source_only [simp]: "total_bytes acc (sourceOnlyClips xs) = total_bytes acc xs"
  by (induction acc xs rule: total_bytes.induct) (simp_all add: sourceOnlyClips_def)

lemma pairs_Cons: "source_pairs (x # y # xs) = \<lparr>sp_PreviousClipID = sc_ClipID x, sp_NextClipID = sc_ClipID y, sp_PreviousEnd = sc_EndUTC x,
    sp_NextStart = sc_StartUTC y, sp_SignedGap = time_sub (sc_StartUTC y) (sc_EndUTC x)\<rparr> # source_pairs (y # xs)"
  by (simp add: source_pairs_def)

lemma artifact_bytes_sealed:
  assumes "\<forall>x \<in> set xs. validatePreflightSource x rid \<and> sc_AudioContract x = None \<and> sc_SeamToPrevious x = no_seam"
  shows "artifact_bytes rid p (case p of None \<Rightarrow> source_pairs xs | Some y \<Rightarrow> source_pairs (y # xs)) acc xs = total_bytes acc xs"
  using assms
proof (induction xs arbitrary: p acc)
  case (Cons x xs)
  have IH: "artifact_bytes rid (Some x) (source_pairs (x # xs)) acc' xs = total_bytes acc' xs" for acc'
    using Cons.IH [of "Some x" acc'] Cons.prems by simp
  then show ?case using Cons.prems by (cases p) (simp_all add: pairs_Cons)
qed simp

lemma take_ids_self: "take_ids (map sc_ClipID xs) (xs @ ys) = Some (xs, ys)"
  by (induction xs) simp_all

lemma ledger_hours_self:
  assumes "\<forall>(i, h) \<in> set (enumerate k hs). ha_DeliveryHour h = int i + 1 \<and> ha_ClockHour h = int i + 8"
  shows "ledger_hours k (concat (map ha_Sources hs) @ ys)
    (map (\<lambda>h. \<lparr>lh_DeliveryHour = ha_DeliveryHour h, lh_ClockHour = ha_ClockHour h, lh_SourceClipIDs = map sc_ClipID (ha_Sources h)\<rparr>) hs) = Some (hs, ys)"
  using assms by (induction hs arbitrary: k) (simp_all add: take_ids_self)

lemma hours_encode:
  assumes "CanonicalSourceClaim hash (concat xss) \<noteq> None" "xs \<in> set xss"
  shows "CanonicalSourceClaim hash xs \<noteq> None"
proof -
  have list: "encode_list html js \<noteq> None \<longleftrightarrow> (\<forall>j \<in> set js. encode html j \<noteq> None)" for html js
    by (induction js) (auto split: option.splits)
  have claim: "CanonicalSourceClaim hash ys \<noteq> None \<longleftrightarrow> (\<forall>y \<in> set ys. encode False (source_json (source_only y)) \<noteq> None)" for ys
    using list [of False "map source_json (sourceOnlyClips ys)"]
    by (auto simp: CanonicalSourceClaim_def CanonicalSHA_def claim_json_def sourceOnlyClips_def)
  show ?thesis using assms unfolding claim by auto
qed

definition seal_request_ok :: "(string \<Rightarrow> location option) \<Rightarrow> StreamDayDraft \<Rightarrow> bool" where
  "seal_request_ok tzdb d \<longleftrightarrow> safe_name (sd_BatchID d) \<and> 0 < sd_Generation d \<and> 0 < sd_RecordingID d \<and> lowerHex64 (sd_QualificationSHA d) \<and>
     validateQualifiedLedgerDay tzdb (sd_QualificationDay d) (sd_RecordingID d) (sd_Timezone d) (sd_LocalDate d) \<and>
     length (sd_Hours d) = 12 \<and> length (sd_Boundaries d) = 11 \<and> length (sd_CrossDay d) = 2"

lemma Seal_Inr:
  assumes "SealStreamDayAllocation hash tzdb d = Inr l"
  obtains bytes manifest body p digest canonical where "seal_request_ok tzdb d" "validateDraftBoundaries hash tzdb d = None"
    "total_bytes 0 (draft_sources d) = Some bytes" "hours_numbered (sd_Hours d)"
    "CanonicalSourceClaim hash (sourceOnlyClips (draft_sources d)) = Some (manifest, body)"
    "BuildFrozenDenominatorDayProjection hash (sd_RecordingID d) (sd_QualificationDay d) (sd_QualificationSHA d)
       (FrozenSourceSnapshots (sourceOnlyClips (draft_sources d))) = Inr p"
    "CanonicalSHA hash (ledger_json (unsealed_ledger hash d bytes manifest (dp_FrozenSourceSHA256 p))) = Some (digest, canonical)"
    "l = unsealed_ledger hash d bytes manifest (dp_FrozenSourceSHA256 p)\<lparr>sa_LedgerSHA256 := digest\<rparr>"
proof -
  define xs where "xs = sourceOnlyClips (draft_sources d)"
  define claim where "claim = CanonicalSourceClaim hash xs"
  define frozen where "frozen = BuildFrozenDenominatorDayProjection hash (sd_RecordingID d) (sd_QualificationDay d) (sd_QualificationSHA d) (FrozenSourceSnapshots xs)"
  define sha where "sha bytes manifest p = CanonicalSHA hash (ledger_json (unsealed_ledger hash d bytes manifest (dp_FrozenSourceSHA256 p)))"
    for bytes manifest and p :: DayProjection
  have "(if \<not> seal_request_ok tzdb d then Inl BadDraft
      else case validateDraftBoundaries hash tzdb d of Some e \<Rightarrow> Inl e | None \<Rightarrow>
      (case total_bytes 0 (draft_sources d) of None \<Rightarrow> Inl BytesOverflow | Some bytes \<Rightarrow>
       if \<not> hours_numbered (sd_Hours d) then Inl HourIdentity
       else (case claim of None \<Rightarrow> Inl EncodeFailed | Some (manifest, _) \<Rightarrow>
       (case frozen of Inl e \<Rightarrow> Inl e
        | Inr p \<Rightarrow> (case sha bytes manifest p of None \<Rightarrow> Inl EncodeFailed
            | Some (digest, _) \<Rightarrow> Inr (unsealed_ledger hash d bytes manifest (dp_FrozenSourceSHA256 p)\<lparr>sa_LedgerSHA256 := digest\<rparr>)))))) = Inr l"
    using assms unfolding SealStreamDayAllocation_def Let_def claim_def frozen_def xs_def sha_def seal_request_ok_def not_le de_Morgan_conj
    by (simp only: not_less disj_assoc)
  then show thesis using that unfolding claim_def [symmetric] frozen_def [symmetric] xs_def [symmetric] sha_def [symmetric]
    by (auto split: if_split_asm option.split_asm sum.split_asm prod.split_asm)
qed

lemma encode_object: "encode html (JObject fs) \<noteq> None \<longleftrightarrow> (\<forall>f \<in> set fs. encode html (snd f) \<noteq> None)"
proof -
  have "encode_fields html fs \<noteq> None \<longleftrightarrow> (\<forall>f \<in> set fs. encode html (snd f) \<noteq> None)"
    by (induction fs) (auto split: option.splits)
  then show ?thesis by auto
qed

lemma encode_ledger: "encode False (ledger_json (l\<lparr>sa_LedgerSHA256 := s\<rparr>)) \<noteq> None \<longleftrightarrow> encode False (ledger_json l) \<noteq> None"
  unfolding ledger_json_def encode_object by simp

lemma map_last_source_only: "xs \<noteq> [] \<Longrightarrow> sc_ClipID (last (sourceOnlyClips xs)) = sc_ClipID (last xs)"
  by (simp add: last_source_only)

lemma frozen_projection:
  assumes "BuildFrozenDenominatorDayProjection hash rid day sha xs = Inr p"
  shows "dp_SourceCount p = int (length xs) \<and> (\<exists>canonical. dp_FrozenSourceSHA256 p = hash canonical) \<and>
    frozen_bytes rid day None [] [] 0 xs = Some (dp_SourceBytes p)"
  using assms by (auto simp: BuildFrozenDenominatorDayProjection_def CanonicalSHA_def Let_def split: if_splits option.splits)

lemma frozen_total:
  "frozen_bytes rid day p cs ls acc (FrozenSourceSnapshots xs) = Some n \<Longrightarrow> total_bytes acc xs = Some n"
proof (induction xs arbitrary: p cs ls acc)
  case (Cons x xs)
  then show ?case by (auto simp: FrozenSourceSnapshots_def split: if_splits)
qed (simp add: FrozenSourceSnapshots_def)

lemma ordered_preflight:
  "ordered_sources rid loc date p cs os xs = None \<Longrightarrow> x \<in> set xs \<Longrightarrow>
    validatePreflightSource x rid \<and> local_date loc (sc_StartUTC x) = date \<and> local_date loc (sc_EndUTC x) = date"
  by (induction rid loc date p cs os xs rule: ordered_sources.induct) (auto split: if_splits)

lemma preflight_size: "validatePreflightSource x rid \<Longrightarrow> 0 < oi_SizeBytes (sc_Object x)"
  by (simp add: validatePreflightSource_def)

end
