(* ===== verification/Publication.thy ===== *)
theory Publication
  imports Ledgers
begin

text \<open>
  What happens to a sealed ledger: the validator that seals its draft again and the publisher of its artifact both accept it,
  and a published artifact accounts for every clip of the day once.
\<close>

section \<open>Sealed ledgers are published\<close>

lemma hours_of_draft: "sd_Hours (bare_draft d) = map (\<lambda>h. h\<lparr>ha_Sources := sourceOnlyClips (ha_Sources h)\<rparr>) (sd_Hours d)"
  by (simp add: bare_draft_def)

lemma bare_hours_numbered: "hours_numbered (sd_Hours (bare_draft d)) = hours_numbered (sd_Hours d)"
  by (auto simp: hours_numbered_def hours_of_draft enumerate_map)

lemma unsealed_hours: "sa_Hours (unsealed_ledger hash d bytes manifest frozen) =
    map (\<lambda>h. \<lparr>lh_DeliveryHour = ha_DeliveryHour h, lh_ClockHour = ha_ClockHour h, lh_SourceClipIDs = map sc_ClipID (ha_Sources h)\<rparr>)
      (sd_Hours (bare_draft d))"
  by (simp add: unsealed_ledger_def Let_def hours_of_draft sourceOnlyClips_def comp_def)

lemma sealed_hours:
  assumes "hours_numbered (sd_Hours d)"
  shows "ledger_hours 0 (sourceOnlyClips (draft_sources d)) (sa_Hours (unsealed_ledger hash d bytes manifest frozen)) =
    Some (sd_Hours (bare_draft d), [])"
proof -
  have "hours_numbered (sd_Hours (bare_draft d))" using assms unfolding bare_hours_numbered .
  from ledger_hours_self [OF this [unfolded hours_numbered_def], of "[]"] show ?thesis
    unfolding unsealed_hours by (simp add: draft_sources_def [symmetric] bare_sources)
qed

lemma unsealed_simps [simp]:
  "sa_SchemaVersion (unsealed_ledger hash d bytes manifest frozen) = 1" "sa_BatchID (unsealed_ledger hash d bytes manifest frozen) = sd_BatchID d"
  "sa_Generation (unsealed_ledger hash d bytes manifest frozen) = sd_Generation d"
  "sa_RecordingID (unsealed_ledger hash d bytes manifest frozen) = sd_RecordingID d"
  "sa_Timezone (unsealed_ledger hash d bytes manifest frozen) = sd_Timezone d" "sa_LocalDate (unsealed_ledger hash d bytes manifest frozen) = sd_LocalDate d"
  "sa_QualificationDay (unsealed_ledger hash d bytes manifest frozen) = sd_QualificationDay d"
  "sa_QualificationSHA (unsealed_ledger hash d bytes manifest frozen) = sd_QualificationSHA d"
  "sa_FrozenSourceSHA256 (unsealed_ledger hash d bytes manifest frozen) = frozen"
  "sa_SourceClaimSHA256 (unsealed_ledger hash d bytes manifest frozen) = manifest"
  "sa_SourceClipCount (unsealed_ledger hash d bytes manifest frozen) = int (length (draft_sources d))"
  "sa_SourceBytes (unsealed_ledger hash d bytes manifest frozen) = bytes"
  "sa_Sources (unsealed_ledger hash d bytes manifest frozen) = sourceOnlyClips (draft_sources d)"
  "sa_ConsecutivePairs (unsealed_ledger hash d bytes manifest frozen) = source_pairs (sourceOnlyClips (draft_sources d))"
  "sa_HourSourceSHA256 (unsealed_ledger hash d bytes manifest frozen) = map (\<lambda>h. hour_digest hash (ha_Sources h)) (sd_Hours d)"
  "sa_Boundaries (unsealed_ledger hash d bytes manifest frozen) = sd_Boundaries d"
  "sa_CrossDay (unsealed_ledger hash d bytes manifest frozen) = sd_CrossDay d" "sa_LedgerSHA256 (unsealed_ledger hash d bytes manifest frozen) = []"
  by (simp_all add: unsealed_ledger_def Let_def)

lemma unsealed_ends: "ledger_ends_ok (unsealed_ledger hash d bytes manifest frozen\<lparr>sa_LedgerSHA256 := s\<rparr>)"
  by (simp add: ledger_ends_ok_def unsealed_ledger_def Let_def)

lemma unsealed_id [simp]: "unsealed_ledger hash d bytes manifest frozen\<lparr>sa_LedgerSHA256 := []\<rparr> = unsealed_ledger hash d bytes manifest frozen"
  by (simp add: unsealed_ledger_def Let_def)

lemma sealed_draft: "ledger_draft (unsealed_ledger hash d bytes manifest frozen\<lparr>sa_LedgerSHA256 := s\<rparr>) (sd_Hours (bare_draft d)) = bare_draft d"
  by (simp add: ledger_draft_def bare_draft_def)

lemma claim_source_only [simp]: "CanonicalSourceClaim hash (sourceOnlyClips xs) = CanonicalSourceClaim hash xs"
  by (simp add: CanonicalSourceClaim_def claim_json_def)

lemma sum_bytes_nonneg: "\<forall>x \<in> set xs. 0 < oi_SizeBytes (sc_Object x) \<Longrightarrow> total_bytes 0 xs = Some n \<Longrightarrow> 0 \<le> n"
  using total_bytes_sum [of 0 xs n] by (simp, intro sum_list_nonneg) (auto intro: less_imp_le)

lemma sealed_digests:
  assumes "CanonicalSourceClaim hash (draft_sources d) = Some (manifest, body)"
    and "BuildFrozenDenominatorDayProjection hash (sd_RecordingID d) (sd_QualificationDay d) (sd_QualificationSHA d)
       (FrozenSourceSnapshots (sourceOnlyClips (draft_sources d))) = Inr p"
    and "total_bytes 0 (draft_sources d) = Some bytes"
  shows "ledger_digests_ok hash (unsealed_ledger hash d bytes manifest (dp_FrozenSourceSHA256 p)\<lparr>sa_LedgerSHA256 := s\<rparr>) (sd_Hours (bare_draft d))"
proof -
  have "map_option fst (CanonicalSourceClaim hash (ha_Sources h)) = Some (hour_digest hash (ha_Sources h))" if "h \<in> set (sd_Hours d)" for h
    using hours_encode [of hash "map ha_Sources (sd_Hours d)" "ha_Sources h"] assms(1) that
    by (auto simp: draft_sources_def hour_digest_def)
  then have "map (\<lambda>h. map_option fst (CanonicalSourceClaim hash (ha_Sources h))) (sd_Hours (bare_draft d)) =
      map Some (map (\<lambda>h. hour_digest hash (ha_Sources h)) (sd_Hours d))"
    by (simp add: hours_of_draft)
  moreover have "dp_SourceCount p = int (length (draft_sources d))" "dp_SourceBytes p = bytes"
    using frozen_projection [OF assms(2)] frozen_total assms(3)
    by (simp add: FrozenSourceSnapshots_def, metis option.inject total_bytes_source_only)
  ultimately show ?thesis using assms(1,2) by (simp add: ledger_digests_ok_def)
qed

lemma sealed_published:
  assumes hex: "\<And>s. lowerHex64 (hash s)" and seal: "SealStreamDayAllocation hash tzdb d = Inr l"
  shows "ValidateStreamDayAllocation hash tzdb l d = None \<and>
    (\<exists>canonical. encode False (ledger_json l) = Some canonical \<and> CanonicalAllocationLedgerArtifact hash tzdb l =
      (if MaxCanonicalJSONBytes < length canonical then Inl TooLarge else Inr (canonical, hash canonical)))"
proof -
  obtain bytes manifest body p digest canonical where s: "seal_request_ok tzdb d" "validateDraftBoundaries hash tzdb d = None"
    "total_bytes 0 (draft_sources d) = Some bytes" "hours_numbered (sd_Hours d)"
    "CanonicalSourceClaim hash (sourceOnlyClips (draft_sources d)) = Some (manifest, body)"
    "BuildFrozenDenominatorDayProjection hash (sd_RecordingID d) (sd_QualificationDay d) (sd_QualificationSHA d)
       (FrozenSourceSnapshots (sourceOnlyClips (draft_sources d))) = Inr p"
    "CanonicalSHA hash (ledger_json (unsealed_ledger hash d bytes manifest (dp_FrozenSourceSHA256 p))) = Some (digest, canonical)"
    and l: "l = unsealed_ledger hash d bytes manifest (dp_FrozenSourceSHA256 p)\<lparr>sa_LedgerSHA256 := digest\<rparr>"
    by (rule Seal_Inr [OF seal])
  have digest: "ledger_digest hash l = Some (sa_LedgerSHA256 l)" "lowerHex64 digest"
    using s(7) hex by (auto simp: ledger_digest_def l CanonicalSHA_def)
  have clips: "\<forall>x \<in> set (draft_sources d). validatePreflightSource x (sd_RecordingID d)"
  proof -
    obtain loc where "validateOrderedAllocationSources (draft_sources d) (sd_RecordingID d) loc (sd_LocalDate d) = None"
      using validateDraft_None [OF s(2)] by metis
    then show ?thesis using ordered_preflight unfolding validateOrderedAllocationSources_def by blast
  qed
  have frozen: "lowerHex64 (dp_FrozenSourceSHA256 p)" using frozen_projection [OF s(6)] hex by auto
  have "0 \<le> bytes" using sum_bytes_nonneg [OF _ s(3)] clips preflight_size by blast
  then have header: "ledger_header_ok hash tzdb l"
    using s(1) digest frozen by (simp add: ledger_header_ok_def l seal_request_ok_def source_pairs_def unsealed_hours hours_of_draft)
  have loop: "artifact_bytes (sd_RecordingID d) None (source_pairs (sourceOnlyClips (draft_sources d))) 0 (sourceOnlyClips (draft_sources d)) = Some bytes"
  proof -
    have "\<forall>x \<in> set (sourceOnlyClips (draft_sources d)). validatePreflightSource x (sd_RecordingID d) \<and> sc_AudioContract x = None \<and>
        sc_SeamToPrevious x = no_seam"
      using clips by (simp add: sourceOnlyClips_def)
    from artifact_bytes_sealed [OF this, of None 0] s(3) show ?thesis by simp
  qed
  have hours: "ledger_hours 0 (sa_Sources l) (sa_Hours l) = Some (sd_Hours (bare_draft d), [])"
    using sealed_hours [OF s(4)] by (simp add: l)
  have bounds: "validateDraftBoundaries hash tzdb (ledger_draft l (sd_Hours (bare_draft d))) = None"
    using s(2) by (simp add: l sealed_draft bare_accepted)
  have digests: "ledger_digests_ok hash l (sd_Hours (bare_draft d))"
    unfolding l by (rule sealed_digests) (use s in simp_all)
  obtain text_bytes where bytes_of: "encode False (ledger_json l) = Some text_bytes"
    using s(7) encode_ledger [where l = "unsealed_ledger hash d bytes manifest (dp_FrozenSourceSHA256 p)" and s = digest] by (auto simp: CanonicalSHA_def l)
  have "CanonicalAllocationLedgerArtifact hash tzdb l =
      (if MaxCanonicalJSONBytes < length text_bytes then Inl TooLarge else Inr (text_bytes, hash text_bytes))"
  proof -
    have sha: "CanonicalSHA hash (ledger_json l) = Some (hash text_bytes, text_bytes)" using bytes_of by (simp add: CanonicalSHA_def)
    have parts: "sa_RecordingID l = sd_RecordingID d" "sa_ConsecutivePairs l = source_pairs (sourceOnlyClips (draft_sources d))"
      "sa_Sources l = sourceOnlyClips (draft_sources d)" "sa_SourceBytes l = bytes" "ledger_ends_ok l"
      by (simp_all add: l unsealed_ends)
    show ?thesis using header loop hours bounds digests unfolding CanonicalAllocationLedgerArtifact_def sha parts(1-3) by (simp add: parts(4,5))
  qed
  moreover have "ValidateStreamDayAllocation hash tzdb l d = None"
    using digest seal by (simp add: ValidateStreamDayAllocation_def l)
  ultimately show ?thesis using bytes_of by blast
qed

text \<open>C25: what is sealed is published. When a day's draft is sealed, the validator of the ledger accepts it with its draft, and
  the publisher of the artifact accepts it too, up to the limit on the size of its bytes: what it publishes is the JSON of
  the ledger, addressed by its digest. SHA-256 is only known to give 64 lower-case hexadecimal digits.\<close>

theorem sealed_ledger_published:
  assumes "\<And>s. lowerHex64 (hash s)" "SealStreamDayAllocation hash tzdb d = Inr l"
  shows "ValidateStreamDayAllocation hash tzdb l d = None \<and>
    (\<exists>canonical. encode False (ledger_json l) = Some canonical \<and> CanonicalAllocationLedgerArtifact hash tzdb l =
      (if MaxCanonicalJSONBytes < length canonical then Inl TooLarge else Inr (canonical, hash canonical)))"
  using assms by (rule sealed_published)

section \<open>What a published ledger says\<close>

lemma take_ids_split: "take_ids is xs = Some (ys, rest) \<Longrightarrow> xs = ys @ rest \<and> map sc_ClipID ys = is"
  by (induction "is" xs arbitrary: ys rule: take_ids.induct) (auto split: if_splits)

lemma ledger_hours_split:
  "ledger_hours k xs hs = Some (out, left) \<Longrightarrow>
    xs = concat (map ha_Sources out) @ left \<and> map (\<lambda>h. map sc_ClipID (ha_Sources h)) out = map lh_SourceClipIDs hs"
proof (induction k xs hs arbitrary: out rule: ledger_hours.induct)
  case (2 k xs h hs)
  obtain ys rest more where h: "take_ids (lh_SourceClipIDs h) xs = Some (ys, rest)" "ledger_hours (Suc k) rest hs = Some (more, left)"
    "out = \<lparr>ha_DeliveryHour = lh_DeliveryHour h, ha_ClockHour = lh_ClockHour h, ha_Sources = ys\<rparr> # more"
    "\<not> (lh_DeliveryHour h \<noteq> int k + 1 \<or> lh_ClockHour h \<noteq> int k + 8)"
    using 2(2) by (auto split: if_splits option.splits)
  show ?case using 2(1) [OF h(4) h(1) refl h(2)] take_ids_split [OF h(1)] by (simp add: h(3))
qed simp

text \<open>The order clips are listed in.\<close>

definition clip_before :: "SourceClip \<Rightarrow> SourceClip \<Rightarrow> bool" where
  "clip_before x y \<longleftrightarrow> sc_StartUTC x < sc_StartUTC y \<or> sc_StartUTC x = sc_StartUTC y \<and> sc_ClipID x < sc_ClipID y"

lemma clip_before_trans: "clip_before x y \<Longrightarrow> clip_before y z \<Longrightarrow> clip_before x z"
  by (auto simp: clip_before_def)

lemma ordered_sorted:
  "ordered_sources rid loc date p cs os xs = None \<Longrightarrow>
    sorted_wrt clip_before xs \<and> distinct (map sc_ClipID xs) \<and> set cs \<inter> sc_ClipID ` set xs = {} \<and> (\<forall>y. p = Some y \<longrightarrow> (\<forall>x \<in> set xs. clip_before y x)) \<and>
    distinct (map sourceStorageKey xs) \<and> set os \<inter> sourceStorageKey ` set xs = {}"
proof (induction rid loc date p cs os xs rule: ordered_sources.induct)
  case (2 rid loc date p cs os x xs)
  have step: "ordered_sources rid loc date (Some x) (sc_ClipID x # cs) (sourceStorageKey x # os) xs = None"
    "sc_ClipID x \<notin> set cs" "sourceStorageKey x \<notin> set os" "\<forall>y. p = Some y \<longrightarrow> clip_before y x"
    using 2(2) by (auto simp: clip_before_def split: if_splits option.splits)
  have "sorted_wrt clip_before xs \<and> distinct (map sc_ClipID xs) \<and> set (sc_ClipID x # cs) \<inter> sc_ClipID ` set xs = {} \<and>
      (\<forall>z \<in> set xs. clip_before x z) \<and> distinct (map sourceStorageKey xs) \<and> set (sourceStorageKey x # os) \<inter> sourceStorageKey ` set xs = {}"
    using 2(1) step(1) 2(2) by (auto split: if_splits)
  then show ?case using step(2-4) clip_before_trans by auto
qed simp

lemma artifact_total: "artifact_bytes rid p pairs acc xs = Some n \<Longrightarrow> n = acc + sum_list (map (\<lambda>x. oi_SizeBytes (sc_Object x)) xs)"
  by (induction rid p pairs acc xs rule: artifact_bytes.induct) (auto split: if_splits option.splits list.splits)

lemma Artifact_Inr:
  assumes "CanonicalAllocationLedgerArtifact hash tzdb l = Inr (canonical, sha)"
  obtains hours bytes where "ledger_header_ok hash tzdb l" "artifact_bytes (sa_RecordingID l) None (sa_ConsecutivePairs l) 0 (sa_Sources l) = Some bytes"
    "ledger_hours 0 (sa_Sources l) (sa_Hours l) = Some (hours, [])" "bytes = sa_SourceBytes l" "ledger_ends_ok l"
    "validateDraftBoundaries hash tzdb (ledger_draft l hours) = None" "ledger_digests_ok hash l hours"
    "CanonicalSHA hash (ledger_json l) = Some (sha, canonical)" "length canonical \<le> MaxCanonicalJSONBytes"
  using assms unfolding CanonicalAllocationLedgerArtifact_def
  by (auto split: if_split_asm option.split_asm prod.split_asm)

text \<open>C26: a published ledger accounts for every clip of its day. Its twelve hours list the clips of the day once each and in
  order of their start; no two are the same clip or the same object; and the bytes it reports are theirs. The artifact is at
  most 16 MiB and addressed by its digest.\<close>

theorem published_ledger_accounts:
  assumes "CanonicalAllocationLedgerArtifact hash tzdb l = Inr (canonical, sha)"
  shows "length (sa_Hours l) = 12 \<and> concat (map lh_SourceClipIDs (sa_Hours l)) = map sc_ClipID (sa_Sources l) \<and>
    sorted_wrt clip_before (sa_Sources l) \<and> distinct (map sc_ClipID (sa_Sources l)) \<and> distinct (map sourceStorageKey (sa_Sources l)) \<and>
    sa_SourceBytes l = sum_list (map (\<lambda>x. oi_SizeBytes (sc_Object x)) (sa_Sources l)) \<and>
    length canonical \<le> MaxCanonicalJSONBytes \<and> sha = hash canonical"
proof -
  obtain hours bytes where p: "ledger_header_ok hash tzdb l" "artifact_bytes (sa_RecordingID l) None (sa_ConsecutivePairs l) 0 (sa_Sources l) = Some bytes"
    "ledger_hours 0 (sa_Sources l) (sa_Hours l) = Some (hours, [])" "bytes = sa_SourceBytes l"
    "validateDraftBoundaries hash tzdb (ledger_draft l hours) = None"
    "CanonicalSHA hash (ledger_json l) = Some (sha, canonical)" "length canonical \<le> MaxCanonicalJSONBytes"
    by (rule Artifact_Inr [OF assms])
  note hours = ledger_hours_split [OF p(3)]
  have "draft_sources (ledger_draft l hours) = sa_Sources l" using hours by (simp add: draft_sources_def ledger_draft_def)
  then obtain loc where "validateOrderedAllocationSources (sa_Sources l) (sa_RecordingID l) loc (sa_LocalDate l) = None"
    using validateDraft_None [OF p(5)] by (metis ledger_draft_def StreamDayDraft.select_convs(3,5))
  then have sorted: "sorted_wrt clip_before (sa_Sources l) \<and> distinct (map sc_ClipID (sa_Sources l)) \<and> distinct (map sourceStorageKey (sa_Sources l))"
    using ordered_sorted unfolding validateOrderedAllocationSources_def by blast
  have "map sc_ClipID (sa_Sources l) = concat (map (\<lambda>h. map sc_ClipID (ha_Sources h)) hours)"
    using hours by (simp add: map_concat comp_def)
  then have "concat (map lh_SourceClipIDs (sa_Hours l)) = map sc_ClipID (sa_Sources l)" using hours by simp
  moreover have "length (sa_Hours l) = 12" using p(1) by (simp add: ledger_header_ok_def)
  ultimately show ?thesis using sorted artifact_total [OF p(2)] p(4,6,7) by (auto simp: CanonicalSHA_def)
qed

end
