(* ===== verification/SampleLedger.thy ===== *)
theory SampleLedger
  imports Publication
begin

text \<open>
  A day that goes all the way: the three clips of \<open>Sealing\<close> are allocated, sealed and published. The size of its JSON is
  bounded piece by piece rather than computed.
\<close>

section \<open>Size of an encoding\<close>

fun json_size :: "json \<Rightarrow> nat" where
  "json_size JNull = 4"
| "json_size (JBool b) = 5"
| "json_size (JInt i) = 21"
| "json_size (JString s) = 2 + 6 * length s"
| "json_size (JTime t) = 40"
| "json_size (JArray xs) = 2 + sum_list (map (\<lambda>x. json_size x + 1) xs)"
| "json_size (JObject fs) = 2 + sum_list (map (\<lambda>(k, x). json_size x + 4 + 6 * length k) fs)"

fun short_ints :: "json \<Rightarrow> bool" where
  "short_ints (JInt i) = (\<bar>i\<bar> < 100000000000000000000)"
| "short_ints (JTime t) = (- 700000 \<le> local_day utc t \<and> local_day utc t \<le> 2900000)"
| "short_ints (JArray xs) = list_all short_ints xs"
| "short_ints (JObject fs) = list_all (\<lambda>(k, x). short_ints x) fs"
| "short_ints _ = True"

lemma decimal_length: "n < 10 ^ k \<Longrightarrow> 0 < k \<Longrightarrow> length (decimal n) \<le> k"
proof (induction k arbitrary: n)
  case (Suc k)
  show ?case
  proof (cases "n < 10")
    case False
    then have "0 < k" using Suc.prems(1) by (cases k) auto
    moreover have "n div 10 < 10 ^ k" using Suc.prems(1) by (simp add: div_less_iff_less_mult mult.commute)
    ultimately have "length (decimal (n div 10)) \<le> k" by (rule Suc.IH [rotated])
    then show ?thesis using False by (subst decimal.simps) simp
  qed (subst decimal.simps, simp)
qed simp

lemma Itoa_length: "\<bar>i\<bar> < 100000000000000000000 \<Longrightarrow> length (Itoa i) \<le> 21"
  using decimal_length [of "nat i" 20] decimal_length [of "nat (- i)" 20] by (auto simp: Itoa_def nat_less_iff)

lemma escape_length: "length (escape_char html c) \<le> 6"
  by (simp add: escape_char_def unicode_escape_def Let_def)

lemma quote_length: "length (quote_string html s) \<le> 2 + 6 * length s"
proof -
  have "length (concat (map (escape_char html) s)) \<le> 6 * length s"
  proof (induction s)
    case (Cons c s)
    then show ?case using escape_length [of html c] by simp
  qed simp
  then show ?thesis by (simp add: quote_string_def)
qed

lemma commas_length: "length (commas ss) \<le> sum_list (map (\<lambda>s. length s + 1) ss)"
  by (induction ss rule: commas.induct) auto

lemma append_int_length: "0 \<le> x \<Longrightarrow> x < 10 ^ w \<Longrightarrow> 0 < w \<Longrightarrow> length (append_int x w) = w"
  using decimal_length [of "nat x" w] by (simp add: append_int_def zero_pad_def nat_less_iff)

lemma fraction_length: "0 \<le> ns \<Longrightarrow> ns < second \<Longrightarrow> length (fraction ns) \<le> 10"
proof -
  assume ns: "0 \<le> ns" "ns < second"
  have "length (append_int ns 9) = 9" using append_int_length [of ns 9] ns by simp
  moreover have "length (drop_zeros s) \<le> length s" for s using length_dropWhile_le [of "\<lambda>c. c = CHR ''0''" "rev s"] by (simp add: drop_zeros_def)
  ultimately have "length (drop_zeros (append_int ns 9)) \<le> 9" by metis
  then show ?thesis by (simp add: fraction_def)
qed

lemma date_string_length:
  assumes "- 700000 \<le> d" "d \<le> 2900000"
  shows "length (date_string d) = 10"
proof -
  obtain y m k where c: "civil d = (y, m, k)" by (cases "civil d")
  have "0 \<le> y" "y \<le> 9999" "1 \<le> m" "m \<le> 12" "1 \<le> k" "k \<le> 31"
    using civil_year [OF c assms] day_number_civil [OF c] month_length_le [of m y] by (auto simp: valid_date_def)
  then show ?thesis using length_zero_pad_4 [of y] length_append_int_2 [of m] length_append_int_2 [of k] by (simp add: date_string_def c)
qed

lemma clock_part_length: "0 \<le> s \<Longrightarrow> s < day_seconds \<Longrightarrow>
    length (append_int (s div 3600) 2) = 2 \<and> length (append_int (s div 60 mod 60) 2) = 2 \<and> length (append_int (s mod 60) 2) = 2"
proof -
  assume s: "0 \<le> s" "s < day_seconds"
  have "s div 3600 \<le> 86399 div 3600" using s by (intro zdiv_mono1) auto
  then have "s div 3600 < 100" by simp
  moreover have "s div 60 mod 60 < 100" "s mod 60 < 100" "0 \<le> s div 60 mod 60" "0 \<le> s mod 60"
    using pos_mod_bound [of 60 "s div 60"] pos_mod_bound [of 60 s] by auto
  moreover have "0 \<le> s div 3600" using s by simp
  ultimately show ?thesis using length_append_int_2 by blast
qed

lemma time_json_length:
  assumes "time_json t = Some s" "- 700000 \<le> local_day utc t" "local_day utc t \<le> 2900000"
  shows "length s \<le> 40"
proof -
  have clock: "length (append_int (local_clock utc t div 3600) 2) = 2" "length (append_int (local_clock utc t div 60 mod 60) 2) = 2"
    "length (append_int (local_clock utc t mod 60) 2) = 2"
    using clock_part_length [of "local_clock utc t"] local_clock_bounds [of utc t] by auto
  have "length (fraction (nsec t)) \<le> 10" using fraction_length [of "nsec t"] nsec_bounds [of t] by auto
  then show ?thesis using assms(1) clock date_string_length [OF assms(2,3)]
    by (auto simp: time_json_def Let_def split: prod.splits if_splits)
qed

lemma encode_length:
  "encode html j = Some s \<Longrightarrow> short_ints j \<Longrightarrow> length s \<le> json_size j"
  "encode_list html js = Some ss \<Longrightarrow> list_all short_ints js \<Longrightarrow> sum_list (map (\<lambda>s. length s + 1) ss) \<le> sum_list (map (\<lambda>x. json_size x + 1) js)"
  "encode_fields html fs = Some ss \<Longrightarrow> list_all (\<lambda>(k, x). short_ints x) fs \<Longrightarrow>
    sum_list (map (\<lambda>s. length s + 1) ss) \<le> sum_list (map (\<lambda>(k, x). json_size x + 4 + 6 * length k) fs)"
proof (induction html j and html js and html fs arbitrary: s and ss and ss rule: encode_encode_list_encode_fields.induct)
  case (3 html i)
  then show ?case using Itoa_length by auto
next
  case (4 html s)
  then show ?case using quote_length by auto
next
  case (5 html t)
  then show ?case using time_json_length by auto
next
  case (6 html xs)
  then obtain ss where ss: "encode_list html xs = Some ss" "s = ''['' @ commas ss @ '']''" by auto
  have "sum_list (map (\<lambda>s. length s + 1) ss) \<le> sum_list (map (\<lambda>x. json_size x + 1) xs)" using 6 ss(1) by simp
  with commas_length [of ss] show ?case by (simp add: ss(2))
next
  case (7 html fs)
  then obtain ss where ss: "encode_fields html fs = Some ss" "s = CHR 123 # commas ss @ [CHR 125]" by auto
  have "sum_list (map (\<lambda>s. length s + 1) ss) \<le> sum_list (map (\<lambda>(k, x). json_size x + 4 + 6 * length k) fs)" using 7 ss(1) by simp
  with commas_length [of ss] show ?case by (simp add: ss(2))
next
  case (9 html x xs)
  then obtain s ss' where s: "encode html x = Some s" "encode_list html xs = Some ss'" "ss = s # ss'" by (auto split: option.splits)
  have "length s \<le> json_size x" using 9 s by simp
  moreover have "sum_list (map (\<lambda>s. length s + 1) ss') \<le> sum_list (map (\<lambda>x. json_size x + 1) xs)" using 9 s by simp
  ultimately show ?case by (simp add: s(3))
next
  case (11 html k x fs)
  then obtain s ss' where s: "encode html x = Some s" "encode_fields html fs = Some ss'" "ss = (quote_string html k @ '':'' @ s) # ss'"
    by (auto split: option.splits)
  have "length s \<le> json_size x" using 11 s by simp
  moreover have "sum_list (map (\<lambda>s. length s + 1) ss') \<le> sum_list (map (\<lambda>(k, x). json_size x + 4 + 6 * length k) fs)" using 11 s by simp
  ultimately show ?case using quote_length [of html k] by (simp add: s(3))
qed auto

lemma short_times: "short_ints j \<Longrightarrow> t \<in> set (json_times j) \<Longrightarrow> time_json t \<noteq> None"
proof (induction j rule: short_ints.induct)
  case (2 u)
  then show ?case using time_json_total [of u] by auto
next
  case (4 fs)
  then obtain k x where kx: "(k, x) \<in> set fs" "t \<in> set (json_times x)" by auto
  then have "short_ints x" using 4 by (auto simp: list_all_iff)
  then show ?case using 4 kx by blast
qed (auto simp: list_all_iff)

lemma short_encodes: "short_ints j \<Longrightarrow> \<exists>s. encode html j = Some s \<and> length s \<le> json_size j"
  using short_times encode_total(1) [of j html] encode_length(1) by (metis not_None_eq)

lemma short_sha: "short_ints j \<Longrightarrow> \<exists>s. CanonicalSHA hash j = Some (hash s, s) \<and> length s \<le> json_size j"
  using short_encodes [of j False] by (auto simp: CanonicalSHA_def)

section \<open>Pieces of a ledger\<close>

definition near :: "gotime \<Rightarrow> bool" where
  "near t \<longleftrightarrow> 20400 \<le> local_day utc t \<and> local_day utc t \<le> 20600"

lemma near_short: "near t \<Longrightarrow> - 700000 \<le> local_day utc t \<and> local_day utc t \<le> 2900000"
  by (simp add: near_def)

lemma near_date: "0 \<le> s \<Longrightarrow> s < day_seconds \<Longrightarrow> 20400 \<le> d \<Longrightarrow> d \<le> 20600 \<Longrightarrow> near (go_date utc d s 0)"
  by (simp add: near_def)

lemma small_sub: "\<bar>time_sub t u\<bar> < 100000000000000000000"
  by (simp add: time_sub_def min_duration_def max_duration_def)

lemma small_wrap: "\<bar>wrap64 x\<bar> < 100000000000000000000"
  using pos_mod_bound [of 18446744073709551616 "x - min_int64"] pos_mod_sign [of 18446744073709551616 "x - min_int64"]
  unfolding wrap64_def min_int64_def by linarith

definition clips_fine :: "SourceClip list \<Rightarrow> bool" where
  "clips_fine xs \<longleftrightarrow> (\<forall>x \<in> set xs. near (sc_StartUTC x) \<and> near (sc_EndUTC x) \<and> \<bar>sc_ClipID x\<bar> < 1000)"

lemma candidates_at_cases: "c \<in> set (candidates_at xs i) \<Longrightarrow>
    0 < i \<and> cd_at c = sc_EndUTC (xs ! (i - 1)) \<or> i < length xs \<and> cd_at c = sc_StartUTC (xs ! i)"
  by (auto simp: candidates_at_def split: if_splits)

lemma built_fine:
  assumes "clips_fine xs" "near s" "i < 11" "pick_seam s m None (candidates xs) = Some c"
  shows "short_ints (hour_boundary_json (built_boundary xs s i c)) \<and> json_size (hour_boundary_json (built_boundary xs s i c)) \<le> 4000"
proof -
  note pos = pick_position [OF assms(4)]
  have x: "near (sc_EndUTC (xs ! (cd_position c - 1))) \<and> \<bar>sc_ClipID (xs ! (cd_position c - 1))\<bar> < 1000" if "0 < cd_position c"
    using assms(1) pos that by (auto simp: clips_fine_def)
  have y: "near (sc_StartUTC (xs ! cd_position c)) \<and> \<bar>sc_ClipID (xs ! cd_position c)\<bar> < 1000" if "cd_position c < length xs"
    using assms(1) that by (auto simp: clips_fine_def)
  have at: "near (cd_at c)" using candidates_at_cases [of c xs "cd_position c"] pos x y by auto
  show ?thesis
    using at x y near_short assms(2,3) small_sub
    by (cases "0 < cd_position c"; cases "cd_position c < length xs")
      (auto simp: built_boundary_def Let_def hour_boundary_json_def opt_json_def)
qed

definition piece_fine :: "nat \<Rightarrow> json \<Rightarrow> bool" where
  "piece_fine n j \<longleftrightarrow> short_ints j \<and> json_size j \<le> n"

lemma array_fine: "\<forall>x \<in> set xs. piece_fine n (f x) \<Longrightarrow> piece_fine (2 + length xs * Suc n) (JArray (map f xs))"
proof (induction xs)
  case (Cons x xs)
  then have "piece_fine n (f x)" "piece_fine (2 + length xs * Suc n) (JArray (map f xs))" by auto
  then show ?case by (simp add: piece_fine_def)
qed (simp add: piece_fine_def)

lemma allocate_fine:
  "allocate_boundaries utc d xs m is = Inr bs \<Longrightarrow> clips_fine xs \<Longrightarrow> 20400 \<le> d \<Longrightarrow> d \<le> 20600 \<Longrightarrow> \<forall>i \<in> set is. i < 11 \<Longrightarrow>
    \<forall>b \<in> set (map snd bs). piece_fine 4000 (hour_boundary_json b)"
proof (induction "is" arbitrary: m bs)
  case (Cons i "is")
  obtain c bs' where c: "pick_seam (scheduled_seam utc d i) m None (candidates xs) = Some c"
    "allocate_boundaries utc d xs (cd_position c) is = Inr bs'"
    "bs = (cd_position c, built_boundary xs (scheduled_seam utc d i) i c) # bs'"
    using allocate_Cons [OF Cons.prems(1)] .
  have "near (scheduled_seam utc d i)" using Cons.prems by (auto simp: scheduled_seam_def intro!: near_date)
  with built_fine [OF Cons.prems(2) this _ c(1)] Cons.prems(5) Cons.IH [OF c(2)] Cons.prems show ?case
    by (auto simp: c(3) piece_fine_def)
qed simp

lemma sample_clip_fine: "0 \<le> a \<Longrightarrow> a < day_seconds \<Longrightarrow> 0 \<le> b \<Longrightarrow> b < day_seconds \<Longrightarrow> \<bar>i\<bar> < 1000 \<Longrightarrow> length key = 1 \<Longrightarrow>
    piece_fine 5000 (source_json (source_only (sample_clip i a b key)))"
  by (simp add: piece_fine_def source_json_def source_only_def sample_clip_def object_json_def seam_json_def no_seam_def opt_json_def omitempty_def)

lemma snapshot_fine: "0 \<le> a \<Longrightarrow> a < day_seconds \<Longrightarrow> 0 \<le> b \<Longrightarrow> b < day_seconds \<Longrightarrow> \<bar>i\<bar> < 1000 \<Longrightarrow> length key = 1 \<Longrightarrow>
    \<forall>x \<in> set (FrozenSourceSnapshots [source_only (sample_clip i a b key)]). short_ints (snapshot_json (x\<lparr>fs_ReleasedAt := None\<rparr>))"
  by (simp add: snapshot_json_def FrozenSourceSnapshots_def source_only_def sample_clip_def opt_json_def)

section \<open>The day is sealed\<close>

lemma sample_parts: "dq_LocalDate sample_request = date_string 20500" "dq_RecordingID sample_request = 7" "dq_Timezone sample_request = ''UTC''"
    "dq_BatchID sample_request = ''b1''" "dq_Generation sample_request = 1" "dq_Qualification sample_request = utc_window 20500"
    "dq_Sources sample_request = [sample_clip 1 29400 30300 ''a'', sample_clip 2 31800 32400 ''b'', sample_clip 3 32500 33300 ''c'']"
    "dq_PreviousDayLast sample_request = None" "dq_NextDayFirst sample_request = None"
  by (simp_all add: sample_request_def)

lemma sample_cross:
  assumes "crossDayBoundaries sample_request utc (hd (dq_Sources sample_request)) (last (dq_Sources sample_request)) (date_string 20500) = Inr cross"
  shows "length cross = 2 \<and> (\<forall>b \<in> set cross. piece_fine 4000 (day_boundary_json b))"
proof -
  have date: "local_date utc (go_date utc 20500 0 0) = date_string 20500" by (simp add: local_date_def)
  have parse: "ParseInLocation (date_string 20500) utc = Some (go_date utc 20500 0 0)"
    using parse_date_string [of 20500] by (simp add: ParseInLocation_def)
  note absent = utc_cal.absent_day_boundaries [of "go_date utc 20500 0 0", unfolded date, simplified, OF parse]
  have n: "near (go_date utc 20499 72000 0)" "near (go_date utc 20500 28800 0)" "near (go_date utc 20500 72000 0)" "near (go_date utc 20501 28800 0)"
    "near (go_date utc 20500 29400 0)" "near (go_date utc 20500 33300 0)" by (simp_all add: near_def)
  show ?thesis using assms n near_short
    by (auto simp: crossDayBoundaries_def parse previous_edge_def next_edge_def sample_parts absent no_day_boundary_def
        piece_fine_def day_boundary_json_def opt_json_def)
qed

lemma sample_draft:
  obtains d bs cross where "AllocateStreamDay plain_hash utc_zones sample_request = Inr d"
    "d = draft_of sample_request (date_string 20500) (utc_day 20500 0) (hour_sources (dq_Sources sample_request) 0 (map fst bs)) (map snd bs) cross"
    "length bs = 11" "draft_sources d = dq_Sources sample_request" "validateDraftBoundaries plain_hash utc_zones d = None"
    "\<forall>b \<in> set (map snd bs). piece_fine 4000 (hour_boundary_json b)" "length cross = 2" "\<forall>b \<in> set cross. piece_fine 4000 (day_boundary_json b)"
proof -
  obtain d where d: "AllocateStreamDay plain_hash utc_zones sample_request = Inr d" using sample_allocated by blast
  obtain loc bs day cross where p: "utc_zones (dq_Timezone sample_request) = Some loc"
    "allocate_boundaries loc (local_day loc (sc_StartUTC (hd (dq_Sources sample_request)))) (dq_Sources sample_request) 0 [0..<11] = Inr bs"
    "qualifiedDay (dq_Qualification sample_request) (dq_LocalDate sample_request) = Some day"
    "crossDayBoundaries sample_request loc (hd (dq_Sources sample_request)) (last (dq_Sources sample_request)) (dq_LocalDate sample_request) = Inr cross"
    "d = draft_of sample_request (dq_LocalDate sample_request) day (hour_sources (dq_Sources sample_request) 0 (map fst bs)) (map snd bs) cross"
    by (rule AllocateStreamDay_Inr [OF d])
  have loc: "loc = utc" using p(1) sample_regular(1) by simp
  have day: "day = utc_day 20500 0" using p(3) utc_window_day [of 0 20500] by (simp add: sample_parts)
  have bs: "allocate_boundaries utc 20500 (dq_Sources sample_request) 0 [0..<11] = Inr bs"
    using p(2) unfolding loc by (simp add: sample_parts del: allocate_boundaries.simps upt_Suc)
  have "clips_fine (dq_Sources sample_request)" by (simp add: sample_parts clips_fine_def near_def)
  from allocate_fine [OF bs this] have fine: "\<forall>b \<in> set (map snd bs). piece_fine 4000 (hour_boundary_json b)" by simp
  have src: "draft_sources d = dq_Sources sample_request"
    using concat_hour_sources [of 0 "map fst bs" "dq_Sources sample_request"] allocate_positions [OF bs le0] by (simp add: p(5))
  note cross = sample_cross [OF p(4) [unfolded loc sample_parts(1)]]
  show thesis
    by (rule that [OF d p(5) [unfolded day sample_parts(1)] length_allocate [OF bs] src allocated_accepted [OF d sample_regular] fine
          cross [THEN conjunct1] cross [THEN conjunct2]])
qed

lemma sample_day_ok: "validateQualifiedLedgerDay utc_zones (utc_day 20500 0) 7 ''UTC'' (date_string 20500)"
  using utc_day_length [of 20500]
  by (simp add: validateQualifiedLedgerDay_def utc_zones_def day_authority_def validQualifiedDayAuthority_def local_window_def local_date_def)

lemma sample_claim: "\<exists>s. CanonicalSourceClaim plain_hash (sourceOnlyClips (dq_Sources sample_request)) = Some (plain_hash s, s)"
proof -
  have "short_ints (claim_json (sourceOnlyClips (dq_Sources sample_request)))"
    using sample_clip_fine by (simp add: claim_json_def sourceOnlyClips_def sample_parts piece_fine_def)
  from short_sha [OF this] show ?thesis by (auto simp: CanonicalSourceClaim_def)
qed

lemma sample_object [simp]: "oi_Key (sc_Object (sample_clip i a b key)) = key" "sc_StorageDestinationID (sample_clip i a b key) = 3"
    "sc_ReleasedAt (sample_clip i a b key) = None" "oi_SHA256 (sc_Object (sample_clip i a b key)) = replicate 64 CHR ''0''"
  by (simp_all add: sample_clip_def)

lemma sample_frozen:
  "\<exists>p. BuildFrozenDenominatorDayProjection plain_hash 7 (utc_day 20500 0) (plain_hash [])
     (FrozenSourceSnapshots (sourceOnlyClips (dq_Sources sample_request))) = Inr p"
proof -
  have date: "validLocalDate (date_string 20500)" using parse_date_string [of 20500] by (simp add: validLocalDate_def)
  have keys: "safeObjectKey ''a''" "safeObjectKey ''b''" "safeObjectKey ''c''" by code_simp+
  have hex: "lowerHex64 (replicate 64 CHR ''0'')" by code_simp
  have place: "validFrozenSourceStorage ''r2'' ''auto'' ''clips''" "sourceEndpointV1 ''https://0123456789abcdef0123456789abcdef.r2.cloudflarestorage.com''"
    by code_simp+
  have small: "time_sub (go_date utc 20500 b 0) (go_date utc 20500 a 0) \<le> 15 * minute" if "b - a \<le> 900" "a < b" for a b
    using that by (simp add: time_sub_def go_date_utc algebra_simps max_duration_def min_duration_def)
  define xs where "xs = FrozenSourceSnapshots (sourceOnlyClips (dq_Sources sample_request))"
  have frozen: "frozen_bytes 7 (utc_day 20500 0) None [] [] 0 xs = Some 3000"
    using keys hex place small [of 30300 29400] small [of 32400 31800] small [of 33300 32500]
    by (simp add: xs_def FrozenSourceSnapshots_def sourceOnlyClips_def sample_parts utc_date_order storage_locator_def
        CanonicalSourceEndpointAuthority_def max_int64_def not_less sample_clip_def source_only_def)
  have "short_ints (JArray (map (\<lambda>x. snapshot_json (x\<lparr>fs_ReleasedAt := None\<rparr>)) xs))"
    using snapshot_fine by (simp add: xs_def FrozenSourceSnapshots_def sourceOnlyClips_def sample_parts)
  from short_sha [OF this, of plain_hash] obtain s where "CanonicalSHA plain_hash (JArray (map (\<lambda>x. snapshot_json (x\<lparr>fs_ReleasedAt := None\<rparr>)) xs)) = Some (plain_hash s, s)"
    by blast
  moreover have "xs \<noteq> []" by (simp add: xs_def FrozenSourceSnapshots_def sourceOnlyClips_def sample_parts)
  ultimately show ?thesis using frozen date plain_hash_hex utc_day_length [of 20500]
    unfolding xs_def [symmetric]
    by (simp add: BuildFrozenDenominatorDayProjection_def Let_def comp_def day_authority_def validQualifiedDayAuthority_def)
qed

section \<open>The ledger is small\<close>

lemma piece_fine_mono: "piece_fine m j \<Longrightarrow> m \<le> n \<Longrightarrow> piece_fine n j"
  by (auto simp: piece_fine_def)

lemma piece_fine_simps: "\<bar>i\<bar> < 1000000 \<Longrightarrow> piece_fine 60000 (JInt i)" "length s \<le> 100 \<Longrightarrow> piece_fine 60000 (JString s)"
  by (simp_all add: piece_fine_def)

lemma object_fine:
  "list_all (\<lambda>f. length (fst f) \<le> 30 \<and> piece_fine n (snd f)) fs \<Longrightarrow> piece_fine (2 + length fs * (n + 184)) (JObject fs)"
proof (induction fs)
  case (Cons f fs)
  then show ?case by (cases f) (auto simp: piece_fine_def)
qed (simp add: piece_fine_def)

lemma member_length: "ys \<in> set yss \<Longrightarrow> length ys \<le> length (concat yss)"
  by (induction yss) auto

lemma hours_fine:
  assumes "concat xss = dq_Sources sample_request" "length xss = 12" "h \<in> set (delivery_hours xss)"
  shows "piece_fine 1000 (ledger_hour_json \<lparr>lh_DeliveryHour = ha_DeliveryHour h, lh_ClockHour = ha_ClockHour h,
    lh_SourceClipIDs = map sc_ClipID (ha_Sources h)\<rparr>)"
proof -
  obtain i where i: "i < 12" "h = \<lparr>ha_DeliveryHour = int i + 1, ha_ClockHour = int i + 8, ha_Sources = xss ! i\<rparr>"
    using assms(2,3) by (auto simp: delivery_hours_def in_set_enumerate_eq)
  have "xss ! i \<in> set xss" using i(1) assms(2) by simp
  then have "length (xss ! i) \<le> length (concat xss)" "set (xss ! i) \<subseteq> set (concat xss)"
    using member_length [of "xss ! i" xss] by auto
  then have small: "length (xss ! i) \<le> 3" "set (xss ! i) \<subseteq> set (dq_Sources sample_request)"
    unfolding assms(1) by (simp_all add: sample_parts)
  have "\<forall>x \<in> set (xss ! i). piece_fine 21 (JInt (sc_ClipID x))" using small(2) by (auto simp: sample_parts piece_fine_def)
  from array_fine [OF this] have "piece_fine (2 + length (xss ! i) * 22) (JArray (map (\<lambda>x. JInt (sc_ClipID x)) (xss ! i)))" by simp
  then show ?thesis using small(1) i by (simp add: ledger_hour_json_def piece_fine_def comp_def)
qed

lemma sample_ledger_fine:
  assumes "d = draft_of sample_request (date_string 20500) (utc_day 20500 0) xss bs cross" "concat xss = dq_Sources sample_request"
    and "length xss = 12" "length bs = 11" "length cross = 2" "length s \<le> 64" "length f \<le> 64" "length m \<le> 64"
    and "\<forall>b \<in> set bs. piece_fine 4000 (hour_boundary_json b)" "\<forall>b \<in> set cross. piece_fine 4000 (day_boundary_json b)"
  shows "piece_fine 2000000 (ledger_json (unsealed_ledger plain_hash d 3000 m f\<lparr>sa_LedgerSHA256 := s\<rparr>))"
proof -
  let ?l = "unsealed_ledger plain_hash d 3000 m f\<lparr>sa_LedgerSHA256 := s\<rparr>"
  have src: "draft_sources d = dq_Sources sample_request" using assms(1,2) by simp
  have three: "length (dq_Sources sample_request) = 3" by (simp add: sample_parts)
  have "length (hour_digest plain_hash ys) \<le> 64" for ys
    by (auto simp: hour_digest_def CanonicalSourceClaim_def CanonicalSHA_def plain_hash_def split: option.splits)
  note short = this
  have digests: "\<forall>h \<in> set (sd_Hours d). piece_fine 1000 (JString (hour_digest plain_hash (ha_Sources h)))"
  proof
    fix h
    have "length (hour_digest plain_hash (ha_Sources h)) \<le> 64" by (rule short)
    then show "piece_fine 1000 (JString (hour_digest plain_hash (ha_Sources h)))" by (simp add: piece_fine_def)
  qed
  have each: "\<forall>h \<in> set (delivery_hours xss). piece_fine 1000 (ledger_hour_json \<lparr>lh_DeliveryHour = ha_DeliveryHour h,
      lh_ClockHour = ha_ClockHour h, lh_SourceClipIDs = map sc_ClipID (ha_Sources h)\<rparr>)"
    using hours_fine [OF assms(2,3)] by blast
  have arrays: "piece_fine 60000 (JArray (map hour_boundary_json bs))" "piece_fine 60000 (JArray (map day_boundary_json cross))"
    "piece_fine 60000 (JArray (map (\<lambda>h. JString (hour_digest plain_hash (ha_Sources h))) (sd_Hours d)))"
    "piece_fine 60000 (JArray (map (\<lambda>h. ledger_hour_json \<lparr>lh_DeliveryHour = ha_DeliveryHour h, lh_ClockHour = ha_ClockHour h,
        lh_SourceClipIDs = map sc_ClipID (ha_Sources h)\<rparr>) (delivery_hours xss)))"
    using array_fine [OF assms(9)] array_fine [OF assms(10)] array_fine [OF digests] assms(3-5)
      array_fine [OF each]
    by (auto simp: assms(1) intro: piece_fine_mono)
  have clips: "\<forall>x \<in> set (sourceOnlyClips (dq_Sources sample_request)). piece_fine 5000 (source_json x)"
    using sample_clip_fine by (auto simp: sourceOnlyClips_def sample_parts)
  have sources: "piece_fine 60000 (JArray (map source_json (sourceOnlyClips (dq_Sources sample_request))))"
    using array_fine [OF clips] by (rule piece_fine_mono) (simp add: sample_parts)
  have "\<forall>p \<in> set (source_pairs (sourceOnlyClips (dq_Sources sample_request))). piece_fine 5000 (pair_json p)"
    using small_sub by (simp add: sourceOnlyClips_def sample_parts source_pairs_def piece_fine_def pair_json_def)
  from array_fine [OF this] have pairs: "piece_fine 60000 (JArray (map pair_json (source_pairs (sourceOnlyClips (dq_Sources sample_request)))))"
    by (rule piece_fine_mono) (simp add: sample_parts source_pairs_def)
  have day: "piece_fine 60000 (day_json (utc_day 20500 0))"
    using date_string_length [of 20500] by (simp add: day_json_def piece_fine_def Let_def omitempty_def)
  have ends: "piece_fine 60000 (opt_json JInt (sa_FirstClipID ?l))" "piece_fine 60000 (opt_json JInt (sa_LastClipID ?l))"
    by (simp_all add: unsealed_ledger_def Let_def src sourceOnlyClips_def sample_parts opt_json_def piece_fine_def)
  have hours: "map ledger_hour_json (sa_Hours ?l) = map (\<lambda>h. ledger_hour_json \<lparr>lh_DeliveryHour = ha_DeliveryHour h, lh_ClockHour = ha_ClockHour h,
      lh_SourceClipIDs = map sc_ClipID (ha_Sources h)\<rparr>) (delivery_hours xss)"
    by (simp add: unsealed_hours hours_of_draft assms(1) sourceOnlyClips_def comp_def)
  have "piece_fine (2 + 21 * (60000 + 184)) (ledger_json ?l)"
    unfolding ledger_json_def
    by (rule piece_fine_mono [OF object_fine [where n = 60000]])
      (use arrays sources pairs day ends hours assms(6-8) date_string_length [of 20500] three in
        \<open>simp_all add: piece_fine_simps src sample_parts(1-6) plain_hash_def comp_def assms(1,2)\<close>)
  then show ?thesis by (rule piece_fine_mono) simp
qed

section \<open>Witnesses\<close>

lemma delivery_numbered: "hours_numbered (delivery_hours xss)"
  by (auto simp: hours_numbered_def delivery_hours_def enumerate_map in_set_enumerate_eq nth_enumerate_eq)

lemma sealed_sources: "SealStreamDayAllocation hash tzdb d = Inr l \<Longrightarrow> sa_Sources l = sourceOnlyClips (draft_sources d)"
  by (erule Seal_Inr) simp

lemma sample_sealed:
  obtains d l s where "SealStreamDayAllocation plain_hash utc_zones d = Inr l" "draft_sources d = dq_Sources sample_request"
    "encode False (ledger_json l) = Some s" "length s \<le> MaxCanonicalJSONBytes"
proof -
  obtain d bs cross where d: "AllocateStreamDay plain_hash utc_zones sample_request = Inr d"
    "d = draft_of sample_request (date_string 20500) (utc_day 20500 0) (hour_sources (dq_Sources sample_request) 0 (map fst bs)) (map snd bs) cross"
    "length bs = 11" "draft_sources d = dq_Sources sample_request" "validateDraftBoundaries plain_hash utc_zones d = None"
    "\<forall>b \<in> set (map snd bs). piece_fine 4000 (hour_boundary_json b)" "length cross = 2" "\<forall>b \<in> set cross. piece_fine 4000 (day_boundary_json b)"
    by (rule sample_draft)
  let ?xss = "hour_sources (dq_Sources sample_request) 0 (map fst bs)"
  have twelve: "length ?xss = 12" using d(3) by (simp add: length_hour_sources)
  have all: "concat ?xss = dq_Sources sample_request" using d(4) by (simp add: d(2))
  have parts: "sd_Hours d = delivery_hours ?xss" "sd_Boundaries d = map snd bs" "sd_CrossDay d = cross" "sd_BatchID d = ''b1''" "sd_Generation d = 1"
    "sd_RecordingID d = 7" "sd_Timezone d = ''UTC''" "sd_LocalDate d = date_string 20500" "sd_QualificationDay d = utc_day 20500 0"
    "sd_QualificationSHA d = plain_hash []" by (simp_all add: d(2) sample_parts)
  have total: "total_bytes 0 (draft_sources d) = Some 3000" by (simp add: d(4) sample_parts max_int64_def)
  obtain m where m: "CanonicalSourceClaim plain_hash (sourceOnlyClips (draft_sources d)) = Some (plain_hash m, m)"
    using sample_claim unfolding d(4) by blast
  obtain p where p: "BuildFrozenDenominatorDayProjection plain_hash 7 (utc_day 20500 0) (plain_hash []) (FrozenSourceSnapshots (sourceOnlyClips (draft_sources d))) = Inr p"
    using sample_frozen unfolding d(4) by blast
  have f: "length (dp_FrozenSourceSHA256 p) \<le> 64" using frozen_projection [OF p] by (auto simp: plain_hash_def)
  let ?u = "unsealed_ledger plain_hash d 3000 (plain_hash m) (dp_FrozenSourceSHA256 p)"
  have fine: "piece_fine 2000000 (ledger_json (?u\<lparr>sa_LedgerSHA256 := s\<rparr>))" if "length s \<le> 64" for s
    by (rule sample_ledger_fine [OF d(2) all twelve _ d(7) that f _ d(6,8)]) (simp_all add: d(3) plain_hash_def)
  obtain c where c: "CanonicalSHA plain_hash (ledger_json ?u) = Some (plain_hash c, c)"
    using short_sha [of "ledger_json ?u" plain_hash] fine [of "[]"] by (auto simp: piece_fine_def)
  define l where "l = ?u\<lparr>sa_LedgerSHA256 := plain_hash c\<rparr>"
  have ok: "safe_name ''b1''" by code_simp
  have "SealStreamDayAllocation plain_hash utc_zones d = Inr l"
    using d(3,5,7) twelve sample_day_ok plain_hash_hex m p c total delivery_numbered ok
    by (simp add: SealStreamDayAllocation_def parts l_def)
  moreover obtain s where "encode False (ledger_json l) = Some s" "length s \<le> 2000000"
    using short_encodes [of "ledger_json l" False] fine [of "plain_hash c"] by (auto simp: piece_fine_def l_def plain_hash_def)
  ultimately show thesis using that [of d l s] d(4) by (simp add: MaxCanonicalJSONBytes_def)
qed

theorem sealed_ledger_published_witness:
  "\<exists>d l canonical. draft_sources d = dq_Sources sample_request \<and> ValidateStreamDayAllocation plain_hash utc_zones l d = None \<and>
    CanonicalAllocationLedgerArtifact plain_hash utc_zones l = Inr (canonical, plain_hash canonical)"
proof -
  obtain d l s where l: "SealStreamDayAllocation plain_hash utc_zones d = Inr l" "draft_sources d = dq_Sources sample_request"
    "encode False (ledger_json l) = Some s" "length s \<le> MaxCanonicalJSONBytes"
    by (rule sample_sealed)
  from sealed_ledger_published [OF plain_hash_hex l(1)] l(3,4) have "ValidateStreamDayAllocation plain_hash utc_zones l d = None"
    "CanonicalAllocationLedgerArtifact plain_hash utc_zones l = Inr (s, plain_hash s)" by simp_all
  with l(2) show ?thesis by blast
qed

theorem published_ledger_accounts_witness:
  "\<exists>l :: StreamDayAllocation. length (sa_Hours l) = 12 \<and> concat (map lh_SourceClipIDs (sa_Hours l)) = [1, 2, 3] \<and> sa_SourceBytes l = 3000"
proof -
  obtain d l s where l: "SealStreamDayAllocation plain_hash utc_zones d = Inr l" "draft_sources d = dq_Sources sample_request"
    "encode False (ledger_json l) = Some s" "length s \<le> MaxCanonicalJSONBytes"
    by (rule sample_sealed)
  then have pub: "CanonicalAllocationLedgerArtifact plain_hash utc_zones l = Inr (s, plain_hash s)"
    using sealed_published [OF plain_hash_hex l(1)] by simp
  have "sa_Sources l = sourceOnlyClips (dq_Sources sample_request)" using sealed_sources [OF l(1)] l(2) by simp
  then show ?thesis using published_ledger_accounts [OF pub] by (intro exI [of _ l]) (simp add: sourceOnlyClips_def sample_parts)
qed

end
