(* ===== verification/EvidenceWindows.thy ===== *)
theory EvidenceWindows
  imports Sealing
begin

text \<open>
  The fourteen days a recording is qualified by: what a sealed window promises, and a time zone in which no window over a
  certain day can be sealed.
\<close>

section \<open>What the loop over the days checks\<close>

lemma check_days_each:
  assumes "check_days loc w k previous seen xs" "i < length xs"
  shows "ParseInLocation (qd_LocalDate (xs ! i)) loc \<noteq> None \<and>
    local_window loc (qd_LocalDate (xs ! i)) (qd_WindowStart (xs ! i)) (qd_WindowEnd (xs ! i)) \<and>
    qd_Ordinal (xs ! i) = k + int i + 1 \<and> 0 < qd_JobID (xs ! i) \<and> qd_CompletedAt (xs ! i) \<le> qw_FrozenAt w \<and>
    validQualifiedDayAuthority (qw_RecordingID w) (qw_AuthorityKind w) (xs ! i)"
  using assms
proof (induction loc w k previous seen xs arbitrary: i rule: check_days.induct)
  case (2 loc w k previous seen x xs)
  then show ?case by (cases i) (auto split: option.splits)
qed simp

lemma check_days_jobs:
  "check_days loc w k previous seen xs \<Longrightarrow> distinct (map qd_JobID xs) \<and> set seen \<inter> qd_JobID ` set xs = {}"
  by (induction loc w k previous seen xs rule: check_days.induct) (auto split: option.splits)

text \<open>The date after a day is the midnight of the day moved by a day.\<close>

lemma check_days_next:
  assumes "check_days loc w k previous seen xs" "0 \<le> k" "Suc i < length xs"
    and "ParseInLocation (qd_LocalDate (xs ! i)) loc = Some a" "ParseInLocation (qd_LocalDate (xs ! Suc i)) loc = Some b"
  shows "b = add_days loc a 1"
  using assms
proof (induction loc w k previous seen xs arbitrary: i rule: check_days.induct)
  case (2 loc w k previous seen x xs)
  then obtain date where date: "ParseInLocation (qd_LocalDate x) loc = Some date" "check_days loc w (k + 1) date (qd_JobID x # seen) xs"
    by (auto split: option.splits)
  show ?case
  proof (cases i)
    case 0
    then obtain y ys where "xs = y # ys" using 2(4) by (cases xs) auto
    then show ?thesis using 2(3,5,6) 0 date by (auto split: option.splits)
  next
    case (Suc j)
    then show ?thesis using 2 date by (auto split: option.splits)
  qed
qed simp

lemma Seal_window_Some:
  assumes "SealQualificationWindow hash tzdb w = Some s"
  obtains loc b where "tzdb (qw_Timezone w) = Some loc" "0 < qw_RecordingID w" "length (qw_Days w) = 14"
    "check_days loc (w\<lparr>qw_EvidenceSHA := []\<rparr>) 0 zero_time [] (qw_Days w)" "encode False (window_json (w\<lparr>qw_EvidenceSHA := []\<rparr>)) = Some b"
    "s = w\<lparr>qw_EvidenceSHA := hash b\<rparr>"
  using assms by (auto simp: SealQualificationWindow_def Let_def CanonicalSHA_def split: option.splits if_splits)

section \<open>Sealed windows\<close>

text \<open>C27: a sealed window is what its name says. In a time zone with whole local days, sealing gives a window that its validator
  accepts, of fourteen days with consecutive local dates and jobs of their own; each day's window lasts from eight to eight
  on its own date, and ends before the next day's begins.\<close>

theorem sealed_window_wellformed:
  assumes "\<And>s. lowerHex64 (hash s)" "SealQualificationWindow hash tzdb w = Some s" "tzdb (qw_Timezone w) = Some loc" "regular_calendar loc"
  shows "ValidateQualificationWindow hash tzdb s \<and> length (qw_Days s) = 14 \<and> distinct (map qd_JobID (qw_Days s)) \<and>
    (\<exists>d. \<forall>i < 14. let x = qw_Days s ! i in qd_LocalDate x = date_string (d + int i) \<and> local_day loc (qd_WindowStart x) = d + int i \<and>
       qd_WindowEnd x = qd_WindowStart x + 12 * hour \<and> local_clock loc (qd_WindowStart x) = 8 * 3600 \<and>
       (i < 13 \<longrightarrow> qd_WindowEnd x < qd_WindowStart (qw_Days s ! Suc i)))"
proof -
  obtain b where b: "length (qw_Days w) = 14" "check_days loc (w\<lparr>qw_EvidenceSHA := []\<rparr>) 0 zero_time [] (qw_Days w)"
    "s = w\<lparr>qw_EvidenceSHA := hash b\<rparr>"
    using Seal_window_Some [OF assms(2)] assms(3) by (metis option.inject)
  have "SealQualificationWindow hash tzdb s = Some s" using assms(2) by (simp add: SealQualificationWindow_def b(3) Let_def)
  then have valid: "ValidateQualificationWindow hash tzdb s" using assms(1) by (simp add: ValidateQualificationWindow_def b(3))
  define e where "e i = the (parse_date (qd_LocalDate (qw_Days w ! i)))" for i
  note each = check_days_each [OF b(2)]
  have date: "parse_date (qd_LocalDate (qw_Days w ! i)) = Some (e i)" "qd_LocalDate (qw_Days w ! i) = date_string (e i)" if "i < 14" for i
    using each [of i] that b(1) parse_date_canonical [of "qd_LocalDate (qw_Days w ! i)"] by (auto simp: e_def ParseInLocation_def)
  have step: "e (Suc i) = e i + 1" if "i < 13" for i
  proof -
    have "go_date loc (e (Suc i)) 0 0 = add_days loc (go_date loc (e i) 0 0) 1"
      by (rule check_days_next [OF b(2)]) (use that b(1) date(1) [of i] date(1) [of "Suc i"] in \<open>auto simp: ParseInLocation_def\<close>)
    then have "local_day loc (go_date loc (e (Suc i)) 0 0) = local_day loc (go_date loc (e i) 0 0) + 1"
      using regular_calendar.day_add_days [OF assms(4)] by metis
    then show ?thesis using regular_calendar.day_of_date [OF assms(4)] by simp
  qed
  have e: "e i = e 0 + int i" if "i < 14" for i using that by (induction i) (simp_all add: step)
  have days: "local_day loc (qd_WindowStart (qw_Days w ! i)) = e i \<and> local_day loc (qd_WindowEnd (qw_Days w ! i)) = e i" if "i < 14" for i
    using each [of i] that b(1) date(2) [OF that] date_string_inj unfolding local_window_def local_date_def by auto
  have next_day: "qd_WindowEnd (qw_Days w ! i) < qd_WindowStart (qw_Days w ! Suc i)" if "i < 13" for i
  proof (rule ccontr)
    assume "\<not> ?thesis"
    then have "local_day loc (qd_WindowStart (qw_Days w ! Suc i)) \<le> local_day loc (qd_WindowEnd (qw_Days w ! i))"
      using regular_calendar.day_mono [OF assms(4)] by simp
    then show False using days [of i] days [of "Suc i"] step [OF that] that by simp
  qed
  have length: "qd_WindowEnd (qw_Days w ! i) = qd_WindowStart (qw_Days w ! i) + 12 * hour \<and> local_clock loc (qd_WindowStart (qw_Days w ! i)) = 8 * 3600"
    if "i < 14" for i
    using each [of i] that b(1) by (auto simp: local_window_def time_sub_def max_duration_def min_duration_def split: if_splits)
  have "let x = qw_Days w ! i in qd_LocalDate x = date_string (e 0 + int i) \<and> local_day loc (qd_WindowStart x) = e 0 + int i \<and>
      qd_WindowEnd x = qd_WindowStart x + 12 * hour \<and> local_clock loc (qd_WindowStart x) = 8 * 3600 \<and>
      (i < 13 \<longrightarrow> qd_WindowEnd x < qd_WindowStart (qw_Days w ! Suc i))" if "i < 14" for i
    unfolding Let_def e [OF that, symmetric] using date(2) [OF that] days [OF that] length [OF that] next_day [of i] by auto
  then show ?thesis using valid b(1,3) check_days_jobs [OF b(2)] by auto
qed

lemma utc_window_sealed: "SealQualificationWindow plain_hash utc_zones (utc_window 20500) = Some (utc_window 20500)"
  using utc_window_valid [of 20500]
  by (auto simp: ValidateQualificationWindow_def SealQualificationWindow_def Let_def utc_window_def split: option.splits if_splits)

theorem sealed_window_wellformed_witness:
  "ValidateQualificationWindow plain_hash utc_zones (utc_window 20500) \<and>
    qd_WindowEnd (qw_Days (utc_window 20500) ! 0) < qd_WindowStart (qw_Days (utc_window 20500) ! 1)"
proof -
  have "utc_zones (qw_Timezone (utc_window 20500)) = Some utc" by (simp add: utc_zones_def)
  note w = sealed_window_wellformed [OF plain_hash_hex utc_window_sealed this utc_cal.regular_calendar_axioms]
  then show ?thesis by (auto simp: Let_def dest!: spec [of _ 0] simp del: upt_Suc)
qed

section \<open>A day without a midnight\<close>

lemma santiago_parse: "parse_date ''2026-09-06'' = Some 20702"
  by code_simp

text \<open>C28: No window over a day without a midnight can be sealed. Where clocks go forward at the midnight of a day (west of UTC, and by
  less than the other offsets of the zone leave of a day), the code takes the day to begin late on the day before; a day later is
  then no day's midnight. Whatever its evidence, a window in which such a day is followed by another is refused.\<close>

theorem missing_midnight_refused:
  assumes "tzdb (qw_Timezone w) = Some loc" "i < 13" "parse_date (qd_LocalDate (qw_Days w ! i)) = Some d"
    and forward: "forward_at_midnight loc d off by" "\<And>s. \<bar>offset_at loc s - (off + by)\<bar> < day_seconds - by"
  shows "SealQualificationWindow hash tzdb w = None"
proof (rule ccontr)
  assume "\<not> ?thesis"
  then obtain s where "SealQualificationWindow hash tzdb w = Some s" by auto
  then have days: "length (qw_Days w) = 14" "check_days loc (w\<lparr>qw_EvidenceSHA := []\<rparr>) 0 zero_time [] (qw_Days w)"
    using Seal_window_Some assms(1) by (metis option.inject)+
  have "ParseInLocation (qd_LocalDate (qw_Days w ! Suc i)) loc \<noteq> None"
    using check_days_each [OF days(2), of "Suc i"] assms(2) days(1) by simp
  then obtain e where e: "ParseInLocation (qd_LocalDate (qw_Days w ! Suc i)) loc = Some (go_date loc e 0 0)"
    by (auto simp: ParseInLocation_def)
  have "go_date loc e 0 0 = add_days loc (go_date loc d 0 0) 1"
    by (rule check_days_next [OF days(2)]) (use assms(2,3) days(1) e in \<open>simp_all add: ParseInLocation_def\<close>)
  then have "date_unix loc e 0 = d * day_seconds + day_seconds - off - 2 * by" unfolding forward_next(1) [OF forward(1)] by (simp add: go_date_def)
  then show False using forward_not_midnight [OF forward] by blast
qed

definition santiago_day :: "int \<Rightarrow> nat \<Rightarrow> QualifiedDay" where
  "santiago_day d i = (utc_day d i)\<lparr>qd_WindowStart := go_date santiago_2026 (d + int i) 28800 0,
     qd_WindowEnd := go_date santiago_2026 (d + int i) 72000 0, qd_CompletedAt := go_date santiago_2026 (d + int i) 72000 0\<rparr>"

text \<open>Fourteen consecutive days, each recorded from eight to eight.\<close>

theorem missing_midnight_refused_witness:
  "SealQualificationWindow plain_hash (\<lambda>_. Some santiago_2026) (utc_window 20700\<lparr>qw_Days := map (santiago_day 20700) [0..<14]\<rparr>) = None"
proof (rule missing_midnight_refused [where i = 2, OF _ _ _ forward_santiago])
  have "date_string 20702 = ''2026-09-06''" using parse_date_canonical [OF santiago_parse] .
  then show "parse_date (qd_LocalDate (qw_Days (utc_window 20700\<lparr>qw_Days := map (santiago_day 20700) [0..<14]\<rparr>) ! 2)) = Some 20702"
    by (simp add: santiago_day_def santiago_parse del: upt_Suc)
  show "\<bar>offset_at santiago_2026 s - (- 14400 + 3600)\<bar> < day_seconds - 3600" for s
    by (simp add: offset_at_santiago)
qed simp_all

end
