(* ===== verification/Naming.thy ===== *)
theory Naming
  imports Digests
begin

text \<open>
  The names recordings are delivered under (recordingnaming/naming.go, collated_path.go). The time-zone database is the
  parameter \<open>tzdb\<close> of \<open>time.LoadLocation\<close>. Strings are ASCII: Go drops every rune above ASCII from a token except the
  Unicode spaces, which it would turn into underscores. Decoding and encoding the metadata's JSON are the library's.
\<close>

section \<open>Strings\<close>

text \<open>\<open>strconv.Atoi\<close>.\<close>

definition Atoi :: "string \<Rightarrow> int option" where
  "Atoi s = (let (neg, ds) = scan_sign s; v = (if neg then - read_digits ds else read_digits ds) in
     if ds = [] \<or> \<not> list_all is_digit ds \<or> v < min_int64 \<or> max_int64 < v then None else Some v)"

text \<open>\<open>strings.Trim\<close> with a set of characters.\<close>

definition Trim :: "char list \<Rightarrow> string \<Rightarrow> string" where
  "Trim cs s = rev (dropWhile (\<lambda>c. c \<in> set cs) (rev (dropWhile (\<lambda>c. c \<in> set cs) s)))"

text \<open>\<open>%02d\<close> and \<open>%04d\<close>: the width counts the sign.\<close>

definition fmt_d :: "nat \<Rightarrow> int \<Rightarrow> string" where
  "fmt_d w i = (if i < 0 then CHR ''-'' # zero_pad (w - 1) (decimal (nat (- i))) else zero_pad w (decimal (nat i)))"

definition month_name :: "int \<Rightarrow> string" where
  "month_name m = [''January'', ''February'', ''March'', ''April'', ''May'', ''June'', ''July'', ''August'', ''September'',
     ''October'', ''November'', ''December''] ! nat ((m - 1) mod 12)"

definition weekday_name :: "int \<Rightarrow> string" where
  "weekday_name w = [''Sunday'', ''Monday'', ''Tuesday'', ''Wednesday'', ''Thursday'', ''Friday'', ''Saturday''] ! nat (w mod 7)"

text \<open>\<open>t.Format("150405")\<close> for a time of day in seconds.\<close>

definition clock_digits :: "int \<Rightarrow> string" where
  "clock_digits s = append_int (s div 3600) 2 @ append_int (s div 60 mod 60) 2 @ append_int (s mod 60) 2"

text \<open>\<open>_+\<close> replaced by \<open>_\<close>.\<close>

fun squeeze :: "string \<Rightarrow> string" where
  "squeeze [] = []"
| "squeeze [c] = [c]"
| "squeeze (c # e # s) = (if c = CHR ''_'' \<and> e = CHR ''_'' then squeeze (e # s) else c # squeeze (e # s))"

definition token_char :: "char \<Rightarrow> string" where
  "token_char c =
     (if c = CHR ''-'' \<or> c = CHR ''.'' then [c]
      else if c = CHR ''_'' \<or> is_space c then ''_''
      else if is_digit c \<or> 65 \<le> (of_char c :: nat) \<and> (of_char c :: nat) \<le> 90 \<or> 97 \<le> (of_char c :: nat) \<and> (of_char c :: nat) \<le> 122
      then [c] else [])"

definition sanitizeToken :: "string \<Rightarrow> string" where
  "sanitizeToken raw = Trim ''_.'' (squeeze (concat (map token_char (TrimSpace raw))))"

datatype naming_error = FolderRequired | InvalidSegment | MetadataRequired | InvalidPlazaID | UnknownZone | InvalidRange
  | InvalidPart | HourOutOfRange | UnknownProfile | InvalidSchedule | NotAClockHour

text \<open>The segments of a folder name, each sanitized.\<close>

fun sanitize_parts :: "string list \<Rightarrow> naming_error + string list" where
  "sanitize_parts [] = Inr []"
| "sanitize_parts (p # ps) =
     (let clean = sanitizeToken p in
      if clean = [] \<or> clean = ''.'' \<or> clean = ''..'' then Inl InvalidSegment
      else map_sum id (Cons clean) (sanitize_parts ps))"

definition sanitizePath :: "string \<Rightarrow> naming_error + string" where
  "sanitizePath raw = (let trimmed = Trim ''/'' (TrimSpace raw) in
     if trimmed = [] then Inl FolderRequired else map_sum id (join_with ''/'') (sanitize_parts (split_on CHR ''/'' trimmed)))"

definition joinClean :: "string list \<Rightarrow> string" where
  "joinClean parts = join_with ''_'' parts"

section \<open>Profiles and metadata\<close>

datatype Profile = ProfileStoaramaV1 | ProfilePlazaHourlyV1 | OtherProfile string
datatype NameKind = NameClip | NameContinuousWindow

definition ParseProfile :: "string \<Rightarrow> Profile option" where
  "ParseProfile raw = (let s = TrimSpace raw in
     if s = ''stoarama_v1'' then Some ProfileStoaramaV1 else if s = ''plaza_hourly_v1'' then Some ProfilePlazaHourlyV1 else None)"

record Metadata =
  md_PlazaID :: string
  md_Continent :: string
  md_Country :: string
  md_City :: string
  md_PlazaName :: string

text \<open>\<open>MarshalMetadata\<close>.\<close>

definition metadata_json :: "Metadata \<Rightarrow> json" where
  "metadata_json m = JObject [(''plaza_id'', JString (md_PlazaID m)), (''continent'', JString (md_Continent m)),
     (''country'', JString (md_Country m)), (''city'', JString (md_City m)), (''plaza_name'', JString (md_PlazaName m))]"

definition ValidatePlazaHourly :: "Metadata \<Rightarrow> naming_error option" where
  "ValidatePlazaHourly m =
     (if \<exists>s \<in> set [md_PlazaID m, md_Continent m, md_Country m, md_City m, md_PlazaName m]. TrimSpace s = [] then Some MetadataRequired
      else case Atoi (md_PlazaID m) of None \<Rightarrow> Some InvalidPlazaID
        | Some i \<Rightarrow> if i \<le> 0 \<or> Trim ''0123456789'' (md_PlazaID m) \<noteq> [] then Some InvalidPlazaID else None)"

definition twoDigitID :: "string \<Rightarrow> int \<Rightarrow> string" where
  "twoDigitID raw recordingID = fmt_d 2 (case Atoi (TrimSpace raw) of None \<Rightarrow> recordingID | Some i \<Rightarrow> i)"

definition BuildFolderName :: "Profile \<Rightarrow> int \<Rightarrow> Metadata \<Rightarrow> string \<Rightarrow> naming_error + string" where
  "BuildFolderName profile recordingID m raw =
     (let folder = TrimSpace raw in case profile of
        ProfileStoaramaV1 \<Rightarrow> if folder \<noteq> [] then sanitizePath folder else Inr ''recordings''
      | ProfilePlazaHourlyV1 \<Rightarrow> (case ValidatePlazaHourly m of Some e \<Rightarrow> Inl e
          | None \<Rightarrow> if folder \<noteq> [] then sanitizePath folder
              else Inr (joinClean [twoDigitID (md_PlazaID m) recordingID, sanitizeToken (md_Continent m),
                sanitizeToken (md_Country m), sanitizeToken (md_City m), sanitizeToken (md_PlazaName m)]))
      | OtherProfile s \<Rightarrow> Inl UnknownProfile)"

definition IsAllowedClipDuration :: "int \<Rightarrow> bool" where
  "IsAllowedClipDuration sec \<longleftrightarrow> 5 \<le> sec \<and> sec \<le> 900"

text \<open>\<open>parseClock\<close>: hour, minute and second, \<open>None\<close> where the code returns false.\<close>

definition parseClock :: "string \<Rightarrow> (int \<times> int \<times> int) option" where
  "parseClock raw =
     (let parts = split_on CHR '':'' (TrimSpace raw) in
      if length parts \<noteq> 2 \<and> length parts \<noteq> 3 then None
      else case (Atoi (parts ! 0), Atoi (parts ! 1), if length parts = 3 then Atoi (parts ! 2) else Some 0) of
        (Some h, Some m, Some s) \<Rightarrow> if 0 \<le> h \<and> h \<le> 23 \<and> 0 \<le> m \<and> m \<le> 59 \<and> 0 \<le> s \<and> s \<le> 59 then Some (h, m, s) else None
      | _ \<Rightarrow> None)"

definition ValidateSchedule :: "Profile \<Rightarrow> string \<Rightarrow> string \<Rightarrow> int \<Rightarrow> string \<Rightarrow> string \<Rightarrow> naming_error option" where
  "ValidateSchedule profile mode cronExpr clipDurationSec windowStart windowEnd =
     (if profile \<noteq> ProfilePlazaHourlyV1 then None
      else if TrimSpace mode = ''sampled'' then (if TrimSpace cronExpr \<noteq> ''0 8-19 * * *'' then Some InvalidSchedule else None)
      else if TrimSpace mode = ''continuous'' then
        (if clipDurationSec \<notin> {60, 300, 600} \<or> parseClock windowStart = None \<or> parseClock windowEnd = None
         then Some InvalidSchedule else None)
      else Some InvalidSchedule)"

section \<open>Display paths\<close>

record NamePolicy =
  np_Profile :: Profile
  np_JobKind :: NameKind
  np_FolderName :: string
  np_Metadata :: Metadata
  np_RecordingID :: int
  np_JobID :: int
  np_CronTimezone :: string
  np_ClipStartedAt :: gotime

definition buildStoaramaPath :: "NamePolicy \<Rightarrow> naming_error + string" where
  "buildStoaramaPath p = (case sanitizePath (np_FolderName p) of Inl e \<Rightarrow> Inl e | Inr folder \<Rightarrow>
     Inr (path_join [folder, if np_JobKind p = NameContinuousWindow
       then Itoa (np_RecordingID p) @ ''/continuous/'' @ Itoa (unix (np_ClipStartedAt p)) @ ''.mp4''
       else Itoa (np_RecordingID p) @ ''/'' @ Itoa (np_JobID p) @ ''/'' @ Itoa (np_ClipStartedAt p div 1000000) @ ''.mp4'']))"

definition plazaHourlyHour :: "location \<Rightarrow> gotime \<Rightarrow> int" where
  "plazaHourlyHour loc t = local_clock loc t div 3600 - 7"

text \<open>\<open>%s_%s_%04d_%s_W%d_%s_hour_\<close>: the part of a file name that names the plaza and the day.\<close>

definition day_stem :: "string \<Rightarrow> string \<Rightarrow> int \<Rightarrow> string" where
  "day_stem plazaID plazaName d = (case civil d of (y, m, k) \<Rightarrow>
     plazaID @ ''_'' @ plazaName @ ''_'' @ fmt_d 4 y @ ''_'' @ month_name m @ ''_W'' @ Itoa ((k - 1) div 7 + 1) @ ''_'' @
     weekday_name (weekday_of_day d) @ ''_hour_'')"

text \<open>\<open>%02d-%s\<close> of the day of the month and the weekday, under the month.\<close>

definition day_folder :: "int \<Rightarrow> string list" where
  "day_folder d = (case civil d of (y, m, k) \<Rightarrow> [month_name m, fmt_d 2 k @ ''-'' @ weekday_name (weekday_of_day d)])"

definition buildPlazaHourlyPath :: "(string \<Rightarrow> location option) \<Rightarrow> NamePolicy \<Rightarrow> naming_error + string" where
  "buildPlazaHourlyPath tzdb p = (case ValidatePlazaHourly (np_Metadata p) of Some e \<Rightarrow> Inl e | None \<Rightarrow>
     (case sanitizePath (np_FolderName p) of Inl e \<Rightarrow> Inl e | Inr folder \<Rightarrow>
     (case tzdb (TrimSpace (np_CronTimezone p)) of None \<Rightarrow> Inl UnknownZone | Some loc \<Rightarrow>
      let t = np_ClipStartedAt p; d = local_day loc t; h = plazaHourlyHour loc t in
      if np_JobKind p \<noteq> NameContinuousWindow \<and> (h < 1 \<or> 12 < h) then Inl HourOutOfRange
      else Inr (path_join ([folder] @ day_folder d @
        [day_stem (twoDigitID (md_PlazaID (np_Metadata p)) (np_RecordingID p)) (sanitizeToken (md_PlazaName (np_Metadata p))) d @
         (if np_JobKind p = NameContinuousWindow then clock_digits (local_clock loc t) else fmt_d 2 h) @ ''.mp4''])))))"

definition BuildDisplayPath :: "(string \<Rightarrow> location option) \<Rightarrow> NamePolicy \<Rightarrow> naming_error + string" where
  "BuildDisplayPath tzdb p = (case np_Profile p of ProfileStoaramaV1 \<Rightarrow> buildStoaramaPath p
     | ProfilePlazaHourlyV1 \<Rightarrow> buildPlazaHourlyPath tzdb p | OtherProfile s \<Rightarrow> Inl UnknownProfile)"

section \<open>Joined and collated paths\<close>

record JoinedPolicy =
  jp_FolderName :: string
  jp_Metadata :: Metadata
  jp_CronTimezone :: string
  jp_ActualStart :: gotime
  jp_ActualEnd :: gotime
  jp_Hour :: int
  jp_Part :: int
  jp_Parts :: int

definition BuildJoinedPath :: "(string \<Rightarrow> location option) \<Rightarrow> JoinedPolicy \<Rightarrow> naming_error + string" where
  "BuildJoinedPath tzdb p = (case ValidatePlazaHourly (jp_Metadata p) of Some e \<Rightarrow> Inl e | None \<Rightarrow>
     (case sanitizePath (jp_FolderName p) of Inl e \<Rightarrow> Inl e | Inr folder \<Rightarrow>
     (case tzdb (TrimSpace (jp_CronTimezone p)) of None \<Rightarrow> Inl UnknownZone | Some loc \<Rightarrow>
      let start = jp_ActualStart p; stop = jp_ActualEnd p; d = local_day loc start in
      if \<not> start < stop \<or> d \<noteq> local_day loc stop \<or> jp_Hour p < 1 \<or> 12 < jp_Hour p then Inl InvalidRange
      else if jp_Parts p < 1 \<or> jp_Part p < 1 \<or> jp_Parts p < jp_Part p \<or> jp_Parts p = 1 \<and> jp_Part p \<noteq> 1 then Inl InvalidPart
      else Inr (path_join [folder, month_name (fst (snd (civil d))), weekday_name (weekday_of_day d),
        day_stem (twoDigitID (md_PlazaID (jp_Metadata p)) 0) (sanitizeToken (md_PlazaName (jp_Metadata p))) d @ fmt_d 2 (jp_Hour p) @
        (if 1 < jp_Parts p then ''_part_'' @ fmt_d 2 (jp_Part p) else []) @
        ''_'' @ clock_digits (local_clock loc start) @ ''-'' @ clock_digits (local_clock loc stop) @ ''.mp4'']))))"

record CollatedPolicy =
  cp_FolderName :: string
  cp_Metadata :: Metadata
  cp_Timezone :: string
  cp_HourStart :: gotime
  cp_ActualStart :: gotime
  cp_ActualEnd :: gotime
  cp_Part :: int
  cp_Parts :: int

definition collatedHourOverrun :: duration where "collatedHourOverrun = 15 * minute"
definition collatedMaxParts :: int where "collatedMaxParts = 99"

text \<open>The name of a local hour; the second occurrence of a repeated one is marked.\<close>

definition hour_token :: "location \<Rightarrow> gotime \<Rightarrow> string" where
  "hour_token loc t = fmt_d 2 (local_clock loc t div 3600) @
     (if local_clock loc (t - hour) div 3600 = local_clock loc t div 3600 then ''_dst2'' else [])"

definition collatedHourBase :: "(string \<Rightarrow> location option) \<Rightarrow> CollatedPolicy \<Rightarrow> naming_error + (string \<times> string \<times> location)" where
  "collatedHourBase tzdb p = (case ValidatePlazaHourly (cp_Metadata p) of Some e \<Rightarrow> Inl e | None \<Rightarrow>
     (case sanitizePath (cp_FolderName p) of Inl e \<Rightarrow> Inl e | Inr folder \<Rightarrow>
     (case tzdb (TrimSpace (cp_Timezone p)) of None \<Rightarrow> Inl UnknownZone | Some loc \<Rightarrow>
      let t = cp_HourStart p; d = local_day loc t in
      if local_clock loc t mod 3600 \<noteq> 0 \<or> nsec t \<noteq> 0 then Inl NotAClockHour
      else Inr (path_join ([folder] @ day_folder d),
        day_stem (twoDigitID (md_PlazaID (cp_Metadata p)) 0) (sanitizeToken (md_PlazaName (cp_Metadata p))) d @ hour_token loc t,
        loc))))"

definition BuildCollatedPath :: "(string \<Rightarrow> location option) \<Rightarrow> CollatedPolicy \<Rightarrow> naming_error + string" where
  "BuildCollatedPath tzdb p = (case collatedHourBase tzdb p of Inl e \<Rightarrow> Inl e | Inr (dir, base, loc) \<Rightarrow>
     let hourEnd = cp_HourStart p + hour; start = cp_ActualStart p; stop = cp_ActualEnd p in
     if start < cp_HourStart p \<or> \<not> start < hourEnd \<or> \<not> start < stop \<or> hourEnd + collatedHourOverrun < stop then Inl InvalidRange
     else if cp_Parts p < 1 \<or> collatedMaxParts < cp_Parts p \<or> cp_Part p < 1 \<or> cp_Parts p < cp_Part p then Inl InvalidPart
     else Inr (path_join [dir, base @ (if 1 < cp_Parts p then ''_part_'' @ fmt_d 2 (cp_Part p) else []) @
       ''_'' @ clock_digits (local_clock loc start) @ ''-'' @ clock_digits (local_clock loc stop) @ ''.mp4'']))"

definition BuildCollatedManifestPath :: "(string \<Rightarrow> location option) \<Rightarrow> CollatedPolicy \<Rightarrow> naming_error + string" where
  "BuildCollatedManifestPath tzdb p = (case collatedHourBase tzdb p of Inl e \<Rightarrow> Inl e
     | Inr (dir, base, loc) \<Rightarrow> Inr (path_join [dir, base @ ''.manifest.json'']))"

section \<open>Safe segments\<close>

definition name_char :: "char \<Rightarrow> bool" where
  "name_char c \<longleftrightarrow> is_digit c \<or> 65 \<le> (of_char c :: nat) \<and> (of_char c :: nat) \<le> 90 \<or>
     97 \<le> (of_char c :: nat) \<and> (of_char c :: nat) \<le> 122 \<or> c \<in> set ''-._''"

definition safe_segment :: "string \<Rightarrow> bool" where
  "safe_segment s \<longleftrightarrow> s \<noteq> [] \<and> s \<noteq> ''.'' \<and> s \<noteq> ''..'' \<and> list_all name_char s"

lemma name_char_plain: "name_char c \<Longrightarrow> c \<noteq> CHR ''/'' \<and> c \<noteq> CHR 0x5C \<and> c \<noteq> CHR 0x00"
  by (auto simp: name_char_def is_digit_def)

lemma safe_segment_plain: "safe_segment s \<Longrightarrow> CHR ''/'' \<notin> set s \<and> CHR 0x5C \<notin> set s \<and> CHR 0x00 \<notin> set s"
  using name_char_plain by (fastforce simp: safe_segment_def list_all_iff)

lemma set_squeeze: "set (squeeze s) \<subseteq> set s"
  by (induction s rule: squeeze.induct) auto

lemma set_Trim: "set (Trim cs s) \<subseteq> set s"
  unfolding Trim_def by (auto dest!: set_dropWhileD)

lemma Trim_ends: "Trim cs s \<noteq> [] \<Longrightarrow> hd (Trim cs s) \<notin> set cs"
proof -
  let ?l = "dropWhile (\<lambda>c. c \<in> set cs) s"
  assume ne: "Trim cs s \<noteq> []"
  then obtain c l where l: "?l = c # l" by (cases ?l) (simp_all add: Trim_def)
  have c: "c \<notin> set cs" using hd_dropWhile [of "\<lambda>c. c \<in> set cs" s] l by auto
  have "rev ?l = rev l @ [c]" by (simp add: l)
  then have "dropWhile (\<lambda>c. c \<in> set cs) (rev ?l) = dropWhile (\<lambda>c. c \<in> set cs) (rev l) @ [c]"
    using c by (auto simp: dropWhile_append)
  then show ?thesis using c by (simp add: Trim_def)
qed

lemma sanitizeToken_chars: "list_all name_char (sanitizeToken raw)"
proof -
  have "name_char d" if "d \<in> set (token_char c)" for c d
    using that unfolding token_char_def name_char_def by (simp split: if_splits; blast)
  then have "\<forall>d \<in> set (concat (map token_char (TrimSpace raw))). name_char d" by auto
  then show ?thesis using set_squeeze set_Trim by (fastforce simp: sanitizeToken_def list_all_iff)
qed

lemma sanitizeToken_safe: "sanitizeToken raw \<noteq> [] \<Longrightarrow> safe_segment (sanitizeToken raw)"
  using sanitizeToken_chars [of raw] Trim_ends [of "''_.''" "squeeze (concat (map token_char (TrimSpace raw)))"]
  by (auto simp: safe_segment_def sanitizeToken_def)

lemma sanitize_parts_safe: "sanitize_parts ps = Inr qs \<Longrightarrow> list_all safe_segment qs \<and> (ps \<noteq> [] \<longrightarrow> qs \<noteq> [])"
proof (induction ps arbitrary: qs)
  case (Cons p ps)
  then show ?case using sanitizeToken_safe [of p]
    by (cases "sanitize_parts ps") (auto simp: Let_def split: if_splits)
qed simp

lemma split_on_nonempty: "split_on c s \<noteq> []"
  by (induction c s rule: split_on.induct) (auto split: list.splits)

lemma sanitizePath_parts:
  assumes "sanitizePath raw = Inr f"
  obtains ps where "f = join_with ''/'' ps" "ps \<noteq> []" "list_all safe_segment ps"
proof -
  let ?parts = "split_on CHR ''/'' (Trim ''/'' (TrimSpace raw))"
  obtain ps where "sanitize_parts ?parts = Inr ps" "f = join_with ''/'' ps"
    using assms by (cases "sanitize_parts ?parts") (auto simp: sanitizePath_def Let_def split: if_splits)
  with sanitize_parts_safe [OF this(1)] that show thesis using split_on_nonempty by blast
qed

section \<open>Joining safe segments\<close>

lemma split_on_plain: "c \<notin> set s \<Longrightarrow> split_on c s = [s]"
  by (induction s) auto

lemma split_on_append: "c \<notin> set s \<Longrightarrow> split_on c (s @ c # t) = s # split_on c t"
  by (induction s) auto

lemma join_Cons: "ps \<noteq> [] \<Longrightarrow> join_with sep (p # ps) = p @ sep @ join_with sep ps"
  by (cases ps) simp_all

lemma split_join: "ps \<noteq> [] \<Longrightarrow> list_all safe_segment ps \<Longrightarrow> split_on CHR ''/'' (join_with ''/'' ps) = ps"
  by (induction ps rule: list_nonempty_induct)
    (use safe_segment_plain in \<open>auto simp: split_on_plain split_on_append join_Cons\<close>)

lemma clean_safe: "list_all safe_segment ps \<Longrightarrow> clean_elems rooted acc ps = rev acc @ ps"
  by (induction ps arbitrary: acc) (auto simp: safe_segment_def)

lemma join_rooted: "ps \<noteq> [] \<Longrightarrow> list_all safe_segment ps \<Longrightarrow> \<not> HasPrefix (join_with ''/'' ps) ''/''"
proof -
  assume "ps \<noteq> []" "list_all safe_segment ps"
  then obtain p qs where ps: "ps = p # qs" "safe_segment p" by (cases ps) auto
  then obtain c s where p: "p = c # s" by (cases p) (auto simp: safe_segment_def)
  show ?thesis using safe_segment_plain [OF ps(2)] unfolding ps(1) p by (cases qs) auto
qed

lemma join_nonempty: "ps \<noteq> [] \<Longrightarrow> list_all safe_segment ps \<Longrightarrow> join_with ''/'' ps \<noteq> []"
  by (cases ps rule: list.exhaust, simp, rename_tac p qs, case_tac qs) (auto simp: safe_segment_def)

lemma path_clean_join: "ps \<noteq> [] \<Longrightarrow> list_all safe_segment ps \<Longrightarrow> path_clean (join_with ''/'' ps) = join_with ''/'' ps"
  using join_nonempty [of ps] by (simp add: path_clean_def Let_def join_rooted split_join clean_safe)

lemma join_append: "ps \<noteq> [] \<Longrightarrow> qs \<noteq> [] \<Longrightarrow> join_with sep (ps @ qs) = join_with sep ps @ sep @ join_with sep qs"
proof (induction ps)
  case (Cons p ps)
  then show ?case by (cases ps; cases qs) auto
qed simp

lemma safe_key_join:
  assumes "ps \<noteq> []" "list_all safe_segment ps"
  shows "safeObjectKey (join_with ''/'' ps)"
proof -
  have chars: "set (join_with ''/'' ps) \<subseteq> insert CHR ''/'' (\<Union>(set ` set ps))"
    using assms(1) by (induction ps rule: list_nonempty_induct) (auto simp: join_Cons)
  have "CHR 0x5C \<notin> set (join_with ''/'' ps)" "CHR 0x00 \<notin> set (join_with ''/'' ps)"
    using chars assms(2) safe_segment_plain by (force simp: list_all_iff)+
  moreover have "join_with ''/'' ps \<noteq> ''.''" "join_with ''/'' ps \<noteq> ''..''"
    using split_join [OF assms(1,2)] assms(2) by (auto simp: safe_segment_def)
  ultimately show ?thesis
    using join_nonempty [OF assms(1,2)] join_rooted [OF assms(1,2)] path_clean_join [OF assms(1,2)] by (simp add: safeObjectKey_def)
qed

section \<open>Generated segments\<close>

named_theorems name_chars \<open>generated parts of a name consist of name characters\<close>

lemma decimal_plain: "\<not> is_digit c \<Longrightarrow> c \<notin> set (decimal n)"
  using decimal_digits by blast

lemma digits_name [name_chars]: "list_all is_digit s \<Longrightarrow> list_all name_char s"
  by (auto simp: list_all_iff name_char_def)

lemma zero_pad_name [name_chars]: "list_all name_char (zero_pad w (decimal n))"
  using zero_pad_digits by (intro digits_name) (auto simp: list_all_iff)

lemma fmt_d_name [name_chars]: "list_all name_char (fmt_d w i)"
  by (simp add: fmt_d_def zero_pad_name name_char_def)

lemma append_int_name [name_chars]: "list_all name_char (append_int i w)"
  by (simp add: append_int_def zero_pad_name name_char_def)

lemma Itoa_name [name_chars]: "list_all name_char (Itoa i)"
  using decimal_digits by (auto simp: Itoa_def name_char_def list_all_iff)

lemma clock_digits_name [name_chars]: "list_all name_char (clock_digits s)"
  by (simp add: clock_digits_def name_chars)

lemma name_members:
  "month_name m \<in> set [''January'', ''February'', ''March'', ''April'', ''May'', ''June'', ''July'', ''August'', ''September'',
     ''October'', ''November'', ''December'']"
  "weekday_name w \<in> set [''Sunday'', ''Monday'', ''Tuesday'', ''Wednesday'', ''Thursday'', ''Friday'', ''Saturday'']"
  unfolding month_name_def weekday_name_def by (rule nth_mem; simp add: nat_less_iff)+

lemma month_name_safe [name_chars]: "list_all name_char (month_name m)" "safe_segment (month_name m)"
  using name_members(1) [of m] by (auto simp: safe_segment_def name_char_def)

lemma weekday_name_safe [name_chars]: "list_all name_char (weekday_name w)" "safe_segment (weekday_name w)"
  using name_members(2) [of w] by (auto simp: safe_segment_def name_char_def)

lemma hour_token_name [name_chars]: "list_all name_char (hour_token loc t)"
  by (simp add: hour_token_def name_chars) (simp add: name_char_def is_digit_def)

lemma day_stem_name [name_chars]: "list_all name_char a \<Longrightarrow> list_all name_char b \<Longrightarrow> list_all name_char (day_stem a b d)"
  by (cases "civil d") (simp add: day_stem_def name_chars, simp add: name_char_def)

lemma twoDigitID_name [name_chars]: "list_all name_char (twoDigitID raw i)"
  by (simp add: twoDigitID_def name_chars)

lemma mp4_safe: "list_all name_char s \<Longrightarrow> safe_segment (s @ ''.mp4'')"
  by (auto simp: safe_segment_def name_char_def is_digit_def append_eq_Cons_conv)

lemma json_safe: "list_all name_char s \<Longrightarrow> safe_segment (s @ ''.manifest.json'')"
  by (auto simp: safe_segment_def name_char_def append_eq_Cons_conv)

lemma Itoa_safe: "safe_segment (Itoa i)"
proof -
  have "Itoa i \<noteq> []" by (subst Itoa_def, subst decimal.simps, subst decimal.simps) simp
  moreover have "CHR ''.'' \<notin> set (Itoa i)" using decimal_plain [of "CHR ''.''"] by (simp add: Itoa_def is_digit_def)
  ultimately show ?thesis using Itoa_name [of i] by (auto simp: safe_segment_def)
qed

lemma day_folder_safe: "list_all safe_segment (day_folder d)"
proof -
  obtain y m k where c: "civil d = (y, m, k)" by (cases "civil d")
  have "\<exists>c s. weekday_name w = c # s \<and> c \<noteq> CHR ''.''" for w using name_members(2) [of w] by auto
  then obtain c s where w: "weekday_name (weekday_of_day d) = c # s" by blast
  have "list_all name_char (fmt_d 2 k @ ''-'' @ weekday_name (weekday_of_day d))"
    by (simp add: name_chars) (simp add: name_char_def)
  moreover have "CHR ''-'' \<in> set (fmt_d 2 k @ ''-'' @ weekday_name (weekday_of_day d))" by simp
  moreover have "CHR ''-'' \<notin> set x" if "x \<in> {[], ''.'', ''..''}" for x using that by auto
  ultimately have "list_all name_char (fmt_d 2 k @ ''-'' @ weekday_name (weekday_of_day d))"
    "fmt_d 2 k @ ''-'' @ weekday_name (weekday_of_day d) \<notin> {[], ''.'', ''..''}" by blast+
  then show ?thesis by (simp add: day_folder_def c month_name_safe) (simp add: safe_segment_def)
qed

text \<open>A path made of a sanitized folder and safe segments.\<close>

lemma folder_path:
  assumes "sanitizePath raw = Inr f" "qs \<noteq> []" "list_all safe_segment qs"
  shows "path_join (f # map (join_with ''/'') [qs]) = f @ ''/'' @ join_with ''/'' qs \<and>
    safeObjectKey (f @ ''/'' @ join_with ''/'' qs)"
proof -
  obtain ps where f: "f = join_with ''/'' ps" "ps \<noteq> []" "list_all safe_segment ps" using sanitizePath_parts [OF assms(1)] .
  have ne: "f \<noteq> []" using join_nonempty f by simp
  have all: "ps @ qs \<noteq> []" "list_all safe_segment (ps @ qs)" using f assms by auto
  have "f @ ''/'' @ join_with ''/'' qs = join_with ''/'' (ps @ qs)" using join_append [OF f(2) assms(2)] f(1) by simp
  then show ?thesis
    using path_clean_join [OF all] safe_key_join [OF all] ne by (simp add: path_join_def Let_def)
qed

lemma path_join_segments:
  assumes "f \<noteq> []" "qs \<noteq> []"
  shows "path_join (f # qs) = path_join (f # map (join_with ''/'') [qs])"
  using assms by (simp add: path_join_def Let_def join_Cons)

definition inside :: "string \<Rightarrow> string \<Rightarrow> bool" where
  "inside raw path \<longleftrightarrow> safeObjectKey path \<and> (\<exists>f. sanitizePath raw = Inr f \<and> HasPrefix path (f @ ''/''))"

lemma insideI:
  assumes "sanitizePath raw = Inr f" "qs \<noteq> []" "list_all safe_segment qs"
  shows "inside raw (path_join (f # qs))"
proof -
  have "f \<noteq> []" using sanitizePath_parts [OF assms(1)] join_nonempty by metis
  then show ?thesis
    using folder_path [OF assms] unfolding inside_def path_join_segments [OF \<open>f \<noteq> []\<close> assms(2)]
    by (auto simp: assms(1) HasPrefix_iff)
qed

lemma inside_nested:
  assumes "sanitizePath raw = Inr f" "qs \<noteq> []" "list_all safe_segment qs" "safe_segment s"
  shows "inside raw (path_join [path_join (f # qs), s])"
proof -
  have f: "f \<noteq> []" using sanitizePath_parts [OF assms(1)] join_nonempty by metis
  have "path_join (f # qs) = f @ ''/'' @ join_with ''/'' qs"
    using folder_path [OF assms(1-3)] unfolding path_join_segments [OF f assms(2)] by blast
  moreover have "path_join [f @ ''/'' @ join_with ''/'' qs, s] = path_join (f # qs @ [s])"
    using f assms(2) by (simp add: path_join_def Let_def join_Cons join_append)
  ultimately show ?thesis using insideI [OF assms(1), of "qs @ [s]"] assms(3,4) by simp
qed

section \<open>Delivery paths stay inside their folder\<close>

definition wall_hour :: "location \<Rightarrow> gotime \<Rightarrow> bool" where
  "wall_hour loc t \<longleftrightarrow> local_clock loc t mod 3600 = 0 \<and> nsec t = 0"

lemma part_name [name_chars]: "list_all name_char (if b then ''_part_'' @ fmt_d 2 i else [])"
  by (simp add: name_chars) (simp add: name_char_def)

lemma dash_names [name_chars]: "list_all name_char ''-''" "list_all name_char ''_''"
  by (simp_all add: name_char_def)

lemma stoarama_inside:
  assumes "buildStoaramaPath p = Inr path"
  shows "inside (np_FolderName p) path"
proof -
  obtain f where f: "sanitizePath (np_FolderName p) = Inr f" using assms by (auto simp: buildStoaramaPath_def split: sum.splits)
  have ne: "f \<noteq> []" using sanitizePath_parts [OF f] join_nonempty by metis
  have three: "inside (np_FolderName p) (path_join [f, Itoa i @ ''/'' @ b @ ''/'' @ Itoa k @ ''.mp4''])" if "safe_segment b" for i b k
  proof -
    have "inside (np_FolderName p) (path_join (f # [Itoa i, b, Itoa k @ ''.mp4'']))"
      by (rule insideI [OF f]) (simp_all only: list.pred_inject that Itoa_safe mp4_safe [OF Itoa_name] simp_thms list.distinct)
    then show ?thesis by (subst (asm) path_join_segments [OF ne]) simp_all
  qed
  have "safe_segment ''continuous''" by (simp add: safe_segment_def name_char_def)
  from three [OF this] three [OF Itoa_safe] show ?thesis
    using assms f by (auto simp: buildStoaramaPath_def)
qed

lemma plazaHourly_inside:
  assumes "buildPlazaHourlyPath tzdb p = Inr path"
  shows "inside (np_FolderName p) path"
proof -
  obtain f loc where f: "sanitizePath (np_FolderName p) = Inr f" and loc: "tzdb (TrimSpace (np_CronTimezone p)) = Some loc"
    using assms by (cases "sanitizePath (np_FolderName p)"; cases "tzdb (TrimSpace (np_CronTimezone p))")
      (simp_all add: buildPlazaHourlyPath_def split: option.splits)
  define d where "d = local_day loc (np_ClipStartedAt p)"
  define s where "s = day_stem (twoDigitID (md_PlazaID (np_Metadata p)) (np_RecordingID p)) (sanitizeToken (md_PlazaName (np_Metadata p))) d @
    (if np_JobKind p = NameContinuousWindow then clock_digits (local_clock loc (np_ClipStartedAt p)) else fmt_d 2 (plazaHourlyHour loc (np_ClipStartedAt p)))"
  have "path = path_join (f # day_folder d @ [s @ ''.mp4''])"
    using assms f loc unfolding buildPlazaHourlyPath_def s_def d_def
    by (simp add: Let_def split: option.splits if_split_asm)
  moreover have "list_all name_char s" by (simp add: s_def name_chars sanitizeToken_chars)
  ultimately show ?thesis using insideI [OF f, of "day_folder d @ [s @ ''.mp4'']"] day_folder_safe mp4_safe by simp
qed

lemma joined_inside:
  assumes "BuildJoinedPath tzdb p = Inr path"
  shows "inside (jp_FolderName p) path"
proof -
  obtain f loc where f: "sanitizePath (jp_FolderName p) = Inr f" and loc: "tzdb (TrimSpace (jp_CronTimezone p)) = Some loc"
    using assms by (auto simp: BuildJoinedPath_def split: option.splits sum.splits)
  define d where "d = local_day loc (jp_ActualStart p)"
  define s where "s = day_stem (twoDigitID (md_PlazaID (jp_Metadata p)) 0) (sanitizeToken (md_PlazaName (jp_Metadata p))) d @ fmt_d 2 (jp_Hour p) @
    (if 1 < jp_Parts p then ''_part_'' @ fmt_d 2 (jp_Part p) else []) @ ''_'' @ clock_digits (local_clock loc (jp_ActualStart p)) @ ''-'' @
    clock_digits (local_clock loc (jp_ActualEnd p))"
  have "path = path_join (f # [month_name (fst (snd (civil d))), weekday_name (weekday_of_day d), s @ ''.mp4''])"
    using assms f loc by (auto simp: BuildJoinedPath_def d_def s_def Let_def split: option.splits if_splits)
  moreover have "list_all name_char s" unfolding s_def list_all_append by (intro conjI name_chars sanitizeToken_chars)
  ultimately show ?thesis using insideI [OF f] month_name_safe weekday_name_safe mp4_safe by simp
qed

lemma collated_base:
  assumes "collatedHourBase tzdb p = Inr (dir, base, loc)"
  obtains f where "sanitizePath (cp_FolderName p) = Inr f" "tzdb (TrimSpace (cp_Timezone p)) = Some loc"
    "dir = path_join (f # day_folder (local_day loc (cp_HourStart p)))"
    "base = day_stem (twoDigitID (md_PlazaID (cp_Metadata p)) 0) (sanitizeToken (md_PlazaName (cp_Metadata p))) (local_day loc (cp_HourStart p)) @
      hour_token loc (cp_HourStart p)"
    "list_all name_char base" "wall_hour loc (cp_HourStart p)"
  using assms by (auto simp: collatedHourBase_def Let_def wall_hour_def name_chars sanitizeToken_chars split: sum.splits option.splits if_splits)

lemma collated_inside:
  assumes "BuildCollatedPath tzdb p = Inr path \<or> BuildCollatedManifestPath tzdb p = Inr path"
  shows "inside (cp_FolderName p) path"
proof -
  obtain dir base loc where b: "collatedHourBase tzdb p = Inr (dir, base, loc)"
    using assms by (auto simp: BuildCollatedPath_def BuildCollatedManifestPath_def split: sum.splits)
  from collated_base [OF this] obtain f where f: "sanitizePath (cp_FolderName p) = Inr f"
    "dir = path_join (f # day_folder (local_day loc (cp_HourStart p)))" "list_all name_char base" by metis
  define s where "s = base @ (if 1 < cp_Parts p then ''_part_'' @ fmt_d 2 (cp_Part p) else []) @ ''_'' @
    clock_digits (local_clock loc (cp_ActualStart p)) @ ''-'' @ clock_digits (local_clock loc (cp_ActualEnd p))"
  have "list_all name_char s" unfolding s_def list_all_append by (intro conjI name_chars f(3))
  then have "safe_segment (s @ ''.mp4'')" "safe_segment (base @ ''.manifest.json'')" using mp4_safe json_safe f(3) by blast+
  moreover have "path = path_join [dir, s @ ''.mp4''] \<or> path = path_join [dir, base @ ''.manifest.json'']"
    using assms b by (auto simp: BuildCollatedPath_def BuildCollatedManifestPath_def s_def Let_def split: if_splits)
  moreover have "day_folder d \<noteq> []" for d by (simp add: day_folder_def split: prod.splits)
  ultimately show ?thesis unfolding f(2) using inside_nested [OF f(1) _ day_folder_safe] by metis
qed


definition example_metadata :: Metadata where
  "example_metadata = \<lparr>md_PlazaID = ''7'', md_Continent = ''Europe'', md_Country = ''Italy'', md_City = ''Siena'',
     md_PlazaName = ''Il Campo''\<rparr>"

definition example_collated :: CollatedPolicy where
  "example_collated = \<lparr>cp_FolderName = '' raw/../etc '', cp_Metadata = example_metadata, cp_Timezone = ''UTC'', cp_HourStart = 7 * hour,
     cp_ActualStart = 7 * hour, cp_ActualEnd = 8 * hour, cp_Part = 1, cp_Parts = 1\<rparr>"

definition utc_only :: "string \<Rightarrow> location option" where
  "utc_only name = (if name = ''UTC'' then Some utc else None)"


lemma traversal_refused: "collatedHourBase utc_only example_collated = Inl InvalidSegment"
  by code_simp

section \<open>Hours have their own names\<close>

text \<open>The names of the hours of a zone whose clocks are on one of two times an hour apart.\<close>

definition two_times :: "location \<Rightarrow> bool" where
  "two_times loc \<longleftrightarrow> (\<exists>off. \<forall>s. offset_at loc s = off \<or> offset_at loc s = off + 3600)"

lemma same_wall_hour:
  assumes "wall_hour loc t" "wall_hour loc u" "local_day loc t = local_day loc u"
    and "local_clock loc t div 3600 = local_clock loc u div 3600"
  shows "unix t + offset_at loc (unix t) = unix u + offset_at loc (unix u)"
proof -
  have "local_clock loc t = local_clock loc u"
    using assms unfolding wall_hour_def by (metis div_mult_mod_eq)
  then have "local_seconds loc t = local_seconds loc u"
    using assms(3) unfolding local_clock_def local_day_def by (metis div_mult_mod_eq)
  then show ?thesis by (simp add: local_seconds_def)
qed

lemma unix_shift: "nsec t = 0 \<Longrightarrow> unix (t - hour) = unix t - 3600 \<and> t = unix t * second"
  unfolding nsec_def unix_def by (auto simp: div_diff)

lemma earlier_hour:
  fixes k x :: int
  assumes "k \<in> {1, 2}"
  shows "(x - 3600 * k) mod day_seconds div 3600 \<noteq> x mod day_seconds div 3600"
proof -
  define m where "m = x mod day_seconds"
  have m: "0 \<le> m" "m < day_seconds" by (simp_all add: m_def)
  have shift: "(x - 3600 * k) mod day_seconds = (m + 3600 * (- k)) mod day_seconds" by (simp add: m_def mod_diff_left_eq)
  have div: "(m + 3600 * j) div 3600 = m div 3600 + j" for j by simp
  have "(m + 3600 * (- k)) mod day_seconds \<in> {m + 3600 * (- k), m + 3600 * (24 - k)}"
  proof (cases "3600 * k \<le> m")
    case True
    then have "(m + 3600 * (- k)) mod day_seconds = m + 3600 * (- k)" using m assms by (intro mod_pos_pos_trivial) auto
    then show ?thesis by simp
  next
    case False
    have "(m + 3600 * (- k)) mod day_seconds = (m + 3600 * (- k) + day_seconds) mod day_seconds" by simp
    also have "\<dots> = m + 3600 * (- k) + day_seconds" using False m assms by (intro mod_pos_pos_trivial) auto
    finally show ?thesis by simp
  qed
  then show ?thesis using assms div [of "- k"] div [of "24 - k"] unfolding shift m_def [symmetric] by auto
qed

text \<open>Of two occurrences of a wall-clock hour, the second is marked and the first is not.\<close>

lemma repeated_hour_marked:
  assumes zone: "two_times loc" and "t < u" "wall_hour loc t" "wall_hour loc u" "local_day loc t = local_day loc u"
    and "local_clock loc t div 3600 = local_clock loc u div 3600"
  shows "local_clock loc (u - hour) div 3600 = local_clock loc u div 3600 \<and>
    local_clock loc (t - hour) div 3600 \<noteq> local_clock loc t div 3600"
proof -
  obtain off where off: "\<And>s. offset_at loc s = off \<or> offset_at loc s = off + 3600" using zone by (auto simp: two_times_def)
  have ns: "nsec t = 0" "nsec u = 0" using assms by (auto simp: wall_hour_def)
  have at: "u = unix u * second" "t = unix t * second" using unix_shift ns by blast+
  then have "unix t < unix u" using assms(2) by linarith
  then have eq: "unix u = unix t + 3600" "offset_at loc (unix t) = off + 3600" "offset_at loc (unix u) = off"
    using same_wall_hour [OF assms(3-6)] off [of "unix t"] off [of "unix u"] by linarith+
  have "u - hour = t" using eq(1) at by linarith
  moreover have "local_clock loc (t - hour) div 3600 \<noteq> local_clock loc t div 3600"
  proof
    assume same: "local_clock loc (t - hour) div 3600 = local_clock loc t div 3600"
    obtain e where e: "offset_at loc (unix t - 3600) = off + e" "e = 0 \<or> e = 3600" using off by (metis add.right_neutral)
    have l: "local_seconds loc t = unix t + off + 3600" "local_seconds loc (t - hour) = unix t + off + e - 3600"
      using eq unix_shift [OF ns(1)] e by (auto simp: local_seconds_def)
    then have "local_seconds loc (t - hour) = local_seconds loc t - (7200 - e)" by simp
    moreover have "7200 - e = 3600 * 1 \<or> 7200 - e = 3600 * 2" using e(2) by auto
    ultimately show False using same earlier_hour [of 1 "local_seconds loc t"] earlier_hour [of 2 "local_seconds loc t"]
      unfolding local_clock_def by auto
  qed
  ultimately show ?thesis using assms(6) by simp
qed

lemma cut_underscore:
  "CHR ''_'' \<notin> set a \<Longrightarrow> CHR ''_'' \<notin> set b \<Longrightarrow> a @ CHR ''_'' # x = b @ CHR ''_'' # y \<Longrightarrow> a = b \<and> x = y"
  by (induction a arbitrary: b) (case_tac b; auto)+

lemma fmt_d_underscore: "CHR ''_'' \<notin> set (fmt_d w i)"
proof -
  have "\<not> is_digit (CHR ''_'')" by (simp add: is_digit_def)
  then have "CHR ''_'' \<notin> set (zero_pad v (decimal n))" for v n using zero_pad_digits by metis
  then show ?thesis by (simp add: fmt_d_def)
qed

lemma fmt_d_inj: "fmt_d w i = fmt_d w j \<Longrightarrow> i = j"
proof -
  assume eq: "fmt_d w i = fmt_d w j"
  have "\<not> is_digit (CHR ''-'')" by (simp add: is_digit_def)
  then have "CHR ''-'' # s \<noteq> zero_pad v (decimal n)" for s v n using zero_pad_digits by (metis list.set_intros(1))
  moreover have "zero_pad v (decimal m) = zero_pad v (decimal n) \<longleftrightarrow> m = n" for v m n by (metis read_zero_pad of_nat_eq_iff)
  ultimately have "i < 0 \<and> j < 0 \<and> nat (- i) = nat (- j) \<or> \<not> i < 0 \<and> \<not> j < 0 \<and> nat i = nat j"
    using eq unfolding fmt_d_def by (cases "i < 0"; cases "j < 0"; simp; metis)
  then show ?thesis by auto
qed

lemma month_name_inj:
  assumes "month_name m = month_name n" "1 \<le> m" "m \<le> 12" "1 \<le> n" "n \<le> 12"
  shows "m = n"
proof -
  have "(m - 1) mod 12 = m - 1" "(n - 1) mod 12 = n - 1" using assms by (auto intro: mod_pos_pos_trivial)
  then have "nat (m - 1) = nat (n - 1)"
    using assms unfolding month_name_def by (subst (asm) nth_eq_iff_index_eq) (auto simp: nat_less_iff)
  then show ?thesis using assms by auto
qed

lemma day_of_names:
  assumes "day_folder d = day_folder e" "day_stem a b d @ x = day_stem a b e @ y"
  shows "d = e \<and> x = y"
proof -
  obtain u m k v n l where c: "civil d = (u, m, k)" "civil e = (v, n, l)" by (cases "civil d"; cases "civil e")
  note d = day_number_civil [OF c(1)] and e = day_number_civil [OF c(2)]
  have "month_name m = month_name n" using assms(1) by (simp add: day_folder_def c)
  then have mn: "m = n" using month_name_inj d e by (simp add: valid_date_def)
  have "fmt_d 4 u @ CHR ''_'' # x' = fmt_d 4 v @ CHR ''_'' # y' \<Longrightarrow> u = v" for x' y'
    using cut_underscore [OF fmt_d_underscore fmt_d_underscore] fmt_d_inj by blast
  then have uv: "u = v" using assms(2) by (simp add: day_stem_def c)
  have "length (fmt_d 2 k) = 2" "length (fmt_d 2 l) = 2"
    using d e month_length_le [of m u] month_length_le [of n v] length_append_int_2 [of k] length_append_int_2 [of l]
    by (auto simp: valid_date_def fmt_d_def append_int_def)
  then have "fmt_d 2 k = fmt_d 2 l" using assms(1) by (simp add: day_folder_def c)
  then have "d = e" using d e mn uv fmt_d_inj by metis
  then show ?thesis using assms(2) by simp
qed

lemma collated_split:
  assumes "sanitizePath raw = Inr f" "qs \<noteq> []" "list_all safe_segment qs" "safe_segment s"
  shows "split_on CHR ''/'' (path_join [path_join (f # qs), s]) = split_on CHR ''/'' f @ qs @ [s]"
proof -
  obtain ps where f: "f = join_with ''/'' ps" "ps \<noteq> []" "list_all safe_segment ps" using sanitizePath_parts [OF assms(1)] .
  have ne: "f \<noteq> []" using join_nonempty f by simp
  have all: "ps @ qs @ [s] \<noteq> []" "list_all safe_segment (ps @ qs @ [s])" using f assms by auto
  have "path_join (f # qs) = f @ ''/'' @ join_with ''/'' qs"
    using folder_path [OF assms(1-3)] unfolding path_join_segments [OF ne assms(2)] by blast
  then have "path_join [path_join (f # qs), s] = path_clean (join_with ''/'' (ps @ qs @ [s]))"
    using ne f(1,2) assms(2) by (simp add: path_join_def Let_def join_append)
  then show ?thesis using path_clean_join [OF all] split_join [OF all] split_join [OF f(2,3)] f(1) by simp
qed

text \<open>What follows the hour in the name of a part or of a manifest.\<close>

definition hour_tail :: "string \<Rightarrow> bool" where
  "hour_tail s \<longleftrightarrow> s = ''.manifest.json'' \<or> (\<exists>c r. s = CHR ''_'' # c # r \<and> c \<noteq> CHR ''d'')"

lemma clock_digits_digit: "0 \<le> s \<Longrightarrow> \<exists>c r. clock_digits s = c # r \<and> is_digit c"
proof -
  assume "0 \<le> s"
  then have "\<not> s div 3600 < 0" by (simp add: pos_imp_zdiv_neg_iff)
  then have eq: "append_int (s div 3600) 2 = zero_pad 2 (decimal (nat (s div 3600)))" by (simp add: append_int_def)
  have "zero_pad 2 x \<noteq> []" for x by (cases x) (simp_all add: zero_pad_def)
  then obtain c r where "append_int (s div 3600) 2 = c # r" "is_digit c"
    unfolding eq using zero_pad_digits by (metis list.exhaust list.set_intros(1))
  then show ?thesis by (simp add: clock_digits_def)
qed

lemma collated_name:
  assumes "BuildCollatedPath tzdb p = Inr path \<or> BuildCollatedManifestPath tzdb p = Inr path"
  obtains f loc t where "sanitizePath (cp_FolderName p) = Inr f" "tzdb (TrimSpace (cp_Timezone p)) = Some loc"
    "wall_hour loc (cp_HourStart p)" "hour_tail t"
    "split_on CHR ''/'' path = split_on CHR ''/'' f @ day_folder (local_day loc (cp_HourStart p)) @
      [day_stem (twoDigitID (md_PlazaID (cp_Metadata p)) 0) (sanitizeToken (md_PlazaName (cp_Metadata p))) (local_day loc (cp_HourStart p)) @
       hour_token loc (cp_HourStart p) @ t]"
proof -
  obtain dir base loc where b: "collatedHourBase tzdb p = Inr (dir, base, loc)"
    using assms by (auto simp: BuildCollatedPath_def BuildCollatedManifestPath_def split: sum.splits)
  let ?d = "local_day loc (cp_HourStart p)"
  obtain f where f: "sanitizePath (cp_FolderName p) = Inr f" "tzdb (TrimSpace (cp_Timezone p)) = Some loc"
    "dir = path_join (f # day_folder ?d)" "list_all name_char base" "wall_hour loc (cp_HourStart p)"
    and base: "base = day_stem (twoDigitID (md_PlazaID (cp_Metadata p)) 0) (sanitizeToken (md_PlazaName (cp_Metadata p))) ?d @
      hour_token loc (cp_HourStart p)"
    using collated_base [OF b] by metis
  let ?part = "if 1 < cp_Parts p then ''_part_'' @ fmt_d 2 (cp_Part p) else []"
  define tail where "tail = ?part @ ''_'' @ clock_digits (local_clock loc (cp_ActualStart p)) @ ''-'' @ clock_digits (local_clock loc (cp_ActualEnd p))"
  have "list_all name_char (base @ tail)" unfolding tail_def list_all_append by (intro conjI name_chars f(4))
  then have safe: "safe_segment ((base @ tail) @ ''.mp4'')" "safe_segment (base @ ''.manifest.json'')" using mp4_safe json_safe f(4) by blast+
  obtain c r where "clock_digits (local_clock loc (cp_ActualStart p)) = c # r" "is_digit c"
    using clock_digits_digit local_clock_bounds by metis
  then have "hour_tail (tail @ ''.mp4'')" by (auto simp: hour_tail_def tail_def is_digit_def)
  moreover have "path = path_join [dir, (base @ tail) @ ''.mp4''] \<or> path = path_join [dir, base @ ''.manifest.json'']"
    using assms b by (auto simp: BuildCollatedPath_def BuildCollatedManifestPath_def tail_def Let_def split: if_splits)
  ultimately obtain t where t: "path = path_join [dir, base @ t]" "hour_tail t" "safe_segment (base @ t)"
    using safe by (metis append_assoc hour_tail_def)
  have "day_folder ?d \<noteq> []" by (simp add: day_folder_def split: prod.splits)
  then have "split_on CHR ''/'' path = split_on CHR ''/'' f @ day_folder ?d @ [base @ t]"
    unfolding t(1) f(3) by (rule collated_split [OF f(1) _ day_folder_safe t(3)])
  then show thesis using that [OF f(1,2,5) t(2)] base by simp
qed

lemma length_fmt_d_2: "0 \<le> i \<Longrightarrow> i < 100 \<Longrightarrow> length (fmt_d 2 i) = 2"
  using length_append_int_2 [of i] by (simp add: fmt_d_def append_int_def)

lemma hour_token_cut:
  assumes "hour_token loc t @ x = hour_token loc u @ y" "hour_tail x" "hour_tail y"
  shows "local_clock loc t div 3600 = local_clock loc u div 3600 \<and>
    (local_clock loc (t - hour) div 3600 = local_clock loc t div 3600 \<longleftrightarrow>
     local_clock loc (u - hour) div 3600 = local_clock loc u div 3600)"
proof -
  have two: "length (fmt_d 2 (local_clock loc v div 3600)) = 2" for v
    using local_clock_bounds [of loc v] by (intro length_fmt_d_2) (simp_all add: pos_imp_zdiv_nonneg_iff int_div_less_iff)
  have "fmt_d 2 (local_clock loc t div 3600) = fmt_d 2 (local_clock loc u div 3600)"
    using assms(1) two unfolding hour_token_def by simp
  then have "local_clock loc t div 3600 = local_clock loc u div 3600" by (rule fmt_d_inj)
  with assms show ?thesis by (auto simp: hour_token_def hour_tail_def split: if_splits)
qed

text \<open>C40: hours have their own names. In a zone whose clocks are on one of two times an hour apart, two different hours of a
  recording never share a path: not their manifests, not any of their parts, not one a manifest and one a part; the second of
  two hours that the clocks repeat carries its mark.\<close>

theorem collated_hours_distinct:
  assumes "BuildCollatedPath tzdb p = Inr a \<or> BuildCollatedManifestPath tzdb p = Inr a"
    and "BuildCollatedPath tzdb q = Inr b \<or> BuildCollatedManifestPath tzdb q = Inr b"
    and "cp_FolderName q = cp_FolderName p" "cp_Metadata q = cp_Metadata p" "cp_Timezone q = cp_Timezone p"
    and "\<forall>loc. tzdb (TrimSpace (cp_Timezone p)) = Some loc \<longrightarrow> two_times loc" "cp_HourStart p \<noteq> cp_HourStart q"
  shows "a \<noteq> b"
proof
  assume "a = b"
  let ?t = "cp_HourStart p" and ?u = "cp_HourStart q"
  let ?stem = "day_stem (twoDigitID (md_PlazaID (cp_Metadata p)) 0) (sanitizeToken (md_PlazaName (cp_Metadata p)))"
  obtain f loc x where f: "sanitizePath (cp_FolderName p) = Inr f" "tzdb (TrimSpace (cp_Timezone p)) = Some loc" "wall_hour loc ?t" "hour_tail x"
    "split_on CHR ''/'' a = split_on CHR ''/'' f @ day_folder (local_day loc ?t) @ [?stem (local_day loc ?t) @ hour_token loc ?t @ x]"
    using collated_name [OF assms(1)] .
  obtain g loc' y where g: "sanitizePath (cp_FolderName q) = Inr g" "tzdb (TrimSpace (cp_Timezone q)) = Some loc'" "wall_hour loc' ?u" "hour_tail y"
    "split_on CHR ''/'' b = split_on CHR ''/'' g @ day_folder (local_day loc' ?u) @
       [day_stem (twoDigitID (md_PlazaID (cp_Metadata q)) 0) (sanitizeToken (md_PlazaName (cp_Metadata q))) (local_day loc' ?u) @ hour_token loc' ?u @ y]"
    using collated_name [OF assms(2)] .
  have loc: "g = f" "loc' = loc" using f(1,2) g(1,2) assms(3,5) by auto
  have lens: "length (day_folder d) = 2" for d by (simp add: day_folder_def split: prod.splits)
  have "day_folder (local_day loc ?t) = day_folder (local_day loc ?u) \<and>
      ?stem (local_day loc ?t) @ hour_token loc ?t @ x = ?stem (local_day loc ?u) @ hour_token loc ?u @ y"
    using f(5) g(5) lens unfolding loc assms(4) \<open>a = b\<close> by simp
  then have same: "local_day loc ?t = local_day loc ?u" "hour_token loc ?t @ x = hour_token loc ?u @ y"
    using day_of_names by blast+
  note cut = hour_token_cut [OF same(2) f(4) g(4) [unfolded loc]]
  have zone: "two_times loc" using assms(6) f(2) by blast
  have u: "wall_hour loc ?u" using g(3) loc by simp
  consider "?t < ?u" | "?u < ?t" using assms(7) by linarith
  then show False
  proof cases
    case 1
    then show False using repeated_hour_marked [OF zone 1 f(3) u same(1)] cut by blast
  next
    case 2
    then show False using repeated_hour_marked [OF zone 2 u f(3) same(1) [symmetric]] cut by auto
  qed
qed

lemma two_times_new_york: "two_times new_york_2026"
  unfolding two_times_def offset_at_new_york by (rule exI [of _ "-18000"]) simp

definition new_york_only :: "string \<Rightarrow> location option" where
  "new_york_only name = (if name = ''America/New_York'' then Some new_york_2026 else None)"

text \<open>The two hours from one to two in the night of November 1, 2026 in New York.\<close>

definition repeated_hour :: "int \<Rightarrow> CollatedPolicy" where
  "repeated_hour i = example_collated\<lparr>cp_FolderName := ''siena'', cp_Timezone := ''America/New_York'',
     cp_HourStart := (1793509200 + 3600 * i) * second\<rparr>"

theorem collated_hours_distinct_witness:
  "\<exists>a b. BuildCollatedManifestPath new_york_only (repeated_hour 0) = Inr a \<and> BuildCollatedManifestPath new_york_only (repeated_hour 1) = Inr b \<and>
     a \<noteq> b \<and> local_clock new_york_2026 (cp_HourStart (repeated_hour 0)) = local_clock new_york_2026 (cp_HourStart (repeated_hour 1))"
proof -
  have "\<not> isl (BuildCollatedManifestPath new_york_only (repeated_hour 0))" "\<not> isl (BuildCollatedManifestPath new_york_only (repeated_hour 1))"
    by code_simp+
  then obtain a b where ab: "BuildCollatedManifestPath new_york_only (repeated_hour 0) = Inr a"
    "BuildCollatedManifestPath new_york_only (repeated_hour 1) = Inr b" by (metis isl_def sum.exhaust_sel)
  have "a \<noteq> b"
  proof (rule collated_hours_distinct [where p = "repeated_hour 0" and q = "repeated_hour 1", OF disjI2 disjI2])
    show "\<forall>loc. new_york_only (TrimSpace (cp_Timezone (repeated_hour 0))) = Some loc \<longrightarrow> two_times loc"
      using two_times_new_york by (auto simp: new_york_only_def)
  qed (use ab in \<open>simp_all add: repeated_hour_def\<close>)
  moreover have "local_clock new_york_2026 (cp_HourStart (repeated_hour 0)) = local_clock new_york_2026 (cp_HourStart (repeated_hour 1))"
    by code_simp
  ultimately show ?thesis using ab by blast
qed

text \<open>Troll station in Antarctica: clocks go back two hours, from 03:00 to 01:00, on October 25, 2026.\<close>

definition troll_2026 :: location where
  "troll_2026 = \<lparr>first_offset = 7200, transitions = [(1792890000, 0)]\<rparr>"

definition troll_only :: "string \<Rightarrow> location option" where
  "troll_only name = (if name = ''Antarctica/Troll'' then Some troll_2026 else None)"

definition troll_hour :: "int \<Rightarrow> CollatedPolicy" where
  "troll_hour i = example_collated\<lparr>cp_FolderName := ''troll'', cp_Timezone := ''Antarctica/Troll'',
     cp_HourStart := (1792882800 + 3600 * i) * second, cp_ActualStart := (1792882800 + 3600 * i) * second,
     cp_ActualEnd := (1792886400 + 3600 * i) * second\<rparr>"

text \<open>The mark looks one hour back only. In this example the clocks go back two hours: the two hours from one to two share both the
  path of their manifest and the path of their media, although the comment says the two never collide.\<close>

theorem two_hour_fall_back_collides:
  "cp_HourStart (troll_hour 0) \<noteq> cp_HourStart (troll_hour 2) \<and>
   \<not> isl (BuildCollatedPath troll_only (troll_hour 0)) \<and>
   BuildCollatedPath troll_only (troll_hour 0) = BuildCollatedPath troll_only (troll_hour 2) \<and>
   BuildCollatedManifestPath troll_only (troll_hour 0) = BuildCollatedManifestPath troll_only (troll_hour 2)"
  by code_simp

end
