(* ===== verification/JoinedPlan.thy ===== *)
theory JoinedPlan
  imports Ledgers Naming "HOL-Library.Product_Lexorder"
begin

text \<open>
  The plan of one delivery hour (joinedrecording/plan.go): the clips of the hour, some of them quarantined, are ordered and cut
  into parts of continuous presentation; each part becomes one file of the delivery. A plan is sealed with the identities of
  the files built for its parts, and validated by building it again from itself. All parts of a plan have the same day and
  hour, so the part counters the code keeps per day and hour are plain numbers here.
\<close>

section \<open>Plans\<close>

record BuiltArtifact =
  ba_SizeBytes :: int
  ba_SHA256 :: string
  ba_MediaToolIdentity :: string

record PlanRequest =
  pr_BatchID :: string
  pr_Generation :: int
  pr_RecordingID :: int
  pr_Timezone :: string
  pr_LocalDate :: string
  pr_DeliveryHour :: int
  pr_FolderName :: string
  pr_Metadata :: Metadata
  pr_Qualification :: QualificationWindow
  pr_LedgerSHA :: string
  pr_MediaTool :: MediaToolEvidence
  pr_Sources :: "SourceClip list"
  pr_Quarantined :: "SourceClip list"
  pr_Artifacts :: "BuiltArtifact list"

record Gap =
  gp_PreviousClipID :: int
  gp_NextClipID :: int
  gp_AtUTC :: gotime
  gp_SignedGap :: int
  gp_Reason :: string

record OutputPlan =
  op_Ordinal :: int
  op_Hour :: int
  op_Part :: int
  op_Parts :: int
  op_ActualStart :: gotime
  op_ActualEnd :: gotime
  op_UTCOffset :: int
  op_RelativePath :: string
  op_ObjectKey :: string
  op_ContentID :: string
  op_ExpectedSize :: int
  op_ExpectedSHA :: string
  op_MediaToolID :: string
  op_Sources :: "SourceClip list"

text \<open>The quarantined clips of a plan are a nil slice in a plan that is all gap.\<close>

record BatchPlan =
  bp_SchemaVersion :: int
  bp_PolicyVersion :: string
  bp_BatchID :: string
  bp_Generation :: int
  bp_HourID :: string
  bp_RecordingID :: int
  bp_Timezone :: string
  bp_FolderName :: string
  bp_Metadata :: Metadata
  bp_Qualification :: QualificationWindow
  bp_LedgerSHA :: string
  bp_MediaTool :: MediaToolEvidence
  bp_LocalDate :: string
  bp_LocalHour :: int
  bp_SourceClaimSHA256 :: string
  bp_OutputCount :: int
  bp_CoverageKey :: string
  bp_GapOnly :: bool
  bp_GapOnlyReason :: string
  bp_QuarantineReason :: string
  bp_Sources :: "SourceClip list"
  bp_Quarantined :: "SourceClip list option"
  bp_Gaps :: "Gap list"
  bp_Outputs :: "OutputPlan list"

record HourDraft =
  hd_LocalDate :: string
  hd_LocalHour :: int
  hd_Gaps :: "Gap list"
  hd_Parts :: "OutputPlan list"

definition gap_json :: "Gap \<Rightarrow> json" where
  "gap_json g = JObject [(''previous_clip_id'', JInt (gp_PreviousClipID g)), (''next_clip_id'', JInt (gp_NextClipID g)), (''at_utc'', JTime (gp_AtUTC g)),
     (''signed_gap_nanoseconds'', JInt (gp_SignedGap g)), (''reason'', JString (gp_Reason g))]"

definition output_json :: "OutputPlan \<Rightarrow> json" where
  "output_json x = JObject [(''ordinal'', JInt (op_Ordinal x)), (''hour'', JInt (op_Hour x)), (''part'', JInt (op_Part x)), (''parts'', JInt (op_Parts x)),
     (''actual_start_utc'', JTime (op_ActualStart x)), (''actual_end_utc'', JTime (op_ActualEnd x)), (''utc_offset_seconds'', JInt (op_UTCOffset x)),
     (''relative_path'', JString (op_RelativePath x)), (''object_key'', JString (op_ObjectKey x)), (''content_id'', JString (op_ContentID x)),
     (''expected_size_bytes'', JInt (op_ExpectedSize x)), (''expected_sha256'', JString (op_ExpectedSHA x)), (''media_tool_identity'', JString (op_MediaToolID x)),
     (''sources'', JArray (map source_json (op_Sources x)))]"

definition plan_json :: "BatchPlan \<Rightarrow> json" where
  "plan_json p = JObject ([(''schema_version'', JInt (bp_SchemaVersion p)), (''policy_version'', JString (bp_PolicyVersion p)), (''batch_id'', JString (bp_BatchID p)),
     (''generation'', JInt (bp_Generation p)), (''hour_id'', JString (bp_HourID p)), (''recording_id'', JInt (bp_RecordingID p)), (''timezone'', JString (bp_Timezone p)),
     (''folder_name'', JString (bp_FolderName p)), (''naming_metadata'', metadata_json (bp_Metadata p)), (''qualification_window'', window_json (bp_Qualification p)),
     (''allocation_ledger_sha256'', JString (bp_LedgerSHA p)), (''media_tool'', tool_json (bp_MediaTool p)), (''local_date'', JString (bp_LocalDate p)),
     (''local_hour'', JInt (bp_LocalHour p)), (''source_claim_sha256'', JString (bp_SourceClaimSHA256 p)), (''expected_output_count'', JInt (bp_OutputCount p)),
     (''coverage_object_key'', JString (bp_CoverageKey p)), (''gap_only'', JBool (bp_GapOnly p))] @
     omitempty (bp_GapOnlyReason p = []) (''gap_only_reason'', JString (bp_GapOnlyReason p)) @
     [(''quarantine_reason_code'', JString (bp_QuarantineReason p)), (''sources'', JArray (map source_json (bp_Sources p))),
      (''quarantined_sources'', opt_json (\<lambda>xs. JArray (map source_json xs)) (bp_Quarantined p)), (''gaps'', JArray (map gap_json (bp_Gaps p))),
      (''outputs'', JArray (map output_json (bp_Outputs p)))])"

definition PlanPolicyVersion :: string where "PlanPolicyVersion = ''joined-delivery-v1''"

definition MaxConditionalPutBytes :: int where "MaxConditionalPutBytes = 5 * 1024 * 1024 * 1024 - 5 * 1024 * 1024"

section \<open>Identities\<close>

definition CanonicalHourID :: "string \<Rightarrow> int \<Rightarrow> string \<Rightarrow> int \<Rightarrow> int \<Rightarrow> string option" where
  "CanonicalHourID batchID recordingID date h generation =
     (if \<not> safe_name batchID \<or> recordingID \<le> 0 \<or> \<not> validLocalDate date \<or> h < 1 \<or> 12 < h \<or> generation \<le> 0 then None
      else Some (batchID @ ''__recording-'' @ Itoa recordingID @ ''__date-'' @ date @ ''__hour-'' @ fmt_d 2 h @ ''__generation-'' @ Itoa generation))"

definition canonicalHourIDValue :: "string \<Rightarrow> int \<Rightarrow> string \<Rightarrow> int \<Rightarrow> int \<Rightarrow> string" where
  "canonicalHourIDValue batchID recordingID date h generation =
     (case CanonicalHourID batchID recordingID date h generation of None \<Rightarrow> [] | Some s \<Rightarrow> s)"

definition canonicalHourID :: "PlanRequest \<Rightarrow> string \<Rightarrow> int \<Rightarrow> string \<Rightarrow> string option" where
  "canonicalHourID req date h sha =
     (if \<not> lowerHex64 sha \<or> \<not> safe_name (pr_BatchID req) \<or> pr_Generation req \<le> 0 \<or> pr_RecordingID req \<le> 0 \<or> h < 1 \<or> 12 < h \<or> parse_date date = None
      then None else Some (canonicalHourIDValue (pr_BatchID req) (pr_RecordingID req) date h (pr_Generation req)))"

definition canonicalBatchCoverageKey :: "BatchPlan \<Rightarrow> string" where
  "canonicalBatchCoverageKey p = path_join [''joined'', bp_BatchID p, ''coverage'', ''hours'', bp_HourID p @ ''.json'']"

definition with_coverage :: "BatchPlan \<Rightarrow> BatchPlan" where
  "with_coverage p = p\<lparr>bp_CoverageKey := canonicalBatchCoverageKey p\<rparr>"

text \<open>Clips by start and then by number, each once.\<close>

definition account_key :: "SourceClip \<Rightarrow> int \<times> int" where
  "account_key x = (sc_StartUTC x, sc_ClipID x)"

definition mergeAccountedSources :: "SourceClip list \<Rightarrow> SourceClip list \<Rightarrow> SourceClip list option" where
  "mergeAccountedSources included quarantined =
     (let all = sort_key account_key (included @ quarantined) in if distinct (map sc_ClipID all) then Some all else None)"

definition candidateSourceClaimSHA :: "(string \<Rightarrow> string) \<Rightarrow> SourceClip list \<Rightarrow> string option" where
  "candidateSourceClaimSHA hash xs =
     (let digests = map (\<lambda>x. (sc_ClipID x, CanonicalSourceClaim hash [x])) xs in
      if \<exists>(i, c) \<in> set digests. c = None then None
      else map_option fst (CanonicalSHA hash (JArray (map (\<lambda>(i, c). JObject [(''clip_id'', JInt i),
        (''source_claim_sha256'', JString (case c of None \<Rightarrow> [] | Some (d, _) \<Rightarrow> d))]) digests))))"

definition validateDerivedSeam :: "SourceClip \<Rightarrow> SourceClip \<Rightarrow> bool" where
  "validateDerivedSeam x y \<longleftrightarrow>
     (let gap = time_sub (sc_StartUTC y) (sc_EndUTC x); seam = sc_SeamToPrevious y in
      (se_Verdict seam = ''continuous'' \<and> gap = 0 \<or> se_Verdict seam = ''gap'' \<and> 0 < gap \<or> se_Verdict seam = ''overlap'' \<and> gap < 0 \<or>
       se_Verdict seam = ''incompatible'') \<and> reasonCode (se_Reason seam) \<and> se_SignedGap seam = gap)"

section \<open>Cutting an hour into parts\<close>

text \<open>Whether a clip continues the one before, and the gap recorded when it does not.\<close>

definition continues :: "int list \<Rightarrow> SourceClip \<Rightarrow> SourceClip \<Rightarrow> bool" where
  "continues quarantined x y \<longleftrightarrow> sc_ClipID x \<notin> set quarantined \<and> sc_ClipID y \<notin> set quarantined \<and>
     se_Verdict (sc_SeamToPrevious y) = ''continuous'' \<and> se_Reason (sc_SeamToPrevious y) \<noteq> [] \<and> se_SignedGap (sc_SeamToPrevious y) = 0"

definition gap_between :: "int list \<Rightarrow> SourceClip \<Rightarrow> SourceClip \<Rightarrow> Gap" where
  "gap_between quarantined x y = \<lparr>gp_PreviousClipID = sc_ClipID x, gp_NextClipID = sc_ClipID y, gp_AtUTC = sc_EndUTC x,
     gp_SignedGap = time_sub (sc_StartUTC y) (sc_EndUTC x),
     gp_Reason = (if sc_ClipID x \<in> set quarantined \<or> sc_ClipID y \<in> set quarantined then ''source_quarantined'' else se_Reason (sc_SeamToPrevious y))\<rparr>"

definition clip_ok :: "PlanRequest \<Rightarrow> location \<Rightarrow> int list \<Rightarrow> int list \<Rightarrow> string list \<Rightarrow> SourceClip \<Rightarrow> plan_error option" where
  "clip_ok req loc quarantined ids keys x =
     (if (if sc_ClipID x \<notin> set quarantined then \<not> validateSource x (pr_RecordingID req) else \<not> validatePreflightSource x (pr_RecordingID req))
      then Some IneligibleSource
      else if \<not> permits (pr_Qualification req) x then Some OutsideQualification
      else if sc_ClipID x \<in> set ids \<or> sourceStorageKey x \<in> set keys then Some SourceTwice
      else if local_date loc (sc_StartUTC x) \<noteq> pr_LocalDate req \<or> local_date loc (sc_EndUTC x) \<noteq> pr_LocalDate req then Some BadDate
      else None)"

definition extend_last :: "'a list list \<Rightarrow> 'a \<Rightarrow> 'a list list" where
  "extend_last xss x = butlast xss @ [last xss @ [x]]"

text \<open>The loop over the clips: the clip before, whether a part is open (it is the last one then), the clips and objects seen, and
  the gaps and parts so far.\<close>

fun plan_clips :: "PlanRequest \<Rightarrow> location \<Rightarrow> int list \<Rightarrow> SourceClip option \<Rightarrow> bool \<Rightarrow> int list \<Rightarrow> string list \<Rightarrow> Gap list \<Rightarrow> SourceClip list list \<Rightarrow>
    SourceClip list \<Rightarrow> plan_error + (Gap list \<times> SourceClip list list)" where
  "plan_clips req loc quarantined previous current ids keys gaps drafts [] = Inr (gaps, drafts)"
| "plan_clips req loc quarantined previous current ids keys gaps drafts (x # xs) =
     (case clip_ok req loc quarantined ids keys x of Some e \<Rightarrow> Inl e | None \<Rightarrow>
      if (case previous of None \<Rightarrow> False | Some y \<Rightarrow> sc_StartUTC x < sc_StartUTC y \<or> sc_StartUTC x = sc_StartUTC y \<and> sc_ClipID x \<le> sc_ClipID y \<or>
        \<not> validateDerivedSeam y x) then Inl BadOrder
      else
        let continuous = (case previous of None \<Rightarrow> True | Some y \<Rightarrow> continues quarantined y x);
            gaps' = (case previous of None \<Rightarrow> gaps | Some y \<Rightarrow> if continuous then gaps else gaps @ [gap_between quarantined y x]);
            held = (sc_ClipID x \<in> set quarantined);
            drafts' = (if held then drafts else if \<not> current \<or> \<not> continuous then drafts @ [[x]] else extend_last drafts x) in
        plan_clips req loc quarantined (Some x) (\<not> held) (sc_ClipID x # ids) (sourceStorageKey x # keys) gaps' drafts' xs)"

section \<open>Building a plan\<close>

text \<open>The files of the parts from the \<open>i\<close>-th on; \<open>n\<close> is the number of parts. Without a seal no artifact is looked at.\<close>

definition no_artifact :: BuiltArtifact where
  "no_artifact = \<lparr>ba_SizeBytes = 0, ba_SHA256 = [], ba_MediaToolIdentity = []\<rparr>"

definition output_of :: "(string \<Rightarrow> location option) \<Rightarrow> PlanRequest \<Rightarrow> location \<Rightarrow> bool \<Rightarrow> int \<Rightarrow> int \<Rightarrow> BuiltArtifact \<Rightarrow> SourceClip list \<Rightarrow>
    plan_error + OutputPlan" where
  "output_of tzdb req loc sealed n i artifact xs =
     (if sealed \<and> (ba_SizeBytes artifact \<le> 0 \<or> MaxConditionalPutBytes < ba_SizeBytes artifact \<or> \<not> lowerHex64 (ba_SHA256 artifact) \<or>
         ba_MediaToolIdentity artifact \<noteq> mt_IdentitySHA256 (pr_MediaTool req)) then Inl BadArtifact
      else let start = sc_StartUTC (hd xs); stop = sc_EndUTC (last xs) in
        case BuildJoinedPath tzdb \<lparr>jp_FolderName = pr_FolderName req, jp_Metadata = pr_Metadata req, jp_CronTimezone = pr_Timezone req,
            jp_ActualStart = start, jp_ActualEnd = stop, jp_Hour = pr_DeliveryHour req, jp_Part = i, jp_Parts = n\<rparr> of Inl _ \<Rightarrow> Inl BadPath
        | Inr relative \<Rightarrow> Inr \<lparr>op_Ordinal = i, op_Hour = pr_DeliveryHour req, op_Part = i, op_Parts = n, op_ActualStart = start, op_ActualEnd = stop,
            op_UTCOffset = offset_at loc (unix start), op_RelativePath = relative,
            op_ObjectKey = (if sealed then path_join [''joined'', pr_BatchID req, ''objects'', ba_SHA256 artifact @ ''.mp4''] else []),
            op_ContentID = ba_SHA256 artifact, op_ExpectedSize = ba_SizeBytes artifact, op_ExpectedSHA = ba_SHA256 artifact,
            op_MediaToolID = ba_MediaToolIdentity artifact, op_Sources = xs\<rparr>)"

fun plan_outputs :: "(string \<Rightarrow> location option) \<Rightarrow> PlanRequest \<Rightarrow> location \<Rightarrow> bool \<Rightarrow> int \<Rightarrow> int \<Rightarrow> BuiltArtifact list \<Rightarrow> SourceClip list list \<Rightarrow>
    plan_error + OutputPlan list" where
  "plan_outputs tzdb req loc sealed n i artifacts [] = Inr []"
| "plan_outputs tzdb req loc sealed n i artifacts (xs # xss) =
     (case output_of tzdb req loc sealed n i (if sealed then hd artifacts else no_artifact) xs of Inl e \<Rightarrow> Inl e
      | Inr out \<Rightarrow> map_sum id (Cons out) (plan_outputs tzdb req loc sealed n (i + 1) (tl artifacts) xss))"

text \<open>With no part the code would index an empty slice; \<open>buildPlan\<close> never gets there.\<close>

definition finalizePlan :: "(string \<Rightarrow> string) \<Rightarrow> (string \<Rightarrow> location option) \<Rightarrow> PlanRequest \<Rightarrow> SourceClip list list \<Rightarrow> Gap list \<Rightarrow> location \<Rightarrow> bool \<Rightarrow>
    plan_error + BatchPlan" where
  "finalizePlan hash tzdb req drafts gaps loc sealed =
     (case mergeAccountedSources (pr_Sources req) (pr_Quarantined req) of None \<Rightarrow> Inl SourceTwice | Some all \<Rightarrow>
     (case CanonicalSourceClaim hash all of None \<Rightarrow> Inl EncodeFailed | Some (manifest, _) \<Rightarrow>
     (case canonicalHourID req (pr_LocalDate req) (pr_DeliveryHour req) manifest of None \<Rightarrow> Inl BadIdentity | Some hourID \<Rightarrow>
     (case plan_outputs tzdb req loc sealed (int (length drafts)) 1 (pr_Artifacts req) drafts of Inl e \<Rightarrow> Inl e | Inr outputs \<Rightarrow>
      let plan = \<lparr>bp_SchemaVersion = 1, bp_PolicyVersion = PlanPolicyVersion, bp_BatchID = pr_BatchID req, bp_Generation = pr_Generation req,
            bp_HourID = hourID, bp_RecordingID = pr_RecordingID req, bp_Timezone = pr_Timezone req, bp_FolderName = pr_FolderName req,
            bp_Metadata = pr_Metadata req, bp_Qualification = pr_Qualification req, bp_LedgerSHA = pr_LedgerSHA req, bp_MediaTool = pr_MediaTool req,
            bp_LocalDate = pr_LocalDate req, bp_LocalHour = pr_DeliveryHour req, bp_SourceClaimSHA256 = manifest,
            bp_OutputCount = int (length outputs), bp_CoverageKey = [], bp_GapOnly = False, bp_GapOnlyReason = [], bp_QuarantineReason = [],
            bp_Sources = all, bp_Quarantined = Some (pr_Quarantined req), bp_Gaps = gaps, bp_Outputs = outputs\<rparr> in
      Inr (if sealed then with_coverage plan else plan)))))"

text \<open>The clips as they are accounted for: the first of all has no seam before it.\<close>

definition clear_first :: "SourceClip list \<Rightarrow> SourceClip list" where
  "clear_first xs = (case xs of [] \<Rightarrow> [] | x # ys \<Rightarrow> x\<lparr>sc_SeamToPrevious := no_seam\<rparr> # ys)"

definition accounted_as :: "SourceClip list \<Rightarrow> SourceClip \<Rightarrow> SourceClip" where
  "accounted_as all x = (case List.find (\<lambda>y. sc_ClipID y = sc_ClipID x) all of Some y \<Rightarrow> y | None \<Rightarrow> x)"

definition applyAccountedSources :: "PlanRequest \<Rightarrow> SourceClip list \<Rightarrow> PlanRequest" where
  "applyAccountedSources req all = req\<lparr>pr_Sources := map (accounted_as all) (pr_Sources req), pr_Quarantined := map (accounted_as all) (pr_Quarantined req)\<rparr>"

definition evidence_ok :: "(string \<Rightarrow> string) \<Rightarrow> (string \<Rightarrow> location option) \<Rightarrow> PlanRequest \<Rightarrow> bool" where
  "evidence_ok hash tzdb req \<longleftrightarrow> ValidateQualificationWindow hash tzdb (pr_Qualification req) \<and> qw_RecordingID (pr_Qualification req) = pr_RecordingID req \<and>
     qw_Timezone (pr_Qualification req) = pr_Timezone req \<and> lowerHex64 (pr_LedgerSHA req) \<and> ValidateMediaToolEvidence hash (pr_MediaTool req)"

definition buildPlan :: "(string \<Rightarrow> string) \<Rightarrow> (string \<Rightarrow> location option) \<Rightarrow> PlanRequest \<Rightarrow> bool \<Rightarrow> plan_error + BatchPlan" where
  "buildPlan hash tzdb request sealed =
     (if \<not> safe_name (pr_BatchID request) \<or> pr_Generation request \<le> 0 \<or> pr_RecordingID request \<le> 0 \<or> pr_DeliveryHour request < 1 \<or>
         12 < pr_DeliveryHour request \<or> pr_Sources request = [] then Inl BadRequest
      else if \<not> evidence_ok hash tzdb request then Inl NotEvidence
      else case tzdb (TrimSpace (pr_Timezone request)) of None \<Rightarrow> Inl BadTimezone | Some loc \<Rightarrow>
      (case BuildFolderName ProfilePlazaHourlyV1 (pr_RecordingID request) (pr_Metadata request) (pr_FolderName request) of Inl _ \<Rightarrow> Inl BadFolder | Inr folder \<Rightarrow>
      (case mergeAccountedSources (pr_Sources request) (pr_Quarantined request) of None \<Rightarrow> Inl SourceTwice | Some merged \<Rightarrow>
       if \<exists>x \<in> set (pr_Quarantined request). \<not> validatePreflightSource x (pr_RecordingID request) \<or> \<not> permits (pr_Qualification request) x then Inl NotAccounted
       else
         let all = clear_first merged; quarantined = map sc_ClipID (pr_Quarantined request);
             req = applyAccountedSources (request\<lparr>pr_FolderName := folder\<rparr>) all in
         case plan_clips req loc quarantined None False [] [] [] [] all of Inl e \<Rightarrow> Inl e | Inr (gaps, drafts) \<Rightarrow>
         if sealed \<and> length (pr_Artifacts req) \<noteq> length drafts then Inl MissingArtifact
         else finalizePlan hash tzdb req drafts gaps loc sealed)))"

definition BuildPlan :: "(string \<Rightarrow> string) \<Rightarrow> (string \<Rightarrow> location option) \<Rightarrow> PlanRequest \<Rightarrow> plan_error + BatchPlan" where
  "BuildPlan hash tzdb req = buildPlan hash tzdb req True"

definition DiscoverHourPlan :: "(string \<Rightarrow> string) \<Rightarrow> (string \<Rightarrow> location option) \<Rightarrow> PlanRequest \<Rightarrow> plan_error + HourDraft" where
  "DiscoverHourPlan hash tzdb req = map_sum id (\<lambda>p. \<lparr>hd_LocalDate = bp_LocalDate p, hd_LocalHour = bp_LocalHour p, hd_Gaps = bp_Gaps p, hd_Parts = bp_Outputs p\<rparr>)
     (buildPlan hash tzdb req False)"

section \<open>Hours without media\<close>

definition bare_plan :: "PlanRequest \<Rightarrow> string \<Rightarrow> string \<Rightarrow> int \<Rightarrow> string \<Rightarrow> string \<Rightarrow> BatchPlan" where
  "bare_plan req folder date h hourID manifest =
     \<lparr>bp_SchemaVersion = 1, bp_PolicyVersion = PlanPolicyVersion, bp_BatchID = pr_BatchID req, bp_Generation = pr_Generation req,
       bp_HourID = hourID, bp_RecordingID = pr_RecordingID req, bp_Timezone = pr_Timezone req, bp_FolderName = folder,
       bp_Metadata = pr_Metadata req, bp_Qualification = pr_Qualification req, bp_LedgerSHA = pr_LedgerSHA req, bp_MediaTool = pr_MediaTool req,
       bp_LocalDate = date, bp_LocalHour = h, bp_SourceClaimSHA256 = manifest, bp_OutputCount = 0, bp_CoverageKey = [], bp_GapOnly = False,
       bp_GapOnlyReason = [], bp_QuarantineReason = [], bp_Sources = [], bp_Quarantined = None, bp_Gaps = [], bp_Outputs = []\<rparr>"

definition BuildGapOnlyHourPlan :: "(string \<Rightarrow> string) \<Rightarrow> (string \<Rightarrow> location option) \<Rightarrow> PlanRequest \<Rightarrow> string \<Rightarrow> int \<Rightarrow> string \<Rightarrow> plan_error + BatchPlan" where
  "BuildGapOnlyHourPlan hash tzdb req date h reason =
     (if \<not> safe_name (pr_BatchID req) \<or> pr_Generation req \<le> 0 \<or> pr_RecordingID req \<le> 0 \<or> pr_Sources req \<noteq> [] \<or> h < 1 \<or> 12 < h \<or>
         \<not> reasonCode reason \<or> \<not> evidence_ok hash tzdb req then Inl BadRequest
      else case tzdb (pr_Timezone req) of None \<Rightarrow> Inl BadTimezone | Some loc \<Rightarrow>
      if ParseInLocation date loc = None \<or> \<not> qualificationContainsDate (pr_Qualification req) date then Inl OutsideQualification
      else case BuildFolderName ProfilePlazaHourlyV1 (pr_RecordingID req) (pr_Metadata req) (pr_FolderName req) of Inl _ \<Rightarrow> Inl BadFolder | Inr folder \<Rightarrow>
      (case CanonicalSourceClaim hash [] of None \<Rightarrow> Inl EncodeFailed | Some (manifest, _) \<Rightarrow>
      (case canonicalHourID req date h manifest of None \<Rightarrow> Inl BadIdentity | Some hourID \<Rightarrow>
       Inr (with_coverage ((bare_plan req folder date h hourID manifest)\<lparr>bp_GapOnly := True, bp_GapOnlyReason := reason\<rparr>)))))"

text \<open>The loop over the clips of an hour that is all quarantine.\<close>

fun quarantine_ok :: "PlanRequest \<Rightarrow> location \<Rightarrow> string \<Rightarrow> SourceClip option \<Rightarrow> int list \<Rightarrow> SourceClip list \<Rightarrow> bool" where
  "quarantine_ok req loc date previous ids [] = True"
| "quarantine_ok req loc date previous ids (x # xs) =
     (\<not> (\<not> validatePreflightSource x (pr_RecordingID req) \<or> (case previous of None \<Rightarrow> False | Some y \<Rightarrow> \<not> validateDerivedSeam y x) \<or>
         \<not> permits (pr_Qualification req) x \<or> sc_ClipID x \<in> set ids \<or> local_date loc (sc_StartUTC x) \<noteq> date \<or> local_date loc (sc_EndUTC x) \<noteq> date) \<and>
      quarantine_ok req loc date (Some x) (sc_ClipID x # ids) xs)"

definition quarantine_gaps :: "SourceClip list \<Rightarrow> Gap list" where
  "quarantine_gaps xs = map (\<lambda>(x, y). \<lparr>gp_PreviousClipID = sc_ClipID x, gp_NextClipID = sc_ClipID y, gp_AtUTC = sc_EndUTC x,
     gp_SignedGap = se_SignedGap (sc_SeamToPrevious y), gp_Reason = ''source_quarantined''\<rparr>) (zip xs (tl xs))"

definition BuildQuarantineOnlyHourPlan :: "(string \<Rightarrow> string) \<Rightarrow> (string \<Rightarrow> location option) \<Rightarrow> PlanRequest \<Rightarrow> string \<Rightarrow> int \<Rightarrow> string \<Rightarrow>
    plan_error + BatchPlan" where
  "BuildQuarantineOnlyHourPlan hash tzdb req date h reason =
     (if \<not> safe_name (pr_BatchID req) \<or> pr_Generation req \<le> 0 \<or> pr_RecordingID req \<le> 0 \<or> pr_Sources req = [] \<or> h < 1 \<or> 12 < h \<or>
         \<not> reasonCode reason \<or> \<not> evidence_ok hash tzdb req then Inl BadRequest
      else case tzdb (pr_Timezone req) of None \<Rightarrow> Inl OutsideQualification | Some loc \<Rightarrow>
      if \<not> qualificationContainsDate (pr_Qualification req) date then Inl OutsideQualification
      else let xs = clear_first (pr_Sources req) in
      if \<not> quarantine_ok req loc date None [] xs then Inl IneligibleSource
      else case BuildFolderName ProfilePlazaHourlyV1 (pr_RecordingID req) (pr_Metadata req) (pr_FolderName req) of Inl _ \<Rightarrow> Inl BadFolder | Inr folder \<Rightarrow>
      (case CanonicalSourceClaim hash xs of None \<Rightarrow> Inl EncodeFailed | Some (manifest, _) \<Rightarrow>
      (case canonicalHourID req date h manifest of None \<Rightarrow> Inl BadIdentity | Some hourID \<Rightarrow>
       Inr (with_coverage ((bare_plan req folder date h hourID manifest)\<lparr>bp_QuarantineReason := reason, bp_Sources := xs,
         bp_Quarantined := Some xs, bp_Gaps := quarantine_gaps xs\<rparr>)))))"

section \<open>Validation\<close>

definition plan_request :: "BatchPlan \<Rightarrow> PlanRequest" where
  "plan_request p = \<lparr>pr_BatchID = bp_BatchID p, pr_Generation = bp_Generation p, pr_RecordingID = bp_RecordingID p, pr_Timezone = bp_Timezone p,
     pr_LocalDate = [], pr_DeliveryHour = 0, pr_FolderName = bp_FolderName p, pr_Metadata = bp_Metadata p, pr_Qualification = bp_Qualification p,
     pr_LedgerSHA = bp_LedgerSHA p, pr_MediaTool = bp_MediaTool p, pr_Sources = [], pr_Quarantined = [], pr_Artifacts = []\<rparr>"

definition plan_bytes :: "BatchPlan \<Rightarrow> string option" where
  "plan_bytes p = encode False (plan_json p)"

text \<open>The code drops the error of the encoder for the first two kinds of plan: both sides are empty bytes then.\<close>

definition same_bytes :: "BatchPlan \<Rightarrow> BatchPlan \<Rightarrow> bool" where
  "same_bytes p q \<longleftrightarrow> (case plan_bytes p of None \<Rightarrow> [] | Some b \<Rightarrow> b) = (case plan_bytes q of None \<Rightarrow> [] | Some b \<Rightarrow> b)"

definition plan_sealed :: "BatchPlan \<Rightarrow> bool" where
  "plan_sealed p \<longleftrightarrow>
     (let count = (if bp_Outputs p \<noteq> [] then 1 else 0) + (if bp_GapOnly p then 1 else 0) + (if bp_QuarantineReason p \<noteq> [] then 1 else 0 :: nat) in
      \<not> (bp_SchemaVersion p \<noteq> 1 \<or> bp_PolicyVersion p \<noteq> PlanPolicyVersion \<or> \<not> safe_name (bp_BatchID p) \<or> bp_LocalHour p < 1 \<or> 12 < bp_LocalHour p \<or>
         bp_HourID p \<noteq> canonicalHourIDValue (bp_BatchID p) (bp_RecordingID p) (bp_LocalDate p) (bp_LocalHour p) (bp_Generation p) \<or>
         bp_Generation p \<le> 0 \<or> bp_OutputCount p \<noteq> int (length (bp_Outputs p)) \<or> bp_CoverageKey p \<noteq> canonicalBatchCoverageKey p \<or> count \<noteq> 1 \<or>
         bp_GapOnly p \<and> (\<not> reasonCode (bp_GapOnlyReason p) \<or> bp_Sources p \<noteq> []) \<or> \<not> bp_GapOnly p \<and> bp_GapOnlyReason p \<noteq> [] \<or>
         bp_QuarantineReason p \<noteq> [] \<and> (\<not> reasonCode (bp_QuarantineReason p) \<or> bp_Sources p = [])))"

definition plan_artifacts :: "BatchPlan \<Rightarrow> BuiltArtifact list" where
  "plan_artifacts p = map (\<lambda>x. \<lparr>ba_SizeBytes = op_ExpectedSize x, ba_SHA256 = op_ExpectedSHA x, ba_MediaToolIdentity = op_MediaToolID x\<rparr>) (bp_Outputs p)"

definition held_clips :: "BatchPlan \<Rightarrow> SourceClip list" where
  "held_clips p = (case bp_Quarantined p of None \<Rightarrow> [] | Some xs \<Rightarrow> xs)"

definition media_request :: "BatchPlan \<Rightarrow> PlanRequest" where
  "media_request p = (plan_request p)\<lparr>pr_LocalDate := bp_LocalDate p, pr_DeliveryHour := bp_LocalHour p,
     pr_Sources := concat (map op_Sources (bp_Outputs p)), pr_Quarantined := held_clips p, pr_Artifacts := plan_artifacts p\<rparr>"

definition validate_media_plan :: "(string \<Rightarrow> string) \<Rightarrow> (string \<Rightarrow> location option) \<Rightarrow> BatchPlan \<Rightarrow> plan_error option" where
  "validate_media_plan hash tzdb p =
     (let flat = concat (map op_Sources (bp_Outputs p)) in
      if \<not> distinct (map sc_ClipID flat) \<or> (\<exists>x \<in> set flat. \<not> validateSource x (bp_RecordingID p)) then Some SourceTwice
      else case mergeAccountedSources flat (held_clips p) of None \<Rightarrow> Some SourceTwice | Some accounted \<Rightarrow>
      if \<exists>x \<in> set (held_clips p). \<not> validatePreflightSource x (bp_RecordingID p) then Some IneligibleSource
      else case (encode False (JArray (map source_json accounted)), encode False (JArray (map source_json (bp_Sources p)))) of
        (Some a, Some b) \<Rightarrow>
          if a \<noteq> b then Some NotAccounted
          else (case BuildPlan hash tzdb (media_request p) of Inl e \<Rightarrow> Some e | Inr rebuilt \<Rightarrow>
            (case (plan_bytes p, plan_bytes rebuilt) of
               (Some original, Some canonical) \<Rightarrow> if original \<noteq> canonical then Some NotSealed else None
             | _ \<Rightarrow> Some EncodeFailed))
      | _ \<Rightarrow> Some EncodeFailed)"

definition ValidatePlan :: "(string \<Rightarrow> string) \<Rightarrow> (string \<Rightarrow> location option) \<Rightarrow> BatchPlan \<Rightarrow> plan_error option" where
  "ValidatePlan hash tzdb p =
     (if \<not> plan_sealed p then Some NotSealed
      else if bp_GapOnly p then
        (case BuildGapOnlyHourPlan hash tzdb (plan_request p) (bp_LocalDate p) (bp_LocalHour p) (bp_GapOnlyReason p) of Inl e \<Rightarrow> Some e
         | Inr rebuilt \<Rightarrow> if same_bytes p rebuilt then None else Some NotSealed)
      else if bp_QuarantineReason p \<noteq> [] then
        (case BuildQuarantineOnlyHourPlan hash tzdb ((plan_request p)\<lparr>pr_Sources := bp_Sources p\<rparr>) (bp_LocalDate p) (bp_LocalHour p) (bp_QuarantineReason p) of
           Inl e \<Rightarrow> Some e
         | Inr rebuilt \<Rightarrow> if same_bytes p rebuilt then None else Some NotSealed)
      else validate_media_plan hash tzdb p)"

end
