(* ===== verification/PlanCorrect.thy ===== *)
theory PlanCorrect
  imports JoinedPlan Publication "HOL-Library.Multiset"
begin

text \<open>
  What a plan says of its hour: its parts are the unbroken runs of the clips that are not quarantined, its gaps the breaks
  between them, and a plan that is built passes the check that builds it again.
\<close>

section \<open>Clips in order\<close>

lemma account_order: "account_key x < account_key y \<longleftrightarrow> clip_before x y"
  by (auto simp: account_key_def clip_before_def)

lemma sort_key_map: "sort_key k (map f xs) = map f (sort_key (\<lambda>x. k (f x)) xs)"
proof (induction xs)
  case (Cons x xs)
  have "insort_key k (f x) (map f ys) = map f (insort_key (\<lambda>x. k (f x)) x ys)" for ys by (induction ys) simp_all
  then show ?case using Cons by simp
qed simp

lemma sort_key_same: "(\<And>x. x \<in> set xs \<Longrightarrow> k x = l x) \<Longrightarrow> sort_key k xs = sort_key l xs"
proof (induction xs)
  case (Cons x xs)
  have "\<forall>y \<in> set ys. k y = l y \<Longrightarrow> k x = l x \<Longrightarrow> insort_key k x ys = insort_key l x ys" for ys by (induction ys) simp_all
  then show ?case using Cons by simp
qed simp

section \<open>The loop over the clips\<close>

text \<open>Whether a clip is one of the quarantined ones, and the parts and gaps of the clips met so far.\<close>

definition parts_ok :: "int list \<Rightarrow> SourceClip list \<Rightarrow> bool \<Rightarrow> Gap list \<Rightarrow> SourceClip list list \<Rightarrow> bool" where
  "parts_ok q ys current gaps drafts \<longleftrightarrow>
     current = (ys \<noteq> [] \<and> sc_ClipID (last ys) \<notin> set q) \<and> (current \<longrightarrow> drafts \<noteq> [] \<and> last (last drafts) = last ys) \<and> [] \<notin> set drafts \<and>
     concat drafts = filter (\<lambda>x. sc_ClipID x \<notin> set q) ys \<and>
     concat (map neighbours drafts) = filter (\<lambda>(x, y). continues q x y) (neighbours ys) \<and>
     gaps = map (\<lambda>(x, y). gap_between q x y) (filter (\<lambda>(x, y). \<not> continues q x y) (neighbours ys))"

lemma extend_last_snoc [simp]: "extend_last (xss @ [xs]) x = xss @ [xs @ [x]]"
  by (simp add: extend_last_def)

lemma parts_first: "parts_ok q [x] (sc_ClipID x \<notin> set q) [] (if sc_ClipID x \<in> set q then [] else [[x]])"
  by (simp add: parts_ok_def)

lemma parts_next:
  fixes x :: SourceClip
  assumes ok: "parts_ok q ys current gaps drafts" and ys: "ys \<noteq> []"
  defines "c \<equiv> continues q (last ys) x"
  shows "parts_ok q (ys @ [x]) (sc_ClipID x \<notin> set q) (if c then gaps else gaps @ [gap_between q (last ys) x])
    (if sc_ClipID x \<in> set q then drafts else if \<not> current \<or> \<not> c then drafts @ [[x]] else extend_last drafts x)"
proof -
  have c: "c \<Longrightarrow> sc_ClipID x \<notin> set q \<and> current" using ok ys by (simp add: c_def continues_def parts_ok_def)
  show ?thesis
  proof (cases "c \<and> sc_ClipID x \<notin> set q")
    case True
    then obtain xss xs where d: "drafts = xss @ [xs]" "xs \<noteq> []" "last xs = last ys"
      using ok c unfolding parts_ok_def by (metis append_butlast_last_id last_in_set last_snoc)
    show ?thesis using ok True c d by (simp add: parts_ok_def neighbours_snoc [OF ys] neighbours_snoc c_def [symmetric])
  next
    case False
    then show ?thesis using ok c by (auto simp: parts_ok_def neighbours_snoc [OF ys] c_def [symmetric])
  qed
qed

text \<open>What the checks of the loop give for the clips met so far.\<close>

definition order_ok :: "SourceClip list \<Rightarrow> bool" where
  "order_ok ys \<longleftrightarrow> (\<forall>(x, y) \<in> set (neighbours ys). clip_before x y \<and> validateDerivedSeam x y)"

lemma plan_clips_invariant:
  assumes "plan_clips req loc q previous current ids keys gaps drafts xs = Inr (gaps', drafts')"
    and "previous = (if ys = [] then None else Some (last ys))" "ys = [] \<longrightarrow> \<not> current \<and> gaps = [] \<and> drafts = []"
    and "ys \<noteq> [] \<longrightarrow> parts_ok q ys current gaps drafts" "order_ok ys"
  shows "(ys @ xs \<noteq> [] \<longrightarrow> (\<exists>current'. parts_ok q (ys @ xs) current' gaps' drafts')) \<and> order_ok (ys @ xs)"
  using assms
proof (induction xs arbitrary: previous current ids keys gaps drafts ys)
  case (Cons x xs)
  define c where "c = (ys = [] \<or> continues q (last ys) x)"
  define more where "more = (if c then gaps else gaps @ [gap_between q (last ys) x])"
  define longer where "longer = (if sc_ClipID x \<in> set q then drafts else if \<not> current \<or> \<not> c then drafts @ [[x]] else extend_last drafts x)"
  have step: "plan_clips req loc q (Some x) (sc_ClipID x \<notin> set q) (sc_ClipID x # ids) (sourceStorageKey x # keys) more longer xs = Inr (gaps', drafts')"
    "ys \<noteq> [] \<longrightarrow> clip_before (last ys) x \<and> validateDerivedSeam (last ys) x"
    using Cons.prems(1,2) by (auto simp: c_def more_def longer_def clip_before_def Let_def split: option.splits if_splits)
  have parts: "parts_ok q (ys @ [x]) (sc_ClipID x \<notin> set q) more longer"
    using parts_first [of q x] parts_next [of q ys current gaps drafts x] Cons.prems(3,4) by (cases "ys = []") (auto simp: c_def more_def longer_def)
  have order: "order_ok (ys @ [x])"
    using Cons.prems(5) step(2) by (cases "ys = []") (auto simp: order_ok_def neighbours_snoc)
  show ?case using Cons.IH [OF step(1), of "ys @ [x]"] parts order by simp
qed (auto simp: order_ok_def)

lemma plan_clips_Inr:
  assumes "plan_clips req loc q None False [] [] [] [] xs = Inr (gaps, drafts)" "xs \<noteq> []"
  shows "(\<exists>current. parts_ok q xs current gaps drafts) \<and> order_ok xs"
  using plan_clips_invariant [OF assms(1), of "[]"] assms(2) by (simp add: order_ok_def)

section \<open>Plans that are built\<close>

definition output_artifact :: "OutputPlan \<Rightarrow> BuiltArtifact" where
  "output_artifact x = \<lparr>ba_SizeBytes = op_ExpectedSize x, ba_SHA256 = op_ExpectedSHA x, ba_MediaToolIdentity = op_MediaToolID x\<rparr>"

definition output_ok :: "int \<Rightarrow> OutputPlan \<Rightarrow> bool" where
  "output_ok n x \<longleftrightarrow> op_Ordinal x = op_Part x \<and> op_Parts x = n \<and> op_ActualStart x = sc_StartUTC (hd (op_Sources x)) \<and>
     op_ActualEnd x = sc_EndUTC (last (op_Sources x))"

lemma output_of_Inr:
  "output_of tzdb req loc sealed n i artifact xs = Inr x \<Longrightarrow> op_Sources x = xs \<and> op_Part x = i \<and> output_ok n x \<and> output_artifact x = artifact"
  by (auto simp: output_of_def output_ok_def output_artifact_def Let_def split: if_splits sum.splits)

lemma plan_outputs_Inr:
  assumes "plan_outputs tzdb req loc sealed n i artifacts drafts = Inr outs"
  shows "map op_Sources outs = drafts \<and> map op_Part outs = [i..i + int (length drafts) - 1] \<and> (\<forall>x \<in> set outs. output_ok n x) \<and>
    (sealed \<longrightarrow> length artifacts = length drafts \<longrightarrow> map output_artifact outs = artifacts)"
  using assms
proof (induction drafts arbitrary: i artifacts outs)
  case (Cons xs xss)
  obtain x rest where x: "output_of tzdb req loc sealed n i (if sealed then hd artifacts else no_artifact) xs = Inr x"
    "plan_outputs tzdb req loc sealed n (i + 1) (tl artifacts) xss = Inr rest" "outs = x # rest"
    using Cons.prems by (cases "plan_outputs tzdb req loc sealed n (i + 1) (tl artifacts) xss") (auto split: sum.splits)
  have "[i..i + int (length (xs # xss)) - 1] = i # [i + 1..i + 1 + int (length xss) - 1]" by (simp add: upto_rec1)
  then show ?case using Cons.IH [OF x(2)] output_of_Inr [OF x(1)] x(3) by (cases artifacts) auto
qed simp

text \<open>The clips of a plan: those of the request in order, the first without its seam.\<close>

lemma account_key_seam [simp]: "account_key (x\<lparr>sc_SeamToPrevious := s\<rparr>) = account_key x"
  by (simp add: account_key_def)

lemma merge_Some:
  assumes "mergeAccountedSources xs ys = Some zs"
  shows "zs = sort_key account_key (xs @ ys) \<and> distinct (map sc_ClipID zs)"
  using assms by (auto simp: mergeAccountedSources_def Let_def split: if_splits)

lemma ids_inj: "distinct (map sc_ClipID xs) \<Longrightarrow> x \<in> set xs \<Longrightarrow> y \<in> set xs \<Longrightarrow> sc_ClipID x = sc_ClipID y \<Longrightarrow> x = y"
  by (simp add: distinct_map inj_on_def)

lemma clear_first_shape:
  "map sc_ClipID (clear_first xs) = map sc_ClipID xs" "map account_key (clear_first xs) = map account_key xs" "clear_first (clear_first xs) = clear_first xs"
  "clear_first xs = [] \<longleftrightarrow> xs = []" "length (clear_first xs) = length xs"
  by (auto simp: clear_first_def split: list.splits)

lemma accounted_as_in:
  assumes "distinct (map sc_ClipID all)" "y \<in> set all" "sc_ClipID y = sc_ClipID x"
  shows "accounted_as all x = y"
proof -
  obtain z where z: "List.find (\<lambda>y. sc_ClipID y = sc_ClipID x) all = Some z"
    using assms(2,3) by (metis (mono_tags) find_None_iff option.exhaust)
  then have "z \<in> set all" "sc_ClipID z = sc_ClipID x" by (auto simp: find_Some_iff)
  then show ?thesis using z assms ids_inj [OF assms(1)] by (auto simp: accounted_as_def)
qed

lemma accounted_merged:
  assumes "distinct (map sc_ClipID merged)"
  shows "map (accounted_as (clear_first merged)) merged = clear_first merged"
proof (rule nth_equalityI)
  fix i assume "i < length (map (accounted_as (clear_first merged)) merged)"
  then have i: "i < length merged" by simp
  have "sc_ClipID (clear_first merged ! i) = sc_ClipID (merged ! i)"
    using arg_cong [OF clear_first_shape(1) [of merged], of "\<lambda>xs. xs ! i"] i by (simp add: clear_first_shape(5))
  then have "accounted_as (clear_first merged) (merged ! i) = clear_first merged ! i"
    by (intro accounted_as_in) (use assms i in \<open>simp_all add: clear_first_shape\<close>)
  then show "map (accounted_as (clear_first merged)) merged ! i = clear_first merged ! i" using i by simp
qed (simp add: clear_first_shape)

lemma accounted_key:
  assumes "distinct (map sc_ClipID merged)" "x \<in> set merged"
  shows "account_key (accounted_as (clear_first merged) x) = account_key x \<and> sc_ClipID (accounted_as (clear_first merged) x) = sc_ClipID x"
proof -
  obtain i where i: "i < length merged" "x = merged ! i" using assms(2) by (metis in_set_conv_nth)
  have "accounted_as (clear_first merged) x = clear_first merged ! i"
    using arg_cong [OF accounted_merged [OF assms(1)], of "\<lambda>xs. xs ! i"] i by simp
  then show ?thesis
    using arg_cong [OF clear_first_shape(1) [of merged], of "\<lambda>xs. xs ! i"] arg_cong [OF clear_first_shape(2) [of merged], of "\<lambda>xs. xs ! i"] i
    by (simp add: clear_first_shape(5))
qed

lemma merged_again:
  assumes "mergeAccountedSources xs ys = Some merged"
  shows "mergeAccountedSources (map (accounted_as (clear_first merged)) xs) (map (accounted_as (clear_first merged)) ys) = Some (clear_first merged)"
proof -
  let ?f = "accounted_as (clear_first merged)"
  note m = merge_Some [OF assms]
  have "sort_key account_key (map ?f (xs @ ys)) = map ?f (sort_key (\<lambda>x. account_key (?f x)) (xs @ ys))" by (rule sort_key_map)
  also have "sort_key (\<lambda>x. account_key (?f x)) (xs @ ys) = sort_key account_key (xs @ ys)"
  proof (rule sort_key_same)
    fix x assume "x \<in> set (xs @ ys)"
    then have "x \<in> set merged" using m by simp
    then show "account_key (?f x) = account_key x" using accounted_key [OF conjunct2 [OF m]] by blast
  qed
  also have "map ?f (sort_key account_key (xs @ ys)) = clear_first merged" using accounted_merged [OF conjunct2 [OF m]] conjunct1 [OF m] by simp
  finally show ?thesis using conjunct2 [OF m] by (simp add: mergeAccountedSources_def Let_def clear_first_shape(1))
qed

text \<open>The plan of a day's request: what it is made of.\<close>

definition media_plan :: "PlanRequest \<Rightarrow> SourceClip list \<Rightarrow> string \<Rightarrow> string \<Rightarrow> Gap list \<Rightarrow> OutputPlan list \<Rightarrow> BatchPlan" where
  "media_plan req all hourID manifest gaps outs =
     (bare_plan req (pr_FolderName req) (pr_LocalDate req) (pr_DeliveryHour req) hourID manifest)\<lparr>bp_OutputCount := int (length outs),
       bp_Sources := all, bp_Quarantined := Some (pr_Quarantined req), bp_Gaps := gaps, bp_Outputs := outs\<rparr>"

definition request_ok :: "(string \<Rightarrow> string) \<Rightarrow> (string \<Rightarrow> location option) \<Rightarrow> PlanRequest \<Rightarrow> bool" where
  "request_ok hash tzdb req \<longleftrightarrow> safe_name (pr_BatchID req) \<and> 0 < pr_Generation req \<and> 0 < pr_RecordingID req \<and> 1 \<le> pr_DeliveryHour req \<and>
     pr_DeliveryHour req \<le> 12 \<and> pr_Sources req \<noteq> [] \<and> evidence_ok hash tzdb req \<and>
     (\<forall>x \<in> set (pr_Quarantined req). validatePreflightSource x (pr_RecordingID req) \<and> permits (pr_Qualification req) x)"

lemma finalizePlan_Inr:
  assumes "finalizePlan hash tzdb req drafts gaps loc sealed = Inr p"
  obtains all manifest body hourID outs where "mergeAccountedSources (pr_Sources req) (pr_Quarantined req) = Some all"
    "CanonicalSourceClaim hash all = Some (manifest, body)" "canonicalHourID req (pr_LocalDate req) (pr_DeliveryHour req) manifest = Some hourID"
    "plan_outputs tzdb req loc sealed (int (length drafts)) 1 (pr_Artifacts req) drafts = Inr outs"
    "p = (if sealed then with_coverage else id) (media_plan req all hourID manifest gaps outs)"
  using assms unfolding finalizePlan_def Let_def media_plan_def bare_plan_def
  by (simp split: option.splits prod.splits sum.splits if_splits)

lemma finalizePlan_built:
  assumes "mergeAccountedSources (pr_Sources req) (pr_Quarantined req) = Some all"
    "CanonicalSourceClaim hash all = Some (manifest, body)" "canonicalHourID req (pr_LocalDate req) (pr_DeliveryHour req) manifest = Some hourID"
    "plan_outputs tzdb req loc sealed (int (length drafts)) 1 (pr_Artifacts req) drafts = Inr outs"
  shows "finalizePlan hash tzdb req drafts gaps loc sealed = Inr ((if sealed then with_coverage else id) (media_plan req all hourID manifest gaps outs))"
  using assms by (simp add: finalizePlan_def media_plan_def bare_plan_def Let_def)

lemma buildPlan_Inr:
  assumes "buildPlan hash tzdb request sealed = Inr p"
  obtains loc folder merged req gaps drafts where "request_ok hash tzdb request" "tzdb (TrimSpace (pr_Timezone request)) = Some loc"
    "BuildFolderName ProfilePlazaHourlyV1 (pr_RecordingID request) (pr_Metadata request) (pr_FolderName request) = Inr folder"
    "mergeAccountedSources (pr_Sources request) (pr_Quarantined request) = Some merged"
    "req = applyAccountedSources (request\<lparr>pr_FolderName := folder\<rparr>) (clear_first merged)"
    "plan_clips req loc (map sc_ClipID (pr_Quarantined request)) None False [] [] [] [] (clear_first merged) = Inr (gaps, drafts)"
    "sealed \<longrightarrow> length (pr_Artifacts request) = length drafts" "finalizePlan hash tzdb req drafts gaps loc sealed = Inr p"
proof -
  have "request_ok hash tzdb request"
    using assms by (auto simp: buildPlan_def request_ok_def split: if_splits option.splits sum.splits)
  then show thesis using assms that
    by (auto simp: buildPlan_def applyAccountedSources_def Let_def split: if_splits option.splits sum.splits)
qed

lemma sorted_pairs:
  assumes "\<forall>(x, y) \<in> set (neighbours xs). clip_before x y"
  shows "sorted_wrt clip_before xs"
  using assms
proof (induction xs rule: induct_list012)
  case (3 x y xs)
  then show ?case using clip_before_trans by auto
qed simp_all

lemma ids_applied:
  assumes "mergeAccountedSources xs ys = Some merged" "zs = xs \<or> zs = ys"
  shows "map sc_ClipID (map (accounted_as (clear_first merged)) zs) = map sc_ClipID zs"
proof -
  have "z \<in> set merged" if "z \<in> set zs" for z using merge_Some [OF assms(1)] assms(2) that by auto
  then show ?thesis using accounted_key [OF conjunct2 [OF merge_Some [OF assms(1)]]] by simp
qed

lemma plan_shape:
  assumes "buildPlan hash tzdb req sealed = Inr p"
  obtains loc folder merged gaps drafts req' hourID manifest body outs where
    "request_ok hash tzdb req" "tzdb (TrimSpace (pr_Timezone req)) = Some loc"
    "BuildFolderName ProfilePlazaHourlyV1 (pr_RecordingID req) (pr_Metadata req) (pr_FolderName req) = Inr folder"
    "mergeAccountedSources (pr_Sources req) (pr_Quarantined req) = Some merged" "merged \<noteq> []"
    "req' = applyAccountedSources (req\<lparr>pr_FolderName := folder\<rparr>) (clear_first merged)"
    "plan_clips req' loc (map sc_ClipID (pr_Quarantined req)) None False [] [] [] [] (clear_first merged) = Inr (gaps, drafts)"
    "sealed \<longrightarrow> length (pr_Artifacts req) = length drafts" "CanonicalSourceClaim hash (clear_first merged) = Some (manifest, body)"
    "canonicalHourID req' (pr_LocalDate req) (pr_DeliveryHour req) manifest = Some hourID"
    "plan_outputs tzdb req' loc sealed (int (length drafts)) 1 (pr_Artifacts req) drafts = Inr outs"
    "p = (if sealed then with_coverage else id) (media_plan req' (clear_first merged) hourID manifest gaps outs)"
proof -
  obtain loc folder merged req' gaps drafts where b: "request_ok hash tzdb req" "tzdb (TrimSpace (pr_Timezone req)) = Some loc"
    "BuildFolderName ProfilePlazaHourlyV1 (pr_RecordingID req) (pr_Metadata req) (pr_FolderName req) = Inr folder"
    "mergeAccountedSources (pr_Sources req) (pr_Quarantined req) = Some merged"
    "req' = applyAccountedSources (req\<lparr>pr_FolderName := folder\<rparr>) (clear_first merged)"
    "plan_clips req' loc (map sc_ClipID (pr_Quarantined req)) None False [] [] [] [] (clear_first merged) = Inr (gaps, drafts)"
    "sealed \<longrightarrow> length (pr_Artifacts req) = length drafts" "finalizePlan hash tzdb req' drafts gaps loc sealed = Inr p"
    by (rule buildPlan_Inr [OF assms])
  have "set merged = set (pr_Sources req @ pr_Quarantined req)" using merge_Some [OF b(4)] by simp
  then have "merged \<noteq> []" using b(1) by (auto simp: request_ok_def)
  have req: "mergeAccountedSources (pr_Sources req') (pr_Quarantined req') = Some (clear_first merged)"
    "pr_LocalDate req' = pr_LocalDate req" "pr_DeliveryHour req' = pr_DeliveryHour req" "pr_Artifacts req' = pr_Artifacts req"
    using merged_again [OF b(4)] by (simp_all add: b(5) applyAccountedSources_def)
  show thesis
  proof (rule finalizePlan_Inr [OF b(8)], goal_cases)
    case (1 all manifest body hourID outs)
    then have all: "all = clear_first merged" using req(1) by simp
    show thesis
      by (rule that [OF b(1-4) \<open>merged \<noteq> []\<close> b(5-7) 1(2) [unfolded all] 1(3) [unfolded req(2,3)] 1(4) [unfolded req(4)] 1(5) [unfolded all]])
  qed
qed

lemma contiguous:
  assumes "validateDerivedSeam x y" "continues q x y"
  shows "sc_StartUTC y = sc_EndUTC x"
  using assms by (auto simp: validateDerivedSeam_def continues_def time_sub_def max_duration_def min_duration_def Let_def split: if_splits)

lemma merge_ids: "mergeAccountedSources xs ys = Some zs \<Longrightarrow> mset (map sc_ClipID zs) = mset (map sc_ClipID (xs @ ys))"
  using merge_Some [of xs ys zs] by simp

lemma plan_parts:
  assumes "buildPlan hash tzdb req sealed = Inr p"
  shows "let xs = bp_Sources p; q = map sc_ClipID (pr_Quarantined req); parts = map op_Sources (bp_Outputs p) in
    mset (map sc_ClipID xs) = mset (map sc_ClipID (pr_Sources req @ pr_Quarantined req)) \<and> distinct (map sc_ClipID xs) \<and> sorted_wrt clip_before xs \<and>
    concat parts = filter (\<lambda>x. sc_ClipID x \<notin> set q) xs \<and> [] \<notin> set parts \<and>
    concat (map neighbours parts) = filter (\<lambda>(x, y). continues q x y) (neighbours xs) \<and>
    (\<forall>(x, y) \<in> set (concat (map neighbours parts)). sc_StartUTC y = sc_EndUTC x) \<and>
    bp_Gaps p = map (\<lambda>(x, y). gap_between q x y) (filter (\<lambda>(x, y). \<not> continues q x y) (neighbours xs)) \<and>
    map op_Part (bp_Outputs p) = [1..int (length parts)] \<and> (\<forall>x \<in> set (bp_Outputs p). output_ok (int (length parts)) x)"
proof -
  obtain loc folder merged gaps drafts req' hourID manifest body outs where b:
    "mergeAccountedSources (pr_Sources req) (pr_Quarantined req) = Some merged" "merged \<noteq> []"
    "plan_clips req' loc (map sc_ClipID (pr_Quarantined req)) None False [] [] [] [] (clear_first merged) = Inr (gaps, drafts)"
    "plan_outputs tzdb req' loc sealed (int (length drafts)) 1 (pr_Artifacts req) drafts = Inr outs"
    "p = (if sealed then with_coverage else id) (media_plan req' (clear_first merged) hourID manifest gaps outs)"
    by (rule plan_shape [OF assms])
  obtain current where parts: "parts_ok (map sc_ClipID (pr_Quarantined req)) (clear_first merged) current gaps drafts" "order_ok (clear_first merged)"
    using plan_clips_Inr [OF b(3)] b(2) by (auto simp: clear_first_shape)
  have "sorted_wrt clip_before (clear_first merged)"
    by (rule sorted_pairs) (use parts(2) in \<open>auto simp: order_ok_def\<close>)
  moreover have runs: "concat (map neighbours drafts) = filter (\<lambda>(x, y). continues (map sc_ClipID (pr_Quarantined req)) x y) (neighbours (clear_first merged))"
    using parts(1) unfolding parts_ok_def by blast
  have "sc_StartUTC y = sc_EndUTC x" if "(x, y) \<in> set (concat (map neighbours drafts))" for x y
  proof -
    have "(x, y) \<in> set (neighbours (clear_first merged))" "continues (map sc_ClipID (pr_Quarantined req)) x y"
      using that unfolding runs by auto
    then show ?thesis using contiguous parts(2) by (auto simp: order_ok_def)
  qed
  then have "\<forall>(x, y) \<in> set (concat (map neighbours drafts)). sc_StartUTC y = sc_EndUTC x" by blast
  moreover have "bp_Sources p = clear_first merged" "bp_Gaps p = gaps" "bp_Outputs p = outs"
    by (simp_all add: b(5) media_plan_def with_coverage_def)
  ultimately show ?thesis
    using plan_outputs_Inr [OF b(4)] parts(1) merge_ids [OF b(1)] conjunct2 [OF merge_Some [OF b(1)]]
    unfolding parts_ok_def Let_def by (simp add: clear_first_shape)
qed

text \<open>C29: a plan cuts its hour at the breaks and only there. Its clips are those of the request, in order; its parts are the clips
  that are not quarantined, in that order, none empty and numbered from one; two clips are neighbours in a part exactly when
  they are neighbours in the hour and the second continues the first, and then it starts when the first ends; and the gaps
  are exactly the other neighbours.\<close>

theorem plan_parts_exact:
  assumes "buildPlan hash tzdb req sealed = Inr p"
  shows "let xs = bp_Sources p; q = map sc_ClipID (pr_Quarantined req); parts = map op_Sources (bp_Outputs p) in
    mset (map sc_ClipID xs) = mset (map sc_ClipID (pr_Sources req @ pr_Quarantined req)) \<and> distinct (map sc_ClipID xs) \<and> sorted_wrt clip_before xs \<and>
    concat parts = filter (\<lambda>x. sc_ClipID x \<notin> set q) xs \<and> [] \<notin> set parts \<and>
    concat (map neighbours parts) = filter (\<lambda>(x, y). continues q x y) (neighbours xs) \<and>
    (\<forall>(x, y) \<in> set (concat (map neighbours parts)). sc_StartUTC y = sc_EndUTC x) \<and>
    bp_Gaps p = map (\<lambda>(x, y). gap_between q x y) (filter (\<lambda>(x, y). \<not> continues q x y) (neighbours xs)) \<and>
    map op_Part (bp_Outputs p) = [1..int (length parts)] \<and> (\<forall>x \<in> set (bp_Outputs p). output_ok (int (length parts)) x)"
  using assms by (rule plan_parts)

section \<open>Folder names\<close>

abbreviation unsqueezed :: "char \<Rightarrow> char \<Rightarrow> bool" where
  "unsqueezed c e \<equiv> \<not> (c = CHR ''_'' \<and> e = CHR ''_'')"

lemma squeeze_Cons: "\<exists>t. squeeze (c # s) = c # t"
  by (induction s arbitrary: c) auto

lemma squeezed: "successively unsqueezed (squeeze s)"
proof (induction s rule: squeeze.induct)
  case (3 c e s)
  obtain t where "squeeze (e # s) = e # t" using squeeze_Cons by blast
  then show ?case using 3 by auto
qed simp_all

lemma squeeze_id: "successively unsqueezed s \<Longrightarrow> squeeze s = s"
  by (induction s rule: squeeze.induct) auto

lemma successively_Trim: "successively P s \<Longrightarrow> successively P (Trim cs s)"
proof -
  have "successively P (dropWhile Q t)" if "successively P t" for P :: "'a \<Rightarrow> 'a \<Rightarrow> bool" and Q t
    using that successively_append_iff [of P "takeWhile Q t" "dropWhile Q t"] by simp
  then show "successively P s \<Longrightarrow> successively P (Trim cs s)" unfolding Trim_def by (metis successively_rev rev_rev_ident)
qed

lemma dropWhile_id: "s = [] \<or> \<not> P (hd s) \<Longrightarrow> dropWhile P s = s"
  by (cases s) auto

lemma Trim_id: "s = [] \<or> hd s \<notin> set cs \<and> last s \<notin> set cs \<Longrightarrow> Trim cs s = s"
  by (auto simp: Trim_def dropWhile_id hd_rev)

lemma Trim_last: "Trim cs s \<noteq> [] \<Longrightarrow> last (Trim cs s) \<notin> set cs"
  unfolding Trim_def by (metis hd_dropWhile last_rev rev_is_Nil_conv)

lemma TrimSpace_id: "\<forall>c \<in> set s. \<not> is_space c \<Longrightarrow> TrimSpace s = s"
proof -
  have "dropWhile is_space t = t" if "\<forall>c \<in> set t. \<not> is_space c" for t using that by (cases t) auto
  from this [of s] this [of "rev s"] show "\<forall>c \<in> set s. \<not> is_space c \<Longrightarrow> TrimSpace s = s" by (simp add: TrimSpace_def)
qed

lemma name_char_space: "name_char c \<Longrightarrow> \<not> is_space c"
  by (auto simp: name_char_def is_space_def is_digit_def)

lemma token_name: "name_char c \<Longrightarrow> token_char c = [c]"
  by (auto simp: name_char_def token_char_def is_digit_def is_space_def)

lemma sanitizeToken_again: "sanitizeToken (sanitizeToken raw) = sanitizeToken raw"
proof -
  let ?s = "sanitizeToken raw"
  have chars: "\<forall>c \<in> set ?s. name_char c" using sanitizeToken_chars by (simp add: list_all_iff)
  have "\<forall>c \<in> set s. name_char c \<Longrightarrow> concat (map token_char s) = s" for s by (induction s) (simp_all add: token_name)
  then have "concat (map token_char ?s) = ?s" using chars by blast
  moreover have "TrimSpace ?s = ?s" using chars name_char_space by (simp add: TrimSpace_id)
  moreover have "squeeze ?s = ?s" unfolding sanitizeToken_def by (intro squeeze_id successively_Trim squeezed)
  moreover have "Trim ''_.'' ?s = ?s" using Trim_ends Trim_last by (auto simp: sanitizeToken_def intro!: Trim_id)
  ultimately show ?thesis unfolding sanitizeToken_def [of "sanitizeToken raw"] by simp
qed

lemma sanitize_parts_fixed: "sanitize_parts ps = Inr qs \<Longrightarrow> sanitize_parts qs = Inr qs"
proof (induction ps arbitrary: qs)
  case (Cons p ps)
  then show ?case by (cases "sanitize_parts ps") (auto simp: Let_def sanitizeToken_again split: if_splits)
qed simp

lemma safe_ends: "safe_segment s \<Longrightarrow> s \<noteq> [] \<and> (\<forall>c \<in> set s. \<not> is_space c \<and> c \<noteq> CHR ''/'')"
  using name_char_space name_char_plain by (auto simp: safe_segment_def list_all_iff)

text \<open>A sanitised folder is its own folder.\<close>

lemma sanitizePath_again:
  assumes "sanitizePath raw = Inr f"
  shows "sanitizePath f = Inr f \<and> TrimSpace f = f \<and> f \<noteq> []"
proof -
  let ?parts = "split_on CHR ''/'' (Trim ''/'' (TrimSpace raw))"
  obtain ps where ps: "sanitize_parts ?parts = Inr ps" "f = join_with ''/'' ps"
    using assms by (cases "sanitize_parts ?parts") (auto simp: sanitizePath_def Let_def split: if_splits)
  have safe: "ps \<noteq> []" "list_all safe_segment ps" using sanitize_parts_safe [OF ps(1)] split_on_nonempty by blast+
  have f: "f \<noteq> [] \<and> (\<forall>c \<in> set f. \<not> is_space c) \<and> hd f \<noteq> CHR ''/'' \<and> last f \<noteq> CHR ''/''"
    using safe unfolding ps(2)
  proof (induction ps rule: list_nonempty_induct)
    case (cons p ps)
    have "\<not> is_space CHR ''/''" by (simp add: is_space_def)
    with cons safe_ends [of p] show ?case by (auto simp: join_Cons)
  qed (use safe_ends in auto)
  then have "TrimSpace f = f" "Trim ''/'' f = f" by (auto intro: TrimSpace_id Trim_id)
  then show ?thesis using f sanitize_parts_fixed [OF ps(1)] split_join [OF safe] by (simp add: sanitizePath_def ps(2))
qed

lemma folder_again:
  assumes "BuildFolderName ProfilePlazaHourlyV1 rid m raw = Inr folder" "TrimSpace raw \<noteq> []"
  shows "BuildFolderName ProfilePlazaHourlyV1 rid m folder = Inr folder"
  using assms sanitizePath_again [of "TrimSpace raw" folder] by (auto simp: BuildFolderName_def Let_def split: option.splits)

section \<open>Encoding a plan\<close>

lemma encode_array: "encode html (JArray xs) \<noteq> None \<longleftrightarrow> (\<forall>x \<in> set xs. encode html x \<noteq> None)"
proof -
  have "encode_list html xs \<noteq> None \<longleftrightarrow> (\<forall>x \<in> set xs. encode html x \<noteq> None)" by (induction xs) (auto split: option.splits)
  then show ?thesis by auto
qed

lemma encode_leaf [simp]: "encode html JNull \<noteq> None" "encode html (JBool b) \<noteq> None" "encode html (JInt i) \<noteq> None" "encode html (JString s) \<noteq> None"
  by simp_all

text \<open>The instants of a clip, on which alone its encoding depends.\<close>

definition clip_times_ok :: "SourceClip \<Rightarrow> bool" where
  "clip_times_ok x \<longleftrightarrow> time_json (sc_StartUTC x) \<noteq> None \<and> time_json (sc_EndUTC x) \<noteq> None \<and> (\<forall>t. sc_ReleasedAt x = Some t \<longrightarrow> time_json t \<noteq> None)"

lemma encode_clip: "encode html (source_json x) \<noteq> None \<longleftrightarrow> clip_times_ok x"
proof -
  have "encode html (audio_json a) \<noteq> None" for a unfolding audio_json_def encode_object by (auto simp: omitempty_def)
  moreover have "encode html (object_json a) \<noteq> None" for a unfolding object_json_def encode_object by (auto simp: omitempty_def)
  moreover have "encode html (seam_json a) \<noteq> None" for a unfolding seam_json_def encode_object by simp
  ultimately show ?thesis
    unfolding source_json_def encode_object by (cases "sc_AudioContract x"; cases "sc_ReleasedAt x")
      (auto simp: omitempty_def opt_json_def clip_times_ok_def simp del: not_None_eq)
qed

lemma encode_claim: "CanonicalSourceClaim hash xs \<noteq> None \<longleftrightarrow> (\<forall>x \<in> set xs. clip_times_ok x)"
proof -
  have "clip_times_ok (source_only x) = clip_times_ok x" for x by (simp add: clip_times_ok_def source_only_def)
  then show ?thesis
    using encode_array [of False "map source_json (sourceOnlyClips xs)"]
    by (auto simp: CanonicalSourceClaim_def CanonicalSHA_def claim_json_def sourceOnlyClips_def encode_clip simp del: not_None_eq encode.simps)
qed

lemma encode_window:
  assumes "ValidateQualificationWindow hash tzdb w"
  shows "encode False (window_json w) \<noteq> None"
proof -
  obtain v where "SealQualificationWindow hash tzdb w = Some v"
    using assms by (auto simp: ValidateQualificationWindow_def split: option.splits)
  then have "encode False (window_json (w\<lparr>qw_EvidenceSHA := []\<rparr>)) \<noteq> None"
    by (auto simp: SealQualificationWindow_def CanonicalSHA_def Let_def split: option.splits if_splits)
  then show ?thesis unfolding window_json_def encode_object by auto
qed

lemma encode_tool: "encode html (tool_json x) \<noteq> None" "encode html (metadata_json m) \<noteq> None"
  unfolding tool_json_def metadata_json_def encode_object by simp_all

lemma encode_gap: "encode html (gap_json g) \<noteq> None \<longleftrightarrow> time_json (gp_AtUTC g) \<noteq> None"
  unfolding gap_json_def encode_object by simp

lemma encode_output: "encode html (output_json x) \<noteq> None \<longleftrightarrow>
    time_json (op_ActualStart x) \<noteq> None \<and> time_json (op_ActualEnd x) \<noteq> None \<and> (\<forall>y \<in> set (op_Sources x). clip_times_ok y)"
  unfolding output_json_def encode_object by (simp add: encode_array encode_clip del: not_None_eq encode.simps(6))

lemma encode_plan:
  assumes "encode False (window_json (bp_Qualification p)) \<noteq> None" "\<forall>x \<in> set (bp_Sources p @ held_clips p). clip_times_ok x"
    and "\<forall>g \<in> set (bp_Gaps p). time_json (gp_AtUTC g) \<noteq> None" "\<forall>x \<in> set (bp_Outputs p). encode False (output_json x) \<noteq> None"
  shows "plan_bytes p \<noteq> None"
proof -
  have "encode False (opt_json (\<lambda>xs. JArray (map source_json xs)) (bp_Quarantined p)) \<noteq> None"
    using assms(2) encode_array [of False "map source_json (held_clips p)"]
    by (cases "bp_Quarantined p") (simp_all add: opt_json_def held_clips_def encode_clip del: not_None_eq encode.simps(6))
  moreover have "encode False (JArray (map source_json (bp_Sources p))) \<noteq> None" "encode False (JArray (map gap_json (bp_Gaps p))) \<noteq> None"
    "encode False (JArray (map output_json (bp_Outputs p))) \<noteq> None"
    using assms(2-4) by (simp_all add: encode_array encode_clip encode_gap del: not_None_eq encode.simps(6))
  ultimately show ?thesis
    unfolding plan_bytes_def plan_json_def encode_object using assms(1) encode_tool
    by (auto simp: omitempty_def simp del: not_None_eq encode.simps(6))
qed

section \<open>Building a plan again\<close>

text \<open>The clips listed in the request matter only through the accounted list.\<close>

lemma plan_clips_request: "plan_clips (req\<lparr>pr_Sources := s\<rparr>) loc q previous current ids keys gaps drafts xs =
    plan_clips req loc q previous current ids keys gaps drafts xs"
proof (induction xs arbitrary: previous current ids keys gaps drafts)
  case (Cons x xs)
  have "clip_ok (req\<lparr>pr_Sources := s\<rparr>) loc q ids keys x = clip_ok req loc q ids keys x" by (simp add: clip_ok_def)
  then show ?case using Cons by (simp add: Let_def split: option.splits)
qed simp

lemma plan_outputs_request: "plan_outputs tzdb (req\<lparr>pr_Sources := s\<rparr>) loc sealed n i artifacts drafts = plan_outputs tzdb req loc sealed n i artifacts drafts"
proof -
  have "output_of tzdb (req\<lparr>pr_Sources := s\<rparr>) loc sealed n i artifact xs = output_of tzdb req loc sealed n i artifact xs" for i artifact xs
    by (simp add: output_of_def Let_def split: sum.split)
  then show ?thesis by (cases sealed; induction drafts arbitrary: i artifacts; simp split: sum.split)
qed

lemma request_cong [simp]:
  "canonicalHourID (req\<lparr>pr_Sources := s\<rparr>) date h manifest = canonicalHourID req date h manifest"
  "media_plan (req\<lparr>pr_Sources := s\<rparr>) all hourID manifest gaps outs = media_plan req all hourID manifest gaps outs"
  by (simp_all add: canonicalHourID_def media_plan_def bare_plan_def)

text \<open>The checks each clip has passed.\<close>

lemma plan_clips_checked:
  assumes "plan_clips req loc q previous current ids keys gaps drafts xs = Inr r" "x \<in> set xs"
  shows "(if sc_ClipID x \<notin> set q then validateSource x (pr_RecordingID req) else validatePreflightSource x (pr_RecordingID req)) \<and>
    permits (pr_Qualification req) x"
  using assms
proof (induction xs arbitrary: previous current ids keys gaps drafts)
  case (Cons y ys)
  then show ?case by (auto simp: clip_ok_def Let_def split: option.splits if_splits)
qed simp

text \<open>Two lists of the same clips have the same order.\<close>

lemma merge_unique:
  assumes "mset (xs @ ys) = mset all" "distinct (map sc_ClipID all)" "sorted_wrt clip_before all"
  shows "mergeAccountedSources xs ys = Some all"
proof -
  have "sort_key account_key (xs @ ys) = all"
  proof (rule sort_key_inj_key_eq)
    show "mset (xs @ ys) = mset all" by fact
    have "set (xs @ ys) = set all" using assms(1) by (metis set_mset_mset)
    then show "inj_on account_key (set (xs @ ys))"
      using ids_inj [OF assms(2)] by (auto simp: inj_on_def account_key_def)
    show "sorted (map account_key all)"
      unfolding sorted_map by (rule sorted_wrt_mono_rel [OF _ assms(3)]) (simp add: account_order [symmetric] less_imp_le)
  qed
  then show ?thesis using assms(2) by (simp add: mergeAccountedSources_def)
qed

text \<open>The quarantined clips of a plan are those of its clips that the request quarantines.\<close>

lemma held_set:
  assumes "mergeAccountedSources xs ys = Some merged"
  defines "all \<equiv> clear_first merged"
  shows "set (map (accounted_as all) ys) = {x \<in> set all. sc_ClipID x \<in> sc_ClipID ` set ys}" "distinct (map (accounted_as all) ys)"
    "mset (filter (\<lambda>x. sc_ClipID x \<notin> sc_ClipID ` set ys) all @ map (accounted_as all) ys) = mset all"
proof -
  note m = merge_Some [OF assms(1)]
  have ids: "distinct (map sc_ClipID all)" unfolding all_def using conjunct2 [OF m] by (simp add: clear_first_shape(1))
  have member: "accounted_as all y \<in> set all \<and> sc_ClipID (accounted_as all y) = sc_ClipID y" if "y \<in> set ys" for y
  proof -
    have "y \<in> set merged" using m that by simp
    then have "accounted_as all y \<in> set (map (accounted_as all) merged)" by simp
    then show ?thesis using accounted_key [OF conjunct2 [OF m] \<open>y \<in> set merged\<close>] accounted_merged [OF conjunct2 [OF m]]
      unfolding all_def by metis
  qed
  show held: "set (map (accounted_as all) ys) = {x \<in> set all. sc_ClipID x \<in> sc_ClipID ` set ys}"
  proof (intro equalityI subsetI)
    fix x assume "x \<in> {x \<in> set all. sc_ClipID x \<in> sc_ClipID ` set ys}"
    then obtain y where "x \<in> set all" "y \<in> set ys" "sc_ClipID x = sc_ClipID y" by auto
    then show "x \<in> set (map (accounted_as all) ys)" using accounted_as_in [OF ids, of x y] by force
  qed (use member in auto)
  have "distinct (map sc_ClipID (xs @ ys))"
    using mset_eq_imp_distinct_iff [OF merge_ids [OF assms(1)]] m by blast
  then have "distinct (map sc_ClipID ys)" by simp
  then have "distinct (map sc_ClipID (map (accounted_as all) ys))" unfolding all_def ids_applied [OF assms(1) disjI2 [OF refl]] .
  then show distinct: "distinct (map (accounted_as all) ys)" using distinct_map by blast
  have "distinct all" using ids distinct_map by blast
  then have "distinct (filter (\<lambda>x. sc_ClipID x \<notin> sc_ClipID ` set ys) all @ map (accounted_as all) ys)"
    using distinct held by auto
  moreover have "set (filter (\<lambda>x. sc_ClipID x \<notin> sc_ClipID ` set ys) all @ map (accounted_as all) ys) = set all"
    unfolding set_append held by auto
  ultimately show "mset (filter (\<lambda>x. sc_ClipID x \<notin> sc_ClipID ` set ys) all @ map (accounted_as all) ys) = mset all"
    using set_eq_iff_mset_eq_distinct [OF _ \<open>distinct all\<close>] by blast
qed

lemma hour_id_value:
  assumes "canonicalHourID req date h manifest = Some i"
  shows "i = canonicalHourIDValue (pr_BatchID req) (pr_RecordingID req) date h (pr_Generation req)"
  using assms by (auto simp: canonicalHourID_def split: if_splits)

lemma built_is_sealed:
  assumes "canonicalHourID req (pr_LocalDate req) (pr_DeliveryHour req) manifest = Some hourID" "outs \<noteq> []"
    and "safe_name (pr_BatchID req)" "0 < pr_Generation req" "1 \<le> pr_DeliveryHour req" "pr_DeliveryHour req \<le> 12"
  shows "plan_sealed (with_coverage (media_plan req all hourID manifest gaps outs))"
  using assms(2-) hour_id_value [OF assms(1)]
  by (auto simp: plan_sealed_def with_coverage_def media_plan_def bare_plan_def canonicalBatchCoverageKey_def)

text \<open>The plan of a request, and what building it again from itself needs.\<close>

lemma built_plan_encodes:
  assumes "parts_ok q all current gaps drafts" "\<forall>x \<in> set all. clip_times_ok x" "map op_Sources outs = drafts" "\<forall>x \<in> set outs. output_ok n x"
    and "set (pr_Quarantined req) \<subseteq> set all" "encode False (window_json (pr_Qualification req)) \<noteq> None"
  shows "plan_bytes (with_coverage (media_plan req all hourID manifest gaps outs)) \<noteq> None"
proof (rule encode_plan)
  have gaps: "gaps = map (\<lambda>(x, y). gap_between q x y) (filter (\<lambda>(x, y). \<not> continues q x y) (neighbours all))"
    using assms(1) by (simp add: parts_ok_def)
  have "x \<in> set all" if "(x, y) \<in> set (neighbours all)" for x y using that by (auto simp: neighbours_def dest: set_zip_leftD)
  then have "\<forall>g \<in> set gaps. time_json (gp_AtUTC g) \<noteq> None" unfolding gaps using assms(2) by (fastforce simp: gap_between_def clip_times_ok_def)
  then show "\<forall>g \<in> set (bp_Gaps (with_coverage (media_plan req all hourID manifest gaps outs))). time_json (gp_AtUTC g) \<noteq> None"
    by (simp add: with_coverage_def media_plan_def)
  have "encode False (output_json x) \<noteq> None" if "x \<in> set outs" for x
  proof -
    have "op_Sources x \<in> set drafts" using that assms(3) by auto
    moreover have "concat drafts = filter (\<lambda>x. sc_ClipID x \<notin> set q) all" "[] \<notin> set drafts" using assms(1) by (simp_all add: parts_ok_def)
    ultimately have "set (op_Sources x) \<subseteq> set all" "op_Sources x \<noteq> []" by (metis UN_upper filter_is_subset order_trans set_concat, metis)
    then have "hd (op_Sources x) \<in> set all" "last (op_Sources x) \<in> set all" "\<forall>y \<in> set (op_Sources x). clip_times_ok y"
      using assms(2) by auto
    then show ?thesis using assms(2,4) that unfolding encode_output by (auto simp: output_ok_def clip_times_ok_def)
  qed
  then show "\<forall>x \<in> set (bp_Outputs (with_coverage (media_plan req all hourID manifest gaps outs))). encode False (output_json x) \<noteq> None"
    by (simp add: with_coverage_def media_plan_def)
qed (use assms in \<open>auto simp: with_coverage_def media_plan_def bare_plan_def held_clips_def\<close>)

lemma media_request_built:
  "media_request (with_coverage (media_plan r all hourID manifest gaps outs)) =
    r\<lparr>pr_Sources := concat (map op_Sources outs), pr_Artifacts := map output_artifact outs\<rparr>"
  by (cases r) (simp add: media_request_def plan_request_def plan_artifacts_def held_clips_def with_coverage_def media_plan_def bare_plan_def
    output_artifact_def [abs_def])

text \<open>A request whose clips are already as they are accounted for.\<close>

lemma buildPlan_accounted:
  assumes "request_ok hash tzdb r" "tzdb (TrimSpace (pr_Timezone r)) = Some loc"
    and "BuildFolderName ProfilePlazaHourlyV1 (pr_RecordingID r) (pr_Metadata r) (pr_FolderName r) = Inr (pr_FolderName r)"
    and "mergeAccountedSources (pr_Sources r) (pr_Quarantined r) = Some all" "clear_first all = all"
    and "plan_clips r loc (map sc_ClipID (pr_Quarantined r)) None False [] [] [] [] all = Inr (gaps, drafts)"
    and "length (pr_Artifacts r) = length drafts" "finalizePlan hash tzdb r drafts gaps loc True = Inr p"
  shows "BuildPlan hash tzdb r = Inr p"
proof -
  have "map (accounted_as all) xs = xs" if "xs = pr_Sources r \<or> xs = pr_Quarantined r" for xs
  proof -
    have "x \<in> set all" if "x \<in> set xs" for x using that \<open>xs = _ \<or> _\<close> merge_Some [OF assms(4)] by auto
    then show ?thesis by (induction xs) (simp_all add: accounted_as_in [OF conjunct2 [OF merge_Some [OF assms(4)]]])
  qed
  then have "applyAccountedSources (r\<lparr>pr_FolderName := pr_FolderName r\<rparr>) all = r" by (cases r) (simp add: applyAccountedSources_def)
  then show ?thesis using assms by (auto simp: BuildPlan_def buildPlan_def request_ok_def Let_def)
qed

text \<open>A request for media has a clip that is not quarantined.\<close>

lemma some_included:
  assumes "request_ok hash tzdb req" "mergeAccountedSources (pr_Sources req) (pr_Quarantined req) = Some merged"
  shows "filter (\<lambda>x. sc_ClipID x \<notin> sc_ClipID ` set (pr_Quarantined req)) (clear_first merged) \<noteq> []"
proof
  assume "filter (\<lambda>x. sc_ClipID x \<notin> sc_ClipID ` set (pr_Quarantined req)) (clear_first merged) = []"
  then have "set (map sc_ClipID (clear_first merged)) \<subseteq> sc_ClipID ` set (pr_Quarantined req)" by (auto simp: filter_empty_conv)
  moreover have "set (map sc_ClipID (clear_first merged)) = sc_ClipID ` set (pr_Sources req @ pr_Quarantined req)"
    using merge_Some [OF assms(2)] by (simp add: clear_first_shape(1) del: set_map) simp
  ultimately have "sc_ClipID ` set (pr_Sources req) \<subseteq> sc_ClipID ` set (pr_Quarantined req)" by (simp add: image_Un)
  moreover have "sc_ClipID ` set (pr_Sources req) \<inter> sc_ClipID ` set (pr_Quarantined req) = {}"
    using mset_eq_imp_distinct_iff [OF merge_ids [OF assms(2)]] conjunct2 [OF merge_Some [OF assms(2)]] by simp
  ultimately have "sc_ClipID ` set (pr_Sources req) = {}" by (simp only: inf.absorb1)
  then show False using assms(1) by (simp add: request_ok_def)
qed

lemma plan_again:
  assumes "BuildPlan hash tzdb req = Inr p" "TrimSpace (pr_FolderName req) \<noteq> []"
  shows "BuildPlan hash tzdb (media_request p) = Inr p \<and> plan_sealed p \<and> plan_bytes p \<noteq> None \<and>
    mergeAccountedSources (concat (map op_Sources (bp_Outputs p))) (held_clips p) = Some (bp_Sources p) \<and>
    (\<forall>x \<in> set (concat (map op_Sources (bp_Outputs p))). validateSource x (bp_RecordingID p)) \<and>
    (\<forall>x \<in> set (held_clips p). validatePreflightSource x (bp_RecordingID p)) \<and> bp_QuarantineReason p = [] \<and> \<not> bp_GapOnly p \<and>
    (\<forall>x \<in> set (bp_Sources p). clip_times_ok x)"
proof -
  define q where "q = map sc_ClipID (pr_Quarantined req)"
  obtain loc folder merged gaps drafts req' hourID manifest body outs where b:
    "request_ok hash tzdb req" "tzdb (TrimSpace (pr_Timezone req)) = Some loc"
    "BuildFolderName ProfilePlazaHourlyV1 (pr_RecordingID req) (pr_Metadata req) (pr_FolderName req) = Inr folder"
    "mergeAccountedSources (pr_Sources req) (pr_Quarantined req) = Some merged" "merged \<noteq> []"
    "req' = applyAccountedSources (req\<lparr>pr_FolderName := folder\<rparr>) (clear_first merged)"
    "plan_clips req' loc q None False [] [] [] [] (clear_first merged) = Inr (gaps, drafts)"
    "length (pr_Artifacts req) = length drafts" "CanonicalSourceClaim hash (clear_first merged) = Some (manifest, body)"
    "canonicalHourID req' (pr_LocalDate req) (pr_DeliveryHour req) manifest = Some hourID"
    "plan_outputs tzdb req' loc True (int (length drafts)) 1 (pr_Artifacts req) drafts = Inr outs"
    "p = with_coverage (media_plan req' (clear_first merged) hourID manifest gaps outs)"
    unfolding q_def by (rule plan_shape [OF assms(1) [unfolded BuildPlan_def]]) simp
  define all where "all = clear_first merged"
  note b = b [folded all_def]
  have p: "bp_Sources p = all" "bp_Outputs p = outs" "held_clips p = pr_Quarantined req'" "bp_RecordingID p = pr_RecordingID req"
    by (simp_all add: b(12) b(6) with_coverage_def media_plan_def bare_plan_def held_clips_def applyAccountedSources_def)
  obtain current where parts: "parts_ok q all current gaps drafts"
    using plan_clips_Inr [OF b(7)] b(5) by (auto simp: all_def clear_first_shape)
  note outs = plan_outputs_Inr [OF b(11)]
  have flat: "concat (map op_Sources outs) = filter (\<lambda>x. sc_ClipID x \<notin> sc_ClipID ` set (pr_Quarantined req)) all"
    using outs parts by (simp add: parts_ok_def q_def)
  have ids: "distinct (map sc_ClipID all)" unfolding all_def using conjunct2 [OF merge_Some [OF b(4)]] by (simp add: clear_first_shape(1))
  note held = held_set [OF b(4), folded all_def]
  have req': "pr_Quarantined req' = map (accounted_as all) (pr_Quarantined req)" "pr_RecordingID req' = pr_RecordingID req"
    "pr_Qualification req' = pr_Qualification req" "pr_BatchID req' = pr_BatchID req" "pr_Generation req' = pr_Generation req"
    "pr_LocalDate req' = pr_LocalDate req" "pr_DeliveryHour req' = pr_DeliveryHour req" "pr_Artifacts req' = pr_Artifacts req"
    "pr_Timezone req' = pr_Timezone req" "pr_FolderName req' = folder" "pr_Metadata req' = pr_Metadata req"
    by (simp_all add: b(6) applyAccountedSources_def)
  have checked: "(if sc_ClipID x \<notin> sc_ClipID ` set (pr_Quarantined req) then validateSource x (pr_RecordingID req)
      else validatePreflightSource x (pr_RecordingID req)) \<and> permits (pr_Qualification req) x" if "x \<in> set all" for x
    using plan_clips_checked [OF b(7) that] unfolding req' q_def by simp
  have merge: "mergeAccountedSources (concat (map op_Sources outs)) (pr_Quarantined req') = Some all"
    unfolding flat req' by (rule merge_unique [OF held(3) ids])
      (use plan_clips_Inr [OF b(7)] b(5) in \<open>auto simp: all_def clear_first_shape order_ok_def intro!: sorted_pairs\<close>)
  have request: "media_request p = req'\<lparr>pr_Sources := concat (map op_Sources outs)\<rparr>"
    using outs b(8) media_request_built [of req' all hourID manifest gaps outs] by (simp add: b(12) req')
  have quarantined: "map sc_ClipID (pr_Quarantined req') = q"
    using ids_applied [OF b(4) disjI2 [OF refl]] by (simp add: req' all_def q_def)
  have held_in: "set (pr_Quarantined req') \<subseteq> set all" unfolding req' held(1) by auto
  have nonempty: "concat (map op_Sources outs) \<noteq> []" unfolding flat all_def by (rule some_included [OF b(1,4)])
  have "BuildPlan hash tzdb (media_request p) = Inr p"
    unfolding request
  proof (rule buildPlan_accounted)
    show "request_ok hash tzdb (req'\<lparr>pr_Sources := concat (map op_Sources outs)\<rparr>)"
      using b(1) nonempty checked held(1) by (auto simp: request_ok_def evidence_ok_def b(6) applyAccountedSources_def)
    show "finalizePlan hash tzdb (req'\<lparr>pr_Sources := concat (map op_Sources outs)\<rparr>) drafts gaps loc True = Inr p"
      using finalizePlan_built [of "req'\<lparr>pr_Sources := concat (map op_Sources outs)\<rparr>" all hash manifest body hourID tzdb loc True drafts outs gaps]
        merge b(9-12) by (simp add: plan_outputs_request req')
  qed (use b(2,7,8) folder_again [OF b(3) assms(2)] merge quarantined in \<open>simp_all add: plan_clips_request req'(2-)\<close>,
      simp add: all_def clear_first_shape(3))
  moreover have "\<forall>x \<in> set all. clip_times_ok x" using encode_claim [of hash all] b(9) by simp
  moreover have "plan_bytes p \<noteq> None"
    unfolding b(12) by (rule built_plan_encodes [OF parts])
      (use outs held_in calculation b(1) encode_window in \<open>auto simp: req' request_ok_def evidence_ok_def\<close>)
  moreover have "plan_sealed p"
    unfolding b(12) by (rule built_is_sealed) (use b(1,10) nonempty in \<open>auto simp: req' request_ok_def\<close>)
  moreover have "\<forall>x \<in> set (concat (map op_Sources outs)). validateSource x (pr_RecordingID req)" unfolding flat using checked by auto
  moreover have "\<forall>x \<in> set (pr_Quarantined req'). validatePreflightSource x (pr_RecordingID req)" unfolding req' held(1) using checked by auto
  moreover have "bp_QuarantineReason p = []" "\<not> bp_GapOnly p" by (simp_all add: b(12) with_coverage_def media_plan_def bare_plan_def)
  ultimately show ?thesis using merge unfolding p by blast
qed

text \<open>C30: a sealed plan passes its own check. A plan that is built from a request with a folder name is accepted by the validator,
  which rebuilds it from its own fields: the same clips in the same parts, the same names, the same identities and bytes.\<close>

theorem built_plan_valid:
  assumes "BuildPlan hash tzdb req = Inr p" "TrimSpace (pr_FolderName req) \<noteq> []"
  shows "ValidatePlan hash tzdb p = None"
proof -
  note again = plan_again [OF assms]
  let ?flat = "concat (map op_Sources (bp_Outputs p))"
  obtain bytes where "plan_bytes p = Some bytes" using again by blast
  moreover have "encode False (JArray (map source_json (bp_Sources p))) \<noteq> None"
    using again by (simp add: encode_array encode_clip del: not_None_eq encode.simps(6))
  then obtain clips where "encode False (JArray (map source_json (bp_Sources p))) = Some clips" by blast
  moreover have "distinct (map sc_ClipID ?flat)"
  proof -
    have merge: "mergeAccountedSources ?flat (held_clips p) = Some (bp_Sources p)" using again by blast
    have "distinct (map sc_ClipID (?flat @ held_clips p))"
      using mset_eq_imp_distinct_iff [OF merge_ids [OF merge]] conjunct2 [OF merge_Some [OF merge]] by blast
    then show ?thesis unfolding map_append distinct_append by blast
  qed
  ultimately show ?thesis
    using again by (auto simp: ValidatePlan_def validate_media_plan_def Let_def simp del: encode.simps)
qed

end
