(* ===== verification/SamplePlan.thy ===== *)
theory SamplePlan
  imports PlanCorrect
begin

text \<open>
  An hour of three clips, the second continuing the first and the third quarantined after a gap: its plan is built, so that
  what \<open>PlanCorrect\<close> shows of plans is not empty.
\<close>

definition sample_hour :: "SourceClip list" where
  "sample_hour = [sample_clip 1 29400 30300 ''a'',
     sample_clip 2 30300 30900 ''b''\<lparr>sc_SeamToPrevious := \<lparr>se_Verdict = ''continuous'', se_Reason = ''measured'', se_SignedGap = 0\<rparr>\<rparr>,
     sample_clip 3 31000 31600 ''c''\<lparr>sc_SeamToPrevious := \<lparr>se_Verdict = ''gap'', se_Reason = ''measured'', se_SignedGap = 100 * second\<rparr>\<rparr>]"

definition sample_tool :: MediaToolEvidence where
  "sample_tool = \<lparr>mt_FFmpegVersion = ''7'', mt_FFmpegSHA256 = replicate 64 CHR ''0'', mt_FFprobeVersion = ''7'', mt_FFprobeSHA256 = replicate 64 CHR ''0'',
     mt_IdentitySHA256 = plain_hash []\<rparr>"

definition sample_artifact :: BuiltArtifact where
  "sample_artifact = \<lparr>ba_SizeBytes = 2000, ba_SHA256 = replicate 64 CHR ''0'', ba_MediaToolIdentity = plain_hash []\<rparr>"

text \<open>The clips are given out of order.\<close>

definition sample_plan_request :: PlanRequest where
  "sample_plan_request = \<lparr>pr_BatchID = ''b1'', pr_Generation = 1, pr_RecordingID = 7, pr_Timezone = ''UTC'', pr_LocalDate = date_string 20500,
     pr_DeliveryHour = 1, pr_FolderName = ''f'', pr_Metadata = example_metadata, pr_Qualification = utc_window 20500, pr_LedgerSHA = plain_hash [],
     pr_MediaTool = sample_tool, pr_Sources = [sample_hour ! 1, sample_hour ! 0], pr_Quarantined = [sample_hour ! 2], pr_Artifacts = [sample_artifact]\<rparr>"

lemma sample_source:
  assumes "0 < i" "start < stop" "stop \<le> start + 900" "safeObjectKey key"
  shows "validateSource (sample_clip i start stop key\<lparr>sc_SeamToPrevious := s\<rparr>) 7"
proof -
  have "TrimSpace ''r2'' \<noteq> []" "TrimSpace ''auto'' \<noteq> []" "TrimSpace ''clips'' \<noteq> []" by code_simp+
  moreover have "sourceEndpointV1 ''https://0123456789abcdef0123456789abcdef.r2.cloudflarestorage.com''" by code_simp
  moreover have "validObjectIdentity ''e1'' []" "lowerHex64 (replicate 64 CHR ''0'')" by code_simp+
  moreover have "time_sub (go_date utc 20500 stop 0) (go_date utc 20500 start 0) \<le> 15 * minute"
    using assms(2,3) by (simp add: time_sub_def go_date_utc max_duration_def min_duration_def algebra_simps)
  ultimately show ?thesis using assms
    by (simp add: sample_clip_def validateSource_def CanonicalSourceEndpointAuthority_def utc_date_order)
qed

lemma preflight_seam [simp]: "validatePreflightSource (x\<lparr>sc_SeamToPrevious := s\<rparr>) rid = validatePreflightSource x rid"
    "permits w (x\<lparr>sc_SeamToPrevious := s\<rparr>) = permits w x" "sourceStorageKey (x\<lparr>sc_SeamToPrevious := s\<rparr>) = sourceStorageKey x"
  by (simp_all add: validatePreflightSource_def permits_def sourceStorageKey_def)

lemma sample_hour_simps: "pr_Sources sample_plan_request = [sample_hour ! 1, sample_hour ! 0]" "pr_Quarantined sample_plan_request = [sample_hour ! 2]"
    "pr_BatchID sample_plan_request = ''b1''" "pr_Generation sample_plan_request = 1" "pr_RecordingID sample_plan_request = 7"
    "pr_Timezone sample_plan_request = ''UTC''" "pr_LocalDate sample_plan_request = date_string 20500" "pr_DeliveryHour sample_plan_request = 1"
    "pr_FolderName sample_plan_request = ''f''" "pr_Metadata sample_plan_request = example_metadata"
    "pr_Qualification sample_plan_request = utc_window 20500" "pr_LedgerSHA sample_plan_request = plain_hash []"
    "pr_MediaTool sample_plan_request = sample_tool" "pr_Artifacts sample_plan_request = [sample_artifact]"
  by (simp_all add: sample_plan_request_def)

lemma sample_permitted: "0 \<le> a \<Longrightarrow> a < b \<Longrightarrow> b \<le> 72000 \<Longrightarrow> 28800 < b \<Longrightarrow> a < 72000 \<Longrightarrow> permits (utc_window 20500) (sample_clip i a b key)"
  using utc_day_simps by (auto simp: permits_def utc_date_order intro!: bexI [of _ "utc_day 20500 0"])

lemma sample_tool_valid: "ValidateMediaToolEvidence plain_hash sample_tool"
proof -
  have "TrimSpace ''7'' \<noteq> []" "lowerHex64 (replicate 64 CHR ''0'')" by code_simp+
  moreover have "encode True (tool_json (sample_tool\<lparr>mt_IdentitySHA256 := []\<rparr>)) \<noteq> None" by (rule encode_tool)
  ultimately show ?thesis using plain_hash_hex
    by (auto simp: ValidateMediaToolEvidence_def SealMediaToolEvidence_def Let_def sample_tool_def plain_hash_def)
qed

lemma sample_merged: "mergeAccountedSources (pr_Sources sample_plan_request) (pr_Quarantined sample_plan_request) = Some sample_hour"
  by (rule merge_unique)
    (simp_all add: sample_hour_simps sample_hour_def clip_before_def utc_date_order)

lemma sample_clips: "\<forall>x \<in> set sample_hour. validatePreflightSource x 7 \<and> permits (utc_window 20500) x \<and> clip_times_ok x \<and> validateSource x 7 \<and>
    local_date utc (sc_StartUTC x) = date_string 20500 \<and> local_date utc (sc_EndUTC x) = date_string 20500"
proof -
  have keys: "safeObjectKey ''a''" "safeObjectKey ''b''" "safeObjectKey ''c''" by code_simp+
  have times: "time_json (go_date utc 20500 s 0) \<noteq> None" if "0 \<le> s" "s < day_seconds" for s
    using that by (intro time_json_total) simp_all
  have first: "sample_clip 1 29400 30300 ''a''\<lparr>sc_SeamToPrevious := no_seam\<rparr> = sample_clip 1 29400 30300 ''a''" by (simp add: sample_clip_def)
  have "validateSource (sample_clip 1 29400 30300 ''a'') 7"
    using sample_source [of 1 29400 30300 "''a''" no_seam] keys unfolding first by simp
  moreover have "sc_ReleasedAt (sample_clip i a b key) = None" for i a b key by (simp add: sample_clip_def)
  ultimately show ?thesis
    using keys times by (simp add: sample_hour_def sample_clip_valid sample_permitted sample_source clip_times_ok_def local_date_def del: not_None_eq)
qed

lemma sample_loop: "plan_clips (sample_plan_request\<lparr>pr_Sources := s\<rparr>) utc [3] None False [] [] [] [] sample_hour =
    Inr ([gap_between [3] (sample_hour ! 1) (sample_hour ! 2)], [[sample_hour ! 0, sample_hour ! 1]])"
proof -
  obtain x y z where xyz: "sample_hour = [x, y, z]" by (simp add: sample_hour_def)
  have ids: "sc_ClipID x = 1" "sc_ClipID y = 2" "sc_ClipID z = 3" using xyz by (auto simp: sample_hour_def)
  have ok: "clip_ok sample_plan_request utc [3] [] [] x = None" "clip_ok sample_plan_request utc [3] [1] [sourceStorageKey x] y = None"
    "clip_ok sample_plan_request utc [3] [2, 1] [sourceStorageKey y, sourceStorageKey x] z = None"
    using sample_clips xyz by (auto simp: clip_ok_def sample_hour_simps ids) (auto simp: sample_hour_def sample_keys sample_keys [THEN not_sym])
  have "time_sub (go_date utc 20500 31000 0) (go_date utc 20500 30900 0) = 100 * second"
    by (simp add: time_sub_def go_date_utc max_duration_def min_duration_def)
  moreover have "reasonCode ''measured''" by code_simp
  ultimately have "validateDerivedSeam x y" "validateDerivedSeam y z" "clip_before x y" "clip_before y z" "continues [3] x y" "\<not> continues [3] y z"
    using xyz by (auto simp: sample_hour_def validateDerivedSeam_def clip_before_def continues_def utc_date_order time_sub_def max_duration_def min_duration_def)
  then show ?thesis using ok unfolding xyz plan_clips_request by (auto simp: ids extend_last_def clip_before_def)
qed

lemma sample_path: "\<exists>path. BuildJoinedPath utc_zones \<lparr>jp_FolderName = ''f'', jp_Metadata = example_metadata, jp_CronTimezone = ''UTC'',
    jp_ActualStart = go_date utc 20500 29400 0, jp_ActualEnd = go_date utc 20500 30900 0, jp_Hour = 1, jp_Part = 1, jp_Parts = 1\<rparr> = Inr path"
proof -
  have "ValidatePlazaHourly example_metadata = None" "sanitizePath ''f'' = Inr ''f''" "TrimSpace ''UTC'' = ''UTC''" by code_simp+
  then show ?thesis by (simp add: BuildJoinedPath_def utc_zones_def utc_date_order)
qed

lemma sample_output: "\<exists>x. output_of utc_zones sample_plan_request utc True 1 1 sample_artifact [sample_hour ! 0, sample_hour ! 1] = Inr x"
proof -
  have "lowerHex64 (replicate 64 CHR ''0'')" by code_simp
  moreover have "sc_StartUTC (sample_hour ! 0) = go_date utc 20500 29400 0" "sc_EndUTC (sample_hour ! 1) = go_date utc 20500 30900 0"
    by (simp_all add: sample_hour_def)
  ultimately show ?thesis using sample_path
    by (auto simp: output_of_def sample_artifact_def sample_hour_simps sample_tool_def MaxConditionalPutBytes_def Let_def)
qed

lemma sample_request_ok: "request_ok plain_hash utc_zones sample_plan_request"
proof -
  have "sample_hour ! 2 \<in> set sample_hour" by (simp add: sample_hour_def)
  then have "validatePreflightSource (sample_hour ! 2) 7 \<and> permits (utc_window 20500) (sample_hour ! 2)" using sample_clips by blast
  moreover have "ValidateQualificationWindow plain_hash utc_zones (utc_window 20500)" by (rule utc_window_valid) simp_all
  moreover have "safe_name ''b1''" by code_simp
  ultimately show ?thesis using sample_tool_valid plain_hash_hex by (simp add: request_ok_def evidence_ok_def sample_hour_simps)
qed

lemma sample_plan: "\<exists>p. BuildPlan plain_hash utc_zones sample_plan_request = Inr p"
proof -
  let ?r = sample_plan_request
  obtain x where x: "output_of utc_zones ?r utc True 1 1 sample_artifact [sample_hour ! 0, sample_hour ! 1] = Inr x" using sample_output by blast
  have outs: "plan_outputs utc_zones ?r utc True (int (length [[sample_hour ! 0, sample_hour ! 1]])) 1 (pr_Artifacts ?r) [[sample_hour ! 0, sample_hour ! 1]] = Inr [x]"
    using x by (simp add: sample_hour_simps)
  have "CanonicalSourceClaim plain_hash sample_hour \<noteq> None" unfolding encode_claim using sample_clips by blast
  then obtain manifest body where claim: "CanonicalSourceClaim plain_hash sample_hour = Some (manifest, body)" by auto
  then have "lowerHex64 manifest" using plain_hash_hex by (auto simp: CanonicalSourceClaim_def CanonicalSHA_def)
  moreover have name: "safe_name ''b1''" by code_simp
  moreover have "parse_date (date_string 20500) = Some 20500" by (rule parse_date_string) simp_all
  ultimately obtain i where id: "canonicalHourID ?r (pr_LocalDate ?r) (pr_DeliveryHour ?r) manifest = Some i"
    by (auto simp: canonicalHourID_def sample_hour_simps)
  note final = finalizePlan_built [OF sample_merged claim id outs]
  show ?thesis
  proof (rule exI, rule buildPlan_accounted [OF _ _ _ sample_merged _ _ _ final])
    show "request_ok plain_hash utc_zones ?r"
      by (rule sample_request_ok)
    show "utc_zones (TrimSpace (pr_Timezone ?r)) = Some utc"
    proof -
      have "TrimSpace ''UTC'' = ''UTC''" by code_simp
      then show ?thesis by (simp add: utc_zones_def sample_hour_simps)
    qed
    show "BuildFolderName ProfilePlazaHourlyV1 (pr_RecordingID ?r) (pr_Metadata ?r) (pr_FolderName ?r) = Inr (pr_FolderName ?r)"
      unfolding sample_hour_simps by code_simp
    show "clear_first sample_hour = sample_hour" by (simp add: clear_first_def sample_hour_def sample_clip_def)
    have "map sc_ClipID (pr_Quarantined ?r) = [3]" by (simp add: sample_hour_simps sample_hour_def)
    then show "plan_clips ?r utc (map sc_ClipID (pr_Quarantined ?r)) None False [] [] [] [] sample_hour =
        Inr ([gap_between [3] (sample_hour ! 1) (sample_hour ! 2)], [[sample_hour ! 0, sample_hour ! 1]])"
      using sample_loop unfolding plan_clips_request by simp
  qed (simp add: sample_hour_simps)
qed

theorem plan_parts_exact_witness:
  "\<exists>p. buildPlan plain_hash utc_zones sample_plan_request True = Inr p \<and> mset (map sc_ClipID (bp_Sources p)) = {#1, 2, 3#} \<and>
     concat (map op_Sources (bp_Outputs p)) = filter (\<lambda>x. sc_ClipID x \<noteq> 3) (bp_Sources p)"
proof -
  obtain p where p: "buildPlan plain_hash utc_zones sample_plan_request True = Inr p" using sample_plan unfolding BuildPlan_def by blast
  have "map sc_ClipID (pr_Quarantined sample_plan_request) = [3]" "map sc_ClipID (pr_Sources sample_plan_request) = [2, 1]"
    by (simp_all add: sample_hour_simps sample_hour_def)
  then show ?thesis using p plan_parts_exact [OF p] by (auto simp: Let_def add_mset_commute)
qed

theorem built_plan_valid_witness:
  "\<exists>p. BuildPlan plain_hash utc_zones sample_plan_request = Inr p \<and> ValidatePlan plain_hash utc_zones p = None"
proof -
  obtain p where "BuildPlan plain_hash utc_zones sample_plan_request = Inr p" using sample_plan by blast
  moreover have "TrimSpace (pr_FolderName sample_plan_request) \<noteq> []" unfolding sample_hour_simps by code_simp
  ultimately show ?thesis using built_plan_valid by blast
qed

end
