(* ===== verification/Collation.thy ===== *)
theory Collation
  imports Naming Complex_Main
begin

text \<open>
  When two clips of a recording may be joined (collation/seam.go), the frame-match rule behind it (framematch.go), the packet
  view of a clip (probe.go) and the verification of a joined file against its clips (build.go). Decoding, probing and
  concatenating are ffmpeg's: what it reports is an argument. float64 values are real numbers, so rounding of their
  arithmetic and NaN are not modelled; \<open>big.Rat\<close> is exact and is the type \<open>rat\<close>.
\<close>

section \<open>Numbers\<close>

text \<open>\<open>math.Round\<close>: half away from zero. \<open>Duration.Seconds\<close>.\<close>

definition math_round :: "real \<Rightarrow> real" where
  "math_round v = (if v < 0 then - of_int \<lfloor>1 / 2 - v\<rfloor> else of_int \<lfloor>v + 1 / 2\<rfloor>)"

definition round6 :: "real \<Rightarrow> real" where "round6 v = math_round (v * 1000000) / 1000000"

definition round4 :: "real \<Rightarrow> real" where "round4 v = math_round (v * 10000) / 10000"

definition seconds :: "duration \<Rightarrow> real" where "seconds d = of_int d / 1000000000"

section \<open>Policy, clips and evidence\<close>

record SeamPolicy =
  ShortWindowSeconds :: real
  WindowSeconds :: real
  FrameWidth :: int
  FrameHeight :: int
  BlurSigma :: real
  MotionPixelShare :: real
  MaxTailOffsetFrames :: int
  MaxHeadOffsetFrames :: int
  TailSharpRatio :: real
  HeadSharpRatio :: real
  MinSceneMedianMAD :: real
  BoundaryStepFactor :: real
  ClearJumpStepFactor :: real
  StepSlackMAD :: real
  MinFrames :: int
  GapFrameSlack :: real
  SpanFrameSlack :: real
  ShortClipSlackSeconds :: real

definition match_windows :: "SeamPolicy \<Rightarrow> real list" where
  "match_windows p = (if ShortWindowSeconds p > 0 \<and> ShortWindowSeconds p < WindowSeconds p then [ShortWindowSeconds p, WindowSeconds p]
     else [WindowSeconds p])"

definition DefaultSeamPolicy :: SeamPolicy where
  "DefaultSeamPolicy = \<lparr>ShortWindowSeconds = 4, WindowSeconds = 10, FrameWidth = 96, FrameHeight = 64, BlurSigma = 0, MotionPixelShare = 0.10,
     MaxTailOffsetFrames = 3, MaxHeadOffsetFrames = 10, TailSharpRatio = 0.60, HeadSharpRatio = 0.70, MinSceneMedianMAD = 0.8,
     BoundaryStepFactor = 2, ClearJumpStepFactor = 4, StepSlackMAD = 0.05, MinFrames = 10, GapFrameSlack = 1, SpanFrameSlack = 2,
     ShortClipSlackSeconds = 2\<rparr>"

record Clip =
  cl_ClipID :: int
  cl_RecordingID :: int
  cl_JobID :: int
  cl_CaptureAttemptID :: string
  cl_CaptureLeaseToken :: string
  cl_CaptureSequence :: int
  cl_StartUTC :: gotime
  cl_EndUTC :: gotime
  cl_Bucket :: string
  cl_ObjectKey :: string
  cl_ETag :: string
  cl_SizeBytes :: int
  cl_SHA256 :: string
  cl_NominalSeconds :: real
  cl_Purged :: bool
  cl_KnownBroken :: bool

record ClipMedia =
  Playable :: bool
  FailReason :: string
  CodecSignature :: string
  HasAudio :: bool
  VideoPackets :: int
  ContentSeconds :: real
  FrameSeconds :: real

record MatchEvidence =
  ev_Verdict :: string
  ev_WindowSeconds :: real
  ev_TailFrames :: int
  ev_HeadFrames :: int
  ev_BoundaryMAD :: real
  ev_TailMinMAD :: real
  ev_TailMinOffset :: int
  ev_TailMedianMAD :: real
  ev_HeadMinMAD :: real
  ev_HeadMinOffset :: int
  ev_HeadMedianMAD :: real
  ev_StepP95MAD :: real
  ev_KeyStepMedianMAD :: real
  ev_OverlapSeconds :: real
  ev_DecodeError :: string

definition no_evidence :: MatchEvidence where
  "no_evidence = \<lparr>ev_Verdict = [], ev_WindowSeconds = 0, ev_TailFrames = 0, ev_HeadFrames = 0, ev_BoundaryMAD = 0, ev_TailMinMAD = 0,
     ev_TailMinOffset = 0, ev_TailMedianMAD = 0, ev_HeadMinMAD = 0, ev_HeadMinOffset = 0, ev_HeadMedianMAD = 0, ev_StepP95MAD = 0,
     ev_KeyStepMedianMAD = 0, ev_OverlapSeconds = 0, ev_DecodeError = []\<rparr>"

record SeamDecision =
  sm_Prev :: int
  sm_Next :: int
  sm_Decision :: string
  sm_Reason :: string
  sm_DBGapSeconds :: real
  sm_FrameSeconds :: real
  sm_OverlapSeconds :: real
  sm_Match :: "MatchEvidence option"

section \<open>The metadata gate\<close>

text \<open>The distance of two clips in seconds, and the larger of their frame durations.\<close>

definition db_gap :: "Clip \<Rightarrow> Clip \<Rightarrow> real" where
  "db_gap prev nxt = seconds (time_sub (cl_StartUTC nxt) (cl_EndUTC prev))"

definition frame_of :: "ClipMedia \<Rightarrow> ClipMedia \<Rightarrow> real" where
  "frame_of pm nm = max (FrameSeconds pm) (FrameSeconds nm)"

definition span_of :: "Clip \<Rightarrow> real" where
  "span_of c = seconds (time_sub (cl_EndUTC c) (cl_StartUTC c))"

definition MetadataGate :: "SeamPolicy \<Rightarrow> Clip \<Rightarrow> Clip \<Rightarrow> ClipMedia \<Rightarrow> ClipMedia \<Rightarrow> string" where
  "MetadataGate policy prev nxt pm nm =
     (if cl_RecordingID prev \<noteq> cl_RecordingID nxt then ''different_recording''
      else if cl_JobID prev \<le> 0 \<or> cl_JobID nxt \<le> 0 then ''missing_job''
      else if cl_JobID prev \<noteq> cl_JobID nxt then ''different_job''
      else if (cl_CaptureAttemptID prev = []) \<noteq> (cl_CaptureAttemptID nxt = []) then ''capture_attempt_indicator_changed''
      else if cl_CaptureAttemptID prev \<noteq> cl_CaptureAttemptID nxt then ''different_capture_attempt''
      else if (cl_CaptureLeaseToken prev = []) \<noteq> (cl_CaptureLeaseToken nxt = []) then ''capture_lease_indicator_changed''
      else if cl_CaptureLeaseToken prev \<noteq> cl_CaptureLeaseToken nxt then ''different_capture_lease''
      else if (cl_CaptureSequence prev = 0) \<noteq> (cl_CaptureSequence nxt = 0) then ''capture_sequence_indicator_changed''
      else if cl_CaptureSequence prev \<noteq> 0 \<and> cl_CaptureSequence nxt \<noteq> cl_CaptureSequence prev + 1 then ''capture_sequence_not_consecutive''
      else if \<not> Playable pm \<or> \<not> Playable nm then ''unplayable''
      else if CodecSignature pm = [] \<or> CodecSignature pm \<noteq> CodecSignature nm then ''codec_params_differ''
      else if cl_NominalSeconds prev > 0 \<and> span_of prev < cl_NominalSeconds prev - ShortClipSlackSeconds policy then ''prev_clip_cut_short''
      else let frame = frame_of pm nm; gap = db_gap prev nxt in
        if frame \<le> 0 \<or> frame > 2 then ''unknown_frame_duration''
        else if gap > GapFrameSlack policy * frame then ''db_gap''
        else if gap < - GapFrameSlack policy * frame then ''db_overlap''
        else if \<bar>ContentSeconds pm - span_of prev\<bar> > SpanFrameSlack policy * frame \<or>
          \<bar>ContentSeconds nm - span_of nxt\<bar> > SpanFrameSlack policy * frame then ''content_span_mismatch''
        else [])"

definition DecideSeam :: "SeamPolicy \<Rightarrow> Clip \<Rightarrow> Clip \<Rightarrow> ClipMedia \<Rightarrow> ClipMedia \<Rightarrow> MatchEvidence option \<Rightarrow> SeamDecision" where
  "DecideSeam policy prev nxt pm nm match =
     (let d = \<lparr>sm_Prev = cl_ClipID prev, sm_Next = cl_ClipID nxt, sm_Decision = ''split'', sm_Reason = [], sm_DBGapSeconds = round6 (db_gap prev nxt),
        sm_FrameSeconds = round6 (frame_of pm nm), sm_OverlapSeconds = 0, sm_Match = match\<rparr>; reason = MetadataGate policy prev nxt pm nm in
      if reason \<noteq> [] then d\<lparr>sm_Reason := reason\<rparr>
      else case match of None \<Rightarrow> d\<lparr>sm_Reason := ''frame_match_missing''\<rparr> | Some ev \<Rightarrow>
        if ev_Verdict ev \<noteq> ''continuous'' then d\<lparr>sm_Reason := ''frame_'' @ ev_Verdict ev, sm_OverlapSeconds := ev_OverlapSeconds ev\<rparr>
        else d\<lparr>sm_Decision := ''join'', sm_Reason := ''continuous''\<rparr>)"

section \<open>The frame match\<close>

text \<open>A frame is its grey values. The distances of frames a verdict rests on.\<close>

type_synonym Frame = "int list"

record Curves =
  TailToHead0 :: "real list"
  TailLastToHead :: "real list"
  Steps :: "real list"
  KeySteps :: "real list"
  BoundaryMAD :: real
  TailKeys :: "bool list"
  HeadKeys :: "bool list"
  DecodeError :: string

definition median :: "real list \<Rightarrow> real" where
  "median v = (let s = sort v; n = length s in
     if n = 0 then 0 else if n mod 2 = 1 then s ! (n div 2) else (s ! (n div 2 - 1) + s ! (n div 2)) / 2)"

definition percentile :: "real list \<Rightarrow> real \<Rightarrow> real" where
  "percentile v p = (let s = sort v in if s = [] then 0 else s ! nat (max 0 (\<lceil>p * real (length s)\<rceil> - 1)))"

text \<open>The index of the least value among those not excluded; \<open>None\<close> for -1.\<close>

definition argminExcluding :: "real list \<Rightarrow> bool list \<Rightarrow> nat \<Rightarrow> nat option" where
  "argminExcluding v exclude keep = foldl (\<lambda>best i.
     if length exclude = length v \<and> exclude ! i \<and> i \<noteq> keep then best
     else case best of None \<Rightarrow> Some i | Some b \<Rightarrow> if v ! i < v ! b then Some i else best) None [0..<length v]"

text \<open>The code panics when a window has no frame and \<open>MinFrames\<close> is not positive; here the index is 0 then.\<close>

definition best_index :: "real list \<Rightarrow> bool list \<Rightarrow> nat \<Rightarrow> nat" where
  "best_index v exclude keep = (case argminExcluding v exclude keep of None \<Rightarrow> 0 | Some i \<Rightarrow> i)"

definition EvaluateCurves :: "SeamPolicy \<Rightarrow> Curves \<Rightarrow> real \<Rightarrow> MatchEvidence" where
  "EvaluateCurves policy c frameSeconds =
     (let dA = TailToHead0 c; dB = TailLastToHead c;
          ev = no_evidence\<lparr>ev_TailFrames := int (length dA), ev_HeadFrames := int (length dB)\<rparr> in
      if DecodeError c \<noteq> [] then ev\<lparr>ev_Verdict := ''seam_decode_failed'', ev_DecodeError := DecodeError c\<rparr>
      else if int (length dA) < MinFrames policy \<or> int (length dB) < MinFrames policy then ev\<lparr>ev_Verdict := ''insufficient_frames''\<rparr>
      else
        let kA = best_index dA (TailKeys c) (length dA - 1); jB = best_index dB (HeadKeys c) 0;
            ev = ev\<lparr>ev_BoundaryMAD := round4 (BoundaryMAD c), ev_TailMinMAD := round4 (dA ! kA), ev_TailMinOffset := int (length dA) - 1 - int kA,
              ev_TailMedianMAD := round4 (median dA), ev_HeadMinMAD := round4 (dB ! jB), ev_HeadMinOffset := int jB,
              ev_HeadMedianMAD := round4 (median dB), ev_StepP95MAD := round4 (percentile (Steps c) 0.95),
              ev_KeyStepMedianMAD := round4 (median (KeySteps c))\<rparr>;
            expected = (if KeySteps c = [] then ev_StepP95MAD ev else ev_KeyStepMedianMAD ev);
            tailSharp = (ev_TailMinMAD ev \<le> TailSharpRatio policy * ev_TailMedianMAD ev);
            headSharp = (ev_HeadMinMAD ev \<le> HeadSharpRatio policy * ev_HeadMedianMAD ev);
            lowMotion = (ev_TailMedianMAD ev < MinSceneMedianMAD policy \<or> ev_HeadMedianMAD ev < MinSceneMedianMAD policy) in
        if tailSharp \<and> ev_TailMinOffset ev > MaxTailOffsetFrames policy \<and> \<not> lowMotion
        then ev\<lparr>ev_Verdict := ''overlap'', ev_OverlapSeconds := round4 (of_int (ev_TailMinOffset ev) * frameSeconds)\<rparr>
        else if lowMotion then ev\<lparr>ev_Verdict := ''low_motion''\<rparr>
        else if tailSharp \<and> headSharp \<and> ev_TailMinOffset ev \<le> MaxTailOffsetFrames policy \<and> ev_HeadMinOffset ev \<le> MaxHeadOffsetFrames policy \<and>
          ev_BoundaryMAD ev \<le> BoundaryStepFactor policy * expected + StepSlackMAD policy
        then ev\<lparr>ev_Verdict := ''continuous''\<rparr>
        else ev\<lparr>ev_Verdict := ''jump''\<rparr>)"

text \<open>The pixels that move most. \<open>arrange\<close> is \<open>sort.Slice\<close> with a larger value first: the order of equal values is not specified.\<close>

definition frame_variance :: "Frame list \<Rightarrow> nat \<Rightarrow> real" where
  "frame_variance frames p = (let vs = map (\<lambda>f. of_int (f ! p)) frames; n = real (length frames); mean = sum_list vs / n in
     sum_list (map (\<lambda>v. v * v) vs) / n - mean * mean)"

definition motionMask :: "((nat \<Rightarrow> real) \<Rightarrow> nat list \<Rightarrow> nat list) \<Rightarrow> Frame list \<Rightarrow> real \<Rightarrow> nat list" where
  "motionMask arrange frames share = (let n = length (hd frames) in
     take (nat (max \<lceil>share * real n\<rceil> 1)) (arrange (frame_variance frames) [0..<n]))"

definition maskedMAD :: "Frame \<Rightarrow> Frame \<Rightarrow> nat list \<Rightarrow> real" where
  "maskedMAD a b pixels = of_int (sum_list (map (\<lambda>p. \<bar>a ! p - b ! p\<bar>) pixels)) / real (length pixels)"

definition framesToCurves :: "((nat \<Rightarrow> real) \<Rightarrow> nat list \<Rightarrow> nat list) \<Rightarrow> SeamPolicy \<Rightarrow> Frame list \<Rightarrow> Frame list \<Rightarrow> bool list \<Rightarrow> bool list \<Rightarrow> Curves" where
  "framesToCurves arrange policy tail head tailKeys headKeys =
     (let frames = tail @ head; known = (length tailKeys = length tail \<and> length headKeys = length head); keys = tailKeys @ headKeys;
          pixels = motionMask arrange frames (MotionPixelShare policy); b0 = hd head; aLast = last tail;
          inner = filter (\<lambda>i. i \<noteq> length tail) [1..<length frames]; step = (\<lambda>i. maskedMAD (frames ! (i - 1)) (frames ! i) pixels) in
      \<lparr>TailToHead0 = map (\<lambda>f. maskedMAD f b0 pixels) tail, TailLastToHead = map (\<lambda>f. maskedMAD aLast f pixels) head,
        Steps = map step (filter (\<lambda>i. \<not> (known \<and> keys ! i)) inner), KeySteps = map step (filter (\<lambda>i. known \<and> keys ! i) inner),
        BoundaryMAD = maskedMAD aLast b0 pixels, TailKeys = (if known then tailKeys else []), HeadKeys = (if known then headKeys else []), DecodeError = []\<rparr>)"

definition EvaluateFrames :: "((nat \<Rightarrow> real) \<Rightarrow> nat list \<Rightarrow> nat list) \<Rightarrow> SeamPolicy \<Rightarrow> Frame list \<Rightarrow> Frame list \<Rightarrow> bool list \<Rightarrow> bool list \<Rightarrow> real \<Rightarrow>
    MatchEvidence" where
  "EvaluateFrames arrange policy tail head tailKeys headKeys frameSeconds =
     (if int (length tail) < MinFrames policy \<or> int (length head) < MinFrames policy
      then no_evidence\<lparr>ev_Verdict := ''insufficient_frames'', ev_TailFrames := int (length tail), ev_HeadFrames := int (length head)\<rparr>
      else EvaluateCurves policy (framesToCurves arrange policy tail head tailKeys headKeys) frameSeconds)"

text \<open>A verdict of the short window that is borderline is looked at again on the full one.\<close>

definition needsFullWindow :: "SeamPolicy \<Rightarrow> MatchEvidence \<Rightarrow> bool" where
  "needsFullWindow policy ev =
     (if ev_WindowSeconds ev \<ge> WindowSeconds policy \<or> ev_Verdict ev = ''continuous'' \<or> ev_Verdict ev = ''seam_decode_failed'' then False
      else \<not> (ev_Verdict ev = ''jump'' \<and> ev_KeyStepMedianMAD ev > 0 \<and>
        ev_BoundaryMAD ev > ClearJumpStepFactor policy * ev_KeyStepMedianMAD ev + StepSlackMAD policy))"

definition trimStderr :: "string \<Rightarrow> string" where
  "trimStderr s = take 300 (TrimSpace s)"

section \<open>Packets\<close>

record Packet =
  pk_PTS :: rat
  pk_DTS :: rat
  pk_Dur :: rat
  pk_Key :: bool
  pk_Hash :: string

record Probe =
  pb_Media :: ClipMedia
  pb_Video :: "Packet list option"
  pb_Audio :: "Packet list option"

text \<open>What ffprobe reports of a file: its streams, with the parameters that make a codec signature and the time base as a number,
  and its packets in units of the time base; or that it failed, or that the caller gave up.\<close>

record ffStream =
  fs_Index :: int
  fs_CodecType :: string
  fs_Params :: "string list"
  fs_TimeBase :: "rat option"

record ffPacket =
  fp_StreamIndex :: int
  fp_PTS :: "int option"
  fp_DTS :: "int option"
  fp_Duration :: "int option"
  fp_Flags :: string
  fp_DataHash :: string

datatype ffprobe = Interrupted | ProbeError string | Reported "(ffStream list \<times> ffPacket list) option" string

definition unplayable :: "string \<Rightarrow> Probe" where
  "unplayable reason = \<lparr>pb_Media = \<lparr>Playable = False, FailReason = reason, CodecSignature = [], HasAudio = False, VideoPackets = 0,
     ContentSeconds = 0, FrameSeconds = 0\<rparr>, pb_Video = None, pb_Audio = None\<rparr>"

text \<open>The first video and the first audio stream: the track and time base of a stream's number, and the signature's lines.\<close>

record tracks =
  tr_Video :: bool
  tr_Audio :: bool
  tr_Of :: "int \<rightharpoonup> (bool \<times> rat)"
  tr_Lines :: "string list"

fun probe_streams :: "tracks \<Rightarrow> ffStream list \<Rightarrow> tracks option" where
  "probe_streams t [] = Some t"
| "probe_streams t (s # ss) =
     (case fs_TimeBase s of None \<Rightarrow> None | Some tb \<Rightarrow>
      if tb \<le> 0 then None
      else let line = join_with ''|'' (fs_Params s) in
        if fs_CodecType s = ''video'' \<and> \<not> tr_Video t
        then probe_streams (t\<lparr>tr_Video := True, tr_Of := (tr_Of t)(fs_Index s \<mapsto> (True, tb)), tr_Lines := tr_Lines t @ [line]\<rparr>) ss
        else if fs_CodecType s = ''audio'' \<and> \<not> tr_Audio t
        then probe_streams (t\<lparr>tr_Audio := True, tr_Of := (tr_Of t)(fs_Index s \<mapsto> (False, tb)), tr_Lines := tr_Lines t @ [line]\<rparr>) ss
        else probe_streams t ss)"

definition packet_of :: "rat \<Rightarrow> ffPacket \<Rightarrow> Packet option" where
  "packet_of tb x = (case (fp_PTS x, fp_DTS x, fp_Duration x) of
     (Some p, Some d, Some l) \<Rightarrow> if fp_DataHash x = [] then None
       else Some \<lparr>pk_PTS = of_int p * tb, pk_DTS = of_int d * tb, pk_Dur = of_int l * tb, pk_Key = (CHR ''K'' \<in> set (fp_Flags x)), pk_Hash = fp_DataHash x\<rparr>
   | _ \<Rightarrow> None)"

text \<open>The packets of the two tracks in the order of the file.\<close>

fun probe_packets :: "(int \<rightharpoonup> (bool \<times> rat)) \<Rightarrow> ffPacket list \<Rightarrow> (Packet list \<times> Packet list) option" where
  "probe_packets track [] = Some ([], [])"
| "probe_packets track (x # xs) =
     (case track (fp_StreamIndex x) of None \<Rightarrow> probe_packets track xs
      | Some (video, tb) \<Rightarrow> (case packet_of tb x of None \<Rightarrow> None
        | Some p \<Rightarrow> map_option (\<lambda>(v, a). if video then (p # v, a) else (v, p # a)) (probe_packets track xs)))"

definition packets_duration :: "Packet list \<Rightarrow> rat" where
  "packets_duration ps = sum_list (map pk_Dur ps)"

definition medianDur :: "Packet list \<Rightarrow> real" where
  "medianDur ps = sort (map (\<lambda>p. real_of_rat (pk_Dur p)) ps) ! (length ps div 2)"

text \<open>\<open>ProbeFile\<close>; \<open>None\<close> for an error. The signature is eight bytes of the digest, in hexadecimal.\<close>

definition ProbeFile :: "(string \<Rightarrow> string) \<Rightarrow> ffprobe \<Rightarrow> Probe option" where
  "ProbeFile hash r = (case r of Interrupted \<Rightarrow> None
   | ProbeError stderr \<Rightarrow> Some (unplayable (''probe_failed: '' @ trimStderr stderr))
   | Reported None stderr \<Rightarrow> Some (unplayable ''probe_json_invalid'')
   | Reported (Some (streams, packets)) stderr \<Rightarrow> Some (
       if TrimSpace stderr \<noteq> [] then unplayable (''probe_reported_errors: '' @ trimStderr stderr)
       else case probe_streams \<lparr>tr_Video = False, tr_Audio = False, tr_Of = Map.empty, tr_Lines = []\<rparr> streams of
         None \<Rightarrow> unplayable ''invalid_time_base''
       | Some t \<Rightarrow>
         if \<not> tr_Video t then unplayable ''no_video_stream''
         else (case probe_packets (tr_Of t) packets of None \<Rightarrow> unplayable ''packet_timing_missing''
         | Some (video, audio) \<Rightarrow>
           if length video < 2 then unplayable ''too_few_video_packets''
           else if \<not> pk_Key (hd video) then unplayable ''first_video_packet_not_keyframe''
           else \<lparr>pb_Media = \<lparr>Playable = True, FailReason = [], CodecSignature = take 16 (hash (join_with [CHR 0x0A] (tr_Lines t))),
                  HasAudio = tr_Audio t, VideoPackets = int (length video), ContentSeconds = round6 (real_of_rat (packets_duration video)),
                  FrameSeconds = round6 (medianDur video)\<rparr>, pb_Video = Some video, pb_Audio = (if tr_Audio t then Some audio else None)\<rparr>)))"

text \<open>Keyframe flags in presentation order, and those of a window of frames.\<close>

definition KeyFlagsByPTS :: "Packet list \<Rightarrow> bool list" where
  "KeyFlagsByPTS ps = map pk_Key (sort_key pk_PTS ps)"

definition WindowKeys :: "Packet list \<Rightarrow> nat \<Rightarrow> bool \<Rightarrow> bool list" where
  "WindowKeys ps n tail = (let flags = KeyFlagsByPTS ps in
     if length flags < n then [] else if tail then drop (length flags - n) flags else take n flags)"

section \<open>Replayed packets\<close>

text \<open>The last packet with a hash; the run of matches so far while scanning.\<close>

definition packet_index :: "Packet list \<Rightarrow> string \<Rightarrow> nat option" where
  "packet_index ps h = map_of (rev (map (\<lambda>(i, p). (pk_Hash p, i)) (enumerate 0 ps))) h"

text \<open>The end of a track, at least 0.\<close>

definition video_end :: "Packet list \<Rightarrow> rat" where
  "video_end ps = foldl max 0 (map (\<lambda>p. pk_PTS p + pk_Dur p) ps)"

definition overlap_at :: "Packet list \<Rightarrow> Packet list \<Rightarrow> nat \<Rightarrow> nat \<Rightarrow> real" where
  "overlap_at as bs i j = round4 (real_of_rat (video_end as - (pk_PTS (as ! i) - (pk_PTS (bs ! j) - pk_PTS (hd bs)))))"

fun replay_loop :: "Packet list \<Rightarrow> Packet list \<Rightarrow> nat \<Rightarrow> nat list \<Rightarrow> real option" where
  "replay_loop as bs run [] = None"
| "replay_loop as bs run (j # js) =
     (case packet_index as (pk_Hash (bs ! j)) of None \<Rightarrow> replay_loop as bs 0 js
      | Some i \<Rightarrow> if j = 0 \<or> pk_Key (bs ! j) \<or> 3 \<le> run + 1 then Some (overlap_at as bs i j) else replay_loop as bs (run + 1) js)"

definition ReplayOverlap :: "Probe \<Rightarrow> Probe \<Rightarrow> real option" where
  "ReplayOverlap a b = (case (pb_Video a, pb_Video b) of
     (Some as, Some bs) \<Rightarrow> if bs = [] then None else replay_loop as bs 0 [0..<min (length bs) 600]
   | _ \<Rightarrow> None)"

section \<open>Verifying a joined file\<close>

definition probe_tracks :: "Probe \<Rightarrow> Packet list" where
  "probe_tracks p = (case pb_Video p of None \<Rightarrow> [] | Some ps \<Rightarrow> ps) @ (case pb_Audio p of None \<Rightarrow> [] | Some ps \<Rightarrow> ps)"

text \<open>The latest end and the earliest start over the tracks; a probe that is verified has packets.\<close>

definition endTime :: "Probe \<Rightarrow> rat" where
  "endTime p = (let es = map (\<lambda>p. pk_PTS p + pk_Dur p) (probe_tracks p) in foldl max (hd es) (tl es))"

definition startTime :: "Probe \<Rightarrow> rat" where
  "startTime p = (let ss = map pk_PTS (probe_tracks p) in foldl min (hd ss) (tl ss))"

text \<open>Microseconds, rounded half up for the lengths that occur (the quotient is truncated).\<close>

definition roundRatMicro :: "rat \<Rightarrow> int" where
  "roundRatMicro r = (case quotient_of (r * 1000000) of (num, den) \<Rightarrow>
     let q = go_quot num den; m = num - q * den in if den \<le> 2 * m then q + 1 else q)"

text \<open>Where the \<open>i\<close>-th file starts, in microseconds: rounded against the running total.\<close>

definition concat_micros :: "Probe list \<Rightarrow> nat \<Rightarrow> int" where
  "concat_micros ps i = roundRatMicro (sum_list (map (\<lambda>p. endTime p - startTime p) (take i ps)))"

definition concatOffsets :: "Probe list \<Rightarrow> rat list \<times> int list" where
  "concatOffsets ps = (map (\<lambda>i. Fract (concat_micros ps i) 1000000) [0..<length ps],
     map (\<lambda>i. concat_micros ps (Suc i) - concat_micros ps i) [0..<length ps])"

definition track_of :: "bool \<Rightarrow> Probe \<Rightarrow> Packet list option" where
  "track_of video p = (if video then pb_Video p else pb_Audio p)"

text \<open>The packets of all clips in one track, and the text their payload hashes are chained in.\<close>

definition source_packets :: "bool \<Rightarrow> Probe list \<Rightarrow> Packet list" where
  "source_packets video ps = concat (map (\<lambda>p. case track_of video p of None \<Rightarrow> [] | Some xs \<Rightarrow> xs) ps)"

definition chain_text :: "Packet list \<Rightarrow> string" where
  "chain_text ps = concat (map (\<lambda>p. pk_Hash p @ [CHR 0x0A]) ps)"

definition payload_matches :: "(string \<Rightarrow> string) \<Rightarrow> Probe \<Rightarrow> Probe list \<Rightarrow> bool \<Rightarrow> bool" where
  "payload_matches hash out ps video \<longleftrightarrow> (let xs = source_packets video ps in
     case track_of video out of None \<Rightarrow> xs = [] | Some ys \<Rightarrow> length ys = length xs \<and> hash (chain_text xs) = hash (chain_text ys))"

text \<open>The packets of a track with the instants they are due at, clip by clip.\<close>

definition due_packets :: "bool \<Rightarrow> Probe list \<Rightarrow> (rat \<times> rat) list" where
  "due_packets video ps = concat (map (\<lambda>(offset, p). case track_of video p of None \<Rightarrow> []
     | Some xs \<Rightarrow> map (\<lambda>x. (offset + (pk_PTS x - startTime p), offset + (pk_DTS x - startTime p))) xs) (zip (fst (concatOffsets ps)) ps))"

text \<open>The loop over a track: each packet within a millisecond, decoding times that do not go back.\<close>

fun timing_loop :: "bool \<Rightarrow> rat \<Rightarrow> rat option \<Rightarrow> rat \<Rightarrow> ((rat \<times> rat) \<times> Packet) list \<Rightarrow> rat option" where
  "timing_loop video base prev worst [] = Some worst"
| "timing_loop video base prev worst (((pts, dts), x) # rest) =
     (let e = \<bar>pts - (pk_PTS x - base)\<bar>; f = \<bar>dts - (pk_DTS x - base)\<bar> in
      if e > 1 / 1000 \<or> f > 1 / 1000 then None
      else if (case prev of None \<Rightarrow> False | Some d \<Rightarrow> pk_DTS x < d \<or> video \<and> pk_DTS x = d) then None
      else timing_loop video base (Some (pk_DTS x)) (max f (max e worst)) rest)"

record Verification =
  vf_VideoPackets :: int
  vf_AudioPackets :: int
  vf_PayloadChainMatches :: bool
  vf_VideoTimingMatches :: bool
  vf_MaxTimingErrorMicro :: int
  vf_EdgeDecodeOK :: bool
  vf_OutputSeconds :: real

text \<open>\<open>edges\<close>: whether the first and last seconds decode; \<open>None\<close> for an error.\<close>

definition VerifyPart :: "(string \<Rightarrow> string) \<Rightarrow> Probe option \<Rightarrow> bool \<Rightarrow> Probe list \<Rightarrow> Verification option" where
  "VerifyPart hash probed edges ps = (case probed of None \<Rightarrow> None | Some out \<Rightarrow>
     if \<not> Playable (pb_Media out) \<or> \<not> payload_matches hash out ps True \<or> \<not> payload_matches hash out ps False then None
     else let base = startTime out;
              timing = (\<lambda>video worst. case track_of video out of None \<Rightarrow> Some worst | Some os \<Rightarrow> timing_loop video base None worst (zip (due_packets video ps) os)) in
       case timing True 0 of None \<Rightarrow> None | Some worst \<Rightarrow> (case timing False worst of None \<Rightarrow> None | Some worst \<Rightarrow>
         if \<not> edges then None
         else Some \<lparr>vf_VideoPackets = int (length (the (pb_Video out))), vf_AudioPackets = (case pb_Audio out of None \<Rightarrow> 0 | Some os \<Rightarrow> int (length os)),
           vf_PayloadChainMatches = True, vf_VideoTimingMatches = True, vf_MaxTimingErrorMicro = roundRatMicro worst, vf_EdgeDecodeOK = True,
           vf_OutputSeconds = round6 (real_of_rat (endTime out - base))\<rparr>))"

end
