(* ===== verification/CollatedHour.thy ===== *)
theory CollatedHour
  imports Collation "HOL-Library.Product_Lexorder"
begin

text \<open>
  One local delivery hour joined from its clips (collation/manifest.go, hour.go): duplicates are set aside, the others are
  downloaded and probed, each gets one seam to a clip before it, joined seams make parts, parts are built, verified and
  isolated when they fail, and the manifest accounts for every clip. Clips are named by their position in the hour's order.

  Downloads, ffprobe, the decoded windows and the files ffmpeg builds are the environment's; the goroutines of a stage work on
  disjoint clips, so a stage is a map over them, except that the order in which builds finish is a parameter.
\<close>

section \<open>Hours and manifests\<close>

record HourWork =
  hw_BatchID :: string
  hw_HourID :: string
  hw_RecordingID :: int
  hw_Timezone :: string
  hw_LocalDate :: string
  hw_DeliveryHour :: int
  hw_ScheduledStart :: gotime
  hw_ScheduledEnd :: gotime
  hw_NamingProfile :: string
  hw_FolderName :: string
  hw_Metadata :: Metadata
  hw_SupersedesHourID :: string
  hw_Clips :: "Clip list"

definition HourIDFor :: "string \<Rightarrow> int \<Rightarrow> string \<Rightarrow> int \<Rightarrow> string option" where
  "HourIDFor batchID recordingID date h =
     (if \<not> safe_name batchID \<or> recordingID \<le> 0 \<or> h < 1 \<or> 12 < h \<or> parse_date date = None then None
      else Some (batchID @ ''__recording-'' @ Itoa recordingID @ ''__date-'' @ date @ ''__hour-'' @ fmt_d 2 h @ ''__generation-'' @ Itoa 2))"

definition ManifestKey :: "string \<Rightarrow> string \<Rightarrow> string" where
  "ManifestKey batchID hourID = path_join [''joined'', batchID, ''coverage'', ''hours'', hourID @ ''.json'']"

definition ObjectKey :: "string \<Rightarrow> string \<Rightarrow> string" where
  "ObjectKey batchID sha = path_join [''joined'', batchID, ''objects'', sha @ ''.mp4'']"

text \<open>Whether a string occurs in another.\<close>

fun contains :: "string \<Rightarrow> string \<Rightarrow> bool" where
  "contains [] p = (p = [])"
| "contains (c # s) p = (HasPrefix (c # s) p \<or> contains s p)"

definition DeliveryPath :: "(string \<Rightarrow> location option) \<Rightarrow> HourWork \<Rightarrow> gotime \<Rightarrow> gotime \<Rightarrow> int \<Rightarrow> int \<Rightarrow> string option" where
  "DeliveryPath tzdb w start stop part parts =
     (if hw_NamingProfile w = ''plaza_hourly_v1'' then
        (case BuildCollatedPath tzdb \<lparr>cp_FolderName = hw_FolderName w, cp_Metadata = hw_Metadata w, cp_Timezone = hw_Timezone w,
            cp_HourStart = hw_ScheduledStart w, cp_ActualStart = start, cp_ActualEnd = stop, cp_Part = part, cp_Parts = parts\<rparr> of Inl _ \<Rightarrow> None
         | Inr path \<Rightarrow> Some path)
      else if hw_NamingProfile w = ''stoarama_v1'' then
        (case tzdb (hw_Timezone w) of None \<Rightarrow> None | Some loc \<Rightarrow>
         let h = hw_ScheduledStart w; date = local_date loc h in
         if \<not> start < stop \<or> start < h \<or> \<not> start < hw_ScheduledEnd w \<or> part < 1 \<or> parts < part \<or>
           CHR ''/'' \<in> set (hw_FolderName w) \<or> CHR 0x5C \<in> set (hw_FolderName w) \<or> contains (hw_FolderName w) ''..'' \<or> hw_FolderName w = [] then None
         else Some (path_join [hw_FolderName w, Itoa (hw_RecordingID w), ''joined'', date,
           Itoa (hw_RecordingID w) @ ''_'' @ date @ ''_hour_'' @ fmt_d 2 (local_clock loc h div 3600) @
           (if 1 < parts then ''_part_'' @ fmt_d 2 part else []) @ ''_'' @ clock_digits (local_clock loc start) @ ''-'' @
           clock_digits (local_clock loc stop) @ ''.mp4'']))
      else None)"

record ClipDisposition =
  di_Clip :: Clip
  di_Disposition :: string
  di_Reason :: string
  di_Part :: int
  di_Media :: ClipMedia

record Output =
  ou_Part :: int
  ou_Parts :: int
  ou_ObjectKey :: string
  ou_NASRelativePath :: string
  ou_SizeBytes :: int
  ou_SHA256 :: string
  ou_StartUTC :: gotime
  ou_EndUTC :: gotime
  ou_SourceClipIDs :: "int list"
  ou_Verification :: Verification
  ou_R2VerifiedAt :: gotime

record HourManifest =
  hm_SchemaVersion :: int
  hm_PolicyVersion :: string
  hm_Generation :: int
  hm_Status :: string
  hm_BatchID :: string
  hm_HourID :: string
  hm_SupersedesHourID :: string
  hm_RecordingID :: int
  hm_Timezone :: string
  hm_LocalDate :: string
  hm_DeliveryHour :: int
  hm_ScheduledStart :: gotime
  hm_ScheduledEnd :: gotime
  hm_SeamPolicy :: SeamPolicy
  hm_MediaTool :: string
  hm_Clips :: "ClipDisposition list"
  hm_Seams :: "SeamDecision list"
  hm_Outputs :: "Output list"
  hm_CreatedAt :: gotime

section \<open>Validating a manifest\<close>

text \<open>The parts of the included clips, by number; a map of Go answers 0 for a clip that is not in it.\<close>

fun clip_parts :: "int \<Rightarrow> int list \<Rightarrow> (int \<times> int) list \<Rightarrow> ClipDisposition list \<Rightarrow> (int \<times> int) list option" where
  "clip_parts n seen parts [] = Some parts"
| "clip_parts n seen parts (c # cs) =
     (let i = cl_ClipID (di_Clip c) in
      if i \<in> set seen then None
      else if di_Disposition c = ''included'' then (if di_Part c < 1 \<or> n < di_Part c then None else clip_parts n (i # seen) ((i, di_Part c) # parts) cs)
      else if di_Disposition c = ''quarantined'' \<or> di_Disposition c = ''duplicate'' then
        (if di_Reason c = [] \<or> di_Part c \<noteq> 0 then None else clip_parts n (i # seen) parts cs)
      else None)"

definition part_of :: "(int \<times> int) list \<Rightarrow> int \<Rightarrow> int" where
  "part_of parts i = (case map_of parts i of None \<Rightarrow> 0 | Some p \<Rightarrow> p)"

text \<open>The clips of one output, each covered once and in its part.\<close>

fun cover_clips :: "(int \<times> int) list \<Rightarrow> int \<Rightarrow> int list \<Rightarrow> int list \<Rightarrow> int list option" where
  "cover_clips parts p covered [] = Some covered"
| "cover_clips parts p covered (i # is) = (if part_of parts i \<noteq> p \<or> i \<in> set covered then None else cover_clips parts p (i # covered) is)"

fun cover_outputs :: "(int \<times> int) list \<Rightarrow> int \<Rightarrow> int \<Rightarrow> int list \<Rightarrow> Output list \<Rightarrow> int list option" where
  "cover_outputs parts n k covered [] = Some covered"
| "cover_outputs parts n k covered (x # xs) =
     (if ou_Part x \<noteq> k + 1 \<or> ou_Parts x \<noteq> n \<or> ou_SourceClipIDs x = [] \<or> length (ou_SHA256 x) \<noteq> 64 \<or> ou_SizeBytes x \<le> 0 then None
      else case cover_clips parts (ou_Part x) covered (ou_SourceClipIDs x) of None \<Rightarrow> None | Some covered' \<Rightarrow>
        if \<not> vf_PayloadChainMatches (ou_Verification x) \<or> \<not> vf_VideoTimingMatches (ou_Verification x) \<or> \<not> vf_EdgeDecodeOK (ou_Verification x)
        then None else cover_outputs parts n (k + 1) covered' xs)"

definition seam_ok :: "(int \<times> int) list \<Rightarrow> SeamDecision \<Rightarrow> bool" where
  "seam_ok parts s \<longleftrightarrow> (let p = part_of parts (sm_Prev s); q = part_of parts (sm_Next s); joined = (sm_Decision s = ''join'') in
     (p = q \<and> p \<noteq> 0) = joined \<and>
     \<not> (joined \<and> (case sm_Match s of None \<Rightarrow> True | Some ev \<Rightarrow> ev_Verdict ev \<noteq> ''continuous'')))"

text \<open>\<open>Validate\<close>: whether it returns no error.\<close>

definition ValidateManifest :: "HourManifest \<Rightarrow> bool" where
  "ValidateManifest m \<longleftrightarrow>
     hm_SchemaVersion m = 1 \<and> hm_PolicyVersion m = ''collation-v2'' \<and> hm_Generation m = 2 \<and>
     HourIDFor (hm_BatchID m) (hm_RecordingID m) (hm_LocalDate m) (hm_DeliveryHour m) = Some (hm_HourID m) \<and>
     (case clip_parts (int (length (hm_Outputs m))) [] [] (hm_Clips m) of None \<Rightarrow> False | Some parts \<Rightarrow>
      (case cover_outputs parts (int (length (hm_Outputs m))) 0 [] (hm_Outputs m) of None \<Rightarrow> False | Some covered \<Rightarrow>
        length covered = length parts \<and> list_all (seam_ok parts) (hm_Seams m) \<and>
        (if hm_Status m = ''collated'' then hm_Outputs m \<noteq> []
         else if hm_Status m = ''gap_only'' \<or> hm_Status m = ''quarantine_only'' then hm_Outputs m = [] else False)))"

section \<open>The environment of an hour\<close>

record Built =
  bt_SizeBytes :: int
  bt_SHA256 :: string
  bt_Verification :: Verification

text \<open>What ffmpeg's concatenation leaves: what ffprobe reports of the file, whether its first and last seconds decode and whether all
  of it does, its size and SHA-256 unless it cannot be read.\<close>

record joined_file =
  jf_Probed :: ffprobe
  jf_Edges :: bool
  jf_Decodes :: bool
  jf_Identity :: "(int \<times> string) option"

text \<open>Building a part and decoding its file whole: done, failed, or given up because the caller did.\<close>

datatype build_outcome = BuildCancelled | BuildFailed | BuildOk Built

text \<open>The object store, ffprobe and ffmpeg: \<open>None\<close> is an error of the store, and for a decode that the caller gave up. \<open>he_Finish\<close> is
  the order in which the concurrent builds finish, \<open>he_Cancelled\<close> whether the caller gave up during the frame matches, \<open>he_Slot\<close> whether a
  build gets its turn before the caller gives up, \<open>he_Alive\<close> whether the caller still waits when it fails.\<close>

record hour_env =
  he_Policy :: SeamPolicy
  he_MediaTool :: string
  he_Hash :: "string \<Rightarrow> string"
  he_Scratch :: bool
  he_Download :: "Clip \<Rightarrow> (int \<times> string) option"
  he_Probe :: "Clip \<Rightarrow> ffprobe"
  he_Window :: "real \<Rightarrow> Clip \<Rightarrow> bool \<Rightarrow> string + Frame list"
  he_Arrange :: "(nat \<Rightarrow> real) \<Rightarrow> nat list \<Rightarrow> nat list"
  he_Cancelled :: bool
  he_Slot :: "Clip list \<Rightarrow> bool"
  he_Concat :: "Clip list \<Rightarrow> joined_file option"
  he_Alive :: "Clip list \<Rightarrow> bool"
  he_Decodes :: "Clip list \<Rightarrow> Clip \<Rightarrow> bool option"
  he_Finish :: "(nat list \<times> Built) list \<Rightarrow> (nat list \<times> Built) list"
  he_Publish :: "Output \<Rightarrow> bool"
  he_PutManifest :: "HourManifest \<Rightarrow> bool"
  he_VerifiedAt :: "int \<Rightarrow> gotime"
  he_Now :: gotime

datatype hour_error = HourDeferred | HourIdentity | ScratchFailed | DownloadFailed | ProbeInterrupted | HourCancelled | PathFailed
  | PublishFailed | ManifestInvalid | ManifestNotPut

text \<open>The results of a stage: its first error, or all of them.\<close>

fun gather :: "('e + 'a) list \<Rightarrow> 'e + 'a list" where
  "gather [] = Inr []"
| "gather (Inl e # rs) = Inl e"
| "gather (Inr x # rs) = map_sum id (Cons x) (gather rs)"

section \<open>Dispositions\<close>

definition clip_order :: "Clip \<Rightarrow> int \<times> int" where
  "clip_order c = (cl_StartUTC c, cl_ClipID c)"

definition no_media :: ClipMedia where
  "no_media = \<lparr>Playable = False, FailReason = [], CodecSignature = [], HasAudio = False, VideoPackets = 0, ContentSeconds = 0, FrameSeconds = 0\<rparr>"

definition included :: "Clip \<Rightarrow> ClipDisposition" where
  "included c = \<lparr>di_Clip = c, di_Disposition = ''included'', di_Reason = [], di_Part = 0, di_Media = no_media\<rparr>"

definition excluded :: "string \<Rightarrow> string \<Rightarrow> ClipDisposition \<Rightarrow> ClipDisposition" where
  "excluded disposition reason d = d\<lparr>di_Disposition := disposition, di_Reason := reason\<rparr>"

text \<open>The first look at the clips: \<open>keys\<close> and \<open>shas\<close> are the objects and contents met so far with their clips.\<close>

fun first_dispositions :: "(string \<times> int) list \<Rightarrow> (string \<times> int) list \<Rightarrow> Clip list \<Rightarrow> ClipDisposition list" where
  "first_dispositions keys shas [] = []"
| "first_dispositions keys shas (c # cs) =
     (case map_of keys (cl_ObjectKey c) of
        Some i \<Rightarrow> excluded ''duplicate'' (''same_object_as_clip_'' @ Itoa i) (included c) # first_dispositions keys shas cs
      | None \<Rightarrow> (case if cl_SHA256 c = [] then None else map_of shas (cl_SHA256 c) of
          Some i \<Rightarrow> excluded ''duplicate'' (''same_bytes_as_clip_'' @ Itoa i) (included c) # first_dispositions keys shas cs
        | None \<Rightarrow> (if cl_KnownBroken c then excluded ''quarantined'' ''known_unplayable_no_moov'' (included c) else included c) #
            first_dispositions ((cl_ObjectKey c, cl_ClipID c) # keys) ((cl_SHA256 c, cl_ClipID c) # shas) cs))"

text \<open>Download and probe of an included clip: what becomes of it, and its probe if it is kept.\<close>

definition fetch :: "hour_env \<Rightarrow> ClipDisposition \<Rightarrow> hour_error + (ClipDisposition \<times> Probe option)" where
  "fetch env d =
     (let c = di_Clip d in
      if di_Disposition d \<noteq> ''included'' then Inr (d, None)
      else case he_Download env c of None \<Rightarrow> Inl DownloadFailed
      | Some (bytes, sha) \<Rightarrow>
        if bytes \<noteq> cl_SizeBytes c \<or> cl_SHA256 c \<noteq> [] \<and> sha \<noteq> cl_SHA256 c then Inr (excluded ''quarantined'' ''source_identity_mismatch'' d, None)
        else (case ProbeFile (he_Hash env) (he_Probe env c) of None \<Rightarrow> Inl ProbeInterrupted
        | Some p \<Rightarrow> let d = d\<lparr>di_Media := pb_Media p\<rparr> in
            if \<not> Playable (pb_Media p) then Inr (excluded ''quarantined'' ''unplayable'' d, None) else Inr (d, Some p)))"

section \<open>Seams\<close>

text \<open>The clips and probes by position; a clip that takes part in seams has a probe.\<close>

record footage =
  ft_Clips :: "Clip list"
  ft_Probes :: "Probe option list"

definition media_at :: "footage \<Rightarrow> nat \<Rightarrow> ClipMedia" where
  "media_at f i = pb_Media (the (ft_Probes f ! i))"

definition chains :: "SeamPolicy \<Rightarrow> footage \<Rightarrow> nat \<Rightarrow> nat \<Rightarrow> bool" where
  "chains policy f cand nxt \<longleftrightarrow> cl_JobID (ft_Clips f ! cand) = cl_JobID (ft_Clips f ! nxt) \<and>
     \<bar>db_gap (ft_Clips f ! cand) (ft_Clips f ! nxt)\<bar> \<le> GapFrameSlack policy * frame_of (media_at f cand) (media_at f nxt)"

text \<open>Every included clip but the first gets one seam. \<open>earlier\<close> are the included clips before, the latest first; a chained one is
  claimed, so that it can be continued once.\<close>

fun seam_pairs :: "SeamPolicy \<Rightarrow> footage \<Rightarrow> nat list \<Rightarrow> nat list \<Rightarrow> nat list \<Rightarrow> (nat \<times> nat) list" where
  "seam_pairs policy f claimed earlier [] = []"
| "seam_pairs policy f claimed earlier (nxt # rest) =
     (case List.find (\<lambda>cand. cand \<notin> set claimed \<and> chains policy f cand nxt) earlier of
        Some cand \<Rightarrow> (cand, nxt) # seam_pairs policy f (cand # claimed) (nxt # earlier) rest
      | None \<Rightarrow> (hd earlier, nxt) # seam_pairs policy f claimed (nxt # earlier) rest)"

text \<open>The windows are matched in turn until a verdict is final.\<close>

definition match_window :: "hour_env \<Rightarrow> footage \<Rightarrow> nat \<Rightarrow> nat \<Rightarrow> real \<Rightarrow> MatchEvidence" where
  "match_window env f a b window =
     (let keys = \<lambda>i n tail. (case pb_Video (the (ft_Probes f ! i)) of None \<Rightarrow> [] | Some ps \<Rightarrow> WindowKeys ps n tail);
          policy = (he_Policy env)\<lparr>WindowSeconds := window\<rparr> in
      case he_Window env window (ft_Clips f ! a) True of Inl e \<Rightarrow> no_evidence\<lparr>ev_Verdict := ''seam_decode_failed'', ev_DecodeError := trimStderr e, ev_WindowSeconds := window\<rparr>
      | Inr tail \<Rightarrow> (case he_Window env window (ft_Clips f ! b) False of Inl e \<Rightarrow> no_evidence\<lparr>ev_Verdict := ''seam_decode_failed'', ev_DecodeError := trimStderr e, ev_WindowSeconds := window\<rparr>
      | Inr head \<Rightarrow> (EvaluateFrames (he_Arrange env) policy tail head (keys a (length tail) True) (keys b (length head) False)
          (frame_of (media_at f a) (media_at f b)))\<lparr>ev_WindowSeconds := window\<rparr>))"

fun match_loop :: "hour_env \<Rightarrow> footage \<Rightarrow> nat \<Rightarrow> nat \<Rightarrow> MatchEvidence \<Rightarrow> real list \<Rightarrow> MatchEvidence" where
  "match_loop env f a b ev [] = ev"
| "match_loop env f a b ev (window # windows) =
     (let ev = match_window env f a b window in if ev_Verdict ev = ''seam_decode_failed'' \<or> \<not> needsFullWindow (he_Policy env) ev then ev
      else match_loop env f a b ev windows)"

definition matchSeam :: "hour_env \<Rightarrow> footage \<Rightarrow> nat \<Rightarrow> nat \<Rightarrow> MatchEvidence" where
  "matchSeam env f a b = match_loop env f a b no_evidence (match_windows (he_Policy env))"

definition decide_pair :: "hour_env \<Rightarrow> footage \<Rightarrow> nat \<times> nat \<Rightarrow> SeamDecision" where
  "decide_pair env f s = (case s of (a, b) \<Rightarrow>
     let policy = he_Policy env; x = ft_Clips f ! a; y = ft_Clips f ! b; p = media_at f a; q = media_at f b in
     case ReplayOverlap (the (ft_Probes f ! a)) (the (ft_Probes f ! b)) of
       Some overlap \<Rightarrow> (DecideSeam policy x y p q None)\<lparr>sm_Decision := ''split'', sm_Reason := ''packet_replay'', sm_OverlapSeconds := overlap\<rparr>
     | None \<Rightarrow> DecideSeam policy x y p q (if MetadataGate policy x y p q = [] then Some (matchSeam env f a b) else None))"

section \<open>Parts\<close>

text \<open>A joined seam extends the part of its earlier clip, another one starts a part. \<open>partOf\<close> is the number of a clip's part.\<close>

fun group_parts :: "(nat \<Rightarrow> nat) \<Rightarrow> nat list list \<Rightarrow> ((nat \<times> nat) \<times> bool) list \<Rightarrow> nat list list" where
  "group_parts partOf parts [] = parts"
| "group_parts partOf parts (((prev, nxt), joined) # rest) =
     (if joined then let p = partOf prev in group_parts (partOf(nxt := p)) (parts[p := parts ! p @ [nxt]]) rest
      else group_parts (partOf(nxt := length parts)) (parts @ [[nxt]]) rest)"

definition hour_parts :: "nat list \<Rightarrow> ((nat \<times> nat) \<times> bool) list \<Rightarrow> nat list list" where
  "hour_parts idx seams = (if idx = [] then [] else group_parts (\<lambda>_. 0) [[hd idx]] seams)"

text \<open>The span of a part, and how long two spans overlap.\<close>

definition part_span :: "Clip list \<Rightarrow> nat list \<Rightarrow> gotime \<times> gotime" where
  "part_span clips p = (cl_StartUTC (clips ! hd p), cl_EndUTC (clips ! last p))"

definition part_length :: "Clip list \<Rightarrow> nat list \<Rightarrow> duration" where
  "part_length clips p = time_sub (snd (part_span clips p)) (fst (part_span clips p))"

definition spans_overlap :: "gotime \<times> gotime \<Rightarrow> gotime \<times> gotime \<Rightarrow> duration" where
  "spans_overlap s k = (let lo = max (fst s) (fst k); hi = min (snd s) (snd k) in if lo < hi then time_sub hi lo else 0)"

text \<open>Longer parts first: a part more than half of which lies in kept parts is dropped. The kept parts and the dropped ones.\<close>

fun drop_loop :: "Clip list \<Rightarrow> nat list list \<Rightarrow> nat list list \<Rightarrow> nat list list \<times> nat list list" where
  "drop_loop clips kept [] = (kept, [])"
| "drop_loop clips kept (p # ps) =
     (if part_length clips p < 2 * sum_list (map (\<lambda>k. spans_overlap (part_span clips p) (part_span clips k)) kept)
      then map_prod id (Cons p) (drop_loop clips kept ps) else drop_loop clips (kept @ [p]) ps)"

definition dropDuplicateCaptures :: "Clip list \<Rightarrow> nat list list \<Rightarrow> nat list list \<times> nat list list" where
  "dropDuplicateCaptures clips parts = drop_loop clips [] (sort_key (\<lambda>p. - part_length clips p) parts)"

section \<open>Building and isolating\<close>

text \<open>The clips that decode alone, cut where one does not.\<close>

fun cut_pieces :: "(nat \<Rightarrow> bool) \<Rightarrow> nat list \<Rightarrow> nat list \<Rightarrow> nat list list" where
  "cut_pieces ok piece [] = (if piece = [] then [] else [piece])"
| "cut_pieces ok piece (i # is) =
     (if ok i then cut_pieces ok (piece @ [i]) is else (if piece = [] then [] else [piece]) @ cut_pieces ok [] is)"

text \<open>What is built of the clips of a part, and the clips quarantined on the way with their reasons. A part that fails is cut at the
  clips that do not decode alone; when all do, into single clips.\<close>

definition pieces_to_build :: "(nat \<Rightarrow> bool) \<Rightarrow> nat list \<Rightarrow> nat list list" where
  "pieces_to_build ok members = (let pieces = cut_pieces ok [] members in
     if pieces = [members] then (if length members = 1 then [] else map (\<lambda>i. [i]) members) else pieces)"

definition isolation_marks :: "(nat \<Rightarrow> bool) \<Rightarrow> nat list \<Rightarrow> (nat \<times> string) list" where
  "isolation_marks ok members = map (\<lambda>i. (i, ''strict_decode_failed'')) (filter (\<lambda>i. \<not> ok i) members) @
     (if cut_pieces ok [] members = [members] \<and> length members = 1 then [(hd members, ''build_verify_failed'')] else [])"

lemma cut_pieces_shorter:
  "p \<in> set (cut_pieces ok piece is) \<Longrightarrow> length p \<le> length piece + length is \<and>
    (length p = length piece + length is \<longrightarrow> cut_pieces ok piece is = [piece @ is])"
proof (induction ok piece "is" rule: cut_pieces.induct)
  case (2 ok piece i "is")
  show ?case
  proof (cases "ok i")
    case False
    then show ?thesis using 2 by (cases "piece = []") auto
  qed (use 2 in auto)
qed (auto split: if_splits)

lemma pieces_shorter: "p \<in> set (pieces_to_build ok members) \<Longrightarrow> length p < length members"
  using cut_pieces_shorter [of p ok "[]" members] by (auto simp: pieces_to_build_def Let_def split: if_splits) (cases members; force)

text \<open>The file of a part and its verification against the clips; a whole decode is asked for as well.\<close>

definition BuildPart :: "hour_env \<Rightarrow> footage \<Rightarrow> nat list \<Rightarrow> (joined_file \<times> Built) option" where
  "BuildPart env f members =
     (if members = [] then None
      else case he_Concat env (map (nth (ft_Clips f)) members) of None \<Rightarrow> None
      | Some j \<Rightarrow> (case VerifyPart (he_Hash env) (ProbeFile (he_Hash env) (jf_Probed j)) (jf_Edges j) (map (\<lambda>i. the (ft_Probes f ! i)) members) of
          None \<Rightarrow> None
        | Some v \<Rightarrow> map_option (\<lambda>(bytes, sha). (j, \<lparr>bt_SizeBytes = bytes, bt_SHA256 = sha, bt_Verification = v\<rparr>)) (jf_Identity j)))"

definition try_build :: "hour_env \<Rightarrow> footage \<Rightarrow> nat list \<Rightarrow> build_outcome" where
  "try_build env f members =
     (if \<not> he_Slot env (map (nth (ft_Clips f)) members) then BuildCancelled
      else let failed = (if he_Alive env (map (nth (ft_Clips f)) members) then BuildFailed else BuildCancelled) in
      case BuildPart env f members of None \<Rightarrow> failed | Some (j, b) \<Rightarrow> if jf_Decodes j then BuildOk b else failed)"

function build :: "hour_env \<Rightarrow> footage \<Rightarrow> nat list \<Rightarrow> hour_error + ((nat \<times> string) list \<times> (nat list \<times> Built) list)" where
  "build env f members =
     (case try_build env f members of
        BuildCancelled \<Rightarrow> Inl HourCancelled
      | BuildOk b \<Rightarrow> Inr ([], [(members, b)])
      | BuildFailed \<Rightarrow>
          let decodes = (\<lambda>i. he_Decodes env (map (nth (ft_Clips f)) members) (ft_Clips f ! i)) in
          if \<exists>i \<in> set members. decodes i = None then Inl HourCancelled
          else let ok = (\<lambda>i. decodes i = Some True) in
            map_sum id (\<lambda>rs. (isolation_marks ok members @ concat (map fst rs), concat (map snd rs)))
              (gather (map (build env f) (pieces_to_build ok members))))"
  by auto

termination
  by (relation "measure (\<lambda>(env, f, members). length members)") (auto dest: pieces_shorter)

section \<open>The manifest of an hour\<close>

text \<open>The parts that were built, in the order of their first clips, and the number of the part each clip ended in.\<close>

definition finished_parts :: "hour_env \<Rightarrow> Clip list \<Rightarrow> (nat list \<times> Built) list \<Rightarrow> (nat list \<times> Built) list" where
  "finished_parts env clips done_parts = sort_key (\<lambda>(members, b). clip_order (clips ! hd members)) (he_Finish env done_parts)"

definition final_parts :: "Clip list \<Rightarrow> (nat list \<times> Built) list \<Rightarrow> (int \<times> int) list" where
  "final_parts clips done_parts = rev (concat (map (\<lambda>(p, members, b). map (\<lambda>i. (cl_ClipID (clips ! i), int p)) members) (enumerate 1 done_parts)))"

definition final_seam :: "(int \<times> int) list \<Rightarrow> ClipDisposition list \<Rightarrow> SeamDecision \<Rightarrow> SeamDecision" where
  "final_seam parts disp s =
     (let reason = (\<lambda>i. case map_of (rev (map (\<lambda>d. (cl_ClipID (di_Clip d), di_Reason d)) disp)) i of None \<Rightarrow> [] | Some r \<Rightarrow> r);
          p = part_of parts (sm_Prev s); q = part_of parts (sm_Next s) in
      if sm_Decision s \<noteq> ''join'' then s
      else if reason (sm_Prev s) = ''duplicate_capture_chain'' \<or> reason (sm_Next s) = ''duplicate_capture_chain''
      then s\<lparr>sm_Decision := ''split'', sm_Reason := ''duplicate_capture_chain''\<rparr>
      else if p = 0 \<or> q = 0 \<or> p \<noteq> q then s\<lparr>sm_Decision := ''split'', sm_Reason := ''isolated_after_verify_failure''\<rparr>
      else s)"

definition final_disposition :: "(int \<times> int) list \<Rightarrow> ClipDisposition \<Rightarrow> ClipDisposition" where
  "final_disposition parts d = d\<lparr>di_Part := (if di_Disposition d = ''included'' then part_of parts (cl_ClipID (di_Clip d)) else 0)\<rparr>"

text \<open>The marks of a stage on the dispositions, by position; the last mark of a clip counts.\<close>

definition mark :: "string \<Rightarrow> (nat \<times> string) list \<Rightarrow> ClipDisposition list \<Rightarrow> ClipDisposition list" where
  "mark disposition marks ds = map (\<lambda>(i, d). case map_of (rev marks) i of None \<Rightarrow> d | Some r \<Rightarrow> excluded disposition r d) (enumerate 0 ds)"

definition output_for :: "hour_env \<Rightarrow> (string \<Rightarrow> location option) \<Rightarrow> HourWork \<Rightarrow> Clip list \<Rightarrow> int \<Rightarrow> int \<times> nat list \<times> Built \<Rightarrow> Output option" where
  "output_for env tzdb w clips n x = (case x of (p, members, b) \<Rightarrow>
     let start = cl_StartUTC (clips ! hd members); stop = cl_EndUTC (clips ! last members) in
     map_option (\<lambda>path. \<lparr>ou_Part = p, ou_Parts = n, ou_ObjectKey = ObjectKey (hw_BatchID w) (bt_SHA256 b), ou_NASRelativePath = path,
         ou_SizeBytes = bt_SizeBytes b, ou_SHA256 = bt_SHA256 b, ou_StartUTC = start, ou_EndUTC = stop,
         ou_SourceClipIDs = map (\<lambda>i. cl_ClipID (clips ! i)) members, ou_Verification = bt_Verification b, ou_R2VerifiedAt = he_VerifiedAt env p\<rparr>)
       (DeliveryPath tzdb w start stop p n))"

text \<open>Uploading an output.\<close>

definition publish_output :: "hour_env \<Rightarrow> Output option \<Rightarrow> hour_error + Output" where
  "publish_output env x = (case x of None \<Rightarrow> Inl PathFailed | Some out \<Rightarrow> if he_Publish env out then Inr out else Inl PublishFailed)"

definition empty_manifest :: "hour_env \<Rightarrow> HourWork \<Rightarrow> HourManifest" where
  "empty_manifest env w = \<lparr>hm_SchemaVersion = 1, hm_PolicyVersion = ''collation-v2'', hm_Generation = 2, hm_Status = [], hm_BatchID = hw_BatchID w,
     hm_HourID = hw_HourID w, hm_SupersedesHourID = hw_SupersedesHourID w, hm_RecordingID = hw_RecordingID w, hm_Timezone = hw_Timezone w,
     hm_LocalDate = hw_LocalDate w, hm_DeliveryHour = hw_DeliveryHour w, hm_ScheduledStart = hw_ScheduledStart w, hm_ScheduledEnd = hw_ScheduledEnd w,
     hm_SeamPolicy = he_Policy env, hm_MediaTool = he_MediaTool env, hm_Clips = [], hm_Seams = [], hm_Outputs = [], hm_CreatedAt = 0\<rparr>"

definition hour_status :: "Clip list \<Rightarrow> Output list \<Rightarrow> string" where
  "hour_status clips outs = (if outs \<noteq> [] then ''collated'' else if clips = [] then ''gap_only'' else ''quarantine_only'')"

text \<open>The positions of the included clips.\<close>

definition included_at :: "ClipDisposition list \<Rightarrow> nat list" where
  "included_at disp = map fst (filter (\<lambda>(i, d). di_Disposition d = ''included'') (enumerate 0 disp))"

text \<open>What is built of the kept parts: the dispositions after it and the finished parts.\<close>

definition build_hour :: "hour_env \<Rightarrow> footage \<Rightarrow> ClipDisposition list \<Rightarrow> nat list list \<Rightarrow> hour_error + (ClipDisposition list \<times> (nat list \<times> Built) list)" where
  "build_hour env f disp parts =
     (case dropDuplicateCaptures (ft_Clips f) parts of (kept, dropped) \<Rightarrow>
      let disp = mark ''duplicate'' (map (\<lambda>i. (i, ''duplicate_capture_chain'')) (concat dropped)) disp in
      map_sum id (\<lambda>rs. (mark ''quarantined'' (concat (map fst rs)) disp, finished_parts env (ft_Clips f) (concat (map snd rs))))
        (gather (map (build env f) kept)))"

text \<open>An hour leaves what it has uploaded, the manifest it has put, and its result.\<close>

record hour_run =
  hr_Uploaded :: "Output list"
  hr_Put :: "HourManifest option"
  hr_Result :: "hour_error + HourManifest"

definition failed_hour :: "hour_error \<Rightarrow> hour_run" where
  "failed_hour e = \<lparr>hr_Uploaded = [], hr_Put = None, hr_Result = Inl e\<rparr>"

definition publish_hour :: "hour_env \<Rightarrow> (string \<Rightarrow> location option) \<Rightarrow> HourWork \<Rightarrow> Clip list \<Rightarrow> SeamDecision list \<Rightarrow> ClipDisposition list \<Rightarrow>
    (nat list \<times> Built) list \<Rightarrow> hour_run" where
  "publish_hour env tzdb w clips seams disp done_parts =
     (let parts = final_parts clips done_parts; n = int (length done_parts);
          results = map (publish_output env \<circ> output_for env tzdb w clips n) (map (\<lambda>(p, x). (int p, x)) (enumerate 1 done_parts));
          uploaded = concat (map (\<lambda>r. case r of Inl _ \<Rightarrow> [] | Inr x \<Rightarrow> [x]) results) in
      case gather results of Inl e \<Rightarrow> \<lparr>hr_Uploaded = uploaded, hr_Put = None, hr_Result = Inl e\<rparr>
      | Inr outs \<Rightarrow>
        let m = (empty_manifest env w)\<lparr>hm_Seams := map (final_seam parts disp) seams, hm_Clips := map (final_disposition parts) disp,
              hm_Outputs := outs, hm_Status := hour_status clips outs, hm_CreatedAt := he_Now env\<rparr> in
        if \<not> ValidateManifest m then \<lparr>hr_Uploaded = uploaded, hr_Put = None, hr_Result = Inl ManifestInvalid\<rparr>
        else if he_PutManifest env m then \<lparr>hr_Uploaded = uploaded, hr_Put = Some m, hr_Result = Inr m\<rparr>
        else \<lparr>hr_Uploaded = uploaded, hr_Put = None, hr_Result = Inl ManifestNotPut\<rparr>)"

definition ProcessHour :: "hour_env \<Rightarrow> (string \<Rightarrow> location option) \<Rightarrow> HourWork \<Rightarrow> hour_run" where
  "ProcessHour env tzdb w =
     (if \<exists>c \<in> set (hw_Clips w). cl_Purged c then failed_hour HourDeferred
      else if HourIDFor (hw_BatchID w) (hw_RecordingID w) (hw_LocalDate w) (hw_DeliveryHour w) \<noteq> Some (hw_HourID w) then failed_hour HourIdentity
      else if \<not> he_Scratch env then failed_hour ScratchFailed
      else let clips = sort_key clip_order (hw_Clips w) in
      case gather (map (fetch env) (first_dispositions [] [] clips)) of Inl e \<Rightarrow> failed_hour e
      | Inr fetched \<Rightarrow>
        let disp = map fst fetched; f = \<lparr>ft_Clips = clips, ft_Probes = map snd fetched\<rparr>; idx = included_at disp;
            pairs = (case idx of [] \<Rightarrow> [] | i # rest \<Rightarrow> seam_pairs (he_Policy env) f [] [i] rest);
            seams = map (decide_pair env f) pairs in
        if he_Cancelled env then failed_hour HourCancelled
        else case build_hour env f disp (hour_parts idx (zip pairs (map (\<lambda>s. sm_Decision s = ''join'') seams))) of Inl e \<Rightarrow> failed_hour e
        | Inr (disp, done_parts) \<Rightarrow> publish_hour env tzdb w clips seams disp done_parts)"

end
