(* ===== verification/CollatedParts.thy ===== *)
theory CollatedParts
  imports CollatedHour "HOL-Library.Multiset" "HOL-Library.Sublist"
begin

text \<open>
  How an hour's clips become parts: a clip is continued by one clip at most, so that a part is a chain of joined seams; what is
  built of a part is an unbroken piece of it; and each clip of a part ends up in one piece or is quarantined.
\<close>

section \<open>Joined seams\<close>

lemma gate_passed:
  assumes "MetadataGate policy x y p q = []"
  shows "cl_RecordingID x = cl_RecordingID y \<and> cl_JobID x = cl_JobID y \<and> cl_CaptureAttemptID x = cl_CaptureAttemptID y \<and>
    cl_CaptureLeaseToken x = cl_CaptureLeaseToken y \<and> (cl_CaptureSequence x \<noteq> 0 \<longrightarrow> cl_CaptureSequence y = cl_CaptureSequence x + 1) \<and>
    CodecSignature p = CodecSignature q \<and> \<bar>db_gap x y\<bar> \<le> GapFrameSlack policy * frame_of p q"
proof -
  have keep: "(if b then c # s else t) = [] \<longleftrightarrow> \<not> b \<and> t = []" for b c and s t :: string by simp
  show ?thesis using assms unfolding MetadataGate_def Let_def keep by (auto simp add: abs_le_iff not_less minus_le_iff)
qed

lemma decided_join:
  assumes "sm_Decision (decide_pair env f (a, b)) = ''join''"
  shows "ReplayOverlap (the (ft_Probes f ! a)) (the (ft_Probes f ! b)) = None \<and>
    MetadataGate (he_Policy env) (ft_Clips f ! a) (ft_Clips f ! b) (media_at f a) (media_at f b) = [] \<and>
    ev_Verdict (matchSeam env f a b) = ''continuous'' \<and> sm_Match (decide_pair env f (a, b)) = Some (matchSeam env f a b) \<and>
    sm_Reason (decide_pair env f (a, b)) = ''continuous''"
  using assms by (auto simp: decide_pair_def DecideSeam_def Let_def split: option.splits if_splits)

lemma decided_ids: "sm_Prev (decide_pair env f (a, b)) = cl_ClipID (ft_Clips f ! a) \<and> sm_Next (decide_pair env f (a, b)) = cl_ClipID (ft_Clips f ! b)"
  by (auto simp: decide_pair_def DecideSeam_def Let_def split: option.splits)

lemma join_chains: "sm_Decision (decide_pair env f (a, b)) = ''join'' \<Longrightarrow> chains (he_Policy env) f a b"
  using decided_join [of env f a b] gate_passed [of "he_Policy env" "ft_Clips f ! a" "ft_Clips f ! b" "media_at f a" "media_at f b"]
  by (simp add: chains_def)

section \<open>One seam per clip\<close>

text \<open>A clip without a chained clip before it gets a seam to the clip just before; that one is not claimed, so it does not chain.\<close>

lemma seam_pairs_spec:
  fixes policy :: SeamPolicy and f :: footage
  assumes "before \<noteq> []" "set claimed \<subseteq> set (tl before)" "sorted_wrt (>) before" "sorted_wrt (<) rest" "\<forall>i \<in> set before. \<forall>j \<in> set rest. i < j"
  defines "ps \<equiv> seam_pairs policy f claimed before rest"
  shows "map snd ps = rest \<and> (\<forall>(p, n) \<in> set ps. p < n \<and> p \<in> set before \<union> set rest) \<and>
    distinct (map fst (filter (\<lambda>(p, n). chains policy f p n) ps)) \<and> fst ` set (filter (\<lambda>(p, n). chains policy f p n) ps) \<inter> set claimed = {}"
  using assms(1-5) unfolding ps_def
proof (induction policy f claimed before rest rule: seam_pairs.induct)
  case (2 policy f claimed before nxt rest)
  have next_ok: "nxt # before \<noteq> []" "sorted_wrt (>) (nxt # before)" "sorted_wrt (<) rest" "\<forall>i \<in> set (nxt # before). \<forall>j \<in> set rest. i < j"
    using "2.prems" by auto
  have hd_free: "hd before \<in> set before" "hd before \<notin> set claimed"
    using "2.prems"(1-3) by (cases before; fastforce)+
  show ?case
  proof (cases "List.find (\<lambda>cand. cand \<notin> set claimed \<and> chains policy f cand nxt) before")
    case None
    have "set claimed \<subseteq> set (tl (nxt # before))" using "2.prems"(1,2) by (cases before) auto
    note rec = "2.IH"(1) [OF None next_ok(1) this next_ok(2-4)]
    have "\<not> chains policy f (hd before) nxt" using None hd_free by (auto simp: find_None_iff)
    then show ?thesis using rec None hd_free "2.prems"(5) by auto
  next
    case (Some cand)
    then have cand: "cand \<in> set before" "cand \<notin> set claimed" "chains policy f cand nxt" by (auto simp: find_Some_iff)
    have "set (cand # claimed) \<subseteq> set (tl (nxt # before))" using "2.prems"(1,2) cand(1) by (cases before) auto
    note rec = "2.IH"(2) [OF Some next_ok(1) this next_ok(2-4)]
    then show ?thesis using Some cand "2.prems"(5) by auto
  qed
qed simp

section \<open>Parts are chains\<close>

text \<open>The state of the grouping after the pairs \<open>ps\<close>: \<open>seen\<close> are the clips so far.\<close>

definition grouped :: "nat list \<Rightarrow> ((nat \<times> nat) \<times> bool) list \<Rightarrow> (nat \<Rightarrow> nat) \<Rightarrow> nat list list \<Rightarrow> bool" where
  "grouped seen ps partOf parts \<longleftrightarrow> distinct seen \<and> mset (concat parts) = mset seen \<and> [] \<notin> set parts \<and>
     (\<forall>p < length parts. \<forall>i \<in> set (parts ! p). partOf i = p) \<and>
     (\<forall>part \<in> set parts. sorted_wrt (<) part \<and> (\<forall>e \<in> set (neighbours part). (e, True) \<in> set ps) \<and>
        (\<forall>prev nxt. ((prev, nxt), False) \<in> set ps \<longrightarrow> nxt \<in> set part \<longrightarrow> nxt = hd part))"

lemma not_last_neighbour: "x \<in> set xs \<Longrightarrow> x \<noteq> last xs \<Longrightarrow> \<exists>y. (x, y) \<in> set (neighbours xs)"
  by (induction xs rule: induct_list012) auto

lemma sorted_last_max: "sorted_wrt (<) xs \<Longrightarrow> x \<in> set xs \<Longrightarrow> x \<le> last xs" for xs :: "nat list"
  by (induction xs rule: induct_list012) (auto dest: last_in_set simp: less_imp_le)

lemma parts_of_seen:
  assumes "mset (concat parts) = mset seen"
  shows "set seen = \<Union> (set ` set parts)"
  using assms by (metis set_concat set_mset_mset)

lemma grouped_split:
  assumes "grouped seen ps partOf parts" "nxt \<notin> set seen" "\<forall>i \<in> set seen. i < nxt" "\<And>p. (p, nxt) \<notin> fst ` set ps"
  shows "grouped (seen @ [nxt]) (ps @ [((prev, nxt), False)]) (partOf(nxt := length parts)) (parts @ [[nxt]])"
proof -
  have seen: "set seen = \<Union> (set ` set parts)" using assms(1) by (intro parts_of_seen) (simp add: grouped_def)
  then have new: "nxt \<notin> set part" if "part \<in> set parts" for part using assms(2) that by auto
  have old: "(partOf(nxt := length parts)) i = p" if "p < length parts" "i \<in> set (parts ! p)" for p i
    using that assms(1) new [OF nth_mem [OF that(1)]] by (auto simp: grouped_def)
  show ?thesis using assms(1,2,4) old new by (auto simp: grouped_def nth_append less_Suc_eq)
qed

lemma grouped_join:
  assumes "grouped seen ps partOf parts" "nxt \<notin> set seen" "\<forall>i \<in> set seen. i < nxt" "prev \<in> set seen"
    "\<And>n. ((prev, n), True) \<notin> set ps" "\<And>p. (p, nxt) \<notin> fst ` set ps"
  defines "p \<equiv> partOf prev"
  shows "grouped (seen @ [nxt]) (ps @ [((prev, nxt), True)]) (partOf(nxt := p)) (parts[p := parts ! p @ [nxt]])"
proof -
  note g = assms(1) [unfolded grouped_def]
  have seen: "set seen = \<Union> (set ` set parts)" using g by (intro parts_of_seen) simp
  obtain k where k: "k < length parts" "prev \<in> set (parts ! k)" using assms(4) seen in_set_conv_nth [of _ parts] by auto
  then have p: "p = k" using g by (simp add: p_def)
  have part: "parts ! k \<in> set parts" using k by simp
  have prev: "last (parts ! k) = prev"
    using not_last_neighbour [OF k(2)] g part assms(5) by (metis (no_types, lifting))
  have new: "nxt \<notin> set part" if "part \<in> set parts" for part using assms(2) seen that by auto
  have ne: "parts ! k \<noteq> []" using k(2) by auto
  have below: "\<forall>i \<in> set (parts ! k). i < nxt" using assms(3) seen part by auto
  have nbr: "set (neighbours (parts ! k @ [nxt])) = set (neighbours (parts ! k)) \<union> {(prev, nxt)}"
    using ne prev by (simp add: neighbours_snoc)
  have old: "\<forall>q < length parts. \<forall>i \<in> set (parts ! q). (partOf(nxt := p)) i = q"
    using g new nth_mem by (metis fun_upd_other)
  obtain before after where split: "parts = before @ parts ! k # after" "length before = k" using k(1) by (metis id_take_nth_drop length_take min.absorb4)
  have upd: "parts[k := parts ! k @ [nxt]] = before @ (parts ! k @ [nxt]) # after"
    using split by (metis list_update_length)
  have msets: "mset (concat (parts[k := parts ! k @ [nxt]])) = mset (concat parts) + {#nxt#}"
    by (subst (3) split(1)) (simp add: upd)
  have partOf: "\<forall>q < length parts. \<forall>i \<in> set (parts[k := parts ! k @ [nxt]] ! q). (partOf(nxt := p)) i = q"
    using old k(1) by (auto simp: p nth_list_update)
  have part_ok: "sorted_wrt (<) q \<and> (\<forall>e \<in> set (neighbours q). (e, True) \<in> set ps \<or> e = (prev, nxt)) \<and>
      (\<forall>a b. ((a, b), False) \<in> set ps \<longrightarrow> b \<in> set q \<longrightarrow> b = hd q)" if "q \<in> set (parts[k := parts ! k @ [nxt]])" for q
  proof (cases "q \<in> set parts")
    case False
    then have q: "q = parts ! k @ [nxt]" using that set_update_subset_insert [of parts k] by auto
    have starts: "b = hd q" if "((a, b), False) \<in> set ps" "b \<in> set q" for a b
    proof -
      have "b \<noteq> nxt" using that(1) assms(6) [of a] by (auto simp: image_iff)
      then have "b \<in> set (parts ! k)" using that(2) q by simp
      then show ?thesis using g part that(1) ne q by simp
    qed
    have "sorted_wrt (<) q" using g part below unfolding q by (simp add: sorted_wrt_append)
    moreover have "\<forall>e \<in> set (neighbours q). (e, True) \<in> set ps \<or> e = (prev, nxt)" using g part nbr unfolding q by blast
    ultimately show ?thesis using starts by blast
  qed (use g in auto)
  show ?thesis unfolding grouped_def p
    using g assms(2) msets partOf part_ok set_update_subset_insert [of parts k "parts ! k @ [nxt]"] p by (auto dest!: subsetD)
qed

lemma group_parts_grouped:
  assumes "grouped seen ps partOf parts" "sorted_wrt (<) (seen @ map (snd \<circ> fst) rest)" "\<forall>x \<in> set ps. snd (fst x) \<in> set seen"
    "\<forall>x \<in> set rest. fst (fst x) < snd (fst x) \<and> fst (fst x) \<in> set (seen @ map (snd \<circ> fst) rest)"
    "distinct (map (fst \<circ> fst) (filter snd (ps @ rest)))"
  shows "\<exists>partOf'. grouped (seen @ map (snd \<circ> fst) rest) (ps @ rest) partOf' (group_parts partOf parts rest)"
  using assms
proof (induction partOf parts rest arbitrary: seen ps rule: group_parts.induct)
  case (2 partOf parts prev nxt joined rest)
  have nxt: "nxt \<notin> set seen" "\<forall>i \<in> set seen. i < nxt" "\<And>p. (p, nxt) \<notin> fst ` set ps"
    using "2.prems"(2,3) by (force simp: sorted_wrt_append)+
  have prev: "prev \<in> set seen" using "2.prems"(2,4) by (auto simp: sorted_wrt_append)
  let ?seen = "seen @ [nxt]" and ?ps = "ps @ [((prev, nxt), joined)]"
  have later: "sorted_wrt (<) (?seen @ map (snd \<circ> fst) rest)" "\<forall>x \<in> set ?ps. snd (fst x) \<in> set ?seen"
    "\<forall>x \<in> set rest. fst (fst x) < snd (fst x) \<and> fst (fst x) \<in> set (?seen @ map (snd \<circ> fst) rest)"
    "distinct (map (fst \<circ> fst) (filter snd (?ps @ rest)))"
    using "2.prems"(2-5) by (auto simp: comp_def split: if_splits)
  show ?case
  proof (cases joined)
    case True
    have "((prev, n), True) \<notin> set ps" for n using "2.prems"(5) True by (force simp: image_iff)
    note grouped_join [OF "2.prems"(1) nxt(1,2) prev this nxt(3)]
    then have "grouped ?seen ?ps (partOf(nxt := partOf prev)) (parts[partOf prev := parts ! partOf prev @ [nxt]])"
      using True by simp
    from "2.IH"(1) [OF True refl this later] show ?thesis using True by (simp add: Let_def fun_upd_def)
  next
    case False
    have "grouped ?seen ?ps (partOf(nxt := length parts)) (parts @ [[nxt]])"
      using grouped_split [OF "2.prems"(1) nxt(1,2,3)] False by simp
    from "2.IH"(2) [OF False this later] show ?thesis using False by (simp add: fun_upd_def)
  qed
qed auto

text \<open>The pairs of an hour and their decisions, and the parts they make.\<close>

definition hour_pairs :: "hour_env \<Rightarrow> footage \<Rightarrow> nat list \<Rightarrow> (nat \<times> nat) list" where
  "hour_pairs env f idx = (case idx of [] \<Rightarrow> [] | i # rest \<Rightarrow> seam_pairs (he_Policy env) f [] [i] rest)"

definition joins :: "hour_env \<Rightarrow> footage \<Rightarrow> nat \<times> nat \<Rightarrow> bool" where
  "joins env f e \<longleftrightarrow> sm_Decision (decide_pair env f e) = ''join''"

lemma hour_pairs_spec:
  assumes "sorted_wrt (<) idx"
  shows "map snd (hour_pairs env f idx) = tl idx" "\<forall>(p, n) \<in> set (hour_pairs env f idx). p < n \<and> p \<in> set idx"
    "distinct (map fst (filter (joins env f) (hour_pairs env f idx)))"
proof -
  have spec: "map snd (hour_pairs env f idx) = tl idx \<and> (\<forall>(p, n) \<in> set (hour_pairs env f idx). p < n \<and> p \<in> set idx) \<and>
      distinct (map fst (filter (\<lambda>(p, n). chains (he_Policy env) f p n) (hour_pairs env f idx)))"
  proof (cases idx)
    case (Cons i rest)
    then show ?thesis using seam_pairs_spec [of "[i]" "[]" rest "he_Policy env" f] assms by (simp add: hour_pairs_def)
  qed (simp add: hour_pairs_def)
  then show "map snd (hour_pairs env f idx) = tl idx" "\<forall>(p, n) \<in> set (hour_pairs env f idx). p < n \<and> p \<in> set idx" by blast+
  have "filter (joins env f) ps = filter (joins env f) (filter (\<lambda>(p, n). chains (he_Policy env) f p n) ps)" for ps
    by (induction ps) (auto simp: joins_def join_chains)
  then show "distinct (map fst (filter (joins env f) (hour_pairs env f idx)))"
    using spec by (metis distinct_map_filter)
qed

lemma hour_parts_grouped:
  fixes env :: hour_env and f :: footage
  assumes "sorted_wrt (<) idx" "idx \<noteq> []"
  defines "ps \<equiv> map (\<lambda>e. (e, joins env f e)) (hour_pairs env f idx)"
  shows "\<exists>partOf. grouped idx ps partOf (hour_parts idx ps)"
proof -
  note spec = hour_pairs_spec [OF assms(1), of env f]
  have nxts: "map (snd \<circ> fst) ps = tl idx" using spec(1) by (simp add: ps_def comp_def)
  have joined: "map (fst \<circ> fst) (filter snd ps) = map fst (filter (joins env f) (hour_pairs env f idx))"
    by (simp add: ps_def filter_map comp_def)
  have start: "grouped [hd idx] [] (\<lambda>_. 0) [[hd idx]]" by (simp add: grouped_def)
  have "\<exists>partOf. grouped ([hd idx] @ map (snd \<circ> fst) ps) ([] @ ps) partOf (group_parts (\<lambda>_. 0) [[hd idx]] ps)"
  proof (rule group_parts_grouped [OF start])
    show "sorted_wrt (<) ([hd idx] @ map (snd \<circ> fst) ps)" using assms(1,2) nxts by (cases idx) auto
    show "\<forall>x \<in> set ps. fst (fst x) < snd (fst x) \<and> fst (fst x) \<in> set ([hd idx] @ map (snd \<circ> fst) ps)"
      using spec(2) assms(2) nxts by (cases idx) (auto simp: ps_def)
    show "distinct (map (fst \<circ> fst) (filter snd ([] @ ps)))" using spec(3) joined by simp
  qed simp
  then show ?thesis using assms(2) nxts by (simp add: hour_parts_def)
qed

section \<open>Pieces\<close>

lemma gather_Inr: "gather rs = Inr xs \<longleftrightarrow> rs = map Inr xs"
proof (induction rs arbitrary: xs)
  case (Cons r rs)
  show ?case
  proof (cases r)
    case (Inr y)
    have "gather (Inr y # rs) = Inr xs \<longleftrightarrow> (\<exists>ys. gather rs = Inr ys \<and> xs = y # ys)" by (cases "gather rs") auto
    then show ?thesis unfolding Inr Cons.IH by (cases xs) auto
  qed (cases xs; simp)
qed (simp add: eq_commute)

lemma gather_map: "gather (map g ps) = Inr xs \<longleftrightarrow> list_all2 (\<lambda>p x. g p = Inr x) ps xs"
  unfolding gather_Inr
proof (induction ps arbitrary: xs)
  case (Cons p ps)
  then show ?case by (cases xs) auto
qed auto

lemma cut_pieces_spec:
  "concat (cut_pieces ok piece is) = piece @ filter ok is \<and> [] \<notin> set (cut_pieces ok piece is) \<and> (\<forall>p \<in> set (cut_pieces ok piece is). sublist p (piece @ is))"
proof (induction ok piece "is" rule: cut_pieces.induct)
  case (2 ok piece i "is")
  show ?case
  proof (cases "ok i")
    case False
    have "sublist p (piece @ i # is)" if "sublist p is" for p using that by (metis append_Cons append_Nil append.assoc sublist_def)
    then show ?thesis using 2 False by (auto simp: sublist_appendI)
  qed (use 2 in simp)
qed auto

lemma pieces_to_build_spec:
  assumes "members \<noteq> []"
  shows "[] \<notin> set (pieces_to_build ok members)" "\<forall>p \<in> set (pieces_to_build ok members). sublist p members"
    "mset (map fst (isolation_marks ok members)) + mset (concat (pieces_to_build ok members)) = mset members"
proof -
  note cut = cut_pieces_spec [of ok "[]" members]
  have single: "sublist [i] members" if "i \<in> set members" for i using that by (metis append_Cons append_Nil split_list sublist_def)
  show "[] \<notin> set (pieces_to_build ok members)" using cut by (auto simp: pieces_to_build_def Let_def)
  show "\<forall>p \<in> set (pieces_to_build ok members). sublist p members" using cut single by (auto simp: pieces_to_build_def Let_def)
  have all: "filter (\<lambda>i. \<not> ok i) members = []" if "cut_pieces ok [] members = [members]"
    using cut that by (metis append_Nil concat.simps filter_False filter_id_conv append_Nil2)
  have singles: "concat (map (\<lambda>i. [i]) is) = is" for "is" :: "nat list" by (induction "is") simp_all
  have hd: "mset [hd members] = mset members" if "length members = 1" using that by (cases members) auto
  have mset: "mset (filter (\<lambda>i. \<not> ok i) members) + mset (filter ok members) = mset members"
    by (metis add.commute mset_filter multiset_partition)
  show "mset (map fst (isolation_marks ok members)) + mset (concat (pieces_to_build ok members)) = mset members"
  proof (cases "cut_pieces ok [] members = [members]")
    case True
    then show ?thesis using all [OF True] singles hd by (auto simp: pieces_to_build_def isolation_marks_def Let_def comp_def simp del: filter_empty_conv)
  next
    case False
    then show ?thesis using cut mset by (simp add: pieces_to_build_def isolation_marks_def Let_def comp_def)
  qed
qed

text \<open>What is built of clips accounts for each of them once.\<close>

definition accounts :: "hour_env \<Rightarrow> footage \<Rightarrow> nat list \<Rightarrow> (nat \<times> string) list \<times> (nat list \<times> Built) list \<Rightarrow> bool" where
  "accounts env f members r \<longleftrightarrow> mset members = mset (map fst (fst r)) + mset (concat (map fst (snd r))) \<and>
     (\<forall>m \<in> set (fst r). snd m \<noteq> []) \<and>
     (\<forall>x \<in> set (snd r). fst x \<noteq> [] \<and> try_build env f (fst x) = BuildOk (snd x))"

lemma accounts_append:
  "accounts env f a x \<Longrightarrow> accounts env f b y \<Longrightarrow> accounts env f (a @ b) (fst x @ fst y, snd x @ snd y)"
  by (auto simp: accounts_def)

lemma accounts_Nil: "accounts env f [] ([], [])"
  by (simp add: accounts_def)

lemma accounts_concat:
  "list_all2 (\<lambda>p x. accounts env f p x) ps xs \<Longrightarrow> accounts env f (concat ps) (concat (map fst xs), concat (map snd xs))"
proof (induction rule: list_all2_induct)
  case (Cons p ps x xs)
  then show ?case using accounts_append [of env f p x "concat ps"] by fastforce
qed (simp add: accounts_Nil)

lemma build_accounts:
  assumes "build env f members = Inr r" "members \<noteq> []"
  shows "accounts env f members r \<and> (\<forall>x \<in> set (snd r). sublist (fst x) members)"
  using assms
proof (induction env f members arbitrary: r rule: build.induct)
  case (1 env f members)
  note step = "1.prems"(1) [unfolded build.simps [of env f members]]
  show ?case
  proof (cases "try_build env f members")
    case BuildFailed
    define ok where "ok i = (he_Decodes env (map (nth (ft_Clips f)) members) (ft_Clips f ! i) = Some True)" for i
    have whole: "\<not> (\<exists>i \<in> set members. he_Decodes env (map (nth (ft_Clips f)) members) (ft_Clips f ! i) = None)"
      using step BuildFailed by (auto split: if_splits)
    have ok: "ok = (\<lambda>i. he_Decodes env (map (nth (ft_Clips f)) members) (ft_Clips f ! i) = Some True)" by (simp add: ok_def fun_eq_iff)
    have "map_sum id (\<lambda>rs. (isolation_marks ok members @ concat (map fst rs), concat (map snd rs)))
        (gather (map (build env f) (pieces_to_build ok members))) = Inr r"
      using step whole unfolding ok by (simp only: BuildFailed build_outcome.case Let_def if_False)
    then obtain rs where rs: "gather (map (build env f) (pieces_to_build ok members)) = Inr rs"
        "r = (isolation_marks ok members @ concat (map fst rs), concat (map snd rs))"
      by (cases "gather (map (build env f) (pieces_to_build ok members))") auto
    note pieces = pieces_to_build_spec [OF "1.prems"(2), of ok]
    have "accounts env f p x \<and> (\<forall>y \<in> set (snd x). sublist (fst y) p)" if "p \<in> set (pieces_to_build ok members)" "build env f p = Inr x" for p x
      using "1.IH" [OF BuildFailed refl whole refl] that pieces(1) unfolding ok_def by metis
    then have each: "list_all2 (\<lambda>p x. accounts env f p x \<and> (\<forall>y \<in> set (snd x). sublist (fst y) p)) (pieces_to_build ok members) rs"
      using rs(1) unfolding gather_map by (auto simp: list_all2_conv_all_nth)
    then have all: "accounts env f (concat (pieces_to_build ok members)) (concat (map fst rs), concat (map snd rs))"
      by (intro accounts_concat) (auto elim: list_all2_mono)
    have "sublist (fst y) members" if y: "y \<in> set (concat (map snd rs))" for y
    proof -
      obtain i where i: "i < length rs" "y \<in> set (snd (rs ! i))" using y by (auto simp: set_conv_nth [of rs]) (metis snd_conv)
      then have "sublist (fst y) (pieces_to_build ok members ! i)" "pieces_to_build ok members ! i \<in> set (pieces_to_build ok members)"
        using each by (auto simp: list_all2_conv_all_nth)
      then show ?thesis using pieces(2) by (blast intro: sublist_order.order.trans)
    qed
    moreover have "\<forall>m \<in> set (isolation_marks ok members). snd m \<noteq> []" by (auto simp: isolation_marks_def)
    ultimately show ?thesis using all pieces(3) unfolding rs(2) by (auto simp: accounts_def ac_simps)
  qed (use step "1.prems"(2) in \<open>auto simp: accounts_def\<close>)
qed

end
