(* ===== verification/CollatedManifest.thy ===== *)
theory CollatedManifest
  imports CollatedParts
begin

text \<open>
  The manifest of a collated hour is right: every clip ends in one place, the manifest an hour makes always passes its
  validator, and what it says is joined has been proven to be.
\<close>

section \<open>Marks and positions\<close>

lemma length_mark [simp]: "length (mark disposition marks ds) = length ds"
  by (simp add: mark_def)

lemma mark_nth:
  "i < length ds \<Longrightarrow> mark disposition marks ds ! i = (case map_of (rev marks) i of None \<Rightarrow> ds ! i | Some r \<Rightarrow> excluded disposition r (ds ! i))"
  by (simp add: mark_def nth_enumerate_eq)

lemma mark_other: "i < length ds \<Longrightarrow> i \<notin> fst ` set marks \<Longrightarrow> mark disposition marks ds ! i = ds ! i"
  by (simp add: mark_nth map_of_eq_None_iff [THEN iffD2])

lemma mark_marked:
  assumes "i < length ds" "i \<in> fst ` set marks"
  shows "\<exists>r. (i, r) \<in> set marks \<and> mark disposition marks ds ! i = excluded disposition r (ds ! i)"
proof -
  obtain r where "map_of (rev marks) i = Some r" using assms(2) map_of_eq_None_iff [of "rev marks" i] by fastforce
  then show ?thesis using assms(1) map_of_SomeD by (fastforce simp: mark_nth)
qed

lemma included_at_eq: "included_at disp = filter (\<lambda>i. di_Disposition (disp ! i) = ''included'') [0..<length disp]"
proof -
  have "enumerate 0 disp = map (\<lambda>i. (i, disp ! i)) [0..<length disp]" by (intro nth_equalityI) (simp_all add: nth_enumerate_eq)
  then show ?thesis by (simp add: included_at_def filter_map comp_def)
qed

lemma included_at_sorted: "sorted_wrt (<) (included_at disp)"
  by (simp add: included_at_eq sorted_wrt_filter)

lemma set_included_at: "set (included_at disp) = {i. i < length disp \<and> di_Disposition (disp ! i) = ''included''}"
  by (auto simp: included_at_eq)

lemma distinct_included_at: "distinct (included_at disp)"
  by (simp add: included_at_eq)

section \<open>What becomes of each clip\<close>

lemma drop_loop_mset: "drop_loop clips kept ps = (k, d) \<Longrightarrow> mset (k @ d) = mset (kept @ ps)"
  by (induction clips kept ps arbitrary: k d rule: drop_loop.induct) (auto simp: map_prod_def split: if_splits prod.splits)

lemma drop_mset: "dropDuplicateCaptures clips parts = (k, d) \<Longrightarrow> mset (k @ d) = mset parts"
  unfolding dropDuplicateCaptures_def by (drule drop_loop_mset) simp

text \<open>A disposition is included without a reason or left out with one.\<close>

definition disposed :: "ClipDisposition \<Rightarrow> bool" where
  "disposed d \<longleftrightarrow> (if di_Disposition d = ''included'' then di_Reason d = []
     else (di_Disposition d = ''quarantined'' \<or> di_Disposition d = ''duplicate'') \<and> di_Reason d \<noteq> [])"

definition settled :: "hour_env \<Rightarrow> footage \<Rightarrow> nat list list \<Rightarrow> ClipDisposition list \<Rightarrow> (nat list \<times> Built) list \<Rightarrow> bool" where
  "settled env f parts disp done_parts \<longleftrightarrow> distinct (concat (map fst done_parts)) \<and>
     set (concat (map fst done_parts)) = {i. i < length disp \<and> di_Disposition (disp ! i) = ''included''} \<and>
     (\<forall>d \<in> set disp. disposed d) \<and>
     (\<forall>x \<in> set done_parts. fst x \<noteq> [] \<and> (\<exists>part \<in> set parts. sublist (fst x) part) \<and> try_build env f (fst x) = BuildOk (snd x))"

lemma disposed_first: "\<forall>d \<in> set (first_dispositions keys shas cs). disposed d"
  by (induction keys shas cs rule: first_dispositions.induct) (auto simp: disposed_def excluded_def included_def split: option.splits)

lemma first_clips: "map di_Clip (first_dispositions keys shas cs) = cs"
  by (induction keys shas cs rule: first_dispositions.induct) (auto simp: excluded_def included_def split: option.splits)

lemma fetch_disposed:
  "fetch env d = Inr (e, p) \<Longrightarrow> disposed d \<Longrightarrow> disposed e \<and> di_Clip e = di_Clip d \<and> (di_Disposition e = ''included'' \<longrightarrow> (\<exists>q. p = Some q \<and> ProbeFile (he_Hash env) (he_Probe env (di_Clip e)) = Some q))"
  by (auto simp: fetch_def disposed_def excluded_def Let_def split: if_splits option.splits) metis+

lemma fetched_disposed:
  assumes "gather (map (fetch env) (first_dispositions [] [] clips)) = Inr fetched"
  shows "\<forall>d \<in> set (map fst fetched). disposed d" "map di_Clip (map fst fetched) = clips"
    "\<forall>i < length fetched. di_Disposition (fst (fetched ! i)) = ''included'' \<longrightarrow>
       (\<exists>q. snd (fetched ! i) = Some q \<and> ProbeFile (he_Hash env) (he_Probe env (clips ! i)) = Some q)"
proof -
  let ?ds = "first_dispositions [] [] clips"
  have all: "list_all2 (\<lambda>d x. fetch env d = Inr x) ?ds fetched" using assms by (simp add: gather_map)
  have each: "disposed (fst (fetched ! i)) \<and> di_Clip (fst (fetched ! i)) = di_Clip (?ds ! i) \<and>
      (di_Disposition (fst (fetched ! i)) = ''included'' \<longrightarrow>
        (\<exists>q. snd (fetched ! i) = Some q \<and> ProbeFile (he_Hash env) (he_Probe env (di_Clip (fst (fetched ! i)))) = Some q))" if "i < length fetched" for i
    using that all disposed_first [of "[]" "[]" clips] fetch_disposed [of env "?ds ! i" "fst (fetched ! i)" "snd (fetched ! i)"]
    by (auto simp: list_all2_conv_all_nth)
  then show "\<forall>d \<in> set (map fst fetched). disposed d" unfolding all_set_conv_all_nth by simp
  have "map di_Clip (map fst fetched) = map di_Clip ?ds" using all each by (auto simp: list_all2_conv_all_nth intro!: nth_equalityI)
  then show clips: "map di_Clip (map fst fetched) = clips" by (simp add: first_clips)
  have "di_Clip (fst (fetched ! i)) = clips ! i" if "i < length fetched" for i
    using that arg_cong [OF clips, of "\<lambda>xs. xs ! i"] by simp
  then show "\<forall>i < length fetched. di_Disposition (fst (fetched ! i)) = ''included'' \<longrightarrow>
       (\<exists>q. snd (fetched ! i) = Some q \<and> ProbeFile (he_Hash env) (he_Probe env (clips ! i)) = Some q)" using each by metis
qed

text \<open>The marks that leave out a clip with a reason keep each disposition of its kind.\<close>

lemma mark_disposed:
  assumes "\<forall>d \<in> set ds. disposed d" "\<forall>m \<in> set marks. snd m \<noteq> []" "kind = ''quarantined'' \<or> kind = ''duplicate''"
  shows "\<forall>d \<in> set (mark kind marks ds). disposed d" "map di_Clip (mark kind marks ds) = map di_Clip ds"
    "\<forall>i < length ds. di_Disposition (mark kind marks ds ! i) = ''included'' \<longleftrightarrow> di_Disposition (ds ! i) = ''included'' \<and> i \<notin> fst ` set marks"
proof -
  have each: "disposed (mark kind marks ds ! i) \<and> di_Clip (mark kind marks ds ! i) = di_Clip (ds ! i) \<and>
      (di_Disposition (mark kind marks ds ! i) = ''included'' \<longleftrightarrow> di_Disposition (ds ! i) = ''included'' \<and> i \<notin> fst ` set marks)" if i: "i < length ds" for i
  proof (cases "i \<in> fst ` set marks")
    case True
    obtain r where r: "(i, r) \<in> set marks" "mark kind marks ds ! i = excluded kind r (ds ! i)" using mark_marked [OF i True] by blast
    then have "r \<noteq> []" using assms(2) by fastforce
    then show ?thesis using True r(2) assms(3) by (auto simp: disposed_def excluded_def)
  qed (use i mark_other assms(1) in \<open>auto\<close>)
  then show "\<forall>d \<in> set (mark kind marks ds). disposed d" by (auto simp: in_set_conv_nth)
  show "map di_Clip (mark kind marks ds) = map di_Clip ds" using each by (auto intro!: nth_equalityI)
  show "\<forall>i < length ds. di_Disposition (mark kind marks ds ! i) = ''included'' \<longleftrightarrow> di_Disposition (ds ! i) = ''included'' \<and> i \<notin> fst ` set marks"
    using each by blast
qed

lemma built_parts:
  assumes "list_all2 (\<lambda>p x. build env f p = Inr x) ps rs" "[] \<notin> set ps"
  shows "accounts env f (concat ps) (concat (map fst rs), concat (map snd rs)) \<and> (\<forall>x \<in> set (concat (map snd rs)). \<exists>p \<in> set ps. sublist (fst x) p)"
  using assms
proof (induction rule: list_all2_induct)
  case (Cons p ps x xs)
  have "accounts env f p x \<and> (\<forall>y \<in> set (snd x). sublist (fst y) p)" using Cons by (intro build_accounts) auto
  then show ?case using Cons accounts_append [of env f p x "concat ps" "(concat (map fst xs), concat (map snd xs))"] by auto
qed (simp add: accounts_Nil)

lemma finished_mset:
  "mset (he_Finish env done_parts) = mset done_parts \<Longrightarrow> mset (finished_parts env clips done_parts) = mset done_parts"
  by (simp add: finished_parts_def)

lemma mset_concat_perm: "mset xs = mset ys \<Longrightarrow> mset (concat (map g xs)) = mset (concat (map g ys))"
  by (metis mset_concat mset_map sum_mset_sum_list)

lemma build_hour_settled:
  assumes built: "build_hour env f disp parts = Inr (disp', done_parts)"
    and parts: "mset (concat parts) = mset (included_at disp)" "[] \<notin> set parts"
    and disposed: "\<forall>d \<in> set disp. disposed d"
    and finish: "\<And>xs. mset (he_Finish env xs) = mset xs"
  shows "settled env f parts disp' done_parts" "map di_Clip disp' = map di_Clip disp"
proof -
  obtain kept dropped where drop: "dropDuplicateCaptures (ft_Clips f) parts = (kept, dropped)" by fastforce
  define ds where "ds = mark ''duplicate'' (map (\<lambda>i. (i, ''duplicate_capture_chain'')) (concat dropped)) disp"
  obtain rs where rs: "list_all2 (\<lambda>p x. build env f p = Inr x) kept rs" "disp' = mark ''quarantined'' (concat (map fst rs)) ds"
      "done_parts = finished_parts env (ft_Clips f) (concat (map snd rs))"
    using built drop unfolding build_hour_def
    by (cases "gather (map (build env f) kept)") (auto simp: Let_def ds_def gather_map)
  have split: "mset parts = mset kept + mset dropped" using drop_mset [OF drop] by simp
  have kept: "set kept \<subseteq> set parts" using split by (metis mset_subset_eq_add_left set_mset_mono set_mset_mset)
  have acc: "accounts env f (concat kept) (concat (map fst rs), concat (map snd rs))"
      "\<forall>x \<in> set (concat (map snd rs)). \<exists>p \<in> set kept. sublist (fst x) p"
    using built_parts [OF rs(1)] kept parts(2) by blast+
  have finished: "mset done_parts = mset (concat (map snd rs))" using finished_mset [OF finish] rs(3) by simp
  then have done_mset: "mset (concat (map fst done_parts)) = mset (concat (map fst (concat (map snd rs))))"
    by (rule mset_concat_perm)
  have marks: "\<forall>m \<in> set (concat (map fst rs)). snd m \<noteq> []" using acc(1) by (auto simp: accounts_def)
  have "mset (concat parts) = mset (concat kept) + mset (concat dropped)" using mset_concat_perm [of parts "kept @ dropped" "\<lambda>p. p"] split by simp
  then have whole: "mset (included_at disp) = mset (map fst (concat (map fst rs))) + mset (concat (map fst done_parts)) + mset (concat dropped)"
    using acc(1) parts(1) done_mset by (simp add: accounts_def)
  then have dist: "distinct (map fst (concat (map fst rs)) @ concat (map fst done_parts) @ concat dropped)"
    using distinct_included_at [of disp] by (metis mset_append mset_eq_imp_distinct_iff add.assoc)
  have union: "set (included_at disp) = fst ` set (concat (map fst rs)) \<union> set (concat (map fst done_parts)) \<union> set (concat dropped)"
    using arg_cong [OF whole, of set_mset] by simp
  have middle: "distinct bs \<and> set bs = s - set cs - set as" if "distinct (as @ bs @ cs)" "s = set as \<union> set bs \<union> set cs" for as bs cs :: "nat list" and s
    using that by auto
  have sets: "distinct (concat (map fst done_parts))"
      "set (concat (map fst done_parts)) = set (included_at disp) - set (concat dropped) - fst ` set (concat (map fst rs))"
    using middle [OF dist] union unfolding set_map by blast+
  have reasons: "\<forall>m \<in> set (map (\<lambda>i. (i, ''duplicate_capture_chain'')) (concat dropped)). snd m \<noteq> []" by simp
  note first = mark_disposed [OF disposed reasons disjI2 [OF refl], folded ds_def]
  have all_ds: "\<forall>d \<in> set ds. disposed d" using first(1) by auto
  note second = mark_disposed [OF all_ds marks disjI1 [OF refl], folded rs(2)]
  have len: "length disp' = length disp" "length ds = length disp" by (simp_all add: rs(2) ds_def)
  have tagged: "fst ` set (map (\<lambda>i. (i, r)) xs) = set xs" for r :: string and xs :: "nat list" by (simp add: image_image)
  have f1: "\<forall>i < length disp. di_Disposition (ds ! i) = ''included'' \<longleftrightarrow> di_Disposition (disp ! i) = ''included'' \<and> i \<notin> set (concat dropped)"
    using first(3) unfolding tagged .
  have "set (concat (map fst done_parts)) = {i. i < length disp' \<and> di_Disposition (disp' ! i) = ''included''}"
    unfolding sets(2) set_included_at len using f1 second(3) [unfolded len] by blast
  moreover have "fst x \<noteq> [] \<and> (\<exists>part \<in> set parts. sublist (fst x) part) \<and> try_build env f (fst x) = BuildOk (snd x)" if "x \<in> set done_parts" for x
  proof -
    have "x \<in> set (concat (map snd rs))" using that finished by (metis set_mset_mset)
    then show ?thesis using acc kept unfolding accounts_def by (metis snd_conv subsetD)
  qed
  ultimately show "settled env f parts disp' done_parts" using sets(1) second(1) by (simp add: settled_def)
  show "map di_Clip disp' = map di_Clip disp" using first(2) second(2) by simp
qed

section \<open>Part numbers\<close>

lemma part_of_listed: "distinct (map fst ps) \<Longrightarrow> (i, p) \<in> set ps \<Longrightarrow> part_of ps i = p"
  by (simp add: part_of_def)

lemma part_of_other: "i \<notin> fst ` set ps \<Longrightarrow> part_of ps i = 0"
  by (simp add: part_of_def map_of_eq_None_iff [THEN iffD2])

abbreviation clip_id :: "Clip list \<Rightarrow> nat \<Rightarrow> int" where
  "clip_id clips i \<equiv> cl_ClipID (clips ! i)"

lemma clip_id_inj: "distinct (map cl_ClipID clips) \<Longrightarrow> i < length clips \<Longrightarrow> j < length clips \<Longrightarrow> clip_id clips i = clip_id clips j \<Longrightarrow> i = j"
  by (metis distinct_conv_nth length_map nth_map)

lemma final_parts_keys: "map fst (final_parts clips done_parts) = rev (map (clip_id clips) (concat (map fst done_parts)))"
proof -
  have "map fst (concat (map (\<lambda>(p, members, b). map (\<lambda>i. (clip_id clips i, int p)) members) (enumerate n done_parts))) =
      map (clip_id clips) (concat (map fst done_parts))" for n
  proof (induction done_parts arbitrary: n)
    case (Cons x xs)
    have "map fst (map (\<lambda>i. (clip_id clips i, int n)) (fst x)) = map (clip_id clips) (fst x)" by (simp only: map_map comp_def fst_conv)
    then show ?case using Cons.IH [of "Suc n"] by (simp only: enumerate_simps list.map concat.simps map_append case_prod_beta fst_conv snd_conv)
  qed simp
  then show ?thesis by (simp only: final_parts_def rev_map [symmetric])
qed

lemma final_parts_listed:
  assumes "p < length done_parts" "i \<in> set (fst (done_parts ! p))"
  shows "(clip_id clips i, int p + 1) \<in> set (final_parts clips done_parts)"
proof -
  have "(1 + p, done_parts ! p) \<in> set (enumerate 1 done_parts)" using assms(1) by (simp add: in_set_enumerate_eq)
  moreover have "(clip_id clips i, int (1 + p)) \<in> set (map (\<lambda>i. (clip_id clips i, int (1 + p))) (fst (done_parts ! p)))" using assms(2) by simp
  ultimately show ?thesis unfolding final_parts_def set_rev set_concat set_map
    by (intro UN_I [of "map (\<lambda>i. (clip_id clips i, int (1 + p))) (fst (done_parts ! p))"] image_eqI [of _ _ "(1 + p, done_parts ! p)"])
      (simp_all add: case_prod_beta add.commute)
qed

lemma final_part_numbers:
  assumes "distinct (concat (map fst done_parts))" "distinct (map cl_ClipID clips)" "\<forall>i \<in> set (concat (map fst done_parts)). i < length clips"
  shows "p < length done_parts \<Longrightarrow> i \<in> set (fst (done_parts ! p)) \<Longrightarrow> part_of (final_parts clips done_parts) (clip_id clips i) = int p + 1"
    and "i < length clips \<Longrightarrow> i \<notin> set (concat (map fst done_parts)) \<Longrightarrow> part_of (final_parts clips done_parts) (clip_id clips i) = 0"
proof -
  note inj = clip_id_inj [OF assms(2)]
  have "distinct (map fst (final_parts clips done_parts))"
    unfolding final_parts_keys distinct_rev distinct_map using assms(1,3) inj by (auto simp: inj_on_def)
  then show "p < length done_parts \<Longrightarrow> i \<in> set (fst (done_parts ! p)) \<Longrightarrow> part_of (final_parts clips done_parts) (clip_id clips i) = int p + 1"
    using final_parts_listed part_of_listed by blast
  have "fst ` set (final_parts clips done_parts) = clip_id clips ` set (concat (map fst done_parts))"
    using arg_cong [OF final_parts_keys [of clips done_parts], of set] by simp
  then show "part_of (final_parts clips done_parts) (clip_id clips i) = 0" if "i < length clips" "i \<notin> set (concat (map fst done_parts))"
    using that inj assms(3) by (intro part_of_other) blast
qed

section \<open>What the validator accepts\<close>

definition clip_fine :: "int \<Rightarrow> ClipDisposition \<Rightarrow> bool" where
  "clip_fine n c \<longleftrightarrow> (if di_Disposition c = ''included'' then 1 \<le> di_Part c \<and> di_Part c \<le> n
     else (di_Disposition c = ''quarantined'' \<or> di_Disposition c = ''duplicate'') \<and> di_Reason c \<noteq> [] \<and> di_Part c = 0)"

lemma clip_parts_fine:
  "\<forall>c \<in> set cs. clip_fine n c \<Longrightarrow> distinct (map (cl_ClipID \<circ> di_Clip) cs) \<Longrightarrow> (cl_ClipID \<circ> di_Clip) ` set cs \<inter> set seen = {} \<Longrightarrow>
   clip_parts n seen parts cs =
     Some (rev (map (\<lambda>c. (cl_ClipID (di_Clip c), di_Part c)) (filter (\<lambda>c. di_Disposition c = ''included'') cs)) @ parts)"
  by (induction n seen parts cs rule: clip_parts.induct) (auto simp: clip_fine_def Let_def)

lemma cover_clips_fine:
  "\<forall>i \<in> set is. part_of parts i = p \<Longrightarrow> distinct (is @ covered) \<Longrightarrow> cover_clips parts p covered is = Some (rev is @ covered)"
  by (induction parts p covered "is" rule: cover_clips.induct) auto

definition output_fine :: "(int \<times> int) list \<Rightarrow> int \<Rightarrow> int \<Rightarrow> Output \<Rightarrow> bool" where
  "output_fine parts n k x \<longleftrightarrow> ou_Part x = k + 1 \<and> ou_Parts x = n \<and> ou_SourceClipIDs x \<noteq> [] \<and> length (ou_SHA256 x) = 64 \<and> 0 < ou_SizeBytes x \<and>
     vf_PayloadChainMatches (ou_Verification x) \<and> vf_VideoTimingMatches (ou_Verification x) \<and> vf_EdgeDecodeOK (ou_Verification x) \<and>
     (\<forall>i \<in> set (ou_SourceClipIDs x). part_of parts i = ou_Part x)"

lemma cover_outputs_fine:
  "\<forall>j < length xs. output_fine parts n (k + int j) (xs ! j) \<Longrightarrow> distinct (concat (map ou_SourceClipIDs xs) @ covered) \<Longrightarrow>
   cover_outputs parts n k covered xs = Some (rev (concat (map ou_SourceClipIDs xs)) @ covered)"
proof (induction xs arbitrary: k covered)
  case (Cons x xs)
  have x: "output_fine parts n k x" using Cons.prems(1) by force
  have xs: "\<forall>j < length xs. output_fine parts n (k + 1 + int j) (xs ! j)"
    using Cons.prems(1) [rule_format, of "Suc _"] by (simp add: ac_simps)
  have "cover_clips parts (ou_Part x) covered (ou_SourceClipIDs x) = Some (rev (ou_SourceClipIDs x) @ covered)"
    using x Cons.prems(2) by (intro cover_clips_fine) (auto simp: output_fine_def)
  moreover have "cover_outputs parts n (k + 1) (rev (ou_SourceClipIDs x) @ covered) xs =
      Some (rev (concat (map ou_SourceClipIDs xs)) @ rev (ou_SourceClipIDs x) @ covered)"
    using Cons.prems(2) by (intro Cons.IH [OF xs]) auto
  ultimately show ?case using x by (simp add: output_fine_def)
qed simp

section \<open>The outputs of an hour\<close>

lemma verify_flags:
  "VerifyPart hash probed edges ps = Some v \<Longrightarrow> vf_PayloadChainMatches v \<and> vf_VideoTimingMatches v \<and> vf_EdgeDecodeOK v"
  by (auto simp: VerifyPart_def Let_def split: option.splits if_splits)

text \<open>What the object store promises of a file it can read: a size above 0 and the 64 digits of a SHA-256.\<close>

definition identified :: "hour_env \<Rightarrow> bool" where
  "identified env \<longleftrightarrow> (\<forall>cs. \<forall>j. he_Concat env cs = Some j \<longrightarrow> (\<forall>bytes sha. jf_Identity j = Some (bytes, sha) \<longrightarrow> 0 < bytes \<and> length sha = 64))"

lemma try_build_verified:
  assumes "try_build env f members = BuildOk b"
  shows "\<exists>j. he_Concat env (map (nth (ft_Clips f)) members) = Some j \<and> jf_Decodes j \<and> jf_Identity j = Some (bt_SizeBytes b, bt_SHA256 b) \<and>
    VerifyPart (he_Hash env) (ProbeFile (he_Hash env) (jf_Probed j)) (jf_Edges j) (map (\<lambda>i. the (ft_Probes f ! i)) members) = Some (bt_Verification b)"
  using assms by (auto simp: try_build_def BuildPart_def Let_def split: if_splits option.splits)

lemma published:
  assumes "publish_output env (output_for env tzdb w clips n (p, members, b)) = Inr x"
  shows "ou_Part x = p \<and> ou_Parts x = n \<and> ou_SHA256 x = bt_SHA256 b \<and> ou_SizeBytes x = bt_SizeBytes b \<and> ou_Verification x = bt_Verification b \<and>
    ou_SourceClipIDs x = map (clip_id clips) members \<and> ou_ObjectKey x = ObjectKey (hw_BatchID w) (bt_SHA256 b) \<and>
    DeliveryPath tzdb w (cl_StartUTC (clips ! hd members)) (cl_EndUTC (clips ! last members)) p n = Some (ou_NASRelativePath x) \<and> he_Publish env x"
  using assms by (auto simp: publish_output_def output_for_def Let_def split: option.splits if_splits)

lemma outputs_published:
  assumes "gather (map (publish_output env \<circ> output_for env tzdb w clips n) (map (\<lambda>(p, x). (int p, x)) (enumerate 1 done_parts))) = Inr outs"
  shows "length outs = length done_parts"
    "k < length done_parts \<Longrightarrow> publish_output env (output_for env tzdb w clips n (int k + 1, done_parts ! k)) = Inr (outs ! k)"
proof -
  have eq: "map (publish_output env \<circ> output_for env tzdb w clips n) (map (\<lambda>(p, x). (int p, x)) (enumerate 1 done_parts)) = map Inr outs"
    using assms by (simp only: gather_Inr)
  show len: "length outs = length done_parts" using arg_cong [OF eq, of length] by simp
  show "publish_output env (output_for env tzdb w clips n (int k + 1, done_parts ! k)) = Inr (outs ! k)" if "k < length done_parts"
    using arg_cong [OF eq, of "\<lambda>xs. xs ! k"] that len by (simp add: nth_enumerate_eq add.commute)
qed

lemma outputs_fine:
  assumes outs: "gather (map (publish_output env \<circ> output_for env tzdb w (ft_Clips f) (int (length done_parts)))
      (map (\<lambda>(p, x). (int p, x)) (enumerate 1 done_parts))) = Inr outs"
    and settled: "settled env f parts disp done_parts" and ident: "identified env"
    and num: "\<And>p i. p < length done_parts \<Longrightarrow> i \<in> set (fst (done_parts ! p)) \<Longrightarrow> part_of numbers (clip_id (ft_Clips f) i) = int p + 1"
  shows "\<forall>j < length outs. output_fine numbers (int (length outs)) (0 + int j) (outs ! j)"
    "concat (map ou_SourceClipIDs outs) = map (clip_id (ft_Clips f)) (concat (map fst done_parts))"
proof -
  note pub = outputs_published [OF outs]
  have each: "output_fine numbers (int (length outs)) (0 + int j) (outs ! j) \<and> ou_SourceClipIDs (outs ! j) = map (clip_id (ft_Clips f)) (fst (done_parts ! j))"
    if j: "j < length done_parts" for j
  proof -
    obtain members b where x: "done_parts ! j = (members, b)" by fastforce
    then have "members \<noteq> []" "try_build env f members = BuildOk b"
      using settled j nth_mem [OF j] unfolding settled_def by (metis fst_conv, metis fst_conv snd_conv)
    then show ?thesis
      using published [OF pub(2) [OF j, unfolded x]] pub(1) try_build_verified [of env f members b] verify_flags ident num [OF j] x
      unfolding output_fine_def identified_def by fastforce
  qed
  then show "\<forall>j < length outs. output_fine numbers (int (length outs)) (0 + int j) (outs ! j)" using pub(1) by simp
  have "map ou_SourceClipIDs outs = map (map (clip_id (ft_Clips f)) \<circ> fst) done_parts" using each pub(1) by (auto intro: nth_equalityI)
  then show "concat (map ou_SourceClipIDs outs) = map (clip_id (ft_Clips f)) (concat (map fst done_parts))" by (simp add: map_concat)
qed

section \<open>Seams of the manifest\<close>

lemma two_of_a_piece:
  assumes "grouped idx ps partOf parts" "part \<in> set parts" "sublist piece part" "a \<in> set piece" "b \<in> set piece" "a < b"
  shows "((a, b), False) \<notin> set ps"
proof
  assume "((a, b), False) \<in> set ps"
  moreover have in_part: "a \<in> set part" "b \<in> set part" using assms(3-5) set_mono_sublist by blast+
  ultimately have "b = hd part" "sorted_wrt (<) part" using assms(1,2) unfolding grouped_def by blast+
  then show False using in_part assms(6) by (cases part) auto
qed

text \<open>The reason of a clip, as the code looks it up.\<close>

lemma reason_of:
  assumes "distinct (map cl_ClipID clips)" "map di_Clip disp = clips" "i < length clips"
  shows "map_of (rev (map (\<lambda>d. (cl_ClipID (di_Clip d), di_Reason d)) disp)) (clip_id clips i) = Some (di_Reason (disp ! i))"
proof (rule map_of_is_SomeI)
  show "distinct (map fst (rev (map (\<lambda>d. (cl_ClipID (di_Clip d), di_Reason d)) disp)))"
    using assms(1,2) by (auto simp: comp_def simp flip: rev_map)
  have "length disp = length clips" "di_Clip (disp ! i) = clips ! i" using assms(2,3) by (auto simp: list_eq_iff_nth_eq)
  then show "(clip_id clips i, di_Reason (disp ! i)) \<in> set (rev (map (\<lambda>d. (cl_ClipID (di_Clip d), di_Reason d)) disp))"
    using assms(3) by (auto simp: in_set_conv_nth intro!: image_eqI [of _ _ "disp ! i"])
qed

lemma final_seam_cases:
  fixes numbers :: "(int \<times> int) list" and f :: footage
  assumes clips: "distinct (map cl_ClipID (ft_Clips f))" "map di_Clip disp = ft_Clips f" "a < length (ft_Clips f)" "b < length (ft_Clips f)"
    and s: "s = decide_pair env f (a, b)"
  defines "p \<equiv> part_of numbers (clip_id (ft_Clips f) a)" and "q \<equiv> part_of numbers (clip_id (ft_Clips f) b)"
  shows "sm_Prev (final_seam numbers disp s) = clip_id (ft_Clips f) a \<and> sm_Next (final_seam numbers disp s) = clip_id (ft_Clips f) b \<and>
    (sm_Decision (final_seam numbers disp s) = ''join'' \<longleftrightarrow> joins env f (a, b) \<and> di_Reason (disp ! a) \<noteq> ''duplicate_capture_chain'' \<and>
       di_Reason (disp ! b) \<noteq> ''duplicate_capture_chain'' \<and> p \<noteq> 0 \<and> p = q) \<and>
    (sm_Decision (final_seam numbers disp s) = ''join'' \<longrightarrow> final_seam numbers disp s = s)"
proof -
  have ids: "sm_Prev s = clip_id (ft_Clips f) a" "sm_Next s = clip_id (ft_Clips f) b" using decided_ids [of env f a b] s by simp_all
  note reasons = reason_of [OF clips(1,2)]
  show ?thesis unfolding final_seam_def Let_def ids reasons [OF clips(3)] reasons [OF clips(4)] option.case joins_def s [symmetric] p_def [symmetric] q_def [symmetric]
    using ids by auto
qed

lemma included_clips: "filter (\<lambda>c. di_Disposition c = ''included'') (map (final_disposition numbers) disp) =
    map (\<lambda>i. final_disposition numbers (disp ! i)) (included_at disp)"
  by (subst map_nth [of disp, symmetric]) (simp add: included_at_eq filter_map comp_def final_disposition_def)

lemma settled_mset: "settled env f parts disp done_parts \<Longrightarrow> mset (concat (map fst done_parts)) = mset (included_at disp)"
  unfolding settled_def set_included_at [symmetric] using distinct_included_at set_eq_iff_mset_eq_distinct by blast

text \<open>A clip of a finished part: its number and its disposition.\<close>

lemma settled_clip:
  assumes "distinct (map cl_ClipID (ft_Clips f))" "map di_Clip disp = ft_Clips f" "settled env f parts disp done_parts"
    "k < length done_parts" "i \<in> set (fst (done_parts ! k))"
  shows "part_of (final_parts (ft_Clips f) done_parts) (clip_id (ft_Clips f) i) = int k + 1" "i < length (ft_Clips f)" "di_Reason (disp ! i) = []"
proof -
  have dist: "distinct (concat (map fst done_parts))" and
      set: "set (concat (map fst done_parts)) = {i. i < length disp \<and> di_Disposition (disp ! i) = ''included''}" and
      disposed: "\<forall>d \<in> set disp. disposed d"
    using assms(3) unfolding settled_def by blast+
  have len: "length disp = length (ft_Clips f)" using arg_cong [OF assms(2), of length] by simp
  have below: "\<forall>i \<in> set (concat (map fst done_parts)). i < length (ft_Clips f)" unfolding set len by blast
  show "part_of (final_parts (ft_Clips f) done_parts) (clip_id (ft_Clips f) i) = int k + 1"
    by (rule final_part_numbers(1) [OF dist assms(1) below assms(4,5)])
  have "i \<in> set (concat (map fst done_parts))" using assms(4,5) nth_mem by force
  then have "i < length disp" "di_Disposition (disp ! i) = ''included''" unfolding set by auto
  then show "i < length (ft_Clips f)" "di_Reason (disp ! i) = []" using len disposed nth_mem [of i disp] by (auto simp: disposed_def)
qed

lemma in_concat_nth: "i \<in> set (concat (map fst xs)) \<Longrightarrow> \<exists>p < length xs. i \<in> set (fst (xs ! p))"
  unfolding set_concat set_map by (metis UN_E imageE in_set_conv_nth)

text \<open>The numbers the validator reads off the manifest's clips are those of the finished parts.\<close>

lemma validator_numbers:
  assumes clips: "distinct (map cl_ClipID (ft_Clips f))" "map di_Clip disp = ft_Clips f" and settled: "settled env f parts disp done_parts"
  defines "numbers \<equiv> final_parts (ft_Clips f) done_parts" and "n \<equiv> int (length done_parts)"
  shows "\<exists>found. clip_parts n [] [] (map (final_disposition numbers) disp) = Some found \<and> length found = length (concat (map fst done_parts)) \<and>
    (\<forall>i < length (ft_Clips f). part_of found (clip_id (ft_Clips f) i) = part_of numbers (clip_id (ft_Clips f) i))"
proof -
  have len: "length disp = length (ft_Clips f)" using arg_cong [OF clips(2), of length] by simp
  have at: "di_Clip (disp ! i) = ft_Clips f ! i" if "i < length disp" for i using that clips(2) nth_map [OF that, of di_Clip] by simp
  have dist: "distinct (concat (map fst done_parts))" and
      set: "set (concat (map fst done_parts)) = {i. i < length disp \<and> di_Disposition (disp ! i) = ''included''}"
    using settled unfolding settled_def by blast+
  have below: "\<forall>i \<in> set (concat (map fst done_parts)). i < length (ft_Clips f)" unfolding set len by blast
  note num = final_part_numbers [OF dist clips(1) below, folded numbers_def]
  have listed: "1 \<le> part_of numbers (clip_id (ft_Clips f) i) \<and> part_of numbers (clip_id (ft_Clips f) i) \<le> n"
    if i: "i \<in> set (concat (map fst done_parts))" for i
  proof -
    obtain p where "p < length done_parts" "i \<in> set (fst (done_parts ! p))" using in_concat_nth [OF i] by blast
    then show ?thesis using num(1) by (simp add: n_def)
  qed
  have "clip_fine n (final_disposition numbers (disp ! i))" if i: "i < length disp" for i
  proof -
    have "disposed (disp ! i)" using settled i nth_mem unfolding settled_def by blast
    moreover have "di_Disposition (disp ! i) = ''included'' \<Longrightarrow> i \<in> set (concat (map fst done_parts))" unfolding set using i by simp
    ultimately show ?thesis using listed [of i] at [OF i] by (auto simp: final_disposition_def clip_fine_def disposed_def split: if_splits)
  qed
  then have fine: "\<forall>c \<in> set (map (final_disposition numbers) disp). clip_fine n c" unfolding all_set_conv_all_nth by simp
  note inj = clip_id_inj [OF clips(1)]
  define found where "found = rev (map (\<lambda>c. (cl_ClipID (di_Clip c), di_Part c)) (filter (\<lambda>c. di_Disposition c = ''included'') (map (final_disposition numbers) disp)))"
  have ids: "map (cl_ClipID \<circ> di_Clip) (map (final_disposition numbers) disp) = map cl_ClipID (ft_Clips f)"
    by (simp add: final_disposition_def comp_def flip: clips(2))
  have "clip_parts n [] [] (map (final_disposition numbers) disp) = Some found"
    using clip_parts_fine [OF fine] ids clips(1) by (simp add: found_def)
  moreover have keys: "found = rev (map (\<lambda>i. (clip_id (ft_Clips f) i, part_of numbers (clip_id (ft_Clips f) i))) (included_at disp))"
  proof -
    note included_clips [of numbers disp]
    moreover have "(cl_ClipID (di_Clip (final_disposition numbers (disp ! i))), di_Part (final_disposition numbers (disp ! i))) =
        (clip_id (ft_Clips f) i, part_of numbers (clip_id (ft_Clips f) i))" if "i \<in> set (included_at disp)" for i
      using that at by (simp add: set_included_at final_disposition_def)
    ultimately show ?thesis by (simp add: found_def)
  qed
  moreover have "length (included_at disp) = length (concat (map fst done_parts))"
    using dist set distinct_included_at [of disp] set_included_at [of disp] by (metis distinct_card)
  moreover have "part_of found (clip_id (ft_Clips f) i) = part_of numbers (clip_id (ft_Clips f) i)" if i: "i < length (ft_Clips f)" for i
  proof (cases "i \<in> set (included_at disp)")
    case True
    have "distinct (map fst found)"
      unfolding keys by (simp add: comp_def distinct_map distinct_included_at flip: rev_map) (use inj len set_included_at [of disp] in \<open>auto simp: inj_on_def\<close>)
    moreover have "(clip_id (ft_Clips f) i, part_of numbers (clip_id (ft_Clips f) i)) \<in> set found" using True by (simp add: keys)
    ultimately show ?thesis by (rule part_of_listed)
  next
    case False
    then have "i \<notin> set (concat (map fst done_parts))" using set set_included_at [of disp] by blast
    moreover have "clip_id (ft_Clips f) i \<notin> fst ` set found"
      using False i inj len set_included_at [of disp] by (auto simp: keys) metis
    ultimately show ?thesis using num(2) [OF i] part_of_other by simp
  qed
  ultimately show ?thesis by simp
qed

lemma seams_fine:
  assumes clips: "distinct (map cl_ClipID (ft_Clips f))" "map di_Clip disp = ft_Clips f" and settled: "settled env f parts disp done_parts"
    and grouped: "grouped idx (map (\<lambda>e. (e, joins env f e)) pairs) partOf parts"
    and pair: "(a, b) \<in> set pairs" "a < b" "b < length (ft_Clips f)"
    and found: "\<forall>i < length (ft_Clips f). part_of found (clip_id (ft_Clips f) i) = part_of (final_parts (ft_Clips f) done_parts) (clip_id (ft_Clips f) i)"
  shows "seam_ok found (final_seam (final_parts (ft_Clips f) done_parts) disp (decide_pair env f (a, b)))"
proof -
  let ?n = "final_parts (ft_Clips f) done_parts"
  have len: "length disp = length (ft_Clips f)" using arg_cong [OF clips(2), of length] by simp
  have dist: "distinct (concat (map fst done_parts))" and
      set: "set (concat (map fst done_parts)) = {i. i < length disp \<and> di_Disposition (disp ! i) = ''included''}"
    using settled unfolding settled_def by blast+
  have below: "\<forall>i \<in> set (concat (map fst done_parts)). i < length (ft_Clips f)" unfolding set len by blast
  note num = final_part_numbers [OF dist clips(1) below]
  have placed: "\<exists>k < length done_parts. i \<in> set (fst (done_parts ! k)) \<and> part_of ?n (clip_id (ft_Clips f) i) = int k + 1 \<and> di_Reason (disp ! i) = []"
    if i: "i < length (ft_Clips f)" "part_of ?n (clip_id (ft_Clips f) i) \<noteq> 0" for i
  proof -
    have inc: "i \<in> set (concat (map fst done_parts))" using num(2) [OF i(1)] i(2) by blast
    then have "disposed (disp ! i)" "di_Disposition (disp ! i) = ''included''" using settled len i(1) unfolding set settled_def by auto
    then show ?thesis using in_concat_nth [OF inc] num(1) by (auto simp: disposed_def)
  qed
  have a: "a < length (ft_Clips f)" using pair by simp
  have together: "joins env f (a, b) \<and> di_Reason (disp ! a) = [] \<and> di_Reason (disp ! b) = []"
    if same: "part_of ?n (clip_id (ft_Clips f) a) = part_of ?n (clip_id (ft_Clips f) b)" "part_of ?n (clip_id (ft_Clips f) a) \<noteq> 0"
  proof -
    obtain k where k: "k < length done_parts" "a \<in> set (fst (done_parts ! k))" "part_of ?n (clip_id (ft_Clips f) a) = int k + 1" "di_Reason (disp ! a) = []"
      using placed [OF a same(2)] by blast
    obtain l where l: "b \<in> set (fst (done_parts ! l))" "part_of ?n (clip_id (ft_Clips f) b) = int l + 1" "di_Reason (disp ! b) = []"
      using placed [OF pair(3)] same by auto
    have kl: "l = k" using k(3) l(2) same(1) by simp
    obtain part where "part \<in> set parts" "sublist (fst (done_parts ! k)) part" using settled nth_mem [OF k(1)] unfolding settled_def by blast
    then have "((a, b), False) \<notin> set (map (\<lambda>e. (e, joins env f e)) pairs)"
      using two_of_a_piece [OF grouped] k(2) l(1) kl pair(2) by blast
    then show ?thesis using pair(1) k(4) l(3) by force
  qed
  define s where "s = final_seam ?n disp (decide_pair env f (a, b))"
  have final: "sm_Prev s = clip_id (ft_Clips f) a" "sm_Next s = clip_id (ft_Clips f) b" "sm_Decision s = ''join'' \<Longrightarrow> s = decide_pair env f (a, b)"
      "sm_Decision s = ''join'' \<longleftrightarrow> joins env f (a, b) \<and> di_Reason (disp ! a) \<noteq> ''duplicate_capture_chain'' \<and>
       di_Reason (disp ! b) \<noteq> ''duplicate_capture_chain'' \<and> part_of ?n (clip_id (ft_Clips f) a) \<noteq> 0 \<and>
       part_of ?n (clip_id (ft_Clips f) a) = part_of ?n (clip_id (ft_Clips f) b)"
    using final_seam_cases [OF clips a pair(3) refl [of "decide_pair env f (a, b)"], of ?n] unfolding s_def by blast+
  have proof_of: "sm_Match s = Some (matchSeam env f a b) \<and> ev_Verdict (matchSeam env f a b) = ''continuous''" if "sm_Decision s = ''join''"
    using decided_join [of env f a b] final(3) [OF that] that by simp
  have parts_found: "part_of found (sm_Prev s) = part_of ?n (clip_id (ft_Clips f) a)" "part_of found (sm_Next s) = part_of ?n (clip_id (ft_Clips f) b)"
    using final(1,2) found a pair(3) by simp_all
  have "sm_Decision s = ''join'' \<longleftrightarrow> part_of ?n (clip_id (ft_Clips f) a) = part_of ?n (clip_id (ft_Clips f) b) \<and> part_of ?n (clip_id (ft_Clips f) a) \<noteq> 0"
  proof (cases "part_of ?n (clip_id (ft_Clips f) a) = part_of ?n (clip_id (ft_Clips f) b) \<and> part_of ?n (clip_id (ft_Clips f) a) \<noteq> 0")
    case True
    then have "joins env f (a, b) \<and> di_Reason (disp ! a) = [] \<and> di_Reason (disp ! b) = []" using together by blast
    then show ?thesis using True final(4) by simp
  qed (use final(4) in blast)
  then have "seam_ok found s" unfolding seam_ok_def Let_def parts_found using proof_of by auto
  then show ?thesis unfolding s_def .
qed

lemma manifest_valid:
  assumes clips: "distinct (map cl_ClipID (ft_Clips f))" "map di_Clip disp = ft_Clips f" and settled: "settled env f parts disp done_parts"
    and grouped: "grouped idx (map (\<lambda>e. (e, joins env f e)) pairs) partOf parts"
    and pairs: "\<forall>(a, b) \<in> set pairs. a < b \<and> b < length (ft_Clips f)"
    and hour: "HourIDFor (hw_BatchID w) (hw_RecordingID w) (hw_LocalDate w) (hw_DeliveryHour w) = Some (hw_HourID w)"
    and outs: "gather (map (publish_output env \<circ> output_for env tzdb w (ft_Clips f) (int (length done_parts)))
      (map (\<lambda>(p, x). (int p, x)) (enumerate 1 done_parts))) = Inr outs" and ident: "identified env"
  defines "numbers \<equiv> final_parts (ft_Clips f) done_parts"
  shows "ValidateManifest ((empty_manifest env w)\<lparr>hm_Seams := map (final_seam numbers disp) (map (decide_pair env f) pairs),
    hm_Clips := map (final_disposition numbers) disp, hm_Outputs := outs, hm_Status := hour_status (ft_Clips f) outs, hm_CreatedAt := he_Now env\<rparr>)"
proof -
  have dist: "distinct (concat (map fst done_parts))" and
      set: "set (concat (map fst done_parts)) = {i. i < length disp \<and> di_Disposition (disp ! i) = ''included''}"
    using settled unfolding settled_def by blast+
  have below: "\<forall>i \<in> set (concat (map fst done_parts)). i < length (ft_Clips f)" unfolding set using arg_cong [OF clips(2), of length] by simp
  obtain found where found: "clip_parts (int (length done_parts)) [] [] (map (final_disposition numbers) disp) = Some found"
      "length found = length (concat (map fst done_parts))"
      "\<forall>i < length (ft_Clips f). part_of found (clip_id (ft_Clips f) i) = part_of numbers (clip_id (ft_Clips f) i)"
    using validator_numbers [OF clips settled] unfolding numbers_def by blast
  have num: "part_of found (clip_id (ft_Clips f) i) = int p + 1" if "p < length done_parts" "i \<in> set (fst (done_parts ! p))" for p i
  proof -
    have "i \<in> set (concat (map fst done_parts))" using that nth_mem by force
    then have "i < length (ft_Clips f)" using below by blast
    then show ?thesis using found(3) final_part_numbers(1) [OF dist clips(1) below that] by (simp add: numbers_def)
  qed
  have fine: "\<forall>j < length outs. output_fine found (int (length outs)) (0 + int j) (outs ! j)"
      "concat (map ou_SourceClipIDs outs) = map (clip_id (ft_Clips f)) (concat (map fst done_parts))"
    using num by (intro outputs_fine [OF outs settled ident]; blast)+
  have len: "length outs = length done_parts" by (rule outputs_published(1) [OF outs])
  have "distinct (concat (map ou_SourceClipIDs outs))"
    unfolding fine(2) distinct_map using dist below clip_id_inj [OF clips(1)] by (auto simp: inj_on_def)
  then have cover: "cover_outputs found (int (length outs)) 0 [] outs = Some (rev (concat (map ou_SourceClipIDs outs)))"
    using cover_outputs_fine [OF fine(1)] by simp
  have "length (rev (concat (map ou_SourceClipIDs outs))) = length found" unfolding fine(2) using found(2) by simp
  moreover have "list_all (seam_ok found) (map (final_seam numbers disp) (map (decide_pair env f) pairs))"
    using pairs seams_fine [OF clips settled grouped] found(3) unfolding numbers_def list_all_iff by fastforce
  ultimately show ?thesis
    using hour found(1) cover len by (simp add: ValidateManifest_def empty_manifest_def hour_status_def del: length_rev)
qed

section \<open>An hour that reaches its manifest\<close>

lemma gather_Inl: "gather rs = Inl e \<Longrightarrow> Inl e \<in> set rs"
proof (induction rs)
  case (Cons r rs)
  then show ?case by (cases r; cases "gather rs") auto
qed simp

lemma fetch_errors: "fetch env d = Inl e \<Longrightarrow> e = DownloadFailed \<or> e = ProbeInterrupted"
  by (auto simp: fetch_def Let_def split: if_splits option.splits)

lemma build_errors: "build env f members = Inl e \<Longrightarrow> e = HourCancelled"
proof (induction env f members rule: build.induct)
  case (1 env f members)
  note step = "1.prems" [unfolded build.simps [of env f members]]
  show ?case
  proof (cases "try_build env f members")
    case BuildFailed
    define ok where "ok i = (he_Decodes env (map (nth (ft_Clips f)) members) (ft_Clips f ! i) = Some True)" for i
    have ok: "ok = (\<lambda>i. he_Decodes env (map (nth (ft_Clips f)) members) (ft_Clips f ! i) = Some True)" by (simp add: ok_def fun_eq_iff)
    show ?thesis
    proof (cases "\<exists>i \<in> set members. he_Decodes env (map (nth (ft_Clips f)) members) (ft_Clips f ! i) = None")
      case False
      have "gather (map (build env f) (pieces_to_build ok members)) = Inl e"
        using step False unfolding BuildFailed build_outcome.case Let_def ok [symmetric]
        by (cases "gather (map (build env f) (pieces_to_build ok members))") auto
      then obtain p where "p \<in> set (pieces_to_build ok members)" "build env f p = Inl e" using gather_Inl by fastforce
      then show ?thesis using "1.IH" [OF BuildFailed refl False refl] unfolding ok_def by blast
    qed (use step BuildFailed in auto)
  qed (use step in auto)
qed

text \<open>What an hour has decided when it publishes.\<close>

definition decided_hour :: "hour_env \<Rightarrow> HourWork \<Rightarrow> footage \<Rightarrow> (nat \<times> nat) list \<Rightarrow> nat list list \<Rightarrow> ClipDisposition list \<Rightarrow> (nat list \<times> Built) list \<Rightarrow> bool" where
  "decided_hour env w f pairs parts disp done_parts \<longleftrightarrow> ft_Clips f = sort_key clip_order (hw_Clips w) \<and>
     HourIDFor (hw_BatchID w) (hw_RecordingID w) (hw_LocalDate w) (hw_DeliveryHour w) = Some (hw_HourID w) \<and>
     (\<exists>fetched. gather (map (fetch env) (first_dispositions [] [] (ft_Clips f))) = Inr fetched \<and> ft_Probes f = map snd fetched \<and>
        pairs = hour_pairs env f (included_at (map fst fetched)) \<and>
        parts = hour_parts (included_at (map fst fetched)) (map (\<lambda>e. (e, joins env f e)) pairs) \<and>
        build_hour env f (map fst fetched) parts = Inr (disp, done_parts))"

lemma process_hour_cases:
  "(\<exists>e. e \<noteq> ManifestInvalid \<and> ProcessHour env tzdb w = failed_hour e) \<or>
   (\<exists>f pairs parts disp done_parts. decided_hour env w f pairs parts disp done_parts \<and>
      ProcessHour env tzdb w = publish_hour env tzdb w (ft_Clips f) (map (decide_pair env f) pairs) disp done_parts)"
proof (cases "(\<exists>c \<in> set (hw_Clips w). cl_Purged c) \<or> HourIDFor (hw_BatchID w) (hw_RecordingID w) (hw_LocalDate w) (hw_DeliveryHour w) \<noteq> Some (hw_HourID w) \<or>
    \<not> he_Scratch env")
  case False
  define clips where "clips = sort_key clip_order (hw_Clips w)"
  show ?thesis
  proof (cases "gather (map (fetch env) (first_dispositions [] [] clips))")
    case (Inl e)
    obtain d where "fetch env d = Inl e" using gather_Inl [OF Inl] by (metis imageE list.set_map)
    then have "e \<noteq> ManifestInvalid" using fetch_errors by blast
    then show ?thesis using False Inl by (auto simp: ProcessHour_def clips_def)
  next
    case (Inr fetched)
    define f where "f = \<lparr>ft_Clips = clips, ft_Probes = map snd fetched\<rparr>"
    define pairs where "pairs = hour_pairs env f (included_at (map fst fetched))"
    define parts where "parts = hour_parts (included_at (map fst fetched)) (map (\<lambda>e. (e, joins env f e)) pairs)"
    have zip: "zip pairs (map (\<lambda>s. sm_Decision s = ''join'') (map (decide_pair env f) pairs)) = map (\<lambda>e. (e, joins env f e)) pairs"
      by (simp add: zip_map2 joins_def zip_same_conv_map)
    have eq: "ProcessHour env tzdb w = (if he_Cancelled env then failed_hour HourCancelled
        else case build_hour env f (map fst fetched) parts of Inl e \<Rightarrow> failed_hour e
          | Inr (disp, done_parts) \<Rightarrow> publish_hour env tzdb w clips (map (decide_pair env f) pairs) disp done_parts)"
      unfolding ProcessHour_def Let_def clips_def [symmetric] Inr sum.case f_def [symmetric] hour_pairs_def [symmetric] pairs_def [symmetric]
        zip parts_def [symmetric] using False by simp
    show ?thesis
    proof (cases "build_hour env f (map fst fetched) parts")
      case (Inl e)
      then obtain p where "build env f p = Inl e"
        using gather_Inl unfolding build_hour_def Let_def case_prod_beta
        by (cases "gather (map (build env f) (fst (dropDuplicateCaptures (ft_Clips f) parts)))") fastforce+
      then show ?thesis using eq Inl build_errors by fastforce
    next
      case built: (Inr x)
      obtain disp done_parts where x: "x = (disp, done_parts)" by fastforce
      have "decided_hour env w f pairs parts disp done_parts"
        using False Inr built x unfolding decided_hour_def pairs_def parts_def f_def clips_def by auto
      moreover have "ft_Clips f = clips" by (simp add: f_def)
      ultimately show ?thesis
      proof (cases "he_Cancelled env")
        case False
        then have "ProcessHour env tzdb w = publish_hour env tzdb w (ft_Clips f) (map (decide_pair env f) pairs) disp done_parts"
          using eq built x \<open>ft_Clips f = clips\<close> by simp
        then show ?thesis using \<open>decided_hour env w f pairs parts disp done_parts\<close> by blast
      qed (use eq in auto)
    qed
  qed
qed (auto simp: ProcessHour_def)

text \<open>What is asked of an hour: its clips have different ids, files are identified, and \<open>he_Finish\<close> only orders.\<close>

definition sound_hour :: "hour_env \<Rightarrow> HourWork \<Rightarrow> bool" where
  "sound_hour env w \<longleftrightarrow> distinct (map cl_ClipID (hw_Clips w)) \<and> identified env \<and> (\<forall>xs. mset (he_Finish env xs) = mset xs)"

lemma decided_facts:
  assumes decided: "decided_hour env w f pairs parts disp done_parts" and sound: "sound_hour env w"
  shows "distinct (map cl_ClipID (ft_Clips f))" "map di_Clip disp = ft_Clips f" "settled env f parts disp done_parts"
    "\<exists>idx partOf. grouped idx (map (\<lambda>e. (e, joins env f e)) pairs) partOf parts \<and>
      (\<forall>i \<in> set idx. i < length (ft_Clips f) \<and> (\<exists>q. ft_Probes f ! i = Some q \<and> ProbeFile (he_Hash env) (he_Probe env (ft_Clips f ! i)) = Some q))"
    "\<forall>(a, b) \<in> set pairs. a < b \<and> b < length (ft_Clips f)"
proof -
  obtain fetched where fetched: "gather (map (fetch env) (first_dispositions [] [] (ft_Clips f))) = Inr fetched" "ft_Probes f = map snd fetched"
      "pairs = hour_pairs env f (included_at (map fst fetched))"
      "parts = hour_parts (included_at (map fst fetched)) (map (\<lambda>e. (e, joins env f e)) pairs)"
      "build_hour env f (map fst fetched) parts = Inr (disp, done_parts)"
    using decided unfolding decided_hour_def by blast
  define idx where "idx = included_at (map fst fetched)"
  note facts = fetched_disposed [OF fetched(1)]
  have len: "length fetched = length (ft_Clips f)" using arg_cong [OF facts(2), of length] by simp
  have idx: "sorted_wrt (<) idx" "\<forall>i \<in> set idx. i < length (ft_Clips f)" unfolding idx_def
    using included_at_sorted set_included_at [of "map fst fetched"] len by auto
  have "mset (map cl_ClipID (ft_Clips f)) = mset (map cl_ClipID (hw_Clips w))" using decided by (simp add: decided_hour_def)
  then show "distinct (map cl_ClipID (ft_Clips f))" using sound mset_eq_imp_distinct_iff unfolding sound_hour_def by blast
  obtain partOf where grouped: "grouped idx (map (\<lambda>e. (e, joins env f e)) pairs) partOf parts"
  proof (cases "idx = []")
    case True
    then have "pairs = []" "parts = []" using fetched(3,4) by (simp_all add: idx_def hour_pairs_def hour_parts_def)
    then show ?thesis using that True by (simp add: grouped_def)
  next
    case False
    then show ?thesis using that hour_parts_grouped [OF idx(1) False, of env f] fetched(3,4) unfolding idx_def by blast
  qed
  have "mset (concat parts) = mset (included_at (map fst fetched))" "[] \<notin> set parts" using grouped unfolding grouped_def idx_def by blast+
  then show "settled env f parts disp done_parts" "map di_Clip disp = ft_Clips f"
    using build_hour_settled [OF fetched(5) _ _ facts(1)] sound facts(2) unfolding sound_hour_def by auto
  have "(\<exists>q. ft_Probes f ! i = Some q \<and> ProbeFile (he_Hash env) (he_Probe env (ft_Clips f ! i)) = Some q)" if "i \<in> set idx" for i
  proof -
    have "i < length fetched" "di_Disposition (fst (fetched ! i)) = ''included''" using that unfolding idx_def set_included_at by auto
    then show ?thesis using facts(3) fetched(2) by simp
  qed
  then show "\<exists>idx partOf. grouped idx (map (\<lambda>e. (e, joins env f e)) pairs) partOf parts \<and>
      (\<forall>i \<in> set idx. i < length (ft_Clips f) \<and> (\<exists>q. ft_Probes f ! i = Some q \<and> ProbeFile (he_Hash env) (he_Probe env (ft_Clips f ! i)) = Some q))"
    using grouped idx(2) by blast
  have "b \<in> set idx" if "(a, b) \<in> set pairs" for a b
    using that hour_pairs_spec(1) [OF idx(1), of env f] fetched(3) list.set_sel(2) [of idx] unfolding idx_def
    by (metis image_eqI list.set_map snd_conv list.sel(2))
  then show "\<forall>(a, b) \<in> set pairs. a < b \<and> b < length (ft_Clips f)"
    using hour_pairs_spec(2) [OF idx(1), of env f] idx(2) fetched(3) unfolding idx_def by blast
qed

section \<open>The manifest an hour puts\<close>

definition hour_manifest :: "hour_env \<Rightarrow> HourWork \<Rightarrow> footage \<Rightarrow> (nat \<times> nat) list \<Rightarrow> ClipDisposition list \<Rightarrow> (nat list \<times> Built) list \<Rightarrow> Output list \<Rightarrow> HourManifest" where
  "hour_manifest env w f pairs disp done_parts outs =
     (empty_manifest env w)\<lparr>hm_Seams := map (final_seam (final_parts (ft_Clips f) done_parts) disp) (map (decide_pair env f) pairs),
       hm_Clips := map (final_disposition (final_parts (ft_Clips f) done_parts)) disp, hm_Outputs := outs,
       hm_Status := hour_status (ft_Clips f) outs, hm_CreatedAt := he_Now env\<rparr>"

lemma uploaded_all: "concat (map (\<lambda>r. case r of Inl _ \<Rightarrow> [] | Inr x \<Rightarrow> [x]) (map Inr outs)) = outs"
  by (induction outs) simp_all

definition hour_outputs :: "hour_env \<Rightarrow> (string \<Rightarrow> location option) \<Rightarrow> HourWork \<Rightarrow> footage \<Rightarrow> (nat list \<times> Built) list \<Rightarrow> hour_error + Output list" where
  "hour_outputs env tzdb w f done_parts = gather (map (publish_output env \<circ> output_for env tzdb w (ft_Clips f) (int (length done_parts)))
     (map (\<lambda>(p, x). (int p, x)) (enumerate 1 done_parts)))"

lemma publish_hour_cases:
  assumes "publish_hour env tzdb w (ft_Clips f) (map (decide_pair env f) pairs) disp done_parts = r"
  shows "(\<exists>e. hour_outputs env tzdb w f done_parts = Inl e \<and> hr_Result r = Inl e \<and> hr_Put r = None) \<or>
    (\<exists>outs. hour_outputs env tzdb w f done_parts = Inr outs \<and> hr_Uploaded r = outs \<and>
      (if \<not> ValidateManifest (hour_manifest env w f pairs disp done_parts outs) then hr_Result r = Inl ManifestInvalid \<and> hr_Put r = None
       else if he_PutManifest env (hour_manifest env w f pairs disp done_parts outs)
       then hr_Result r = Inr (hour_manifest env w f pairs disp done_parts outs) \<and> hr_Put r = Some (hour_manifest env w f pairs disp done_parts outs)
       else hr_Result r = Inl ManifestNotPut \<and> hr_Put r = None))"
proof (cases "hour_outputs env tzdb w f done_parts")
  case (Inl e)
  then show ?thesis using assms by (auto simp: publish_hour_def hour_outputs_def Let_def)
next
  case (Inr outs)
  have results: "map (publish_output env \<circ> output_for env tzdb w (ft_Clips f) (int (length done_parts)))
      (map (\<lambda>(p, x). (int p, x)) (enumerate 1 done_parts)) = map Inr outs"
    using Inr unfolding hour_outputs_def gather_Inr .
  have ok: "gather (map Inr outs :: (hour_error + Output) list) = Inr outs" by (simp add: gather_Inr)
  show ?thesis using assms Inr
    unfolding publish_hour_def Let_def results ok uploaded_all sum.case hour_manifest_def [symmetric] by (auto split: if_splits)
qed

lemma published_manifest_valid:
  assumes "decided_hour env w f pairs parts disp done_parts" "sound_hour env w" "hour_outputs env tzdb w f done_parts = Inr outs"
  shows "ValidateManifest (hour_manifest env w f pairs disp done_parts outs)"
proof -
  note facts = decided_facts [OF assms(1,2)]
  obtain idx partOf where "grouped idx (map (\<lambda>e. (e, joins env f e)) pairs) partOf parts" using facts(4) by blast
  moreover have "HourIDFor (hw_BatchID w) (hw_RecordingID w) (hw_LocalDate w) (hw_DeliveryHour w) = Some (hw_HourID w)" "identified env"
    using assms(1,2) unfolding decided_hour_def sound_hour_def by blast+
  ultimately show ?thesis unfolding hour_manifest_def
    by (intro manifest_valid [OF facts(1-3) _ facts(5) _ assms(3) [unfolded hour_outputs_def]])
qed

text \<open>An hour that puts a manifest has decided it and uploaded its outputs.\<close>

lemma put_manifest:
  assumes "hr_Put (ProcessHour env tzdb w) = Some m"
  shows "\<exists>f pairs parts disp done_parts outs. decided_hour env w f pairs parts disp done_parts \<and> hour_outputs env tzdb w f done_parts = Inr outs \<and>
    m = hour_manifest env w f pairs disp done_parts outs \<and> hr_Uploaded (ProcessHour env tzdb w) = outs"
proof -
  have "\<nexists>e. ProcessHour env tzdb w = failed_hour e" using assms by (auto simp: failed_hour_def)
  then obtain f pairs parts disp done_parts where decided: "decided_hour env w f pairs parts disp done_parts"
      "ProcessHour env tzdb w = publish_hour env tzdb w (ft_Clips f) (map (decide_pair env f) pairs) disp done_parts"
    using process_hour_cases [of env tzdb w] by blast
  show ?thesis using publish_hour_cases [OF decided(2) [symmetric]] decided(1) assms by (fastforce split: if_splits)
qed

lemma publish_errors: "publish_output env x = Inl e \<Longrightarrow> e \<noteq> ManifestInvalid"
  by (auto simp: publish_output_def split: option.splits if_splits)

lemma hour_output:
  assumes "hour_outputs env tzdb w f done_parts = Inr outs" "k < length done_parts" "done_parts ! k = (members, b)"
  shows "ou_SourceClipIDs (outs ! k) = map (clip_id (ft_Clips f)) members" "ou_Verification (outs ! k) = bt_Verification b" "he_Publish env (outs ! k)"
    "ou_SizeBytes (outs ! k) = bt_SizeBytes b" "ou_SHA256 (outs ! k) = bt_SHA256 b"
  using published [OF outputs_published(2) [OF assms(1) [unfolded hour_outputs_def] assms(2), unfolded assms(3)]] by simp_all

lemma hour_output_ids:
  assumes "hour_outputs env tzdb w f done_parts = Inr outs"
  shows "length outs = length done_parts" "concat (map ou_SourceClipIDs outs) = map (clip_id (ft_Clips f)) (concat (map fst done_parts))"
proof -
  show len: "length outs = length done_parts" by (rule outputs_published(1) [OF assms [unfolded hour_outputs_def]])
  have "map ou_SourceClipIDs outs = map (map (clip_id (ft_Clips f)) \<circ> fst) done_parts"
    using len hour_output(1) [OF assms _ prod.collapse [symmetric]] by (intro nth_equalityI) simp_all
  then show "concat (map ou_SourceClipIDs outs) = map (clip_id (ft_Clips f)) (concat (map fst done_parts))" by (simp add: map_concat)
qed

end
