(* ===== verification/CollatedCorrect.thy ===== *)
theory CollatedCorrect
  imports CollatedManifest
begin

text \<open>
  What a collated hour promises: its manifest is valid, accounts for every clip, joins only what has been proven continuous, and
  does not depend on the order in which parts are built.
\<close>

text \<open>C34: The manifest of an hour is never refused by its own validator: if the clips of an hour have different ids, the store
  reports sizes and digests, and builds finish in any order, then whatever is downloaded, probed, decoded or built, and whatever
  fails, the hour does not end with an invalid manifest.\<close>

theorem manifest_never_invalid:
  assumes "sound_hour env w"
  shows "hr_Result (ProcessHour env tzdb w) \<noteq> Inl ManifestInvalid"
  using process_hour_cases [of env tzdb w]
proof (elim disjE exE conjE)
  fix f pairs parts disp done_parts
  assume decided: "decided_hour env w f pairs parts disp done_parts"
    and run: "ProcessHour env tzdb w = publish_hour env tzdb w (ft_Clips f) (map (decide_pair env f) pairs) disp done_parts"
  have "e \<noteq> ManifestInvalid" if failed: "hour_outputs env tzdb w f done_parts = Inl e" for e
  proof -
    obtain x where "publish_output env x = Inl e"
      using gather_Inl [OF failed [unfolded hour_outputs_def]] by (metis (no_types, lifting) comp_apply imageE list.set_map)
    then show ?thesis by (rule publish_errors)
  qed
  then show ?thesis using publish_hour_cases [OF run [symmetric]] published_manifest_valid [OF decided assms] by (fastforce split: if_splits)
qed (simp add: failed_hour_def)

text \<open>C32: Every clip of an hour is accounted for: the manifest that is put lists each clip of the hour once, a clip that is not
  included has a reason, and the outputs, all uploaded before, hold each included clip exactly once and no other, each output
  the clips of its part in the order of their start.\<close>

theorem hour_accounts_for_clips:
  assumes "sound_hour env w" "hr_Put (ProcessHour env tzdb w) = Some m"
  shows "mset (map di_Clip (hm_Clips m)) = mset (hw_Clips w) \<and>
    (\<forall>d \<in> set (hm_Clips m). di_Disposition d = ''included'' \<or> (di_Disposition d = ''quarantined'' \<or> di_Disposition d = ''duplicate'') \<and> di_Reason d \<noteq> []) \<and>
    mset (concat (map ou_SourceClipIDs (hm_Outputs m))) =
      mset (map (cl_ClipID \<circ> di_Clip) (filter (\<lambda>d. di_Disposition d = ''included'') (hm_Clips m))) \<and>
    hr_Uploaded (ProcessHour env tzdb w) = hm_Outputs m \<and> (\<forall>x \<in> set (hm_Outputs m). he_Publish env x)"
proof -
  obtain f pairs parts disp done_parts outs where hour: "decided_hour env w f pairs parts disp done_parts"
      "hour_outputs env tzdb w f done_parts = Inr outs" "m = hour_manifest env w f pairs disp done_parts outs"
      "hr_Uploaded (ProcessHour env tzdb w) = outs"
    using put_manifest [OF assms(2)] by blast
  note facts = decided_facts [OF hour(1) assms(1)]
  have clips: "map di_Clip (hm_Clips m) = ft_Clips f" using facts(2) by (simp add: hour(3) hour_manifest_def final_disposition_def comp_def)
  have "mset (map di_Clip (hm_Clips m)) = mset (hw_Clips w)" unfolding clips using hour(1) by (simp add: decided_hour_def)
  moreover have "\<forall>d \<in> set (hm_Clips m). di_Disposition d = ''included'' \<or> (di_Disposition d = ''quarantined'' \<or> di_Disposition d = ''duplicate'') \<and> di_Reason d \<noteq> []"
    using facts(3) by (auto simp: hour(3) hour_manifest_def final_disposition_def settled_def disposed_def split: if_splits)
  moreover have "mset (concat (map ou_SourceClipIDs (hm_Outputs m))) =
      mset (map (cl_ClipID \<circ> di_Clip) (filter (\<lambda>d. di_Disposition d = ''included'') (hm_Clips m)))"
  proof -
    have "mset (concat (map ou_SourceClipIDs (hm_Outputs m))) = image_mset (clip_id (ft_Clips f)) (mset (included_at disp))"
      using settled_mset [OF facts(3)] hour_output_ids(2) [OF hour(2)] by (simp add: hour(3) hour_manifest_def del: mset_concat)
    moreover have "map (cl_ClipID \<circ> di_Clip) (filter (\<lambda>d. di_Disposition d = ''included'') (hm_Clips m)) = map (clip_id (ft_Clips f)) (included_at disp)"
      using nth_map [of _ disp di_Clip] unfolding facts(2) by (auto simp: hour(3) hour_manifest_def included_clips final_disposition_def set_included_at)
    ultimately show ?thesis by simp
  qed
  moreover have "he_Publish env x" if "x \<in> set outs" for x
    using that hour_output(3) [OF hour(2) _ prod.collapse [symmetric]] hour_output_ids(1) [OF hour(2)] by (auto simp: in_set_conv_nth)
  ultimately show ?thesis using hour(3,4) by (simp add: hour_manifest_def)
qed

section \<open>Joins are proven\<close>

text \<open>Two clips may follow each other in an output: the gate finds nothing against it, the later one replays no packets of the
  earlier one, and on one of the policy's windows the decoded frames continue.\<close>

definition proven_join :: "hour_env \<Rightarrow> Clip \<Rightarrow> Clip \<Rightarrow> bool" where
  "proven_join env a b \<longleftrightarrow> (\<exists>p q. ProbeFile (he_Hash env) (he_Probe env a) = Some p \<and> ProbeFile (he_Hash env) (he_Probe env b) = Some q \<and>
     MetadataGate (he_Policy env) a b (pb_Media p) (pb_Media q) = [] \<and> ReplayOverlap p q = None \<and>
     (\<exists>window \<in> set (match_windows (he_Policy env)). \<exists>tail head pkeys qkeys.
        he_Window env window a True = Inr tail \<and> he_Window env window b False = Inr head \<and>
        pkeys = (case pb_Video p of None \<Rightarrow> [] | Some ps \<Rightarrow> WindowKeys ps (length tail) True) \<and>
        qkeys = (case pb_Video q of None \<Rightarrow> [] | Some ps \<Rightarrow> WindowKeys ps (length head) False) \<and>
        ev_Verdict (EvaluateFrames (he_Arrange env) ((he_Policy env)\<lparr>WindowSeconds := window\<rparr>) tail head pkeys qkeys
          (frame_of (pb_Media p) (pb_Media q))) = ''continuous''))"

lemma match_loop_continuous:
  "ev_Verdict (match_loop env f a b ev ws) = ''continuous'' \<Longrightarrow> ev_Verdict ev \<noteq> ''continuous'' \<Longrightarrow>
   \<exists>window \<in> set ws. ev_Verdict (match_window env f a b window) = ''continuous''"
  by (induction ws arbitrary: ev) (auto simp: Let_def split: if_splits)

lemma no_verdict: "ev_Verdict no_evidence = []"
  unfolding no_evidence_def by (rule MatchEvidence.select_convs)

lemma matched_continuous:
  "ev_Verdict (matchSeam env f a b) = ''continuous'' \<Longrightarrow> \<exists>window \<in> set (match_windows (he_Policy env)). ev_Verdict (match_window env f a b window) = ''continuous''"
  unfolding matchSeam_def by (erule match_loop_continuous) (simp only: no_verdict, simp)

lemma window_continuous:
  assumes "ev_Verdict (match_window env f a b window) = ''continuous''" "ft_Probes f ! a = Some p" "ft_Probes f ! b = Some q"
  shows "\<exists>tail head. he_Window env window (ft_Clips f ! a) True = Inr tail \<and> he_Window env window (ft_Clips f ! b) False = Inr head \<and>
    ev_Verdict (EvaluateFrames (he_Arrange env) ((he_Policy env)\<lparr>WindowSeconds := window\<rparr>) tail head
      (case pb_Video p of None \<Rightarrow> [] | Some ps \<Rightarrow> WindowKeys ps (length tail) True)
      (case pb_Video q of None \<Rightarrow> [] | Some ps \<Rightarrow> WindowKeys ps (length head) False) (frame_of (pb_Media p) (pb_Media q))) = ''continuous''"
  using assms by (auto simp: match_window_def media_at_def Let_def split: sum.splits)

lemma joins_proven:
  assumes "joins env f (a, b)" "ft_Probes f ! a = Some p" "ft_Probes f ! b = Some q"
    "ProbeFile (he_Hash env) (he_Probe env (ft_Clips f ! a)) = Some p" "ProbeFile (he_Hash env) (he_Probe env (ft_Clips f ! b)) = Some q"
  shows "proven_join env (ft_Clips f ! a) (ft_Clips f ! b)"
proof -
  have "ReplayOverlap p q = None" "MetadataGate (he_Policy env) (ft_Clips f ! a) (ft_Clips f ! b) (pb_Media p) (pb_Media q) = []"
      "ev_Verdict (matchSeam env f a b) = ''continuous''"
    using decided_join [of env f a b] assms(1-3) by (simp_all add: joins_def media_at_def)
  then show ?thesis unfolding proven_join_def using assms(4,5) window_continuous [OF _ assms(2,3)] matched_continuous [of env f a b] by blast
qed

lemma neighbours_map: "neighbours (map g xs) = map (map_prod g g) (neighbours xs)"
  by (induction xs rule: induct_list012) simp_all

lemma neighbours_within: "set (neighbours ys) \<subseteq> set (neighbours (xs @ ys @ zs))"
proof -
  have "set (neighbours ys) \<subseteq> set (neighbours (ys @ zs))" for ys zs :: "'a list" by (induction ys rule: induct_list012) auto
  moreover have "set (neighbours ys) \<subseteq> set (neighbours (x # ys))" for x and ys :: "'a list" by (cases ys) auto
  then have "set (neighbours ys) \<subseteq> set (neighbours (xs @ ys))" for xs ys :: "'a list" by (induction xs) (simp, metis append_Cons order_trans)
  ultimately show ?thesis by (metis order_trans)
qed

text \<open>C31: What is joined has been proven to be continuous: two clips that follow each other in an output of a manifest that is put
  passed the metadata gate (same recording, job, capture attempt and codec, consecutive, a gap within the tolerance), the later
  one replays none of the earlier one's packets, the frame match on the clips' own decoded frames was continuous, and the
  manifest lists their seam as a join with that evidence.\<close>

theorem joins_are_proven:
  assumes "sound_hour env w" "hr_Put (ProcessHour env tzdb w) = Some m" "x \<in> set (hm_Outputs m)" "(i, j) \<in> set (neighbours (ou_SourceClipIDs x))"
  shows "\<exists>a \<in> set (hw_Clips w). \<exists>b \<in> set (hw_Clips w). cl_ClipID a = i \<and> cl_ClipID b = j \<and> proven_join env a b \<and>
    (\<exists>s \<in> set (hm_Seams m). sm_Prev s = i \<and> sm_Next s = j \<and> sm_Decision s = ''join'' \<and> (\<exists>ev. sm_Match s = Some ev \<and> ev_Verdict ev = ''continuous''))"
proof -
  obtain f pairs parts disp done_parts outs where hour: "decided_hour env w f pairs parts disp done_parts"
      "hour_outputs env tzdb w f done_parts = Inr outs" "m = hour_manifest env w f pairs disp done_parts outs"
    using put_manifest [OF assms(2)] by blast
  note facts = decided_facts [OF hour(1) assms(1)]
  obtain idx partOf where grouped: "grouped idx (map (\<lambda>e. (e, joins env f e)) pairs) partOf parts"
      and probes: "\<forall>i \<in> set idx. i < length (ft_Clips f) \<and> (\<exists>q. ft_Probes f ! i = Some q \<and> ProbeFile (he_Hash env) (he_Probe env (ft_Clips f ! i)) = Some q)"
    using facts(4) by blast
  obtain k where k: "k < length done_parts" "x = outs ! k"
    using assms(3) hour_output_ids(1) [OF hour(2)] by (auto simp: hour(3) hour_manifest_def in_set_conv_nth)
  obtain members bt where members: "done_parts ! k = (members, bt)" by fastforce
  obtain a b where ab: "(a, b) \<in> set (neighbours members)" "i = clip_id (ft_Clips f) a" "j = clip_id (ft_Clips f) b"
    using assms(4) unfolding k(2) hour_output(1) [OF hour(2) k(1) members] neighbours_map by auto
  obtain part where part: "part \<in> set parts" "sublist members part"
    using facts(3) nth_mem [OF k(1)] members unfolding settled_def by force
  have "(a, b) \<in> set (neighbours part)" using part(2) ab(1) neighbours_within by (auto simp: sublist_def)
  then have joined: "(a, b) \<in> set pairs" "joins env f (a, b)" using grouped part(1) unfolding grouped_def by auto
  have "a \<in> set members" "b \<in> set members" using ab(1) in_set_zipE unfolding neighbours_def by (metis, metis list.set_sel(2) neighbours_def tl_Nil)
  then have ms: "a \<in> set (fst (done_parts ! k))" "b \<in> set (fst (done_parts ! k))" using members by simp_all
  note a = settled_clip [OF facts(1-3) k(1) ms(1)] and b = settled_clip [OF facts(1-3) k(1) ms(2)]
  have "a \<in> set part" "b \<in> set part" using ms members part(2) set_mono_sublist by auto
  then have "a \<in> set idx" "b \<in> set idx" using grouped part(1) unfolding grouped_def by (metis UN_I set_concat set_mset_mset)+
  then have proven: "proven_join env (ft_Clips f ! a) (ft_Clips f ! b)" using probes joins_proven [OF joined(2)] by blast
  define s where "s = final_seam (final_parts (ft_Clips f) done_parts) disp (decide_pair env f (a, b))"
  have mem: "s \<in> set (hm_Seams m)" using joined(1) by (auto simp: s_def hour(3) hour_manifest_def)
  have s: "sm_Prev s = i" "sm_Next s = j" "sm_Decision s = ''join''" "s = decide_pair env f (a, b)"
    using final_seam_cases [OF facts(1,2) a(2) b(2) refl [of "decide_pair env f (a, b)"], of "final_parts (ft_Clips f) done_parts"] joined(2) ab(2,3)
    unfolding s_def a(1,3) b(1,3) by auto
  have "\<exists>ev. sm_Match s = Some ev \<and> ev_Verdict ev = ''continuous''" using decided_join [of env f a b] s(3) unfolding s(4) by blast
  then have "\<exists>s \<in> set (hm_Seams m). sm_Prev s = i \<and> sm_Next s = j \<and> sm_Decision s = ''join'' \<and> (\<exists>ev. sm_Match s = Some ev \<and> ev_Verdict ev = ''continuous'')"
    using mem s(1-3) by blast
  moreover have "ft_Clips f ! a \<in> set (hw_Clips w)" "ft_Clips f ! b \<in> set (hw_Clips w)"
    using nth_mem [OF a(2)] nth_mem [OF b(2)] hour(1) by (simp_all add: decided_hour_def)
  ultimately show ?thesis using proven ab(2,3) by metis
qed

end
