(* ===== verification/CollatedOutputs.thy ===== *)
theory CollatedOutputs
  imports CollatedCorrect
begin

text \<open>
  What the outputs of a collated hour hold (the packets of their clips, each at its time), and that the order in which parts
  are built is of no consequence.
\<close>

section \<open>A verified file\<close>

lemma length_due: "length (due_packets video ps) = length (source_packets video ps)"
proof -
  have "length (concat (map (\<lambda>(o', p). case track_of video p of None \<Rightarrow> [] | Some xs \<Rightarrow> map (g o' p) xs) (zip os ps))) = length (source_packets video ps)"
    if "length os = length ps" for os :: "rat list" and g :: "rat \<Rightarrow> Probe \<Rightarrow> Packet \<Rightarrow> rat \<times> rat"
    using that unfolding source_packets_def by (induction os ps rule: list_induct2) (auto split: option.splits)
  from this [of "fst (concatOffsets ps)" "\<lambda>offset p x. (offset + (pk_PTS x - startTime p), offset + (pk_DTS x - startTime p))"]
  show ?thesis by (simp add: due_packets_def concatOffsets_def)
qed

text \<open>A packet that is due at two instants sits there, within a millisecond.\<close>

definition in_time :: "rat \<Rightarrow> rat \<times> rat \<Rightarrow> Packet \<Rightarrow> bool" where
  "in_time base due x \<longleftrightarrow> \<bar>fst due - (pk_PTS x - base)\<bar> \<le> 1 / 1000 \<and> \<bar>snd due - (pk_DTS x - base)\<bar> \<le> 1 / 1000"

lemma timing_loop_in_time:
  "timing_loop video base prev worst xs = Some w \<Longrightarrow> (\<forall>(due, x) \<in> set xs. in_time base due x) \<and>
     sorted_wrt (\<lambda>a b. a \<le> b \<and> (video \<longrightarrow> a < b)) ((case prev of None \<Rightarrow> [] | Some d \<Rightarrow> [d]) @ map (pk_DTS \<circ> snd) xs)"
proof (induction video base prev worst xs rule: timing_loop.induct)
  case (2 video base prev worst pts dts x rest)
  let ?e = "\<bar>pts - (pk_PTS x - base)\<bar>" and ?f = "\<bar>dts - (pk_DTS x - base)\<bar>"
  have near: "\<not> (?e > 1 / 1000 \<or> ?f > 1 / 1000)"
    and later: "\<not> (case prev of None \<Rightarrow> False | Some d \<Rightarrow> pk_DTS x < d \<or> video \<and> pk_DTS x = d)"
    and rest: "timing_loop video base (Some (pk_DTS x)) (max ?f (max ?e worst)) rest = Some w"
    using "2.prems" by (simp_all add: Let_def split: if_splits)
  have "in_time base (pts, dts) x" using near by (simp add: in_time_def not_less)
  then show ?case using "2.IH" [OF refl refl near later rest] later by (cases prev) (auto simp: not_less)
qed (auto split: option.splits)

lemma chain_text_inj:
  assumes "\<forall>p \<in> set xs. CHR 0x0A \<notin> set (pk_Hash p)" "\<forall>p \<in> set ys. CHR 0x0A \<notin> set (pk_Hash p)" "chain_text xs = chain_text ys"
  shows "map pk_Hash xs = map pk_Hash ys"
  using assms
proof (induction xs arbitrary: ys)
  case Nil
  then show ?case by (cases ys) (auto simp: chain_text_def)
next
  case (Cons x xs)
  obtain y ys' where ys: "ys = y # ys'" using Cons.prems(3) by (cases ys) (auto simp: chain_text_def)
  have line: "takeWhile (\<lambda>c. c \<noteq> CHR 0x0A) (chain_text (p # ps)) = pk_Hash p \<and> dropWhile (\<lambda>c. c \<noteq> CHR 0x0A) (chain_text (p # ps)) = CHR 0x0A # chain_text ps"
    if "CHR 0x0A \<notin> set (pk_Hash p)" for p ps
    using that by (auto simp: chain_text_def takeWhile_append dropWhile_append)
  have "pk_Hash x = pk_Hash y" "chain_text xs = chain_text ys'"
    using line [of x xs] line [of y ys'] Cons.prems unfolding ys by auto
  then show ?case using Cons.IH [of ys'] Cons.prems(1,2) unfolding ys by simp
qed

definition track_packets :: "bool \<Rightarrow> Probe \<Rightarrow> Packet list" where
  "track_packets video p = (case track_of video p of None \<Rightarrow> [] | Some xs \<Rightarrow> xs)"

text \<open>The packet hashes are lines of their own and the digest tells these texts apart.\<close>

definition told_apart :: "(string \<Rightarrow> string) \<Rightarrow> Probe \<Rightarrow> Probe list \<Rightarrow> bool" where
  "told_apart hash out ps \<longleftrightarrow> (\<forall>video \<in> {True, False}.
     (\<forall>p \<in> set (track_packets video out) \<union> set (source_packets video ps). CHR 0x0A \<notin> set (pk_Hash p)) \<and>
     (hash (chain_text (source_packets video ps)) = hash (chain_text (track_packets video out)) \<longrightarrow>
        chain_text (source_packets video ps) = chain_text (track_packets video out)))"

text \<open>A file holds its sources: in either track the same payloads in the same order, each packet in time, decoding times in order.\<close>

definition holds_sources :: "Probe \<Rightarrow> Probe list \<Rightarrow> bool" where
  "holds_sources out ps \<longleftrightarrow> (\<forall>video \<in> {True, False}.
     map pk_Hash (track_packets video out) = map pk_Hash (source_packets video ps) \<and>
     list_all2 (in_time (startTime out)) (due_packets video ps) (track_packets video out) \<and>
     sorted_wrt (\<lambda>a b. a \<le> b \<and> (video \<longrightarrow> a < b)) (map pk_DTS (track_packets video out)))"

lemma verified_holds_sources:
  assumes "VerifyPart hash (Some out) edges ps = Some v" "told_apart hash out ps"
  shows "holds_sources out ps"
proof -
  have parts: "payload_matches hash out ps video" "\<exists>worst w. track_of video out = None \<or>
      timing_loop video (startTime out) None worst (zip (due_packets video ps) (track_packets video out)) = Some w" for video
    using assms(1) by (cases video; fastforce simp: VerifyPart_def track_packets_def Let_def split: if_splits option.splits)+
  have "map pk_Hash (track_packets video out) = map pk_Hash (source_packets video ps) \<and>
      list_all2 (in_time (startTime out)) (due_packets video ps) (track_packets video out) \<and>
      sorted_wrt (\<lambda>a b. a \<le> b \<and> (video \<longrightarrow> a < b)) (map pk_DTS (track_packets video out))" for video
  proof -
    have same: "length (track_packets video out) = length (source_packets video ps)"
        "hash (chain_text (source_packets video ps)) = hash (chain_text (track_packets video out))"
      using parts(1) [of video] by (auto simp: payload_matches_def track_packets_def Let_def split: option.splits)
    have told: "\<forall>p \<in> set (track_packets video out) \<union> set (source_packets video ps). CHR 0x0A \<notin> set (pk_Hash p)"
        "chain_text (source_packets video ps) = chain_text (track_packets video out)"
      using assms(2) same(2) unfolding told_apart_def by (cases video; blast)+
    then have "map pk_Hash (track_packets video out) = map pk_Hash (source_packets video ps)" by (intro chain_text_inj) auto
    moreover have "list_all2 (in_time (startTime out)) (due_packets video ps) (track_packets video out) \<and>
        sorted_wrt (\<lambda>a b. a \<le> b \<and> (video \<longrightarrow> a < b)) (map pk_DTS (track_packets video out))"
    proof (cases "track_of video out = None")
      case True
      then show ?thesis using same(1) by (simp add: track_packets_def length_due flip: length_0_conv)
    next
      case False
      then obtain worst w where "timing_loop video (startTime out) None worst (zip (due_packets video ps) (track_packets video out)) = Some w"
        using parts(2) [of video] by metis
      from timing_loop_in_time [OF this] show ?thesis
        using same(1) by (simp add: list_all2_iff length_due flip: map_map)
    qed
    ultimately show ?thesis by blast
  qed
  then show ?thesis unfolding holds_sources_def by blast
qed

text \<open>C33: An output holds exactly its clips: the bytes of every output of a manifest that is put are those of a file that ffmpeg
  made of the output's clips, of the recorded size and digest, that decodes as a whole, and (as far as the digest tells packet
  lists apart) that carries in its video and audio track the packets of the clips in order, each within a millisecond of where
  it is due and with decoding times that do not go back.\<close>

theorem outputs_hold_their_clips:
  assumes "sound_hour env w" "hr_Put (ProcessHour env tzdb w) = Some m" "x \<in> set (hm_Outputs m)"
  shows "\<exists>cs ps j out. set cs \<subseteq> set (hw_Clips w) \<and> cs \<noteq> [] \<and> ou_SourceClipIDs x = map cl_ClipID cs \<and>
    list_all2 (\<lambda>c p. ProbeFile (he_Hash env) (he_Probe env c) = Some p) cs ps \<and>
    he_Concat env cs = Some j \<and> jf_Decodes j \<and> jf_Identity j = Some (ou_SizeBytes x, ou_SHA256 x) \<and>
    ProbeFile (he_Hash env) (jf_Probed j) = Some out \<and> (told_apart (he_Hash env) out ps \<longrightarrow> holds_sources out ps)"
proof -
  obtain f pairs parts disp done_parts outs where hour: "decided_hour env w f pairs parts disp done_parts"
      "hour_outputs env tzdb w f done_parts = Inr outs" "m = hour_manifest env w f pairs disp done_parts outs"
    using put_manifest [OF assms(2)] by blast
  note facts = decided_facts [OF hour(1) assms(1)]
  obtain idx partOf where grouped: "grouped idx (map (\<lambda>e. (e, joins env f e)) pairs) partOf parts"
      and probes: "\<forall>i \<in> set idx. i < length (ft_Clips f) \<and> (\<exists>q. ft_Probes f ! i = Some q \<and> ProbeFile (he_Hash env) (he_Probe env (ft_Clips f ! i)) = Some q)"
    using facts(4) by blast
  obtain k where k: "k < length done_parts" "x = outs ! k"
    using assms(3) hour_output_ids(1) [OF hour(2)] by (auto simp: hour(3) hour_manifest_def in_set_conv_nth)
  obtain members bt where members: "done_parts ! k = (members, bt)" by fastforce
  note fields = hour_output [OF hour(2) k(1) members, folded k(2)]
  obtain part where part: "members \<noteq> []" "part \<in> set parts" "sublist members part" "try_build env f members = BuildOk bt"
    using facts(3) nth_mem [OF k(1)] members unfolding settled_def by force
  have "set part \<subseteq> set idx" using grouped part(2) unfolding grouped_def by (metis UN_upper set_concat set_mset_mset)
  then have idx: "\<forall>i \<in> set members. i < length (ft_Clips f) \<and> ProbeFile (he_Hash env) (he_Probe env (ft_Clips f ! i)) = Some (the (ft_Probes f ! i))"
    using probes set_mono_sublist [OF part(3)] by fastforce
  obtain j where j: "he_Concat env (map (nth (ft_Clips f)) members) = Some j" "jf_Decodes j" "jf_Identity j = Some (bt_SizeBytes bt, bt_SHA256 bt)"
      "VerifyPart (he_Hash env) (ProbeFile (he_Hash env) (jf_Probed j)) (jf_Edges j) (map (\<lambda>i. the (ft_Probes f ! i)) members) = Some (bt_Verification bt)"
    using try_build_verified [OF part(4)] by blast
  obtain out where out: "ProbeFile (he_Hash env) (jf_Probed j) = Some out" using j(4) by (cases "ProbeFile (he_Hash env) (jf_Probed j)") (auto simp: VerifyPart_def)
  have same: "set (ft_Clips f) = set (hw_Clips w)" using hour(1) by (simp add: decided_hour_def)
  have "set (map (nth (ft_Clips f)) members) \<subseteq> set (hw_Clips w)"
    using idx nth_mem [of _ "ft_Clips f"] unfolding same [symmetric] by auto
  moreover have "list_all2 (\<lambda>c p. ProbeFile (he_Hash env) (he_Probe env c) = Some p) (map (nth (ft_Clips f)) members) (map (\<lambda>i. the (ft_Probes f ! i)) members)"
    using idx by (simp add: list.rel_map list_all2_same)
  moreover have "ou_SourceClipIDs x = map cl_ClipID (map (nth (ft_Clips f)) members)" using fields(1) by simp
  moreover have "told_apart (he_Hash env) out (map (\<lambda>i. the (ft_Probes f ! i)) members) \<longrightarrow> holds_sources out (map (\<lambda>i. the (ft_Probes f ! i)) members)"
    using verified_holds_sources j(4) unfolding out by blast
  ultimately show ?thesis using j(1-3) out fields(4,5) part(1) by (intro exI [of _ "map (nth (ft_Clips f)) members"] exI) auto
qed

section \<open>The order in which parts are built\<close>

lemma finish_selects:
  "he_Policy (env\<lparr>he_Finish := g\<rparr>) = he_Policy env" "he_MediaTool (env\<lparr>he_Finish := g\<rparr>) = he_MediaTool env"
  "he_Hash (env\<lparr>he_Finish := g\<rparr>) = he_Hash env" "he_Scratch (env\<lparr>he_Finish := g\<rparr>) = he_Scratch env"
  "he_Download (env\<lparr>he_Finish := g\<rparr>) = he_Download env" "he_Probe (env\<lparr>he_Finish := g\<rparr>) = he_Probe env"
  "he_Window (env\<lparr>he_Finish := g\<rparr>) = he_Window env" "he_Arrange (env\<lparr>he_Finish := g\<rparr>) = he_Arrange env"
  "he_Cancelled (env\<lparr>he_Finish := g\<rparr>) = he_Cancelled env" "he_Slot (env\<lparr>he_Finish := g\<rparr>) = he_Slot env"
  "he_Concat (env\<lparr>he_Finish := g\<rparr>) = he_Concat env" "he_Alive (env\<lparr>he_Finish := g\<rparr>) = he_Alive env"
  "he_Decodes (env\<lparr>he_Finish := g\<rparr>) = he_Decodes env" "he_Publish (env\<lparr>he_Finish := g\<rparr>) = he_Publish env"
  "he_PutManifest (env\<lparr>he_Finish := g\<rparr>) = he_PutManifest env" "he_VerifiedAt (env\<lparr>he_Finish := g\<rparr>) = he_VerifiedAt env"
  "he_Now (env\<lparr>he_Finish := g\<rparr>) = he_Now env"
  by simp_all

lemma fetch_finish: "fetch (env\<lparr>he_Finish := g\<rparr>) = fetch env"
  unfolding fetch_def finish_selects ..

lemma match_finish: "match_window (env\<lparr>he_Finish := g\<rparr>) f a b window = match_window env f a b window"
  unfolding match_window_def finish_selects ..

lemma match_loop_finish: "match_loop (env\<lparr>he_Finish := g\<rparr>) f a b ev ws = match_loop env f a b ev ws"
  by (induction ws arbitrary: ev) (simp_all only: match_loop.simps match_finish finish_selects)

lemma decide_finish: "decide_pair (env\<lparr>he_Finish := g\<rparr>) f = decide_pair env f"
  unfolding decide_pair_def matchSeam_def match_loop_finish finish_selects ..

lemma try_build_finish: "try_build (env\<lparr>he_Finish := g\<rparr>) f members = try_build env f members"
  unfolding try_build_def BuildPart_def finish_selects ..

lemma build_finish: "build (env\<lparr>he_Finish := g\<rparr>) f members = build env f members"
proof (induction env f members rule: build.induct)
  case (1 env f members)
  show ?case
  proof (cases "try_build env f members")
    case BuildFailed
    define ok where "ok = (\<lambda>i. he_Decodes env (map (nth (ft_Clips f)) members) (ft_Clips f ! i) = Some True)"
    show ?thesis
    proof (cases "\<exists>i \<in> set members. he_Decodes env (map (nth (ft_Clips f)) members) (ft_Clips f ! i) = None")
      case False
      have same: "map (build (env\<lparr>he_Finish := g\<rparr>) f) (pieces_to_build ok members) = map (build env f) (pieces_to_build ok members)"
        using "1.IH" [OF BuildFailed refl False refl] unfolding ok_def by (simp only: map_eq_conv) blast
      then show ?thesis
        unfolding build.simps [of _ f members] try_build_finish BuildFailed build_outcome.case Let_def finish_selects
        by (simp only: False if_False same [unfolded ok_def])
    qed (simp add: build.simps [of _ f members] try_build_finish BuildFailed)
  qed (simp_all add: build.simps [of _ f members] try_build_finish)
qed

lemma outputs_finish: "publish_output (env\<lparr>he_Finish := g\<rparr>) \<circ> output_for (env\<lparr>he_Finish := g\<rparr>) tzdb w clips n = publish_output env \<circ> output_for env tzdb w clips n"
  unfolding publish_output_def output_for_def finish_selects ..

lemma publish_finish: "publish_hour (env\<lparr>he_Finish := g\<rparr>) tzdb w clips seams disp done_parts = publish_hour env tzdb w clips seams disp done_parts"
  unfolding publish_hour_def outputs_finish empty_manifest_def finish_selects ..

lemma heads_distinct: "[] \<notin> set ms \<Longrightarrow> distinct (concat ms) \<Longrightarrow> distinct (map hd ms)"
proof (induction ms)
  case (Cons x ms)
  have "hd x \<noteq> hd y" if "y \<in> set ms" for y using that Cons.prems by (metis IntI UN_I concat.simps(2) distinct_append empty_iff hd_in_set list.set_intros set_concat)
  then show ?case using Cons by auto
qed simp

text \<open>Whatever order the parts of a hour finish in, they are numbered the same.\<close>

lemma finished_same:
  assumes "accounts env f members (marks, done_parts)" "distinct members" "\<forall>i \<in> set members. i < length (ft_Clips f)"
    "distinct (map cl_ClipID (ft_Clips f))" "\<And>xs. mset (he_Finish env xs) = mset xs" "\<And>xs. mset (he_Finish env' xs) = mset xs"
  shows "finished_parts env' (ft_Clips f) done_parts = finished_parts env (ft_Clips f) done_parts"
proof -
  have acc: "mset members = mset (map fst marks @ concat (map fst done_parts))" "[] \<notin> set (map fst done_parts)"
    using assms(1) by (auto simp: accounts_def)
  then have "distinct (map fst marks @ concat (map fst done_parts))" using assms(2) mset_eq_imp_distinct_iff by blast
  then have "distinct (concat (map fst done_parts))" by simp
  then have heads: "distinct (map hd (map fst done_parts))" by (rule heads_distinct [OF acc(2)])
  have "set (concat (map fst done_parts)) \<subseteq> set members" unfolding mset_eq_setD [OF acc(1)] set_append by blast
  moreover have "hd (fst x) \<in> set (concat (map fst done_parts))" if x: "x \<in> set done_parts" for x
  proof -
    have "fst x \<noteq> []" using acc(2) x by force
    then show ?thesis using x hd_in_set by auto
  qed
  ultimately have below: "\<forall>x \<in> set done_parts. hd (fst x) < length (ft_Clips f)" using assms(3) by blast
  have "inj_on (\<lambda>(members, b). clip_order (ft_Clips f ! hd members)) (set done_parts)"
  proof (rule inj_onI)
    fix x y
    assume xy: "x \<in> set done_parts" "y \<in> set done_parts"
      "(case x of (members, b) \<Rightarrow> clip_order (ft_Clips f ! hd members)) = (case y of (members, b) \<Rightarrow> clip_order (ft_Clips f ! hd members))"
    then have "hd (fst x) = hd (fst y)" using clip_id_inj [OF assms(4)] below by (simp add: case_prod_beta clip_order_def)
    then show "x = y" using heads xy(1,2) unfolding map_map by (metis comp_apply distinct_map inj_onD)
  qed
  then show ?thesis
    unfolding finished_parts_def using assms(5,6) by (intro sort_key_eq_sort_key) (simp, metis mset_eq_setD)
qed

lemma build_hour_finish:
  assumes parts: "mset (concat parts) = mset (included_at disp)" "[] \<notin> set parts"
    and clips: "distinct (map cl_ClipID (ft_Clips f))" "length disp = length (ft_Clips f)"
    and finish: "\<And>xs. mset (he_Finish env xs) = mset xs" "\<And>xs. mset (g xs) = mset xs"
  shows "build_hour (env\<lparr>he_Finish := g\<rparr>) f disp parts = build_hour env f disp parts"
proof -
  obtain kept dropped where drop: "dropDuplicateCaptures (ft_Clips f) parts = (kept, dropped)" by fastforce
  have builds: "build (env\<lparr>he_Finish := g\<rparr>) f = build env f" by (rule ext) (rule build_finish)
  have "finished_parts (env\<lparr>he_Finish := g\<rparr>) (ft_Clips f) (concat (map snd rs)) = finished_parts env (ft_Clips f) (concat (map snd rs))"
    if rs: "gather (map (build env f) kept) = Inr rs" for rs
  proof (rule finished_same)
    have split: "mset parts = mset kept + mset dropped" using drop_mset [OF drop] by simp
    have kept: "set kept \<subseteq> set parts" using split by (metis mset_subset_eq_add_left set_mset_mono set_mset_mset)
    show "accounts env f (concat kept) (concat (map fst rs), concat (map snd rs))"
      using built_parts [OF rs [unfolded gather_map]] kept parts(2) by blast
    have whole: "mset (concat parts) = mset (concat kept @ concat dropped)"
      using mset_concat_perm [of parts "kept @ dropped" "\<lambda>p. p"] split by simp
    then have eq: "mset (included_at disp) = mset (concat kept @ concat dropped)" using parts(1) by simp
    then show "distinct (concat kept)" using distinct_included_at [of disp] mset_eq_imp_distinct_iff [OF eq] by simp
    show "\<forall>i \<in> set (concat kept). i < length (ft_Clips f)"
      using mset_eq_setD [OF eq] set_included_at [of disp] clips(2) by auto
  qed (use clips(1) finish in simp_all)
  then show ?thesis unfolding build_hour_def drop prod.case builds Let_def by (cases "gather (map (build env f) kept)") simp_all
qed

text \<open>C35: The order in which the concurrent builds of an hour finish has no influence: for any two orders the hour uploads the same
  outputs and ends with the same manifest or error.\<close>

theorem finish_order_irrelevant:
  assumes "sound_hour env w" "\<And>xs. mset (g xs) = mset xs"
  shows "ProcessHour (env\<lparr>he_Finish := g\<rparr>) tzdb w = ProcessHour env tzdb w"
proof (cases "gather (map (fetch env) (first_dispositions [] [] (sort_key clip_order (hw_Clips w))))")
  case (Inl e)
  show ?thesis unfolding ProcessHour_def Let_def finish_selects fetch_finish Inl sum.case ..
next
  case (Inr fetched)
  let ?f = "\<lparr>ft_Clips = sort_key clip_order (hw_Clips w), ft_Probes = map snd fetched\<rparr>" and ?idx = "included_at (map fst fetched)"
  define ps where "ps = map (\<lambda>e. (e, joins env ?f e)) (hour_pairs env ?f ?idx)"
  have zip: "zip (hour_pairs env ?f ?idx) (map (\<lambda>s. sm_Decision s = ''join'') (map (decide_pair env ?f) (hour_pairs env ?f ?idx))) = ps"
    by (simp add: ps_def zip_map2 joins_def zip_same_conv_map)
  have parts: "mset (concat (hour_parts ?idx ps)) = mset ?idx \<and> [] \<notin> set (hour_parts ?idx ps)"
  proof (cases "?idx = []")
    case False
    then show ?thesis using hour_parts_grouped [OF included_at_sorted False, of env ?f] unfolding ps_def grouped_def by blast
  qed (simp add: hour_parts_def)
  have "map cl_ClipID (sort_key clip_order (hw_Clips w)) \<in> {xs. mset xs = mset (map cl_ClipID (hw_Clips w))}" by simp
  then have "distinct (map cl_ClipID (ft_Clips ?f))" using assms(1) mset_eq_imp_distinct_iff unfolding sound_hour_def by fastforce
  moreover have "length (map fst fetched) = length (ft_Clips ?f)"
    using arg_cong [OF fetched_disposed(2) [OF Inr], of length] by simp
  ultimately have build: "build_hour (env\<lparr>he_Finish := g\<rparr>) ?f (map fst fetched) (hour_parts ?idx ps) = build_hour env ?f (map fst fetched) (hour_parts ?idx ps)"
    using parts assms unfolding sound_hour_def by (intro build_hour_finish) simp_all
  show ?thesis
    unfolding ProcessHour_def Let_def finish_selects fetch_finish decide_finish publish_finish Inr sum.case hour_pairs_def [symmetric] zip build ..
qed

end
