(* ===== verification/SampleHour.thy ===== *)
theory SampleHour
  imports CollatedOutputs
begin

text \<open>
  One small hour, run to its manifest: three clips, of which two continue each other and one is known to be broken. Files have
  two packets of a second and one grey pixel per frame; the digest is the identity.
\<close>

definition sample_clip :: "int \<Rightarrow> bool \<Rightarrow> Clip" where
  "sample_clip i broken = \<lparr>cl_ClipID = i, cl_RecordingID = 7, cl_JobID = 5, cl_CaptureAttemptID = ''a'', cl_CaptureLeaseToken = ''t'',
     cl_CaptureSequence = i, cl_StartUTC = (2 * i - 2) * 1000000000, cl_EndUTC = 2 * i * 1000000000, cl_Bucket = ''b'', cl_ObjectKey = Itoa i, cl_ETag = [],
     cl_SizeBytes = 10, cl_SHA256 = [], cl_NominalSeconds = 2, cl_Purged = False, cl_KnownBroken = broken\<rparr>"

definition sample_work :: HourWork where
  "sample_work = \<lparr>hw_BatchID = ''b'', hw_HourID = ''b__recording-7__date-1970-01-01__hour-01__generation-2'', hw_RecordingID = 7, hw_Timezone = ''UTC'',
     hw_LocalDate = ''1970-01-01'', hw_DeliveryHour = 1, hw_ScheduledStart = 0, hw_ScheduledEnd = 3600000000000, hw_NamingProfile = ''stoarama_v1'',
     hw_FolderName = ''f'', hw_Metadata = example_metadata, hw_SupersedesHourID = [], hw_Clips = [sample_clip 3 True, sample_clip 2 False, sample_clip 1 False]\<rparr>"

definition sample_packets :: "string \<Rightarrow> ffprobe" where
  "sample_packets hs = Reported (Some ([\<lparr>fs_Index = 0, fs_CodecType = ''video'', fs_Params = [''h264''], fs_TimeBase = Some 1\<rparr>],
     map (\<lambda>(i, h). \<lparr>fp_StreamIndex = 0, fp_PTS = Some (int i), fp_DTS = Some (int i), fp_Duration = Some 1, fp_Flags = ''K'', fp_DataHash = [h]\<rparr>) (enumerate 0 hs))) []"

definition sample_policy :: SeamPolicy where
  "sample_policy = \<lparr>ShortWindowSeconds = 0, WindowSeconds = 10, FrameWidth = 1, FrameHeight = 1, BlurSigma = 0, MotionPixelShare = 1,
     MaxTailOffsetFrames = 3, MaxHeadOffsetFrames = 10, TailSharpRatio = 1, HeadSharpRatio = 1, MinSceneMedianMAD = 0,
     BoundaryStepFactor = 2, ClearJumpStepFactor = 4, StepSlackMAD = 0, MinFrames = 1, GapFrameSlack = 1, SpanFrameSlack = 2, ShortClipSlackSeconds = 2\<rparr>"

definition sample_file :: joined_file where
  "sample_file = \<lparr>jf_Probed = sample_packets ''abcd'', jf_Edges = True, jf_Decodes = True, jf_Identity = Some (100, replicate 64 (CHR ''e''))\<rparr>"

definition sample_env :: hour_env where
  "sample_env = \<lparr>he_Policy = sample_policy, he_MediaTool = ''ffmpeg'', he_Hash = (\<lambda>s. s), he_Scratch = True, he_Download = (\<lambda>c. Some (10, [])),
     he_Probe = (\<lambda>c. sample_packets (if cl_ClipID c = 1 then ''ab'' else ''cd'')), he_Window = (\<lambda>window c tail. Inr [[5]]),
     he_Arrange = (\<lambda>v is. is), he_Cancelled = False, he_Slot = (\<lambda>cs. True), he_Concat = (\<lambda>cs. Some sample_file), he_Alive = (\<lambda>cs. True),
     he_Decodes = (\<lambda>cs c. Some True), he_Finish = (\<lambda>xs. xs), he_Publish = (\<lambda>x. True), he_PutManifest = (\<lambda>m. True), he_VerifiedAt = (\<lambda>p. 0), he_Now = 0\<rparr>"

lemma sample_sound: "sound_hour sample_env sample_work"
  by (simp add: sound_hour_def identified_def sample_env_def sample_file_def sample_work_def sample_clip_def)


text \<open>The hour puts a manifest with one output, of its first two clips.\<close>

definition sample_result :: hour_run where
  "sample_result = ProcessHour sample_env (\<lambda>_. Some utc) sample_work"

lemma sample_outputs: "map_option (map ou_SourceClipIDs \<circ> hm_Outputs) (hr_Put sample_result) = Some [[1, 2]]"
  unfolding sample_result_def by code_simp

lemma sample_dispositions:
  "map_option (map (\<lambda>d. (cl_ClipID (di_Clip d), di_Disposition d)) \<circ> hm_Clips) (hr_Put sample_result) =
     Some [(1, ''included''), (2, ''included''), (3, ''quarantined'')]"
  unfolding sample_result_def by code_simp

section \<open>The promises at this hour\<close>

theorem manifest_never_invalid_witness: "hr_Result sample_result \<noteq> Inl ManifestInvalid"
  unfolding sample_result_def by (rule manifest_never_invalid [OF sample_sound])

lemma sample_put:
  obtains m where "hr_Put sample_result = Some m" "map ou_SourceClipIDs (hm_Outputs m) = [[1, 2]]"
    "map (\<lambda>d. (cl_ClipID (di_Clip d), di_Disposition d)) (hm_Clips m) = [(1, ''included''), (2, ''included''), (3, ''quarantined'')]"
  using sample_outputs sample_dispositions by (auto simp: map_option_eq_Some)

theorem hour_accounts_for_clips_witness:
  "\<exists>m. hr_Put sample_result = Some m \<and> mset (map di_Clip (hm_Clips m)) = mset (hw_Clips sample_work) \<and>
     mset (concat (map ou_SourceClipIDs (hm_Outputs m))) = {#1, 2#} \<and> hr_Uploaded sample_result = hm_Outputs m \<and> hm_Outputs m \<noteq> []"
proof -
  obtain m where m: "hr_Put sample_result = Some m" "map ou_SourceClipIDs (hm_Outputs m) = [[1, 2]]"
    by (rule sample_put)
  note accounts = hour_accounts_for_clips [OF sample_sound m(1) [unfolded sample_result_def], folded sample_result_def]
  have "mset (concat (map ou_SourceClipIDs (hm_Outputs m))) = {#1, 2#}" unfolding m(2) by simp
  moreover have "hm_Outputs m \<noteq> []" using m(2) by (metis list.simps(3,8))
  moreover have "mset (map di_Clip (hm_Clips m)) = mset (hw_Clips sample_work)" by (rule accounts [THEN conjunct1])
  moreover have "hr_Uploaded sample_result = hm_Outputs m" by (rule accounts [THEN conjunct2, THEN conjunct2, THEN conjunct2, THEN conjunct1])
  ultimately show ?thesis using m(1) by (intro exI [of _ m] conjI)
qed

lemma sample_ids: "a \<in> set (hw_Clips sample_work) \<Longrightarrow> cl_ClipID a = i \<Longrightarrow> a = sample_clip i (i = 3)"
  by (auto simp: sample_work_def) (simp_all add: sample_clip_def)

theorem joins_are_proven_witness: "proven_join sample_env (sample_clip 1 False) (sample_clip 2 False)"
proof -
  obtain m where m: "hr_Put sample_result = Some m" "map ou_SourceClipIDs (hm_Outputs m) = [[1, 2]]"
    by (rule sample_put)
  then obtain x where x: "x \<in> set (hm_Outputs m)" "ou_SourceClipIDs x = [1, 2]" by auto
  have "(1, 2) \<in> set (neighbours (ou_SourceClipIDs x))" by (simp add: x(2) neighbours_def)
  from joins_are_proven [OF sample_sound m(1) [unfolded sample_result_def] x(1) this]
  obtain a b where ab: "a \<in> set (hw_Clips sample_work)" "b \<in> set (hw_Clips sample_work)" "cl_ClipID a = 1" "cl_ClipID b = 2" "proven_join sample_env a b"
    by blast
  then show ?thesis using sample_ids [OF ab(1,3)] sample_ids [OF ab(2,4)] by simp
qed

theorem finish_order_irrelevant_witness:
  "ProcessHour (sample_env\<lparr>he_Finish := rev\<rparr>) (\<lambda>_. Some utc) sample_work = sample_result"
  unfolding sample_result_def by (rule finish_order_irrelevant [OF sample_sound]) simp

text \<open>The packets of these files are told apart: their digests have no newline, and the digest of a list is its text.\<close>

definition plain_packets :: "string \<Rightarrow> bool" where
  "plain_packets hs \<longleftrightarrow> (case ProbeFile (\<lambda>s. s) (sample_packets hs) of None \<Rightarrow> False | Some p \<Rightarrow>
     \<forall>video \<in> set [True, False]. \<forall>x \<in> set (track_packets video p). CHR 0x0A \<notin> set (pk_Hash x))"

lemma sample_plain: "plain_packets ''ab''" "plain_packets ''cd''" "plain_packets ''abcd''"
  by code_simp+

theorem outputs_hold_their_clips_witness:
  "\<exists>p q out. ProbeFile (\<lambda>s. s) (sample_packets ''ab'') = Some p \<and> ProbeFile (\<lambda>s. s) (sample_packets ''cd'') = Some q \<and>
     ProbeFile (\<lambda>s. s) (sample_packets ''abcd'') = Some out \<and> holds_sources out [p, q]"
proof -
  obtain m where m: "hr_Put sample_result = Some m" "map ou_SourceClipIDs (hm_Outputs m) = [[1, 2]]"
    by (rule sample_put)
  then obtain x where x: "x \<in> set (hm_Outputs m)" "ou_SourceClipIDs x = [1, 2]" by auto
  obtain cs ps j out where out: "set cs \<subseteq> set (hw_Clips sample_work)" "map cl_ClipID cs = [1, 2]"
      "list_all2 (\<lambda>c p. ProbeFile (he_Hash sample_env) (he_Probe sample_env c) = Some p) cs ps" "he_Concat sample_env cs = Some j"
      "ProbeFile (he_Hash sample_env) (jf_Probed j) = Some out" "told_apart (he_Hash sample_env) out ps \<longrightarrow> holds_sources out ps"
    using outputs_hold_their_clips [OF sample_sound m(1) [unfolded sample_result_def] x(1)] x(2) by metis
  have env: "he_Hash sample_env = (\<lambda>s. s)" "j = sample_file" using out(4) by (simp_all add: sample_env_def)
  obtain a b where cs: "cs = [a, b]" "cl_ClipID a = 1" "cl_ClipID b = 2" using out(2) by auto
  then obtain p q where ps: "ps = [p, q]" "ProbeFile (\<lambda>s. s) (sample_packets ''ab'') = Some p" "ProbeFile (\<lambda>s. s) (sample_packets ''cd'') = Some q"
    using out(3) unfolding env(1) by (auto simp: list_all2_Cons1 sample_env_def)
  have o: "ProbeFile (\<lambda>s. s) (sample_packets ''abcd'') = Some out" using out(5) unfolding env by (simp add: sample_file_def)
  have "told_apart (\<lambda>s. s) out [p, q]"
    using sample_plain ps(2,3) o unfolding plain_packets_def told_apart_def source_packets_def track_packets_def
    by (auto split: option.splits)
  then show ?thesis using out(6) ps o unfolding env(1) by blast
qed

end
