(* ===== verification/Spec2Isabelle.thy ===== *)
theory Spec2Isabelle
  imports Windows Cron Coverage Forecast Decisions Projection QualityGrade DeliveryPool Scheduler Leases ControllerSafety SampleLedger EvidenceWindows SamplePlan SampleHour
begin

text \<open>
  Verification of the recorder control plane and of the joined deliveries of stoarama.

  Stoarama records public video streams on a schedule and delivers the recordings. The Go backend (src/backend) decides when a
  recording is due, makes a job for it, hands the job to one of a pool of cloud workers, grows and shrinks that pool, and later
  joins the clips of a stream day into twelve delivery hours whose sealed evidence accounts for every clip. This development
  models those decisions function by function, with the names of the code, and proves what makes them correct. All paths
  below are under src/backend/internal.

  \<^bold>\<open>Schedules.\<close> Windows models recsched/continuous.go (daily windows, overnight windows, weekday sets, envelopes), Cron the
  cron part of recsched/cron.go, Coverage recsched/coverage.go (the expected clips of a range), Projection
  api/billing_projection.go (the billable hours to come) and Forecast the pure part of dropletpool/forecast.go (the peak of
  concurrent clips). Instants are nanoseconds, a time zone is its list of offsets and \<open>time.Date\<close> is computed from them
  (GoTime, with Calendar for years, months and layouts; GoStrings for strconv, fmt and strings). Three locales state what a
  schedule is relied on for: \<open>regular_calendar\<close> (local days move forward), \<open>window_calendar\<close> (a window on such days) and
  \<open>cron_schedule\<close> (the parsed schedule, which is the library's). They are interpreted on UTC, on New York in 2026 and on a
  concrete schedule. The lemmas show that the bounded day scans of the code miss no opening, that the expected clips and the
  projected hours are exactly those of the schedule, and that the forecast is never below the demand.

  \<^bold>\<open>Jobs.\<close> Database models the tables the recorder's SQL reads and writes as lists of records, and statements as functions that
  may fail; a failed statement leaves its transaction aborted until a rollback, as in PostgreSQL. Fires and Scheduler model
  recsched/scheduler.go: one tick stops expired recordings, sweeps stale jobs and enqueues the due ones. Leases models the
  cloud half of the clip-job API (api/server_recording_clips.go): leasing, heartbeats, completion, surrender, failure. The
  locale \<open>sweep_invariant\<close> is the interface of a tick (what every statement must keep) and is interpreted for the
  uniqueness of jobs, for the expired recordings and for the capacity of the workers. A run is an arbitrary sequence of ticks
  and calls; the lemmas show that no run makes a second job for a fire, leaves an expired recording with live jobs, or gives a
  worker more leases than its capacity.

  \<^bold>\<open>Workers.\<close> PoolStore models every method of dropletpool/store.go, Decisions dropletpool/state.go, Demand the queries of
  dropletpool/forecast.go and Controller a whole tick of dropletpool/controller.go. The world of a tick is the database, the
  answers the provider will give, the ways statements fail and what other clients do between two statements: all are
  parameters, and the properties hold for every choice of them. ControllerCalls collects what each step leaves alone,
  ControllerSafety follows an invariant on ids and states through the tick: only retired workers' droplets are deleted, a row
  exists before its droplet is asked for, the caps and the spend ceiling hold. DeliveryPool models
  recordingworker/delivery_pool.go as a step relation of one submitter and any number of workers that sleep on its condition
  variable until they are woken: no segment is lost, no wakeup is lost, and closing ends if deliveries do. QualityGrade models
  qualitygrade/grade.go.

  \<^bold>\<open>Joined deliveries.\<close> Naming models recordingnaming (the paths files are delivered under). Digests models canonical JSON and
  its digest, Qualification the sealed evidence (the fourteen qualified days, the media tools, a clip's identity), Allocation
  and Ledger joinedrecording/allocation.go and the frozen projection of batch_index.go, JoinedPlan joinedrecording/plan.go.
  Seams and Sealing show that a day is cut at the seams nearest to its hours and that the builder's loop and the checker's
  loop agree; Ledgers, Publication and SampleLedger that what is sealed is accepted, published and accounts for every clip, with
  a day of three clips as a witness; PlanCorrect that a plan cuts its hour exactly at the breaks and passes its own validator,
  with the hour of SamplePlan as a witness; EvidenceWindows what a sealed window of days promises.

  \<^bold>\<open>Collated hours.\<close> Collation models the rules of the second generation of joins: collation/seam.go (the metadata gate and the
  decision of a seam), framematch.go (the verdict on decoded frames), probe.go (a clip's packets, replayed packets) and the
  verification of a joined file in build.go. CollatedHour models manifest.go and the whole of hour.go: dispositions, seams,
  parts, building with isolation of what fails, and the manifest with its validator. The environment of an hour (downloads,
  ffprobe's reports, decoded windows, the files ffmpeg makes, uploads, the order in which builds finish) is an argument.
  CollatedParts shows that the parts are chains of joined seams and that building accounts for every clip, CollatedManifest
  that the numbering of parts, the final seams and the dispositions agree. On these rest the promises: CollatedCorrect (the
  manifest passes its validator, lists every clip once and joins only what was proven continuous) and CollatedOutputs (an
  output carries the packets of its clips, each in time; the order of the builds is of no consequence), with the hour of
  SampleHour as a witness.

  \<^bold>\<open>Bounds and fuel.\<close> The code's own bounds are the counters of the modelled loops: ten local days and 10000 fires in the
  forecast, 400 days in the projection, the caller's limit in the coverage walks, the cap on the fires of a catch-up; the
  properties say what the bounds require of a schedule. The search for the smallest gap of a schedule has no bound in the
  code: it is a partial function, and \<open>validate_cron_correct\<close> shows that it returns. The other loops are structural, or
  end by a measure. Integers whose overflow matters (durations, sizes in bytes, day counts) are bounded as the code bounds
  them.

  \<^bold>\<open>Parameters.\<close> The time-zone database, the cron parser, SHA-256, JSON decoding, the provider and the database server are not
  under src/ and appear as arguments. What is assumed of them is stated in the hypotheses: SHA-256 gives 64 lower-case
  hexadecimal digits, a zone has whole local days, a fire is after the instant it is asked for. Where clocks go forward at midnight local days are not
  whole: \<open>forward_at_midnight\<close> describes such a zone, and Windows and EvidenceWindows show what the code does there.

  \<^bold>\<open>Not modelled.\<close> HTTP routing and formatting (api), process control and media tools (capture, recordingworker, the media half
  of joinedrecording, the ffmpeg runs of collation, presentationprobe), clients of remote services (r2, billing, dospend, email, webdav), the
  vision model (survey), start-up code (cmd, config, db) and the web client: their behaviour is that of a program or service
  that is not under src/. Relay placement and the dedicated canaries are decisions like those above and could be added.
\<close>

end
